(* ===== verification/Prelude.thy ===== *)
theory Prelude
  imports Complex_Main "HOL-Library.Word" "HOL-Library.Multiset"
begin

text \<open>
  Shared vocabulary of the development: the C++ machine integers the sources use, the ways a
  C++ computation can fail, IEEE arithmetic over an explicit rounding function, decimal
  printing of unsigned integers, and the generic facts on lists, maps and words that the
  component theories use.

  \<^item> \<open>u8\<close>, \<open>u16\<close>, \<open>u32\<close>, \<open>u64\<close> are the unsigned C++ integers (wrap-around addition).
  \<^item> A \<^emph>\<open>fault\<close> is what stops the program: a failed \<open>ASSERT\<close>, a null dereference, a C++
    exception that leaves a \<open>noexcept\<close> function, or undefined behaviour.  Operations that can
    fault return \<open>'a result\<close>, with \<open>Inl\<close> for the fault.
  \<^item> A \<open>double\<close> is a rational number, and every double operation is the exact operation
    followed by a rounding function \<open>rnd\<close> that is an argument of the definition: IEEE 754
    fixes each operation as the rounded exact result.  Infinities and NaN are not modelled;
    a division whose divisor can be zero is guarded by the model.
\<close>

named_theorems side_simps \<open>evaluation rules for order sides and their indices\<close>
named_theorems book_defs \<open>unfolding rules of the order book operations\<close>
named_theorems om_defs \<open>unfolding rules of the order manager operations\<close>
named_theorems session_defs \<open>unfolding rules of the session operations\<close>

section \<open>Machine integers, faults and results\<close>

type_synonym u8 = "8 word"
type_synonym u16 = "16 word"
type_synonym u32 = "32 word"
type_synonym u64 = "64 word"

type_synonym addr = nat

datatype fault =
    AssertFailed      \<comment> \<open>\<open>ASSERT\<close> of aot/common/macros.h: the process exits\<close>
  | NullDeref         \<comment> \<open>a null pointer is dereferenced\<close>
  | DanglingDeref     \<comment> \<open>a pointer to a block that was given back is dereferenced\<close>
  | OutOfRange        \<comment> \<open>\<open>std::out_of_range\<close> from \<open>at\<close>\<close>
  | DivisionByZero    \<comment> \<open>an integer is divided by zero\<close>
  | SignedOverflow    \<comment> \<open>a signed operation leaves the range of its type\<close>
  | Undefined         \<comment> \<open>other undefined behaviour: an array index out of bounds, an uninitialised
                          value, a cast out of range\<close>
  | Uncaught          \<comment> \<open>an exception that no caller catches\<close>

type_synonym 'a result = "fault + 'a"

definition bind_result :: "'a result \<Rightarrow> ('a \<Rightarrow> 'b result) \<Rightarrow> 'b result" where
  "bind_result r f = (case r of Inl e \<Rightarrow> Inl e | Inr x \<Rightarrow> f x)"

lemma bind_result_simps [simp]:
  "bind_result (Inl e) f = Inl e"
  "bind_result (Inr x) f = f x"
  by (simp_all add: bind_result_def)

lemma bind_result_Inr_iff:
  "bind_result r f = Inr y \<longleftrightarrow> (\<exists>x. r = Inr x \<and> f x = Inr y)"
  by (cases r) simp_all

lemma bind_result_InrE [elim]:
  assumes "bind_result r f = Inr y"
  obtains x where "r = Inr x" and "f x = Inr y"
  using assms by (auto simp: bind_result_Inr_iff)

text \<open>A loop over a list whose body can fault: the first fault ends it.\<close>

fun fold_result :: "('a \<Rightarrow> 's \<Rightarrow> 's result) \<Rightarrow> 'a list \<Rightarrow> 's \<Rightarrow> 's result" where
  "fold_result f [] s = Inr s"
| "fold_result f (x # xs) s = bind_result (f x s) (fold_result f xs)"

lemma fold_result_append: "fold_result f (xs @ ys) s = bind_result (fold_result f xs s) (fold_result f ys)"
proof (induction xs arbitrary: s)
  case (Cons x xs)
  then show ?case by (cases "f x s") simp_all
qed simp

lemma fold_result_invariant:
  assumes step: "\<And>x s. x \<in> set xs \<Longrightarrow> I s \<Longrightarrow> \<exists>t. f x s = Inr t \<and> I t"
    and init: "I s"
  shows "\<exists>t. fold_result f xs s = Inr t \<and> I t"
  using assms
proof (induction xs arbitrary: s)
  case Nil
  then show ?case by simp
next
  case (Cons x xs)
  then obtain u where u: "f x s = Inr u" "I u" by (meson list.set_intros(1))
  with Cons.IH [of u] Cons.prems(1) show ?case by auto
qed

text \<open>The range of the 32-bit \<open>int\<close> and the 64-bit \<open>int64_t\<close>.\<close>

definition fits_int32 :: "int \<Rightarrow> bool" where
  "fits_int32 i \<longleftrightarrow> - (2 ^ 31) \<le> i \<and> i < 2 ^ 31"

definition fits_int64 :: "int \<Rightarrow> bool" where
  "fits_int64 i \<longleftrightarrow> - (2 ^ 63) \<le> i \<and> i < 2 ^ 63"

text \<open>Conversion of any integer to \<open>int\<close>: the value modulo \<open>2^32\<close> in two's complement.\<close>

definition to_int32 :: "int \<Rightarrow> int" where
  "to_int32 i = (i + 2 ^ 31) mod 2 ^ 32 - 2 ^ 31"

lemma to_int32_fits: "fits_int32 (to_int32 i)"
  unfolding fits_int32_def to_int32_def
  using pos_mod_bound [of "2 ^ 32" "i + 2 ^ 31"] pos_mod_sign [of "2 ^ 32" "i + 2 ^ 31"]
  by simp

lemma to_int32_id [simp]: "fits_int32 i \<Longrightarrow> to_int32 i = i"
  unfolding fits_int32_def to_int32_def by simp

section \<open>Doubles over an explicit rounding function\<close>

type_synonym rounding = "rat \<Rightarrow> rat"

definition fadd :: "rounding \<Rightarrow> rat \<Rightarrow> rat \<Rightarrow> rat" where "fadd rnd x y = rnd (x + y)"
definition fsub :: "rounding \<Rightarrow> rat \<Rightarrow> rat \<Rightarrow> rat" where "fsub rnd x y = rnd (x - y)"
definition fmul :: "rounding \<Rightarrow> rat \<Rightarrow> rat \<Rightarrow> rat" where "fmul rnd x y = rnd (x * y)"
definition fdiv :: "rounding \<Rightarrow> rat \<Rightarrow> rat \<Rightarrow> rat" where "fdiv rnd x y = rnd (x / y)"

text \<open>Conversion of an unsigned 64-bit integer and of an \<open>int\<close> to \<open>double\<close>.\<close>

definition double_of_u64 :: "rounding \<Rightarrow> u64 \<Rightarrow> rat" where
  "double_of_u64 rnd w = rnd (of_nat (unat w))"

definition double_of_int :: "rounding \<Rightarrow> int \<Rightarrow> rat" where
  "double_of_int rnd i = rnd (of_int i)"

text \<open>
  What IEEE 754 guarantees of any rounding mode: it is monotone, and an integer of at most 53
  bits and a small negative power of two are represented exactly.
\<close>

definition ieee_rounding :: "rounding \<Rightarrow> bool" where
  "ieee_rounding rnd \<longleftrightarrow>
     (\<forall>x y. x \<le> y \<longrightarrow> rnd x \<le> rnd y) \<and>
     (\<forall>i. \<bar>i\<bar> \<le> 2 ^ 53 \<longrightarrow> rnd (of_int i) = of_int i) \<and>
     (\<forall>k \<le> 1000. rnd (1 / 2 ^ k) = 1 / 2 ^ k)"

lemma ieee_mono: "ieee_rounding rnd \<Longrightarrow> x \<le> y \<Longrightarrow> rnd x \<le> rnd y"
  by (simp add: ieee_rounding_def)

lemma ieee_int: "ieee_rounding rnd \<Longrightarrow> \<bar>i\<bar> \<le> 2 ^ 53 \<Longrightarrow> rnd (of_int i) = of_int i"
  by (simp add: ieee_rounding_def)

lemma ieee_pow2: "ieee_rounding rnd \<Longrightarrow> k \<le> 1000 \<Longrightarrow> rnd (1 / 2 ^ k) = 1 / 2 ^ k"
  by (simp add: ieee_rounding_def)

lemma ieee_zero [simp]: "ieee_rounding rnd \<Longrightarrow> rnd 0 = 0"
  using ieee_int [of rnd 0] by simp

lemma ieee_rounding_id: "ieee_rounding (\<lambda>x. x)"
  by (simp add: ieee_rounding_def)

lemma ieee_nonpos: "ieee_rounding rnd \<Longrightarrow> x \<le> 0 \<Longrightarrow> rnd x \<le> 0"
  using ieee_mono [of rnd x 0] by simp

lemma ieee_nonneg: "ieee_rounding rnd \<Longrightarrow> 0 \<le> x \<Longrightarrow> 0 \<le> rnd x"
  using ieee_mono [of rnd 0 x] by simp

lemma ieee_pos: "ieee_rounding rnd \<Longrightarrow> k \<le> 1000 \<Longrightarrow> 1 / 2 ^ k \<le> x \<Longrightarrow> 1 / 2 ^ k \<le> rnd x"
  using ieee_mono [of rnd "1 / 2 ^ k" x] ieee_pow2 [of rnd k] by simp

lemma ieee_nat: "ieee_rounding rnd \<Longrightarrow> n \<le> 2 ^ 53 \<Longrightarrow> rnd (of_nat n) = of_nat n"
  using ieee_int [of rnd "int n"] by simp

lemma double_of_u64_mono: "ieee_rounding rnd \<Longrightarrow> a \<le> b \<Longrightarrow> double_of_u64 rnd a \<le> double_of_u64 rnd b"
  unfolding double_of_u64_def by (rule ieee_mono) (simp_all add: word_le_nat_alt del: of_nat_unat)

lemma double_of_u64_nonneg: "ieee_rounding rnd \<Longrightarrow> 0 \<le> double_of_u64 rnd q"
  unfolding double_of_u64_def by (rule ieee_nonneg) (simp_all del: of_nat_unat)

lemma double_of_u64_exact:
  "ieee_rounding rnd \<Longrightarrow> unat a \<le> 2 ^ 53 \<Longrightarrow> double_of_u64 rnd a = of_nat (unat a)"
  unfolding double_of_u64_def by (rule ieee_nat)

section \<open>Decimal printing of unsigned integers\<close>

text \<open>\<open>std::to_string\<close> and \<open>fmt::format("{}", n)\<close> on an unsigned integer.\<close>

definition digit_char :: "nat \<Rightarrow> char" where
  "digit_char d = (char_of (48 + d) :: char)"

fun to_string_nat :: "nat \<Rightarrow> string" where
  "to_string_nat n = (if n < 10 then [digit_char n] else to_string_nat (n div 10) @ [digit_char (n mod 10)])"

declare to_string_nat.simps [simp del]

lemma digit_char_code: "d < 10 \<Longrightarrow> of_char (digit_char d) = (48 + d :: nat)"
  unfolding digit_char_def of_char_of by simp

lemma digit_char_inj: "d < 10 \<Longrightarrow> e < 10 \<Longrightarrow> digit_char d = digit_char e \<Longrightarrow> d = e"
  by (metis add_left_cancel digit_char_code)

text \<open>Reading a decimal string back, as the exchange does with an id it was sent.\<close>

fun of_decimal :: "nat \<Rightarrow> string \<Rightarrow> nat" where
  "of_decimal acc [] = acc"
| "of_decimal acc (c # cs) = of_decimal (10 * acc + (of_char c - 48)) cs"

lemma of_decimal_snoc: "of_decimal a (cs @ [c]) = 10 * of_decimal a cs + (of_char c - 48)"
  by (induction a cs rule: of_decimal.induct) simp_all

lemma of_decimal_to_string: "of_decimal 0 (to_string_nat n) = n"
proof (induction n rule: to_string_nat.induct)
  case (1 n)
  show ?case
  proof (cases "n < 10")
    case True
    then show ?thesis by (simp add: to_string_nat.simps digit_char_code)
  next
    case False
    then have "to_string_nat n = to_string_nat (n div 10) @ [digit_char (n mod 10)]"
      by (simp add: to_string_nat.simps)
    moreover have "of_char (digit_char (n mod 10)) = (48 + n mod 10 :: nat)"
      by (simp add: digit_char_code)
    ultimately show ?thesis
      using 1 [OF False] by (simp add: of_decimal_snoc)
  qed
qed

lemma to_string_nat_inj: "to_string_nat m = to_string_nat n \<Longrightarrow> m = n"
  by (metis of_decimal_to_string)

lemma to_string_nat_digits: "c \<in> set (to_string_nat n) \<Longrightarrow> \<exists>d < 10. c = digit_char d"
proof (induction n rule: to_string_nat.induct)
  case (1 n)
  show ?case
  proof (cases "n < 10")
    case True
    with 1 show ?thesis by (auto simp: to_string_nat.simps [of n])
  next
    case False
    with 1 show ?thesis
      by (auto simp: to_string_nat.simps [of n] intro: exI [of _ "n mod 10"])
  qed
qed

lemma to_string_nat_nonempty [simp]: "to_string_nat n \<noteq> []"
  by (subst to_string_nat.simps) simp

lemma length_to_string_nat:
  "length (to_string_nat n) = (if n < 10 then 1 else Suc (length (to_string_nat (n div 10))))"
  by (subst to_string_nat.simps) simp

section \<open>Lists and maps\<close>

lemma filter_hd_sorted_wrt:
  assumes "sorted_wrt R (x # xs)" and "y \<in> set xs"
  shows "R x y"
  using assms by simp

lemma takeWhile_dropWhile_set: "set (takeWhile P xs) \<union> set (dropWhile P xs) = set xs"
  by (metis set_append takeWhile_dropWhile_id)

lemma map_upd_inj_on:
  assumes "inj_on m (dom m)" and "m k = None" and "Some a \<notin> m ` dom m"
  shows "inj_on (m(k \<mapsto> a)) (dom (m(k \<mapsto> a)))"
  using assms by (auto simp: inj_on_def dom_def image_iff) (metis option.inject)+

lemma ran_upd_None_inj:
  assumes "inj_on m (dom m)" and "m k = Some a"
  shows "ran (m(k := None)) = ran m - {a}"
  using assms by (auto simp: ran_def inj_on_def dom_def) (metis option.inject option.distinct(1))+

lemma map_of_filter_key: "map_of (filter (\<lambda>e. fst e \<noteq> k) xs) = (map_of xs)(k := None)"
  by (induction xs) (auto simp: fun_eq_iff)

text \<open>A loop that enters one pair per element into a map.\<close>

lemma fold_upd_hit:
  "x \<in> set xs \<Longrightarrow> (\<And>y. y \<in> set xs \<Longrightarrow> f y = k \<longleftrightarrow> y = x) \<Longrightarrow> fold (\<lambda>y m. m(f y \<mapsto> g y)) xs m k = Some (g x)"
  by (induction xs rule: rev_induct) auto

lemma fold_upd_miss:
  "(\<And>y. y \<in> set xs \<Longrightarrow> f y \<noteq> k) \<Longrightarrow> fold (\<lambda>y m. m(f y \<mapsto> g y)) xs m k = m k"
  by (induction xs rule: rev_induct) auto


section \<open>Windows of the last values\<close>

definition last_n :: "nat \<Rightarrow> 'a list \<Rightarrow> 'a list" where
  "last_n n xs = drop (length xs - n) xs"

lemma length_last_n [simp]: "length (last_n n xs) = min n (length xs)"
  by (auto simp: last_n_def)

lemma last_n_Nil [simp]: "last_n n [] = []"
  by (simp add: last_n_def)

lemma set_last_n: "set (last_n n xs) \<subseteq> set xs"
  by (simp add: last_n_def set_drop_subset)

lemma last_n_snoc:
  "last_n n (xs @ [x]) = (if length xs < n then last_n n xs @ [x] else tl (last_n n xs @ [x]))"
proof (cases "length xs < n")
  case False
  have "drop (Suc (length xs - n)) (xs @ [x]) = tl (drop (length xs - n) (xs @ [x]))"
    by (simp only: drop_Suc tl_drop)
  also have "drop (length xs - n) (xs @ [x]) = drop (length xs - n) xs @ [x]" by simp
  finally show ?thesis using False by (simp add: last_n_def Suc_diff_le del: drop_append)
qed (simp add: last_n_def)

text \<open>A component keeps at most \<open>n\<close> values: an event may bring a new one, which is appended, and the oldest is dropped
  when there are more than \<open>n\<close>.  Then it holds the last \<open>n\<close> values of its events.\<close>

locale last_window =
  fixes view :: "'s \<Rightarrow> 'a list" and step :: "'e \<Rightarrow> 's \<Rightarrow> 's" and fresh :: "'e \<Rightarrow> 'a option"
    and inv :: "'s \<Rightarrow> bool" and n :: nat
  assumes step_none: "inv s \<Longrightarrow> fresh e = None \<Longrightarrow> view (step e s) = view s"
    and step_some: "inv s \<Longrightarrow> fresh e = Some x \<Longrightarrow>
      view (step e s) = (if length (view s) < n then view s @ [x] else tl (view s @ [x]))"
    and inv_step: "inv s \<Longrightarrow> inv (step e s)"
begin

lemma step_view:
  assumes "inv s" and "view s = last_n n xs"
  shows "view (step e s) = last_n n (xs @ (case fresh e of None \<Rightarrow> [] | Some x \<Rightarrow> [x]))"
  using assms step_none [OF assms(1), of e] step_some [OF assms(1), of e]
  by (auto simp: last_n_snoc split: option.split)

lemma fold_view:
  "inv s \<Longrightarrow> view s = last_n n xs \<Longrightarrow> view (fold step es s) = last_n n (xs @ List.map_filter fresh es)"
proof (induction es arbitrary: s xs)
  case (Cons e es)
  then show ?case
    using Cons.IH [OF inv_step [OF Cons.prems(1)] step_view [OF Cons.prems]] by (simp add: map_filter_simps split: option.split)
qed (simp add: map_filter_simps)

end


end
