(* ===== verification/Common_Types.thy ===== *)
theory Common_Types
  imports Prelude
begin

text \<open>
  The vocabulary of aot/common/types.h: identifiers, sides, exchanges and market types with
  their printers, trading pairs with their scaling information, the hash functions that key
  the strategy tables, the decimal length \<open>Digits10\<close>, and \<open>InitTPsJR\<close> of src/types.cpp.
  \<open>boost::hash_combine\<close> and \<open>std::hash\<close> are arguments of the hash functions.
\<close>

section \<open>Identifiers and their invalid values\<close>

type_synonym OrderId = u64
type_synonym TickerId = u32
type_synonym ClientId = u32
type_synonym Price = u64
type_synonym Qty = u64
type_synonym Priority = u64
type_synonym FrequencyMS = u64
type_synonym TradingPairId = u64
type_synonym Nanos = int

definition kOrderIdInvalid :: OrderId where "kOrderIdInvalid = - 1"
definition kTickerIdInvalid :: TickerId where "kTickerIdInvalid = - 1"
definition ClientId_INVALID :: ClientId where "ClientId_INVALID = - 1"
definition kPriceInvalid :: Price where "kPriceInvalid = - 1"
definition kQtyInvalid :: Qty where "kQtyInvalid = - 1"
definition Priority_INVALID :: Priority where "Priority_INVALID = - 1"
definition kFrequencyMSInvalid :: FrequencyMS where "kFrequencyMSInvalid = - 1"

definition orderIdToString :: "OrderId \<Rightarrow> string" where
  "orderIdToString i = (if i = kOrderIdInvalid then ''INVALID'' else to_string_nat (unat i))"

definition tickerIdToString :: "TickerId \<Rightarrow> string" where
  "tickerIdToString i = (if i = kTickerIdInvalid then ''INVALID'' else to_string_nat (unat i))"

definition clientIdToString :: "ClientId \<Rightarrow> string" where
  "clientIdToString i = (if i = ClientId_INVALID then ''INVALID'' else to_string_nat (unat i))"

definition priceToString :: "Price \<Rightarrow> string" where
  "priceToString p = (if p = kPriceInvalid then ''INVALID'' else to_string_nat (unat p))"

definition qtyToString :: "Qty \<Rightarrow> string" where
  "qtyToString q = (if q = kQtyInvalid then ''INVALID'' else to_string_nat (unat q))"

definition priorityToString :: "Priority \<Rightarrow> string" where
  "priorityToString p = (if p = Priority_INVALID then ''INVALID'' else to_string_nat (unat p))"

section \<open>Enumerations and printers\<close>

datatype MarketType = kSpot | kFutures | kOptions | kMarketInvalid

datatype SubscriptionType = kTicker | kDepth | kTrade | kKline | kCandlestick

datatype ExchangeId = kBinance | kBybit | kMexc | kExchangeIdInvalid

fun ExchangeIdPrinter :: "ExchangeId \<Rightarrow> string" where
  "ExchangeIdPrinter kBinance = ''Binance''"
| "ExchangeIdPrinter kBybit = ''Bybit''"
| "ExchangeIdPrinter kMexc = ''Mexc''"
| "ExchangeIdPrinter kExchangeIdInvalid = ''Invalid''"

fun MarketTypePrinter :: "MarketType \<Rightarrow> string" where
  "MarketTypePrinter kSpot = ''Spot''"
| "MarketTypePrinter kFutures = ''Futures''"
| "MarketTypePrinter kOptions = ''Options''"
| "MarketTypePrinter kMarketInvalid = ''Invalid''"

text \<open>\<open>static_cast<int>\<close> of the scoped enumerations.\<close>

fun exchange_code :: "ExchangeId \<Rightarrow> nat" where
  "exchange_code kBinance = 0"
| "exchange_code kBybit = 1"
| "exchange_code kMexc = 2"
| "exchange_code kExchangeIdInvalid = 3"

fun market_code :: "MarketType \<Rightarrow> nat" where
  "market_code kSpot = 0"
| "market_code kFutures = 1"
| "market_code kOptions = 2"
| "market_code kMarketInvalid = 3"

lemma exchange_code_inj [simp]: "exchange_code a = exchange_code b \<longleftrightarrow> a = b"
  by (cases a; cases b) simp_all

lemma market_code_inj [simp]: "market_code a = market_code b \<longleftrightarrow> a = b"
  by (cases a; cases b) simp_all

text \<open>Exchanges are ordered by their enumerator value, as C++ compares them.\<close>

instantiation ExchangeId :: linorder
begin

definition less_eq_ExchangeId :: "ExchangeId \<Rightarrow> ExchangeId \<Rightarrow> bool" where
  "less_eq_ExchangeId a b \<longleftrightarrow> exchange_code a \<le> exchange_code b"

definition less_ExchangeId :: "ExchangeId \<Rightarrow> ExchangeId \<Rightarrow> bool" where
  "less_ExchangeId a b \<longleftrightarrow> exchange_code a < exchange_code b"

instance
  by standard (auto simp: less_eq_ExchangeId_def less_ExchangeId_def)

end

datatype Side = kSideInvalid | kAsk | kBid | kSideMax

datatype TradeAction = kEnterLong | kExitLong | kEnterShort | kExitShort | kNope

fun sideToString :: "Side \<Rightarrow> string" where
  "sideToString kAsk = ''BUY''"
| "sideToString kBid = ''SELL''"
| "sideToString kSideInvalid = ''INVALID''"
| "sideToString kSideMax = ''MAX''"

text \<open>\<open>sideToValue\<close> is the enumerator; \<open>sideToIndex\<close> casts it to \<open>size_t\<close> and adds one, so
  that the \<open>-1\<close> of \<open>kBid\<close> wraps to index 0.\<close>

fun sideToValue :: "Side \<Rightarrow> int" where
  "sideToValue kSideInvalid = 0"
| "sideToValue kAsk = 1"
| "sideToValue kBid = - 1"
| "sideToValue kSideMax = 2"

definition sideToIndex :: "Side \<Rightarrow> nat" where
  "sideToIndex s = unat ((word_of_int (sideToValue s) :: u64) + 1)"

lemma sideToIndex_simps [simp, side_simps]:
  "sideToIndex kBid = 0"
  "sideToIndex kSideInvalid = 1"
  "sideToIndex kAsk = 2"
  "sideToIndex kSideMax = 3"
  by (simp_all add: sideToIndex_def)

lemma sideToIndex_bound [simp]: "sideToIndex s < 4"
  by (cases s) simp_all

lemma sideToIndex_inj [simp]: "sideToIndex s = sideToIndex t \<longleftrightarrow> s = t"
  by (cases s; cases t) simp_all

datatype AlgoType = AlgoINVALID | RANDOM | MAKER | TAKER | AlgoMAX

fun algoTypeToString :: "AlgoType \<Rightarrow> string" where
  "algoTypeToString RANDOM = ''RANDOM''"
| "algoTypeToString MAKER = ''MAKER''"
| "algoTypeToString TAKER = ''TAKER''"
| "algoTypeToString AlgoINVALID = ''INVALID''"
| "algoTypeToString AlgoMAX = ''MAX''"

text \<open>The loop of \<open>stringToAlgoType\<close> tries the enumerators in ascending order.\<close>

definition stringToAlgoType :: "string \<Rightarrow> AlgoType" where
  "stringToAlgoType str =
     (case filter (\<lambda>t. algoTypeToString t = str) [AlgoINVALID, RANDOM, MAKER, TAKER, AlgoMAX] of
        [] \<Rightarrow> AlgoINVALID
      | t # _ \<Rightarrow> t)"

section \<open>Trading pairs\<close>

record RiskCfg =
  max_order_size :: Qty
  max_position :: Qty
  max_loss :: rat

record TradeEngineCfg =
  clip :: Qty
  threshold :: rat
  risk_cfg :: RiskCfg

record TradingPair =
  tp_first :: TickerId
  tp_second :: TickerId

definition tp_eq :: "TradingPair \<Rightarrow> TradingPair \<Rightarrow> bool" where
  "tp_eq l r \<longleftrightarrow> (if tp_first l = tp_first r \<and> tp_second l = tp_second r then True else False)"

lemma tp_eq_iff [simp]: "tp_eq l r \<longleftrightarrow> l = r"
  by (cases l; cases r) (simp add: tp_eq_def)

record TradingPairInfo =
  price_precission :: u8
  qty_precission :: u8
  https_json_request :: string
  https_query_request :: string
  ws_query_request :: string
  https_query_response :: string

text \<open>\<open>std::pow(10, -p)\<close> and \<open>std::pow(10, p)\<close> in double.\<close>

definition pow10_neg :: "rounding \<Rightarrow> u8 \<Rightarrow> rat" where
  "pow10_neg rnd p = rnd (1 / 10 ^ unat p)"

definition pow10 :: "rounding \<Rightarrow> u8 \<Rightarrow> rat" where
  "pow10 rnd p = rnd (10 ^ unat p)"

definition GetPriceDouble :: "rounding \<Rightarrow> TradingPairInfo \<Rightarrow> Price \<Rightarrow> rat" where
  "GetPriceDouble rnd info p = fmul rnd (double_of_u64 rnd p) (pow10_neg rnd (price_precission info))"

definition GetQtyDouble :: "rounding \<Rightarrow> TradingPairInfo \<Rightarrow> Qty \<Rightarrow> rat" where
  "GetQtyDouble rnd info q = fmul rnd (double_of_u64 rnd q) (pow10_neg rnd (qty_precission info))"

definition GetPnlDouble :: "rounding \<Rightarrow> TradingPairInfo \<Rightarrow> u64 \<Rightarrow> rat" where
  "GetPnlDouble rnd info pnl =
     fmul rnd (fmul rnd (double_of_u64 rnd pnl) (pow10_neg rnd (qty_precission info)))
       (pow10_neg rnd (price_precission info))"

section \<open>Hashing\<close>

type_synonym hash_combine = "u64 \<Rightarrow> u64 \<Rightarrow> u64"

text \<open>The hashes of a ticker id and of an enumerator, \<open>std::hash\<close> of the standard library.\<close>

record std_hash =
  hash_ticker :: "TickerId \<Rightarrow> u64"
  hash_enum :: "nat \<Rightarrow> u64"

definition TradingPairHash :: "hash_combine \<Rightarrow> std_hash \<Rightarrow> TradingPair \<Rightarrow> u64" where
  "TradingPairHash hc sh key =
     (let h1 = hash_ticker sh (tp_first key); h2 = hash_ticker sh (tp_second key)
      in hc (hc 0 h1) h2)"

definition HashCombined ::
    "hash_combine \<Rightarrow> std_hash \<Rightarrow> ExchangeId \<Rightarrow> MarketType \<Rightarrow> TradingPair \<Rightarrow> u64" where
  "HashCombined hc sh ex mt tp =
     hc (hc (hc 0 (of_nat (exchange_code ex))) (of_nat (market_code mt))) (TradingPairHash hc sh tp)"

section \<open>Decimal length\<close>

definition Digits10 :: "u64 \<Rightarrow> u32" where
  "Digits10 v =
     1 + of_bool (v \<ge> 10) + of_bool (v \<ge> 100) + of_bool (v \<ge> 1000) + of_bool (v \<ge> 10000) +
     of_bool (v \<ge> 100000) + of_bool (v \<ge> 1000000) + of_bool (v \<ge> 10000000) +
     of_bool (v \<ge> 100000000) + of_bool (v \<ge> 1000000000) + of_bool (v \<ge> 10000000000) +
     of_bool (v \<ge> 100000000000) + of_bool (v \<ge> 1000000000000) + of_bool (v \<ge> 10000000000000) +
     of_bool (v \<ge> 100000000000000) + of_bool (v \<ge> 1000000000000000) +
     of_bool (v \<ge> 10000000000000000) + of_bool (v \<ge> 100000000000000000) +
     of_bool (v \<ge> 1000000000000000000) + of_bool (v \<ge> 10000000000000000000)"

section \<open>The reverse table of trading pairs\<close>

text \<open>\<open>InitTPsJR\<close> iterates over the pairs in the table's order; a later pair with the same
  \<open>https_json_request\<close> overwrites an earlier one.\<close>

definition InitTPsJR :: "(TradingPair \<times> TradingPairInfo) list \<Rightarrow> (string \<rightharpoonup> TradingPair)" where
  "InitTPsJR pairs =
     fold (\<lambda>it map. map(https_json_request (snd it) \<mapsto> fst it)) pairs Map.empty"

section \<open>Properties\<close>

lemma to_string_not_invalid: "to_string_nat n \<noteq> ''INVALID''"
proof
  assume "to_string_nat n = ''INVALID''"
  then have "CHR ''I'' \<in> set (to_string_nat n)" by simp
  then obtain d where "d < 10" and "CHR ''I'' = digit_char d"
    using to_string_nat_digits by blast
  moreover have "of_char (CHR ''I'') = (73::nat)" by simp
  ultimately show False using digit_char_code [of d] by simp
qed

lemma length_to_string_le: "0 < k \<Longrightarrow> length (to_string_nat n) \<le> k \<longleftrightarrow> n < 10 ^ k"
proof (induction k arbitrary: n)
  case 0
  then show ?case by simp
next
  case (Suc k)
  show ?case
  proof (cases "k = 0")
    case True
    then show ?thesis using length_to_string_nat [of n] by (cases "n < 10") (auto simp: Suc_le_eq)
  next
    case False
    with Suc.IH [of "n div 10"]
    have "length (to_string_nat (n div 10)) \<le> k \<longleftrightarrow> n div 10 < 10 ^ k" by simp
    also have "\<dots> \<longleftrightarrow> n < 10 ^ Suc k" by (simp add: div_less_iff_less_mult mult.commute)
    finally show ?thesis
      using length_to_string_nat [of n] False
      by (cases "n < 10") (auto intro: less_le_trans [of n 10] simp: Suc_le_eq)
  qed
qed

lemma invalid_or_decimal_inj:
  fixes i j bad :: "'a::len word"
  assumes "(if i = bad then ''INVALID'' else to_string_nat (unat i)) =
           (if j = bad then ''INVALID'' else to_string_nat (unat j))"
  shows "i = j"
proof (cases "i = bad \<or> j = bad")
  case True
  with assms show ?thesis
    by (metis to_string_not_invalid)
next
  case False
  with assms have "unat i = unat j" by (simp add: to_string_nat_inj)
  then show ?thesis by (simp only: word_unat_eq_iff)
qed

text \<open>the printed form of an order id determines the id, so the client order id an exchange
  echoes back identifies the order: no two ids, the invalid one included, print alike.\<close>

theorem orderIdToString_inj: "inj orderIdToString"
  unfolding inj_def orderIdToString_def by (blast intro: invalid_or_decimal_inj)

text \<open>\<open>stringToAlgoType\<close> inverts \<open>algoTypeToString\<close>, and maps every other string to the
  invalid algorithm.\<close>

theorem stringToAlgoType_roundtrip:
  "stringToAlgoType (algoTypeToString t) = t \<and>
   (s \<notin> range algoTypeToString \<longrightarrow> stringToAlgoType s = AlgoINVALID)"
proof
  show "stringToAlgoType (algoTypeToString t) = t"
    by (cases t) (simp_all add: stringToAlgoType_def)
  show "s \<notin> range algoTypeToString \<longrightarrow> stringToAlgoType s = AlgoINVALID"
  proof
    assume "s \<notin> range algoTypeToString"
    then have "algoTypeToString t \<noteq> s" for t by blast
    then show "stringToAlgoType s = AlgoINVALID"
      by (simp add: stringToAlgoType_def del: algoTypeToString.simps)
  qed
qed

theorem stringToAlgoType_roundtrip_witness:
  "''buy'' \<notin> range algoTypeToString \<and> stringToAlgoType ''buy'' = AlgoINVALID"
proof -
  have "algoTypeToString t \<noteq> ''buy''" for t by (cases t) simp_all
  then have "''buy'' \<notin> range algoTypeToString" by (metis imageE)
  with stringToAlgoType_roundtrip [of RANDOM "''buy''"] show ?thesis by blast
qed

lemma digits_threshold:
  assumes "0 < k" and "10 ^ k < (2::nat) ^ 64"
  shows "(v::u64) \<ge> of_nat (10 ^ k) \<longleftrightarrow> k < length (to_string_nat (unat v))"
proof -
  have "unat (of_nat (10 ^ k) :: u64) = 10 ^ k"
    using assms unfolding unat_of_nat by simp
  then have "v \<ge> of_nat (10 ^ k) \<longleftrightarrow> 10 ^ k \<le> unat v"
    by (simp add: word_le_nat_alt)
  then show ?thesis
    using length_to_string_le [OF assms(1), of "unat v"] by linarith
qed

lemma length_to_string_u64: "length (to_string_nat (unat (v::u64))) \<in> {1..20}"
proof -
  have "unat v < 2 ^ 64" using unsigned_less [of v] by simp
  then have "unat v < 10 ^ 20" by simp
  then show ?thesis
    using length_to_string_le [of 20 "unat v"] length_to_string_nat [of "unat v"]
    by (auto simp: Suc_le_eq)
qed

lemma of_bool_sum_less:
  "(\<Sum>k \<leftarrow> [1..<n]. of_bool (k < L)) = (of_nat (min (n - 1) (L - 1)) :: u32)"
proof (induction n)
  case (Suc n)
  show ?case
  proof (cases "n = 0")
    case False
    then have "[1..<Suc n] = [1..<n] @ [n]" by simp
    moreover have "min n (L - 1) = min (n - 1) (L - 1) + (if n < L then 1 else 0)"
      using False by auto
    ultimately show ?thesis using Suc by simp
  qed simp
qed simp

lemma upt_1_20: "[1..<20] = [1, 2, 3, 4, 5, 6, 7, 8, 9, 10, 11, 12, 13, 14, 15, 16, 17, 18, 19]"
  by (simp add: upt_rec)

lemma digits_thresholds:
  "(10 \<le> v) = (1 < length (to_string_nat (unat (v::u64))))"
  "(100 \<le> v) = (2 < length (to_string_nat (unat v)))"
  "(1000 \<le> v) = (3 < length (to_string_nat (unat v)))"
  "(10000 \<le> v) = (4 < length (to_string_nat (unat v)))"
  "(100000 \<le> v) = (5 < length (to_string_nat (unat v)))"
  "(1000000 \<le> v) = (6 < length (to_string_nat (unat v)))"
  "(10000000 \<le> v) = (7 < length (to_string_nat (unat v)))"
  "(100000000 \<le> v) = (8 < length (to_string_nat (unat v)))"
  "(1000000000 \<le> v) = (9 < length (to_string_nat (unat v)))"
  "(10000000000 \<le> v) = (10 < length (to_string_nat (unat v)))"
  "(100000000000 \<le> v) = (11 < length (to_string_nat (unat v)))"
  "(1000000000000 \<le> v) = (12 < length (to_string_nat (unat v)))"
  "(10000000000000 \<le> v) = (13 < length (to_string_nat (unat v)))"
  "(100000000000000 \<le> v) = (14 < length (to_string_nat (unat v)))"
  "(1000000000000000 \<le> v) = (15 < length (to_string_nat (unat v)))"
  "(10000000000000000 \<le> v) = (16 < length (to_string_nat (unat v)))"
  "(100000000000000000 \<le> v) = (17 < length (to_string_nat (unat v)))"
  "(1000000000000000000 \<le> v) = (18 < length (to_string_nat (unat v)))"
  "(10000000000000000000 \<le> v) = (19 < length (to_string_nat (unat v)))"
  using digits_threshold [of 1 v] digits_threshold [of 2 v] digits_threshold [of 3 v]
      digits_threshold [of 4 v] digits_threshold [of 5 v] digits_threshold [of 6 v]
      digits_threshold [of 7 v] digits_threshold [of 8 v] digits_threshold [of 9 v]
      digits_threshold [of 10 v] digits_threshold [of 11 v] digits_threshold [of 12 v]
      digits_threshold [of 13 v] digits_threshold [of 14 v] digits_threshold [of 15 v]
      digits_threshold [of 16 v] digits_threshold [of 17 v] digits_threshold [of 18 v]
      digits_threshold [of 19 v]
  by simp_all

text \<open>The branch-free sum of comparisons \<open>Digits10\<close> is the number of decimal digits
  \<open>std::to_string\<close> prints, for every 64-bit value.\<close>

theorem Digits10_spec: "unat (Digits10 v) = length (to_string_nat (unat v))"
proof -
  let ?L = "length (to_string_nat (unat v))"
  have "Digits10 v = 1 + (\<Sum>k \<leftarrow> [1..<20]. of_bool (k < ?L))"
    unfolding Digits10_def digits_thresholds upt_1_20 by simp
  also have "\<dots> = 1 + of_nat (?L - 1)"
    unfolding of_bool_sum_less using length_to_string_u64 [of v]
    by (subst min_absorb2) (auto simp del: One_nat_def)
  also have "\<dots> = of_nat ?L"
    using length_to_string_u64 [of v] by (simp add: of_nat_diff)
  finally show ?thesis
    using length_to_string_u64 [of v] by (simp add: unat_of_nat take_bit_nat_eq_self_iff)
qed

lemma InitTPsJR_fold:
  "fold (\<lambda>it map. map(https_json_request (snd it) \<mapsto> fst it)) ps m =
   m ++ map_of (rev (List.map (\<lambda>it. (https_json_request (snd it), fst it)) ps))"
  by (induction ps arbitrary: m) (simp_all add: map_add_def fun_eq_iff split: option.split)

text \<open>The reverse table of \<open>InitTPsJR\<close>.  When every pair of the table has its own JSON
  symbol, looking the symbol of any pair up gives that pair back.\<close>

theorem InitTPsJR_roundtrip:
  assumes "distinct (List.map (\<lambda>it. https_json_request (snd it)) pairs)"
    and "(tp, info) \<in> set pairs"
  shows "InitTPsJR pairs (https_json_request info) = Some tp"
proof -
  let ?kv = "List.map (\<lambda>it. (https_json_request (snd it), fst it)) pairs"
  have "distinct (List.map fst (rev ?kv))"
    using assms(1) by (simp add: rev_map [symmetric] comp_def)
  moreover have "(https_json_request info, tp) \<in> set (rev ?kv)"
    using assms(2) by (force simp: image_iff)
  ultimately have "map_of (rev ?kv) (https_json_request info) = Some tp"
    by (rule map_of_is_SomeI)
  then show ?thesis
    by (simp add: InitTPsJR_def InitTPsJR_fold)
qed

theorem InitTPsJR_roundtrip_witness:
  "InitTPsJR
     [(\<lparr>tp_first = 1, tp_second = 2\<rparr>,
       \<lparr>price_precission = 2, qty_precission = 5, https_json_request = ''BTCUSDT'', https_query_request = ''BTCUSDT'',
        ws_query_request = ''btcusdt'', https_query_response = ''BTCUSDT''\<rparr>)] ''BTCUSDT'' =
   Some \<lparr>tp_first = 1, tp_second = 2\<rparr>"
  using InitTPsJR_roundtrip
    [of "[(\<lparr>tp_first = 1, tp_second = 2\<rparr>,
       \<lparr>price_precission = 2, qty_precission = 5, https_json_request = ''BTCUSDT'', https_query_request = ''BTCUSDT'',
        ws_query_request = ''btcusdt'', https_query_response = ''BTCUSDT''\<rparr>)]"
      "\<lparr>tp_first = 1, tp_second = 2\<rparr>"
      "\<lparr>price_precission = 2, qty_precission = 5, https_json_request = ''BTCUSDT'', https_query_request = ''BTCUSDT'',
        ws_query_request = ''btcusdt'', https_query_response = ''BTCUSDT''\<rparr>"]
  by simp

end
