(* ===== verification/Mem_Pool.thy ===== *)
theory Mem_Pool
  imports Common_Types
begin

text \<open>
  The object pools of aot/common/mem_pool.h.

  \<^item> \<open>MemPool\<close>: a vector of blocks with a free flag and a cursor \<open>next_free_index\<close>; its search
    loop \<open>updateNextFreeIndex\<close> is a recursive function with a termination proof.
  \<^item> \<open>MemoryPoolNotThreadSafety\<close>: a thin layer over \<open>boost::pool\<close>, which is an argument.
  \<^item> \<open>MemoryPoolThreadSafety\<close> (\<open>MemoryPool\<close>): a LIFO free list in front of \<open>boost::pool\<close>.
    This class never gives a block back to \<open>boost::pool\<close>, so all it sees of it is the sequence
    of answers of \<open>pool_.malloc()\<close>: \<open>mp_chunks n\<close> is the answer to the \<open>n\<close>-th call.
    It is modelled twice: as the sequential operations \<open>Allocate\<close> and \<open>Deallocate\<close> on a list,
    and as the machine of its atomic loads, stores and compare-exchanges, which several threads
    interleave.  A thread that runs alone implements the sequential operations.
  \<^item> The locale \<open>object_pool\<close> is what the clients of a pool rely on, interpreted on the
    sequential operations.
\<close>

section \<open>MemPool: a vector with a cursor\<close>

record 'a ObjectBlock =
  ob_object :: 'a
  ob_is_free :: bool

record 'a MemPool =
  mp_store :: "'a ObjectBlock list"
  mp_next_free_index :: nat

text \<open>The constructor looks at \<open>store_[0]\<close>, which does not exist in a pool of no elements.\<close>

definition MemPool_new :: "'a \<Rightarrow> nat \<Rightarrow> 'a MemPool result" where
  "MemPool_new dflt num_elems =
     (if num_elems = 0 then Inl OutOfRange
      else Inr \<lparr>mp_store = replicate num_elems \<lparr>ob_object = dflt, ob_is_free = True\<rparr>,
                mp_next_free_index = 0\<rparr>)"

text \<open>The search loop: \<open>init\<close> is \<open>initial_free_index\<close> and \<open>i\<close> is \<open>next_free_index_\<close>.\<close>

function next_free_loop :: "'a ObjectBlock list \<Rightarrow> nat \<Rightarrow> nat \<Rightarrow> nat result" where
  "next_free_loop store init i =
     (if \<not> (i < length store \<and> init < length store) then Inl OutOfRange
      else if ob_is_free (store ! i) then Inr i
      else (let j = (if i + 1 = length store then 0 else i + 1)
            in if init = j then Inl AssertFailed else next_free_loop store init j))"
  by pat_completeness auto

termination
  by (relation "measure (\<lambda>(store, init, i). if i < init then init - i else init + length store - i)")
    (auto split: if_splits)

declare next_free_loop.simps [simp del]

definition updateNextFreeIndex :: "'a MemPool \<Rightarrow> 'a MemPool result" where
  "updateNextFreeIndex p =
     bind_result (next_free_loop (mp_store p) (mp_next_free_index p) (mp_next_free_index p))
       (\<lambda>i. Inr (p\<lparr>mp_next_free_index := i\<rparr>))"

definition MemPool_allocate :: "'a \<Rightarrow> 'a MemPool \<Rightarrow> (nat \<times> 'a MemPool) result" where
  "MemPool_allocate obj p =
     (let i = mp_next_free_index p in
      if \<not> i < length (mp_store p) then Inl OutOfRange
      else if \<not> ob_is_free (mp_store p ! i) then Inl AssertFailed
      else bind_result
             (updateNextFreeIndex
                (p\<lparr>mp_store := (mp_store p)[i := \<lparr>ob_object = obj, ob_is_free = False\<rparr>]\<rparr>))
             (\<lambda>p'. Inr (i, p')))"

text \<open>\<open>elem_index\<close> is a pointer difference; a negative one fails the first \<open>ASSERT\<close>.\<close>

definition MemPool_deallocate :: "int \<Rightarrow> 'a MemPool \<Rightarrow> 'a MemPool result" where
  "MemPool_deallocate elem_index p =
     (if \<not> (elem_index \<ge> 0 \<and> nat elem_index < length (mp_store p)) then Inl AssertFailed
      else let i = nat elem_index in
        if ob_is_free (mp_store p ! i) then Inl AssertFailed
        else Inr (p\<lparr>mp_store := (mp_store p)[i := (mp_store p ! i)\<lparr>ob_is_free := True\<rparr>]\<rparr>))"

definition MemPool_reset :: "'a MemPool \<Rightarrow> 'a MemPool" where
  "MemPool_reset p =
     \<lparr>mp_store = List.map (\<lambda>block. block\<lparr>ob_is_free := True\<rparr>) (mp_store p), mp_next_free_index = 0\<rparr>"

text \<open>The indices of the free blocks, and the invariant: the cursor is on a free block.\<close>

definition free_indices :: "'a MemPool \<Rightarrow> nat set" where
  "free_indices p = {i. i < length (mp_store p) \<and> ob_is_free (mp_store p ! i)}"

definition MemPool_inv :: "'a MemPool \<Rightarrow> bool" where
  "MemPool_inv p \<longleftrightarrow> mp_next_free_index p \<in> free_indices p"

section \<open>MemoryPoolNotThreadSafety: a layer over boost::pool\<close>

text \<open>\<open>boost::pool<>\<close> with state \<open>'p\<close>: \<open>malloc\<close> (null on failure), \<open>free\<close>,
  \<open>release_memory\<close> and \<open>purge_memory\<close>.\<close>

record 'p boost_pool_ops =
  bp_malloc :: "'p \<Rightarrow> addr option \<times> 'p"
  bp_free :: "addr \<Rightarrow> 'p \<Rightarrow> 'p"
  bp_release_memory :: "'p \<Rightarrow> 'p"
  bp_purge_memory :: "'p \<Rightarrow> 'p"

text \<open>The pool object with the objects constructed in its blocks.\<close>

record ('p, 'a) MemoryPoolNotThreadSafety =
  nts_pool :: 'p
  nts_pool_size :: nat
  nts_heap :: "addr \<rightharpoonup> 'a"

definition NTS_Allocate ::
    "'p boost_pool_ops \<Rightarrow> 'a \<Rightarrow> ('p, 'a) MemoryPoolNotThreadSafety \<Rightarrow>
     addr option \<times> ('p, 'a) MemoryPoolNotThreadSafety" where
  "NTS_Allocate ops obj s =
     (if nts_pool_size s = 0 then (None, s)
      else case bp_malloc ops (nts_pool s) of
        (None, p) \<Rightarrow> (None, s\<lparr>nts_pool := p\<rparr>)
      | (Some a, p) \<Rightarrow> (Some a, s\<lparr>nts_pool := p, nts_heap := (nts_heap s)(a \<mapsto> obj)\<rparr>))"

definition NTS_Deallocate ::
    "'p boost_pool_ops \<Rightarrow> addr option \<Rightarrow> ('p, 'a) MemoryPoolNotThreadSafety \<Rightarrow>
     ('p, 'a) MemoryPoolNotThreadSafety" where
  "NTS_Deallocate ops obj s =
     (case obj of
        None \<Rightarrow> s
      | Some a \<Rightarrow> s\<lparr>nts_heap := (nts_heap s)(a := None), nts_pool := bp_free ops a (nts_pool s)\<rparr>)"

definition NTS_Reset ::
    "'p boost_pool_ops \<Rightarrow> ('p, 'a) MemoryPoolNotThreadSafety \<Rightarrow> ('p, 'a) MemoryPoolNotThreadSafety" where
  "NTS_Reset ops s = s\<lparr>nts_pool := bp_release_memory ops (nts_pool s)\<rparr>"

definition NTS_Clear ::
    "'p boost_pool_ops \<Rightarrow> ('p, 'a) MemoryPoolNotThreadSafety \<Rightarrow> ('p, 'a) MemoryPoolNotThreadSafety" where
  "NTS_Clear ops s = s\<lparr>nts_pool := bp_purge_memory ops (nts_pool s)\<rparr>"

section \<open>MemoryPool: a free list in front of boost::pool\<close>

record MemoryPool =
  mp_chunks :: "nat \<Rightarrow> addr option"   \<comment> \<open>the answers of \<open>pool_.malloc()\<close>\<close>
  mp_calls :: nat                        \<comment> \<open>how often it has been called\<close>
  mp_free :: "addr list"                 \<comment> \<open>the free list from \<open>head_\<close>\<close>
  mp_pool_size :: nat

definition MemoryPool_new :: "(nat \<Rightarrow> addr option) \<Rightarrow> nat \<Rightarrow> MemoryPool" where
  "MemoryPool_new chunks poolSize =
     \<lparr>mp_chunks = chunks, mp_calls = 0, mp_free = [], mp_pool_size = poolSize\<rparr>"

definition Allocate :: "MemoryPool \<Rightarrow> addr option \<times> MemoryPool" where
  "Allocate p =
     (if mp_pool_size p = 0 then (None, p)
      else case mp_free p of
        block # rest \<Rightarrow> (Some block, p\<lparr>mp_free := rest\<rparr>)
      | [] \<Rightarrow> (mp_chunks p (mp_calls p), p\<lparr>mp_calls := Suc (mp_calls p)\<rparr>))"

definition Deallocate :: "addr option \<Rightarrow> MemoryPool \<Rightarrow> MemoryPool" where
  "Deallocate obj p = (case obj of None \<Rightarrow> p | Some a \<Rightarrow> p\<lparr>mp_free := a # mp_free p\<rparr>)"

text \<open>\<open>Reset\<close> and \<open>Clear\<close> act on \<open>boost::pool\<close> only, whose memory is the second component.  \<open>release_memory\<close> frees what holds no
  chunk that was handed out, which is nothing here, since \<open>Deallocate\<close> never gives a chunk back to it; \<open>purge_memory\<close> frees all.
  Neither touches \<open>head_\<close>.\<close>

definition MemoryPool_Reset :: "MemoryPool \<times> addr set \<Rightarrow> MemoryPool \<times> addr set" where
  "MemoryPool_Reset st = st"

definition MemoryPool_Clear :: "MemoryPool \<times> addr set \<Rightarrow> MemoryPool \<times> addr set" where
  "MemoryPool_Clear st = (fst st, {})"

text \<open>So after \<open>Clear\<close> the next \<open>Allocate\<close> hands out a block whose memory is gone, if a block had been given back before.\<close>

lemma clear_then_allocate_dangling:
  assumes "mp_pool_size p \<noteq> 0" and "mp_free p = a # rest"
  shows "fst (Allocate (fst (MemoryPool_Clear (p, owned)))) = Some a \<and> a \<notin> snd (MemoryPool_Clear (p, owned))"
  using assms by (simp add: MemoryPool_Clear_def Allocate_def)

text \<open>The blocks \<open>boost::pool\<close> has handed out, those of them in use, and the invariant: the
  answers of \<open>boost::pool\<close> are pairwise different and the free list holds blocks it gave out,
  each once.\<close>

definition mp_given :: "MemoryPool \<Rightarrow> addr set" where
  "mp_given p = {a. \<exists>i < mp_calls p. mp_chunks p i = Some a}"

definition mp_live :: "MemoryPool \<Rightarrow> addr set" where
  "mp_live p = mp_given p - set (mp_free p)"

definition chunks_distinct :: "(nat \<Rightarrow> addr option) \<Rightarrow> bool" where
  "chunks_distinct ch \<longleftrightarrow> (\<forall>i j a. ch i = Some a \<longrightarrow> ch j = Some a \<longrightarrow> i = j)"

definition MemoryPool_inv :: "MemoryPool \<Rightarrow> bool" where
  "MemoryPool_inv p \<longleftrightarrow>
     chunks_distinct (mp_chunks p) \<and> distinct (mp_free p) \<and> set (mp_free p) \<subseteq> mp_given p"

section \<open>The interleaved machine of MemoryPool\<close>

text \<open>
  Shared memory: \<open>head_\<close> and the word at the start of each block, which holds the next pointer
  while the block is in the free list and belongs to the object while it is in use.  Each thread
  is at one point of \<open>Allocate\<close> or \<open>Deallocate\<close>; \<open>th_owned\<close> are the blocks \<open>Allocate\<close> has
  returned to it.
\<close>

datatype pool_pc =
    Idle
  | AllocBlock addr                      \<comment> \<open>\<open>head_\<close> loaded, not null\<close>
  | AllocNext addr "addr option"         \<comment> \<open>the next pointer of the block read\<close>
  | AllocMalloc                          \<comment> \<open>about to call \<open>pool_.malloc()\<close>\<close>
  | DeallocLoad addr                     \<comment> \<open>object destroyed, \<open>head_\<close> not loaded\<close>
  | DeallocStore addr "addr option"      \<comment> \<open>about to write the next pointer\<close>
  | DeallocCas addr "addr option"        \<comment> \<open>about to compare-exchange \<open>head_\<close>\<close>

record pool_machine =
  pm_chunks :: "nat \<Rightarrow> addr option"
  pm_calls :: nat
  pm_head :: "addr option"
  pm_word :: "addr \<Rightarrow> addr option"
  pm_pc :: "nat \<Rightarrow> pool_pc"
  pm_owned :: "nat \<Rightarrow> addr set"

datatype pool_cmd =
    CallAllocate
  | CallDeallocate addr
  | UseBlock addr "addr option"          \<comment> \<open>the owner writes into its object\<close>
  | Continue                             \<comment> \<open>the next atomic access of the call in progress\<close>

definition goto :: "nat \<Rightarrow> pool_pc \<Rightarrow> pool_machine \<Rightarrow> pool_machine" where
  "goto th pc s = s\<lparr>pm_pc := (pm_pc s)(th := pc)\<rparr>"

definition give :: "nat \<Rightarrow> addr \<Rightarrow> pool_machine \<Rightarrow> pool_machine" where
  "give th a s = goto th Idle (s\<lparr>pm_owned := (pm_owned s)(th := insert a (pm_owned s th))\<rparr>)"

text \<open>One atomic step of thread \<open>th\<close>; \<open>None\<close> when the command is not possible there.\<close>

fun pool_exec :: "nat \<Rightarrow> pool_cmd \<Rightarrow> pool_machine \<Rightarrow> pool_machine option" where
  "pool_exec th cmd s =
     (case (pm_pc s th, cmd) of
        (Idle, CallAllocate) \<Rightarrow>
          Some (case pm_head s of None \<Rightarrow> goto th AllocMalloc s
                                | Some b \<Rightarrow> goto th (AllocBlock b) s)
      | (Idle, CallDeallocate a) \<Rightarrow>
          (if a \<in> pm_owned s th
           then Some (goto th (DeallocLoad a)
                       (s\<lparr>pm_owned := (pm_owned s)(th := pm_owned s th - {a})\<rparr>))
           else None)
      | (Idle, UseBlock a w) \<Rightarrow>
          (if a \<in> pm_owned s th then Some (s\<lparr>pm_word := (pm_word s)(a := w)\<rparr>) else None)
      | (AllocBlock b, Continue) \<Rightarrow> Some (goto th (AllocNext b (pm_word s b)) s)
      | (AllocNext b nxt, Continue) \<Rightarrow>
          Some (if pm_head s = Some b then give th b (s\<lparr>pm_head := nxt\<rparr>)
                else goto th AllocMalloc s)
      | (AllocMalloc, Continue) \<Rightarrow>
          Some (case pm_chunks s (pm_calls s) of
                  None \<Rightarrow> goto th Idle (s\<lparr>pm_calls := Suc (pm_calls s)\<rparr>)
                | Some a \<Rightarrow> give th a (s\<lparr>pm_calls := Suc (pm_calls s)\<rparr>))
      | (DeallocLoad a, Continue) \<Rightarrow> Some (goto th (DeallocStore a (pm_head s)) s)
      | (DeallocStore a h, Continue) \<Rightarrow>
          Some (goto th (DeallocCas a h) (s\<lparr>pm_word := (pm_word s)(a := h)\<rparr>))
      | (DeallocCas a h, Continue) \<Rightarrow>
          Some (if pm_head s = h then goto th Idle (s\<lparr>pm_head := Some a\<rparr>)
                else goto th (DeallocStore a (pm_head s)) s)
      | _ \<Rightarrow> None)"

declare pool_exec.simps [simp del]

definition pool_init :: "(nat \<Rightarrow> addr option) \<Rightarrow> pool_machine" where
  "pool_init chunks =
     \<lparr>pm_chunks = chunks, pm_calls = 0, pm_head = None, pm_word = (\<lambda>_. None),
      pm_pc = (\<lambda>_. Idle), pm_owned = (\<lambda>_. {})\<rparr>"

fun pool_run :: "(nat \<times> pool_cmd) list \<Rightarrow> pool_machine \<Rightarrow> pool_machine option" where
  "pool_run [] s = Some s"
| "pool_run ((th, c) # cs) s =
     (case pool_exec th c s of None \<Rightarrow> None | Some s' \<Rightarrow> pool_run cs s')"

inductive pool_reachable :: "(nat \<Rightarrow> addr option) \<Rightarrow> pool_machine \<Rightarrow> bool" for chunks where
  start: "pool_reachable chunks (pool_init chunks)"
| step: "pool_reachable chunks s \<Longrightarrow> pool_exec th c s = Some s' \<Longrightarrow> pool_reachable chunks s'"

text \<open>The free list read off the memory: \<open>chain w h xs\<close> when following the words from \<open>h\<close>
  visits exactly \<open>xs\<close>.\<close>

fun chain :: "(addr \<Rightarrow> addr option) \<Rightarrow> addr option \<Rightarrow> addr list \<Rightarrow> bool" where
  "chain w h [] \<longleftrightarrow> h = None"
| "chain w h (x # xs) \<longleftrightarrow> h = Some x \<and> chain w (w x) xs"

section \<open>MemPool: the cursor invariant and its capacity\<close>

definition rest_indices :: "nat \<Rightarrow> nat \<Rightarrow> nat \<Rightarrow> nat set" where
  "rest_indices n init i = (if i < init then {i..<init} else {i..<n} \<union> {0..<init})"

lemma rest_indices_step:
  assumes "i < n" and "init < n" and "j = (if i + 1 = n then 0 else i + 1)"
  shows "rest_indices n init i = insert i (if init = j then {} else rest_indices n init j)"
  using assms by (auto simp: rest_indices_def split: if_splits)

lemma next_free_loop_result:
  assumes "i < length store" and "init < length store"
  shows "(\<exists>k \<in> rest_indices (length store) init i. ob_is_free (store ! k)) \<Longrightarrow>
           \<exists>j < length store. ob_is_free (store ! j) \<and> next_free_loop store init i = Inr j"
    and "\<not> (\<exists>k \<in> rest_indices (length store) init i. ob_is_free (store ! k)) \<Longrightarrow>
           next_free_loop store init i = Inl AssertFailed"
proof -
  have "if \<exists>k \<in> rest_indices (length store) init i. ob_is_free (store ! k)
        then \<exists>j < length store. ob_is_free (store ! j) \<and> next_free_loop store init i = Inr j
        else next_free_loop store init i = Inl AssertFailed"
    using assms
  proof (induction store init i rule: next_free_loop.induct)
    case (1 store init i)
    define j where "j = (if i + 1 = length store then 0 else i + 1)"
    have bounds: "i < length store" "init < length store" "j < length store"
      using "1.prems" by (auto simp: j_def)
    have split: "rest_indices (length store) init i =
        insert i (if init = j then {} else rest_indices (length store) init j)"
      using bounds j_def by (intro rest_indices_step) simp_all
    have unf: "next_free_loop store init i =
        (if ob_is_free (store ! i) then Inr i
         else if init = j then Inl AssertFailed else next_free_loop store init j)"
      using bounds by (simp add: next_free_loop.simps [of store init i] j_def Let_def)
    show ?case
    proof (cases "ob_is_free (store ! i) \<or> init = j")
      case True
      then show ?thesis using unf split bounds by (auto split: if_splits)
    next
      case False
      then have "if \<exists>k \<in> rest_indices (length store) init j. ob_is_free (store ! k)
        then \<exists>k < length store. ob_is_free (store ! k) \<and> next_free_loop store init j = Inr k
        else next_free_loop store init j = Inl AssertFailed"
        using "1.IH" [OF _ _ j_def] bounds by blast
      moreover have "(\<exists>k \<in> rest_indices (length store) init i. ob_is_free (store ! k)) \<longleftrightarrow>
          (\<exists>k \<in> rest_indices (length store) init j. ob_is_free (store ! k))"
        using False split by auto
      ultimately show ?thesis using False unf by simp
    qed
  qed
  then show "(\<exists>k \<in> rest_indices (length store) init i. ob_is_free (store ! k)) \<Longrightarrow>
           \<exists>j < length store. ob_is_free (store ! j) \<and> next_free_loop store init i = Inr j"
    and "\<not> (\<exists>k \<in> rest_indices (length store) init i. ob_is_free (store ! k)) \<Longrightarrow>
           next_free_loop store init i = Inl AssertFailed"
    by simp_all
qed

lemma rest_indices_all: "init < n \<Longrightarrow> rest_indices n init init = {0..<n}"
  by (auto simp: rest_indices_def)

lemma updateNextFreeIndex_result:
  assumes "mp_next_free_index p < length (mp_store p)"
  shows "free_indices p \<noteq> {} \<Longrightarrow>
           \<exists>j \<in> free_indices p. updateNextFreeIndex p = Inr (p\<lparr>mp_next_free_index := j\<rparr>)"
    and "free_indices p = {} \<Longrightarrow> updateNextFreeIndex p = Inl AssertFailed"
proof -
  let ?i = "mp_next_free_index p" and ?st = "mp_store p"
  have rest: "(\<exists>k \<in> rest_indices (length ?st) ?i ?i. ob_is_free (?st ! k)) \<longleftrightarrow> free_indices p \<noteq> {}"
    using assms by (auto simp: rest_indices_all free_indices_def)
  show "\<exists>j \<in> free_indices p. updateNextFreeIndex p = Inr (p\<lparr>mp_next_free_index := j\<rparr>)"
    if "free_indices p \<noteq> {}"
    using next_free_loop_result(1) [OF assms assms] rest that
    by (auto simp: updateNextFreeIndex_def free_indices_def)
  show "updateNextFreeIndex p = Inl AssertFailed" if "free_indices p = {}"
    using next_free_loop_result(2) [OF assms assms] rest that
    by (auto simp: updateNextFreeIndex_def)
qed

lemma MemPool_new_inv:
  assumes "MemPool_new d n = Inr p"
  shows "MemPool_inv p \<and> card (free_indices p) = n"
proof -
  have "free_indices p = {0..<n}" and "mp_next_free_index p = 0" and "0 < n"
    using assms by (auto simp: MemPool_new_def free_indices_def split: if_splits)
  then show ?thesis by (simp add: MemPool_inv_def)
qed

text \<open>\<open>MemPool::allocate\<close> in a pool whose cursor is on a free block.  With another free block
  it returns the block under the cursor, constructs the object there, leaves every other block
  alone and moves the cursor to a free block.  The last free block is never handed out: with
  only one left, the search for the next one fails its \<open>ASSERT\<close> and the process exits.\<close>

theorem MemPool_allocate_spec:
  assumes inv: "MemPool_inv p"
  defines "i \<equiv> mp_next_free_index p"
  shows "(card (free_indices p) \<ge> 2 \<longrightarrow>
           (\<exists>p'. MemPool_allocate obj p = Inr (i, p') \<and> MemPool_inv p' \<and>
                 free_indices p' = free_indices p - {i} \<and>
                 mp_store p' = (mp_store p)[i := \<lparr>ob_object = obj, ob_is_free = False\<rparr>])) \<and>
         (card (free_indices p) = 1 \<longrightarrow> MemPool_allocate obj p = Inl AssertFailed)"
proof -
  let ?q = "p\<lparr>mp_store := (mp_store p)[i := \<lparr>ob_object = obj, ob_is_free = False\<rparr>]\<rparr>"
  have i: "i < length (mp_store p)" "ob_is_free (mp_store p ! i)" "i \<in> free_indices p"
    using inv by (auto simp: MemPool_inv_def free_indices_def i_def)
  have free: "free_indices ?q = free_indices p - {i}"
    using i by (auto simp: free_indices_def nth_list_update)
  have fin: "finite (free_indices p)" by (simp add: free_indices_def)
  have call: "MemPool_allocate obj p = bind_result (updateNextFreeIndex ?q) (\<lambda>p'. Inr (i, p'))"
    using i by (simp add: MemPool_allocate_def i_def Let_def)
  have cur: "mp_next_free_index ?q < length (mp_store ?q)" using i by (simp add: i_def)
  have card: "card (free_indices ?q) = card (free_indices p) - 1"
    using free fin i(3) by simp
  show ?thesis
  proof (intro conjI impI)
    assume "card (free_indices p) \<ge> 2"
    with card have "free_indices ?q \<noteq> {}" by force
    then obtain j where "j \<in> free_indices ?q"
      and "updateNextFreeIndex ?q = Inr (?q\<lparr>mp_next_free_index := j\<rparr>)"
      using updateNextFreeIndex_result(1) [OF cur] by blast
    then show "\<exists>p'. MemPool_allocate obj p = Inr (i, p') \<and> MemPool_inv p' \<and>
                 free_indices p' = free_indices p - {i} \<and>
                 mp_store p' = (mp_store p)[i := \<lparr>ob_object = obj, ob_is_free = False\<rparr>]"
      using call free by (auto simp: MemPool_inv_def free_indices_def)
  next
    assume "card (free_indices p) = 1"
    with card fin free have "free_indices ?q = {}" by simp
    then show "MemPool_allocate obj p = Inl AssertFailed"
      using call updateNextFreeIndex_result(2) [OF cur] by simp
  qed
qed

theorem MemPool_allocate_spec_witness:
  "(\<exists>p :: nat MemPool. MemPool_new 0 2 = Inr p \<and> MemPool_inv p \<and> card (free_indices p) = 2 \<and>
     (\<exists>p'. MemPool_allocate 7 p = Inr (0, p')))"
proof -
  obtain p :: "nat MemPool" where new: "MemPool_new 0 2 = Inr p" and "mp_next_free_index p = 0"
    by (simp add: MemPool_new_def)
  with MemPool_new_inv [OF new] MemPool_allocate_spec [of p 7] show ?thesis by auto
qed

lemma MemPool_reset_inv:
  "mp_store p \<noteq> [] \<Longrightarrow> MemPool_inv (MemPool_reset p) \<and>
     free_indices (MemPool_reset p) = {0..<length (mp_store p)}"
  by (auto simp: MemPool_reset_def MemPool_inv_def free_indices_def)

text \<open>\<open>MemPool::deallocate\<close> frees exactly the block it is given and keeps the cursor
  invariant; a pointer outside the pool and a block that is already free fail an \<open>ASSERT\<close>, so a
  double free never goes unnoticed.\<close>

theorem MemPool_deallocate_spec:
  "MemPool_deallocate e p =
     (if 0 \<le> e \<and> nat e < length (mp_store p) \<and> nat e \<notin> free_indices p
      then Inr (p\<lparr>mp_store := (mp_store p)[nat e := (mp_store p ! nat e)\<lparr>ob_is_free := True\<rparr>]\<rparr>)
      else Inl AssertFailed) \<and>
   (MemPool_inv p \<longrightarrow> MemPool_deallocate e p = Inr q \<longrightarrow>
      MemPool_inv q \<and> free_indices q = insert (nat e) (free_indices p) \<and>
      MemPool_deallocate e q = Inl AssertFailed)"
  by (auto simp: MemPool_deallocate_def free_indices_def MemPool_inv_def nth_list_update Let_def
      split: if_splits)

theorem MemPool_deallocate_spec_witness:
  "\<exists>p q :: nat MemPool. MemPool_inv p \<and> MemPool_deallocate 1 p = Inr q \<and>
     MemPool_deallocate 1 q = Inl AssertFailed"
proof -
  let ?p = "\<lparr>mp_store = [\<lparr>ob_object = 0, ob_is_free = True\<rparr>, \<lparr>ob_object = 0, ob_is_free = False\<rparr>],
             mp_next_free_index = 0\<rparr> :: nat MemPool"
  have inv: "MemPool_inv ?p" by (simp add: MemPool_inv_def free_indices_def)
  obtain q where "MemPool_deallocate 1 ?p = Inr q" by (simp add: MemPool_deallocate_def)
  with inv MemPool_deallocate_spec [of 1 ?p q] show ?thesis by blast
qed

section \<open>The interface of a pool\<close>

text \<open>
  What a client relies on: a block it is given was not in use and is in use until it is given
  back.  \<open>blocks\<close> are the blocks in use.
\<close>

locale object_pool =
  fixes alloc :: "'p \<Rightarrow> addr option \<times> 'p"
    and dealloc :: "addr option \<Rightarrow> 'p \<Rightarrow> 'p"
    and blocks :: "'p \<Rightarrow> addr set"
    and pool_ok :: "'p \<Rightarrow> bool"
  assumes alloc_Some: "pool_ok p \<Longrightarrow> alloc p = (Some a, q) \<Longrightarrow>
            a \<notin> blocks p \<and> blocks q = insert a (blocks p) \<and> pool_ok q"
    and alloc_None: "pool_ok p \<Longrightarrow> alloc p = (None, q) \<Longrightarrow> blocks q = blocks p \<and> pool_ok q"
    and dealloc_Some: "pool_ok p \<Longrightarrow> a \<in> blocks p \<Longrightarrow>
            blocks (dealloc (Some a) p) = blocks p - {a} \<and> pool_ok (dealloc (Some a) p)"
    and dealloc_null: "dealloc None p = p"
begin

text \<open>A block that is given back leaves the pool as it was before it was taken.\<close>

lemma alloc_dealloc:
  assumes "pool_ok p" and "alloc p = (Some a, q)"
  shows "blocks (dealloc (Some a) q) = blocks p \<and> pool_ok (dealloc (Some a) q)"
proof -
  note q = alloc_Some [OF assms]
  then have "a \<in> blocks q" by simp
  with dealloc_Some [of q a] q show ?thesis by auto
qed

fun alloc_many :: "nat \<Rightarrow> 'p \<Rightarrow> addr list \<times> 'p" where
  "alloc_many 0 p = ([], p)"
| "alloc_many (Suc n) p =
     (case alloc p of
        (None, q) \<Rightarrow> alloc_many n q
      | (Some a, q) \<Rightarrow> (case alloc_many n q of (as, r) \<Rightarrow> (a # as, r)))"

lemma alloc_many_distinct:
  "pool_ok p \<Longrightarrow> alloc_many n p = (as, q) \<Longrightarrow>
     distinct as \<and> set as \<inter> blocks p = {} \<and> blocks q = set as \<union> blocks p \<and> pool_ok q"
proof (induction n arbitrary: p as q)
  case (Suc n)
  obtain x r where x: "alloc p = (x, r)" by force
  show ?case
  proof (cases x)
    case None
    with Suc.IH [of r as q] Suc.prems x alloc_None [of p r] show ?thesis by simp
  next
    case (Some a)
    obtain bs where bs: "alloc_many n r = (bs, q)" and as: "as = a # bs"
      using Suc.prems(2) x Some by (auto split: prod.splits)
    with Suc.IH [of r bs q] alloc_Some [of p a r] Suc.prems(1) x Some show ?thesis by auto
  qed
qed simp

end

lemma given_step:
  "mp_given (p\<lparr>mp_calls := Suc (mp_calls p)\<rparr>) =
   mp_given p \<union> set_option (mp_chunks p (mp_calls p))"
  by (auto simp: mp_given_def less_Suc_eq elem_set)

lemma chunks_distinct_fresh:
  "chunks_distinct (mp_chunks p) \<Longrightarrow> mp_chunks p (mp_calls p) = Some a \<Longrightarrow> a \<notin> mp_given p"
  unfolding chunks_distinct_def mp_given_def by blast

lemma Allocate_Some:
  assumes "MemoryPool_inv p" and "Allocate p = (Some a, q)"
  shows "a \<notin> mp_live p \<and> mp_live q = insert a (mp_live p) \<and> MemoryPool_inv q"
proof (cases "mp_free p")
  case Nil
  with assms have q: "q = p\<lparr>mp_calls := Suc (mp_calls p)\<rparr>" "mp_chunks p (mp_calls p) = Some a"
    by (auto simp: Allocate_def split: if_splits)
  with assms(1) chunks_distinct_fresh [of p a] Nil given_step [of p] show ?thesis
    by (auto simp: MemoryPool_inv_def mp_live_def)
next
  case (Cons b rest)
  with assms have q: "b = a" "q = p\<lparr>mp_free := rest\<rparr>"
    by (auto simp: Allocate_def split: if_splits)
  with assms(1) Cons show ?thesis
    by (auto simp: MemoryPool_inv_def mp_live_def mp_given_def)
qed

lemma Allocate_None:
  assumes "MemoryPool_inv p" and "Allocate p = (None, q)"
  shows "mp_live q = mp_live p \<and> MemoryPool_inv q"
proof -
  have "q = p \<or> mp_free p = [] \<and> q = p\<lparr>mp_calls := Suc (mp_calls p)\<rparr> \<and>
          mp_chunks p (mp_calls p) = None"
    using assms(2) by (auto simp: Allocate_def split: if_splits list.splits)
  with assms(1) given_step [of p] show ?thesis
    by (auto simp: MemoryPool_inv_def mp_live_def)
qed

lemma Deallocate_Some:
  assumes "MemoryPool_inv p" and "a \<in> mp_live p"
  shows "mp_live (Deallocate (Some a) p) = mp_live p - {a} \<and> MemoryPool_inv (Deallocate (Some a) p)"
  using assms by (auto simp: Deallocate_def MemoryPool_inv_def mp_live_def mp_given_def)

interpretation mp: object_pool Allocate Deallocate mp_live MemoryPool_inv
  by (unfold_locales; (rule Allocate_Some Allocate_None Deallocate_Some; assumption)?)
    (simp add: Deallocate_def)

text \<open>\<open>boost::pool\<close> does not run out of memory.\<close>

definition memory_suffices :: "MemoryPool \<Rightarrow> bool" where
  "memory_suffices p \<longleftrightarrow> mp_pool_size p \<noteq> 0 \<and> (\<forall>i. mp_chunks p i \<noteq> None)"

lemma memory_suffices_Allocate:
  assumes "memory_suffices p"
  obtains a q where "Allocate p = (Some a, q)" and "memory_suffices q"
  using assms by (cases "mp_free p") (auto simp: memory_suffices_def Allocate_def)

lemma memory_suffices_Deallocate [simp]: "memory_suffices (Deallocate a p) = memory_suffices p"
  by (cases a) (simp_all add: memory_suffices_def Deallocate_def)

lemma memory_suffices_after_Allocate: "Allocate p = (a, q) \<Longrightarrow> memory_suffices q = memory_suffices p"
  by (auto simp: Allocate_def memory_suffices_def split: if_splits list.splits)

lemma memory_suffices_new [simp]: "memory_suffices (MemoryPool_new ch n) \<longleftrightarrow> n \<noteq> 0 \<and> (\<forall>i. ch i \<noteq> None)"
  by (simp add: memory_suffices_def MemoryPool_new_def)

lemma MemoryPool_new_inv:
  "chunks_distinct ch \<Longrightarrow> MemoryPool_inv (MemoryPool_new ch n) \<and> mp_live (MemoryPool_new ch n) = {}"
  by (simp add: MemoryPool_new_def MemoryPool_inv_def mp_live_def mp_given_def)

text \<open>the pool never hands out a block that is in use: any number of successive allocations
  from a fresh pool give pairwise different blocks.\<close>

theorem Allocate_distinct:
  assumes "chunks_distinct ch"
    and "mp.alloc_many n (MemoryPool_new ch sz) = (as, q)"
  shows "distinct as \<and> mp_live q = set as \<and> MemoryPool_inv q"
  using mp.alloc_many_distinct [OF _ assms(2)] MemoryPool_new_inv [OF assms(1)] by auto

theorem Allocate_distinct_witness:
  "chunks_distinct Some \<and>
   (\<exists>q. mp.alloc_many 2 (MemoryPool_new Some 8) = ([0, 1], q) \<and> mp_live q = {0, 1})"
proof -
  have "chunks_distinct Some" by (simp add: chunks_distinct_def)
  moreover obtain q where "mp.alloc_many 2 (MemoryPool_new Some 8) = ([0, 1], q)"
    by (simp add: numeral_2_eq_2 Allocate_def MemoryPool_new_def)
  ultimately show ?thesis using Allocate_distinct [of Some 2 8 "[0, 1]" q] by auto
qed

section \<open>Executions of the interleaved machine\<close>

lemmas pool_exec_defs = pool_exec.simps goto_def give_def

lemma chain_unaffected: "a \<notin> set xs \<Longrightarrow> chain (w(a := v)) h xs = chain w h xs"
  by (induction xs arbitrary: h) auto

text \<open>A thread alone: its \<open>Allocate\<close> pops the free list, or takes the next chunk when it is
  empty; its \<open>Deallocate\<close> pushes.\<close>



lemma pool_run_reachable:
  "pool_reachable ch s \<Longrightarrow> pool_run cs s = Some s' \<Longrightarrow> pool_reachable ch s'"
proof (induction cs arbitrary: s)
  case (Cons c cs)
  then show ?case
    by (cases c) (auto split: option.splits intro: pool_reachable.step)
qed simp

text \<open>The ABA schedule: thread 1 takes two blocks and returns them, thread 2 reads the head and
  its successor, thread 1 takes both blocks and returns the first, and the compare-exchange of
  thread 2 still succeeds.\<close>

definition aba_schedule :: "addr \<Rightarrow> addr \<Rightarrow> (nat \<times> pool_cmd) list" where
  "aba_schedule a b =
     [(1, CallAllocate), (1, Continue), (1, CallAllocate), (1, Continue)] @
     [(1, CallDeallocate b), (1, Continue), (1, Continue), (1, Continue)] @
     [(1, CallDeallocate a), (1, Continue), (1, Continue), (1, Continue)] @
     [(2, CallAllocate), (2, Continue)] @
     [(1, CallAllocate), (1, Continue), (1, Continue)] @
     [(1, CallAllocate), (1, Continue), (1, Continue)] @
     [(1, CallDeallocate a), (1, Continue), (1, Continue), (1, Continue)] @
     [(2, Continue)] @
     [(2, CallAllocate), (2, Continue), (2, Continue)]"

text \<open>C12: the free list of \<open>MemoryPoolThreadSafety\<close> is not safe when two threads allocate from
  it at once: whatever two different chunks \<open>boost::pool\<close> hands out first, a schedule is
  reachable after which two threads own the same block (the ABA problem of
  \<open>compare_exchange_strong\<close> on a head pointer without a tag).\<close>

theorem MemoryPool_aba:
  assumes "ch 0 = Some a" and "ch 1 = Some b" and "a \<noteq> b"
  shows "\<exists>s. pool_reachable ch s \<and> b \<in> pm_owned s 1 \<and> b \<in> pm_owned s 2"
proof -
  have "\<exists>s. pool_run (aba_schedule a b) (pool_init ch) = Some s \<and>
          b \<in> pm_owned s 1 \<and> b \<in> pm_owned s 2"
    using assms by (simp add: aba_schedule_def pool_init_def pool_exec_defs)
  then show ?thesis using pool_run_reachable [OF pool_reachable.start] by blast
qed

theorem MemoryPool_aba_witness:
  "\<exists>s. pool_reachable Some s \<and> 1 \<in> pm_owned s 1 \<and> 1 \<in> pm_owned s 2"
  using MemoryPool_aba [of Some 0 1] by simp

end
