(* ===== verification/Market_Data.thy ===== *)
theory Market_Data
  imports Mem_Pool
begin

text \<open>
  The market data messages of aot/market_data/market_update.h and src/market_update.cpp, the
  reference counting that returns a message to its pool, and the hand-over of a snapshot or a
  diff to the queue of single updates (\<open>AddToQueue\<close>).

  The queue \<open>moodycamel::ConcurrentQueue\<close> is seen through its answers: \<open>lq_accepts n\<close> says
  whether the \<open>n\<close>-th \<open>try_enqueue\<close> (or \<open>try_enqueue_bulk\<close>) finds room; an accepted item goes
  behind those the same producer enqueued before.
\<close>

section \<open>Messages\<close>

datatype MarketUpdateType = CLEAR | DEFAULT

fun marketUpdateTypeToString :: "MarketUpdateType \<Rightarrow> string" where
  "marketUpdateTypeToString CLEAR = ''CLEAR''"
| "marketUpdateTypeToString DEFAULT = ''DEFAULT''"

record MEMarketUpdate =
  mu_type :: MarketUpdateType
  mu_order_id :: OrderId
  mu_side :: Side
  mu_price :: Price
  mu_qty :: Qty

definition MEMarketUpdate_default :: MEMarketUpdate where
  "MEMarketUpdate_default =
     \<lparr>mu_type = DEFAULT, mu_order_id = kOrderIdInvalid, mu_side = kSideInvalid,
      mu_price = kPriceInvalid, mu_qty = kQtyInvalid\<rparr>"

definition MEMarketUpdate_ToString :: "MEMarketUpdate \<Rightarrow> string" where
  "MEMarketUpdate_ToString u =
     ''MEMarketUpdate[oid:'' @ orderIdToString (mu_order_id u) @ '' side:'' @ sideToString (mu_side u)
       @ '' qty:'' @ qtyToString (mu_qty u) @ '' price:'' @ priceToString (mu_price u) @ '']''"

record MEMarketUpdate2 =
  mu2_exchange_id :: ExchangeId
  mu2_trading_pair :: TradingPair
  mu2_type :: MarketUpdateType
  mu2_order_id :: OrderId
  mu2_side :: Side
  mu2_price :: Price
  mu2_qty :: Qty

record BookSnapshotElem =
  bse_price :: Price
  bse_qty :: Qty

record BookSnapshot2 =
  bs2_exchange_id :: ExchangeId
  bs2_trading_pair :: TradingPair
  bs2_bids :: "BookSnapshotElem list"
  bs2_asks :: "BookSnapshotElem list"
  bs2_lastUpdateId :: u64

record BookSnapshot =
  bs_exchange_id :: ExchangeId
  bs_trading_pair :: TradingPair
  bs_bids :: "BookSnapshotElem list"
  bs_asks :: "BookSnapshotElem list"
  bs_lastUpdateId :: u64

definition BookSnapshot_default :: "TradingPair \<Rightarrow> BookSnapshot" where
  "BookSnapshot_default tp =
     \<lparr>bs_exchange_id = kExchangeIdInvalid, bs_trading_pair = tp, bs_bids = [], bs_asks = [],
      bs_lastUpdateId = 0\<rparr>"

text \<open>The move assignment: the lists of the source are taken over and left empty.\<close>

definition BookSnapshot_assign :: "BookSnapshot2 \<Rightarrow> BookSnapshot \<times> BookSnapshot2" where
  "BookSnapshot_assign element =
     (\<lparr>bs_exchange_id = bs2_exchange_id element, bs_trading_pair = bs2_trading_pair element,
       bs_bids = bs2_bids element, bs_asks = bs2_asks element,
       bs_lastUpdateId = bs2_lastUpdateId element\<rparr>,
      element\<lparr>bs2_bids := [], bs2_asks := []\<rparr>)"

record RequestSnapshot =
  rs_exchange_id :: ExchangeId
  rs_trading_pair :: TradingPair
  rs_depth :: u32

record BookDiffSnapshot2 =
  bd2_exchange_id :: ExchangeId
  bd2_trading_pair :: TradingPair
  bd2_bids :: "BookSnapshotElem list"
  bd2_asks :: "BookSnapshotElem list"
  bd2_first_id :: u64
  bd2_last_id :: u64
  bd2_prev_id :: u64

text \<open>The constructor without \<open>_prev_id\<close> leaves the default, the largest \<open>uint64_t\<close>.\<close>

definition BookDiffSnapshot2_spot ::
    "ExchangeId \<Rightarrow> TradingPair \<Rightarrow> BookSnapshotElem list \<Rightarrow> BookSnapshotElem list \<Rightarrow>
     u64 \<Rightarrow> u64 \<Rightarrow> BookDiffSnapshot2" where
  "BookDiffSnapshot2_spot ex tp bids asks first_id last_id =
     \<lparr>bd2_exchange_id = ex, bd2_trading_pair = tp, bd2_bids = bids, bd2_asks = asks,
      bd2_first_id = first_id, bd2_last_id = last_id, bd2_prev_id = - 1\<rparr>"

record BookDiffSnapshot =
  bd_exchange_id :: ExchangeId
  bd_trading_pair :: TradingPair
  bd_bids :: "BookSnapshotElem list"
  bd_asks :: "BookSnapshotElem list"
  bd_first_id :: u64
  bd_last_id :: u64
  bd_prev_id :: u64

datatype request_id = IdString string | IdInt int | IdNat u64

record RequestDiffOrderBook =
  rd_exchange_id :: ExchangeId
  rd_trading_pair :: TradingPair
  rd_frequency :: FrequencyMS
  rd_subscribe :: bool
  rd_id :: request_id

section \<open>Reference counting of pooled messages\<close>

text \<open>
  A message carries its reference count and whether it has a pool (\<open>memory_pool_\<close> is not
  null); \<open>re_deallocated\<close> counts the calls of \<open>memory_pool_->Deallocate\<close>.  Every message class
  has the same two friend functions.
\<close>

record ref_event =
  re_ref_count :: int
  re_has_pool :: bool
  re_deallocated :: nat

definition intrusive_ptr_add_ref :: "ref_event \<Rightarrow> ref_event" where
  "intrusive_ptr_add_ref e = e\<lparr>re_ref_count := re_ref_count e + 1\<rparr>"

definition intrusive_ptr_release :: "ref_event \<Rightarrow> ref_event" where
  "intrusive_ptr_release e =
     (let before = re_ref_count e; e1 = e\<lparr>re_ref_count := before - 1\<rparr> in
      if before = 1 \<and> re_has_pool e then e1\<lparr>re_deallocated := Suc (re_deallocated e)\<rparr> else e1)"

text \<open>\<open>bus::Event\<close> of aot/bus/bus_event.h deallocates through a virtual call, pool or not.\<close>

definition Event_AddReference :: "ref_event \<Rightarrow> ref_event" where
  "Event_AddReference e = e\<lparr>re_ref_count := re_ref_count e + 1\<rparr>"

definition Event_Release :: "ref_event \<Rightarrow> ref_event" where
  "Event_Release e =
     (let before = re_ref_count e; e1 = e\<lparr>re_ref_count := before - 1\<rparr> in
      if before = 1 then e1\<lparr>re_deallocated := Suc (re_deallocated e)\<rparr> else e1)"

datatype ref_op = AddRef | ReleaseRef

fun ref_run :: "ref_op list \<Rightarrow> ref_event \<Rightarrow> ref_event" where
  "ref_run [] e = e"
| "ref_run (AddRef # ops) e = ref_run ops (intrusive_ptr_add_ref e)"
| "ref_run (ReleaseRef # ops) e = ref_run ops (intrusive_ptr_release e)"

text \<open>A trace of the smart pointers that share one message: a pointer is copied only from one
  that is alive, and each alive pointer is destroyed once; \<open>n\<close> are alive now.\<close>

fun owners_trace :: "nat \<Rightarrow> ref_op list \<Rightarrow> bool" where
  "owners_trace n [] \<longleftrightarrow> n = 0"
| "owners_trace n (AddRef # ops) \<longleftrightarrow> 0 < n \<and> owners_trace (Suc n) ops"
| "owners_trace n (ReleaseRef # ops) \<longleftrightarrow> 0 < n \<and> owners_trace (n - 1) ops"

section \<open>The queue of single updates\<close>

record 'a lf_queue =
  lq_items :: "'a list"
  lq_accepts :: "nat \<Rightarrow> bool"
  lq_tries :: nat

definition try_enqueue_bulk :: "'a list \<Rightarrow> 'a lf_queue \<Rightarrow> bool \<times> 'a lf_queue" where
  "try_enqueue_bulk xs q =
     (let q1 = q\<lparr>lq_tries := Suc (lq_tries q)\<rparr> in
      if lq_accepts q (lq_tries q) then (True, q1\<lparr>lq_items := lq_items q @ xs\<rparr>) else (False, q1))"

definition try_enqueue :: "'a \<Rightarrow> 'a lf_queue \<Rightarrow> bool \<times> 'a lf_queue" where
  "try_enqueue x q = try_enqueue_bulk [x] q"

definition side_event :: "Side \<Rightarrow> BookSnapshotElem \<Rightarrow> MEMarketUpdate" where
  "side_event side elem =
     MEMarketUpdate_default\<lparr>mu_side := side, mu_price := bse_price elem, mu_qty := bse_qty elem\<rparr>"

text \<open>\<open>while (!status) status = queue.try_enqueue_bulk(...)\<close>: \<open>None\<close> when it never ends.\<close>

partial_function (option) enqueue_until :: "'a list \<Rightarrow> 'a lf_queue \<Rightarrow> 'a lf_queue option" where
  "enqueue_until xs q =
     (let r = try_enqueue_bulk xs q in if fst r then Some (snd r) else enqueue_until xs (snd r))"

definition BookSnapshot_AddToQueue ::
    "BookSnapshot \<Rightarrow> MEMarketUpdate lf_queue \<Rightarrow> MEMarketUpdate lf_queue option" where
  "BookSnapshot_AddToQueue s q =
     Option.bind (enqueue_until (List.map (side_event kBid) (bs_bids s)) q)
       (enqueue_until (List.map (side_event kAsk) (bs_asks s)))"

definition enqueue_each :: "'a list \<Rightarrow> 'a lf_queue \<Rightarrow> 'a lf_queue" where
  "enqueue_each xs q = fold (\<lambda>x q. snd (try_enqueue x q)) xs q"

definition BookDiffSnapshot_AddToQueue ::
    "BookDiffSnapshot \<Rightarrow> MEMarketUpdate lf_queue \<Rightarrow> MEMarketUpdate lf_queue" where
  "BookDiffSnapshot_AddToQueue d q =
     enqueue_each (List.map (side_event kAsk) (bd_asks d))
       (enqueue_each (List.map (side_event kBid) (bd_bids d)) q)"

section \<open>Properties\<close>

lemma ref_run_owners:
  assumes "owners_trace n ops" and "re_ref_count e = int n" and "0 < n"
  shows "re_ref_count (ref_run ops e) = 0 \<and>
         re_deallocated (ref_run ops e) = re_deallocated e + (if re_has_pool e then 1 else 0)"
  using assms
proof (induction ops arbitrary: n e)
  case (Cons opr ops)
  show ?case
  proof (cases opr)
    case AddRef
    with Cons.prems Cons.IH [of "Suc n" "intrusive_ptr_add_ref e"] show ?thesis
      by (simp add: intrusive_ptr_add_ref_def)
  next
    case ReleaseRef
    show ?thesis
    proof (cases "n = 1")
      case True
      with ReleaseRef Cons.prems have "ops = []" by (cases ops) (auto elim: owners_trace.elims)
      with True ReleaseRef Cons.prems show ?thesis by (simp add: intrusive_ptr_release_def)
    next
      case False
      with ReleaseRef Cons.prems Cons.IH [of "n - 1" "intrusive_ptr_release e"] show ?thesis
        by (simp add: intrusive_ptr_release_def of_nat_diff)
    qed
  qed
qed simp

text \<open>A pooled message goes back to its pool exactly once, whatever the order in which the
  smart pointers that share it are copied and destroyed: the first pointer is made from a fresh
  message (count 0), and when the last one is gone the count is 0 again and \<open>Deallocate\<close> was
  called once; a message without a pool is never deallocated.\<close>

theorem refcount_frees_once:
  assumes "owners_trace 1 ops"
  shows "let e = ref_run (AddRef # ops) \<lparr>re_ref_count = 0, re_has_pool = pooled, re_deallocated = 0\<rparr>
         in re_ref_count e = 0 \<and> re_deallocated e = (if pooled then 1 else 0)"
  using ref_run_owners [OF assms,
      of "intrusive_ptr_add_ref \<lparr>re_ref_count = 0, re_has_pool = pooled, re_deallocated = 0\<rparr>"]
  by (simp add: intrusive_ptr_add_ref_def)

theorem refcount_frees_once_witness:
  "owners_trace 1 [AddRef, ReleaseRef, AddRef, ReleaseRef, ReleaseRef] \<and>
   re_deallocated (ref_run (AddRef # [AddRef, ReleaseRef, AddRef, ReleaseRef, ReleaseRef])
     \<lparr>re_ref_count = 0, re_has_pool = True, re_deallocated = 0\<rparr>) = 1"
  using refcount_frees_once [of "[AddRef, ReleaseRef, AddRef, ReleaseRef, ReleaseRef]" True]
  by (simp add: Let_def)

lemma enqueue_until_result:
  assumes "lq_accepts q (lq_tries q + k)"
  shows "\<exists>q' n. enqueue_until xs q = Some q' \<and> lq_items q' = lq_items q @ xs \<and>
     lq_accepts q' = lq_accepts q \<and> lq_tries q' = lq_tries q + Suc n"
  using assms
proof (induction k arbitrary: q)
  case 0
  then show ?case
    by (subst enqueue_until.simps) (auto simp: try_enqueue_bulk_def Let_def intro: exI [of _ 0])
next
  case (Suc k)
  show ?case
  proof (cases "lq_accepts q (lq_tries q)")
    case True
    then show ?thesis
      by (subst enqueue_until.simps) (auto simp: try_enqueue_bulk_def Let_def intro: exI [of _ 0])
  next
    case False
    let ?q = "q\<lparr>lq_tries := Suc (lq_tries q)\<rparr>"
    have "enqueue_until xs q = enqueue_until xs ?q"
      using False by (subst enqueue_until.simps) (simp add: try_enqueue_bulk_def Let_def)
    moreover obtain q' n where "enqueue_until xs ?q = Some q'" "lq_items q' = lq_items q @ xs"
      "lq_accepts q' = lq_accepts q" "lq_tries q' = lq_tries q + Suc (Suc n)"
      using Suc.IH [of ?q] Suc.prems by auto
    ultimately show ?thesis by auto
  qed
qed

text \<open>\<open>BookSnapshot::AddToQueue\<close> returns whenever the queue keeps finding room again, and
  then all bids followed by all asks of the snapshot are in the queue, in order, behind what was
  there: no level of a snapshot is lost.\<close>

theorem BookSnapshot_AddToQueue_complete:
  assumes "\<forall>n. \<exists>k. lq_accepts q (n + k)"
  shows "\<exists>q'. BookSnapshot_AddToQueue s q = Some q' \<and>
     lq_items q' = lq_items q @ List.map (side_event kBid) (bs_bids s) @
                   List.map (side_event kAsk) (bs_asks s)"
proof -
  obtain q1 n where 1: "enqueue_until (List.map (side_event kBid) (bs_bids s)) q = Some q1"
    "lq_items q1 = lq_items q @ List.map (side_event kBid) (bs_bids s)"
    "lq_accepts q1 = lq_accepts q" "lq_tries q1 = lq_tries q + Suc n"
    using enqueue_until_result assms by blast
  moreover obtain q2 m where "enqueue_until (List.map (side_event kAsk) (bs_asks s)) q1 = Some q2"
    "lq_items q2 = lq_items q1 @ List.map (side_event kAsk) (bs_asks s)"
    using enqueue_until_result [of q1] assms 1(3) by metis
  ultimately show ?thesis by (simp add: BookSnapshot_AddToQueue_def)
qed

theorem BookSnapshot_AddToQueue_complete_witness:
  "\<exists>q'. BookSnapshot_AddToQueue
          ((BookSnapshot_default \<lparr>tp_first = 1, tp_second = 2\<rparr>)\<lparr>bs_bids := [\<lparr>bse_price = 5, bse_qty = 6\<rparr>]\<rparr>)
          \<lparr>lq_items = [], lq_accepts = even, lq_tries = 1\<rparr> = Some q' \<and> length (lq_items q') = 1"
proof -
  let ?q = "\<lparr>lq_items = [], lq_accepts = even, lq_tries = 1\<rparr> :: MEMarketUpdate lf_queue"
  have "\<forall>n. \<exists>k. lq_accepts ?q (n + k)" by (auto intro: exI [of _ "_ :: nat"])
  from BookSnapshot_AddToQueue_complete [OF this] show ?thesis
    by (fastforce simp: BookSnapshot_default_def)
qed

end
