(* ===== verification/Order_Manager.thy ===== *)
theory Order_Manager
  imports Market_Data
begin

text \<open>
  Requests and responses (aot/client_request.h, aot/client_response.h), the order states
  (aot/strategy/om_order.h) and \<open>Trading::OrderManager\<close> with its component and the variant for
  backtesting (aot/strategy/order_manager.h, src/order_manager.cpp).

  The manager keeps one \<open>OMOrder\<close> per trading pair and side.  What it hands to
  \<open>trade_engine_->SendRequestNewOrder\<close> and \<open>SendRequestCancelOrder\<close> is recorded in order in
  \<open>om_sent_new\<close> and \<open>om_sent_cancel\<close>.
\<close>

section \<open>Requests and responses\<close>

datatype ClientRequestType = REQ_INVALID | NEW | CANCEL

fun ClientRequestTypeToString :: "ClientRequestType \<Rightarrow> string" where
  "ClientRequestTypeToString NEW = ''NEW''"
| "ClientRequestTypeToString CANCEL = ''CANCEL''"
| "ClientRequestTypeToString REQ_INVALID = ''INVALID''"

record RequestNewOrder =
  rn_exchange_id :: ExchangeId
  rn_type :: ClientRequestType
  rn_trading_pair :: TradingPair
  rn_order_id :: OrderId
  rn_side :: Side
  rn_price :: Price
  rn_qty :: Qty

record RequestCancelOrder =
  rc_exchange_id :: ExchangeId
  rc_type :: ClientRequestType
  rc_trading_pair :: TradingPair
  rc_order_id :: OrderId

definition TradingPair_ToString :: "TradingPair \<Rightarrow> string" where
  "TradingPair_ToString tp =
     ''TradingPair[f:'' @ to_string_nat (unat (tp_first tp)) @ '' s:'' @ to_string_nat (unat (tp_second tp)) @ '']''"

definition RequestNewOrder_ToString :: "RequestNewOrder \<Rightarrow> string" where
  "RequestNewOrder_ToString r =
     (let price_string = (if rn_price r \<noteq> kPriceInvalid then to_string_nat (unat (rn_price r)) else ''INVALID'');
          qty_string = (if rn_qty r \<noteq> kQtyInvalid then to_string_nat (unat (rn_qty r)) else ''INVALID'')
      in ''RequestNewOrder[type:'' @ ClientRequestTypeToString (rn_type r) @ '' '' @
         TradingPair_ToString (rn_trading_pair r) @ '' order_id:'' @ to_string_nat (unat (rn_order_id r)) @
         '' side:'' @ sideToString (rn_side r) @ '' qty:'' @ qty_string @ '' price:'' @ price_string @ '']'')"

definition RequestCancelOrder_ToString :: "RequestCancelOrder \<Rightarrow> string" where
  "RequestCancelOrder_ToString r =
     ''RequestCancelOrder[type:'' @ ClientRequestTypeToString (rc_type r) @ '' '' @
     TradingPair_ToString (rc_trading_pair r) @ '' id:'' @ to_string_nat (unat (rc_order_id r)) @ '']''"

datatype ClientResponseType = RESP_INVALID | ACCEPTED | CANCELED | FILLED | CANCEL_REJECTED

fun ClientResponseTypeToString :: "ClientResponseType \<Rightarrow> string" where
  "ClientResponseTypeToString ACCEPTED = ''ACCEPTED''"
| "ClientResponseTypeToString CANCELED = ''CANCELED''"
| "ClientResponseTypeToString FILLED = ''FILLED''"
| "ClientResponseTypeToString CANCEL_REJECTED = ''CANCEL_REJECTED''"
| "ClientResponseTypeToString RESP_INVALID = ''INVALID''"

record MEClientResponse =
  cr_exchange_id :: ExchangeId
  cr_type :: ClientResponseType
  cr_trading_pair :: TradingPair
  cr_order_id :: OrderId
  cr_side :: Side
  cr_price :: Price
  cr_exec_qty :: Qty
  cr_leaves_qty :: Qty

definition MEClientResponse_ToString :: "MEClientResponse \<Rightarrow> string" where
  "MEClientResponse_ToString r =
     (if cr_type r = CANCELED
      then ''MEClientResponse[type:'' @ ClientResponseTypeToString (cr_type r) @ '' '' @
           TradingPair_ToString (cr_trading_pair r) @ '' order_id:'' @ orderIdToString (cr_order_id r) @ '']''
      else ''MEClientResponse[type:'' @ ClientResponseTypeToString (cr_type r) @ '' '' @
           TradingPair_ToString (cr_trading_pair r) @ '' order_id:'' @ orderIdToString (cr_order_id r) @
           '' side:'' @ sideToString (cr_side r) @ '' exec_qty:'' @ qtyToString (cr_exec_qty r) @
           '' leaves_qty:'' @ qtyToString (cr_leaves_qty r) @ '' price:'' @ priceToString (cr_price r) @ '']'')"

section \<open>Orders of the manager\<close>

datatype OMOrderState = OM_INVALID | PENDING_NEW | LIVE | PENDING_CANCEL | DEAD

fun OMOrderStateToString :: "OMOrderState \<Rightarrow> string" where
  "OMOrderStateToString PENDING_NEW = ''PENDING_NEW''"
| "OMOrderStateToString LIVE = ''LIVE''"
| "OMOrderStateToString PENDING_CANCEL = ''PENDING_CANCEL''"
| "OMOrderStateToString DEAD = ''DEAD''"
| "OMOrderStateToString OM_INVALID = ''INVALID''"

record OMOrder =
  o_trading_pair :: TradingPair
  o_order_id :: OrderId
  o_side :: Side
  o_price :: Price
  o_qty :: Qty
  o_state :: OMOrderState

text \<open>\<open>{}\<close> value-initialises the trading pair to zeros.\<close>

definition OMOrder_default :: OMOrder where
  "OMOrder_default =
     \<lparr>o_trading_pair = \<lparr>tp_first = 0, tp_second = 0\<rparr>, o_order_id = kOrderIdInvalid, o_side = kSideInvalid,
      o_price = kPriceInvalid, o_qty = kQtyInvalid, o_state = OM_INVALID\<rparr>"

definition OMOrder_ToString :: "OMOrder \<Rightarrow> string" where
  "OMOrder_ToString ord =
     ''OMOrder['' @ TradingPair_ToString (o_trading_pair ord) @ '' oid:'' @ orderIdToString (o_order_id ord) @
     '' side:'' @ sideToString (o_side ord) @ '' price:'' @ to_string_nat (unat (o_price ord)) @
     '' qty:'' @ to_string_nat (unat (o_qty ord)) @ '' state:'' @ OMOrderStateToString (o_state ord) @ '']''"

text \<open>\<open>OMOrderSideHashMap\<close>: an array indexed by \<open>sideToIndex\<close>, of size \<open>sideToIndex(kMax) + 1\<close>.\<close>

definition side_array :: "OMOrder list" where
  "side_array = replicate (sideToIndex kSideMax + 1) OMOrder_default"

record OrderManager =
  om_orders :: "TradingPair \<rightharpoonup> OMOrder list"
  om_next_order_id :: OrderId
  om_sent_new :: "RequestNewOrder list"
  om_sent_cancel :: "RequestCancelOrder list"

definition OrderManager_new :: OrderManager where
  "OrderManager_new = \<lparr>om_orders = Map.empty, om_next_order_id = 1, om_sent_new = [], om_sent_cancel = []\<rparr>"

text \<open>\<open>GetOrder\<close> creates the row of an unknown pair and gives a pointer to the slot; the model gives
  the slot's value, and \<open>put_order\<close> writes through the pointer.\<close>

definition GetOrder :: "TradingPair \<Rightarrow> Side \<Rightarrow> OrderManager \<Rightarrow> OMOrder \<times> OrderManager" where
  "GetOrder tp side m =
     (case om_orders m tp of
        None \<Rightarrow> (side_array ! sideToIndex side, m\<lparr>om_orders := (om_orders m)(tp \<mapsto> side_array)\<rparr>)
      | Some row \<Rightarrow> (row ! sideToIndex side, m))"

definition put_order :: "TradingPair \<Rightarrow> Side \<Rightarrow> OMOrder \<Rightarrow> OrderManager \<Rightarrow> OrderManager" where
  "put_order tp side ord m =
     (case om_orders m tp of
        None \<Rightarrow> m
      | Some row \<Rightarrow> m\<lparr>om_orders := (om_orders m)(tp \<mapsto> row[sideToIndex side := ord])\<rparr>)"

definition OrderIsLive :: "OMOrder \<Rightarrow> bool" where
  "OrderIsLive ord \<longleftrightarrow> \<not> (o_state ord = DEAD \<or> o_state ord = OM_INVALID)"

definition NewOrder :: "ExchangeId \<Rightarrow> TradingPair \<Rightarrow> Price \<Rightarrow> Side \<Rightarrow> Qty \<Rightarrow> OrderManager \<Rightarrow> OrderManager" where
  "NewOrder ex tp price side qty m =
     (let (ord, m1) = GetOrder tp side m in
      if OrderIsLive ord then m1
      else let request = \<lparr>rn_exchange_id = ex, rn_type = NEW, rn_trading_pair = tp, rn_order_id = om_next_order_id m1,
                          rn_side = side, rn_price = price, rn_qty = qty\<rparr>;
               m2 = m1\<lparr>om_sent_new := om_sent_new m1 @ [request]\<rparr>;
               m3 = put_order tp side \<lparr>o_trading_pair = tp, o_order_id = om_next_order_id m1, o_side = side,
                      o_price = price, o_qty = qty, o_state = PENDING_NEW\<rparr> m2
           in m3\<lparr>om_next_order_id := om_next_order_id m3 + 1\<rparr>)"

definition CancelOrder :: "ExchangeId \<Rightarrow> TradingPair \<Rightarrow> Side \<Rightarrow> OrderManager \<Rightarrow> OrderManager" where
  "CancelOrder ex tp side m =
     (let (ord, m1) = GetOrder tp side m;
          request = \<lparr>rc_exchange_id = ex, rc_type = CANCEL, rc_trading_pair = o_trading_pair ord,
                     rc_order_id = o_order_id ord\<rparr>
      in put_order tp side (ord\<lparr>o_state := PENDING_CANCEL\<rparr>) (m1\<lparr>om_sent_cancel := om_sent_cancel m1 @ [request]\<rparr>))"

text \<open>The effect of a response on the order in the slot.\<close>

definition respond :: "ClientResponseType \<Rightarrow> Qty \<Rightarrow> OMOrder \<Rightarrow> OMOrder" where
  "respond type leaves ord =
     (case type of
        ACCEPTED \<Rightarrow> ord\<lparr>o_state := LIVE\<rparr>
      | CANCELED \<Rightarrow> ord\<lparr>o_state := DEAD\<rparr>
      | FILLED \<Rightarrow> (let ord1 = ord\<lparr>o_qty := leaves\<rparr>
                   in if o_qty ord1 = 0 then ord1\<lparr>o_state := DEAD\<rparr> else ord1)
      | CANCEL_REJECTED \<Rightarrow> ord
      | RESP_INVALID \<Rightarrow> ord)"

definition OnOrderResponse :: "MEClientResponse \<Rightarrow> OrderManager \<Rightarrow> OrderManager" where
  "OnOrderResponse r m =
     (case om_orders m (cr_trading_pair r) of
        None \<Rightarrow> m
      | Some row \<Rightarrow>
          put_order (cr_trading_pair r) (cr_side r)
            (respond (cr_type r) (cr_leaves_qty r) (row ! sideToIndex (cr_side r))) m)"

section \<open>The component\<close>

text \<open>The overload for \<open>IResponse *\<close> gives the response back to its pool at the end (not on the early
  return for an unknown pair).\<close>

definition OnOrderResponseI ::
    "nat \<Rightarrow> MEClientResponse MemPool \<Rightarrow> OrderManager \<Rightarrow> (MEClientResponse MemPool \<times> OrderManager) result" where
  "OnOrderResponseI idx pool m =
     (if \<not> idx < length (mp_store pool) then Inl OutOfRange
      else let r = ob_object (mp_store pool ! idx) in
        case om_orders m (cr_trading_pair r) of
          None \<Rightarrow> Inr (pool, m)
        | Some _ \<Rightarrow>
            bind_result (MemPool_deallocate (int idx) pool) (\<lambda>pool1. Inr (pool1, OnOrderResponse r m)))"

section \<open>Backtesting\<close>

text \<open>The variant keeps its own \<open>next_order_id_\<close>, sends nothing, and an order is live at once.\<close>

record BacktestOrderManager =
  bt_base :: OrderManager
  bt_next_order_id :: OrderId

definition Backtest_NewOrder ::
    "ExchangeId \<Rightarrow> TradingPair \<Rightarrow> Price \<Rightarrow> Side \<Rightarrow> Qty \<Rightarrow> BacktestOrderManager \<Rightarrow> BacktestOrderManager" where
  "Backtest_NewOrder ex tp price side qty b =
     (let (ord, m1) = GetOrder tp side (bt_base b) in
      if OrderIsLive ord then b\<lparr>bt_base := m1\<rparr>
      else b\<lparr>bt_base := put_order tp side \<lparr>o_trading_pair = tp, o_order_id = bt_next_order_id b, o_side = side,
                        o_price = price, o_qty = qty, o_state = LIVE\<rparr> m1,
             bt_next_order_id := bt_next_order_id b + 1\<rparr>)"

definition Backtest_CancelOrder :: "ExchangeId \<Rightarrow> TradingPair \<Rightarrow> Side \<Rightarrow> BacktestOrderManager \<Rightarrow> BacktestOrderManager" where
  "Backtest_CancelOrder ex tp side b =
     (let (ord, m1) = GetOrder tp side (bt_base b)
      in b\<lparr>bt_base := put_order tp side (ord\<lparr>o_state := DEAD\<rparr>) m1\<rparr>)"

section \<open>Slots\<close>

definition om_inv :: "OrderManager \<Rightarrow> bool" where
  "om_inv m \<longleftrightarrow> (\<forall>tp row. om_orders m tp = Some row \<longrightarrow> length row = 4)"

definition slot :: "OrderManager \<Rightarrow> TradingPair \<Rightarrow> Side \<Rightarrow> OMOrder" where
  "slot m tp side = (case om_orders m tp of None \<Rightarrow> OMOrder_default | Some row \<Rightarrow> row ! sideToIndex side)"

lemma length_side_array [simp]: "length side_array = 4"
  by (simp add: side_array_def)

lemma side_array_nth [simp]: "side_array ! sideToIndex side = OMOrder_default"
  by (cases side) (simp_all add: side_array_def)

lemma GetOrder_slot:
  assumes "GetOrder tp side m = (ord, m1)"
  shows "ord = slot m tp side" "slot m1 = slot m" "om_orders m1 tp \<noteq> None" "om_inv m \<Longrightarrow> om_inv m1"
    "om_next_order_id m1 = om_next_order_id m" "om_sent_new m1 = om_sent_new m" "om_sent_cancel m1 = om_sent_cancel m"
  using assms
  by (auto simp: GetOrder_def slot_def om_inv_def fun_eq_iff split: option.splits if_splits)

lemma put_order_slot:
  assumes "om_inv m" and "om_orders m tp \<noteq> None"
  shows "slot (put_order tp side ord m) tp2 side2 = (if tp2 = tp \<and> side2 = side then ord else slot m tp2 side2)"
    "om_inv (put_order tp side ord m)"
  using assms sideToIndex_bound [of side]
  by (auto simp: put_order_def slot_def om_inv_def nth_list_update split: option.splits)

lemma put_order_frame [simp]:
  "om_next_order_id (put_order tp side ord m) = om_next_order_id m"
  "om_sent_new (put_order tp side ord m) = om_sent_new m"
  "om_sent_cancel (put_order tp side ord m) = om_sent_cancel m"
  by (simp_all add: put_order_def split: option.split)

lemma om_frame [simp]:
  "om_inv (m\<lparr>om_sent_new := a\<rparr>) = om_inv m" "slot (m\<lparr>om_sent_new := a\<rparr>) = slot m"
  "om_inv (m\<lparr>om_sent_cancel := b\<rparr>) = om_inv m" "slot (m\<lparr>om_sent_cancel := b\<rparr>) = slot m"
  "om_inv (m\<lparr>om_next_order_id := c\<rparr>) = om_inv m" "slot (m\<lparr>om_next_order_id := c\<rparr>) = slot m"
  by (simp_all add: om_inv_def slot_def fun_eq_iff)

lemma NewOrder_live:
  assumes "OrderIsLive (slot m tp side)"
  shows "slot (NewOrder ex tp price side qty m) = slot m"
    "om_sent_new (NewOrder ex tp price side qty m) = om_sent_new m"
    "om_next_order_id (NewOrder ex tp price side qty m) = om_next_order_id m"
proof -
  obtain ord m1 where g: "GetOrder tp side m = (ord, m1)" by force
  then show "slot (NewOrder ex tp price side qty m) = slot m"
    "om_sent_new (NewOrder ex tp price side qty m) = om_sent_new m"
    "om_next_order_id (NewOrder ex tp price side qty m) = om_next_order_id m"
    using GetOrder_slot [OF g] assms by (simp_all add: NewOrder_def)
qed

lemma NewOrder_free:
  assumes "om_inv m" and "\<not> OrderIsLive (slot m tp side)"
  shows "slot (NewOrder ex tp price side qty m) tp2 side2 =
       (if tp2 = tp \<and> side2 = side
        then \<lparr>o_trading_pair = tp, o_order_id = om_next_order_id m, o_side = side, o_price = price, o_qty = qty,
              o_state = PENDING_NEW\<rparr>
        else slot m tp2 side2)"
    "om_sent_new (NewOrder ex tp price side qty m) = om_sent_new m @
       [\<lparr>rn_exchange_id = ex, rn_type = NEW, rn_trading_pair = tp, rn_order_id = om_next_order_id m,
         rn_side = side, rn_price = price, rn_qty = qty\<rparr>]"
    "om_next_order_id (NewOrder ex tp price side qty m) = om_next_order_id m + 1"
proof -
  obtain ord m1 where g: "GetOrder tp side m = (ord, m1)" by force
  then show "slot (NewOrder ex tp price side qty m) tp2 side2 =
       (if tp2 = tp \<and> side2 = side
        then \<lparr>o_trading_pair = tp, o_order_id = om_next_order_id m, o_side = side, o_price = price, o_qty = qty,
              o_state = PENDING_NEW\<rparr>
        else slot m tp2 side2)"
    "om_sent_new (NewOrder ex tp price side qty m) = om_sent_new m @
       [\<lparr>rn_exchange_id = ex, rn_type = NEW, rn_trading_pair = tp, rn_order_id = om_next_order_id m,
         rn_side = side, rn_price = price, rn_qty = qty\<rparr>]"
    "om_next_order_id (NewOrder ex tp price side qty m) = om_next_order_id m + 1"
    using GetOrder_slot [OF g] assms put_order_slot [of "m1\<lparr>om_sent_new := x\<rparr>" for x]
    by (simp_all add: NewOrder_def Let_def)
qed

lemma NewOrder_inv:
  assumes "om_inv m"
  shows "om_inv (NewOrder ex tp price side qty m)"
proof -
  obtain ord m1 where g: "GetOrder tp side m = (ord, m1)" by force
  then show ?thesis
    using GetOrder_slot [OF g] assms put_order_slot(2) [of "m1\<lparr>om_sent_new := x\<rparr>" for x]
    by (simp add: NewOrder_def Let_def)
qed

lemma CancelOrder_result:
  assumes "om_inv m"
  shows "slot (CancelOrder ex tp side m) tp2 side2 =
       (if tp2 = tp \<and> side2 = side then (slot m tp side)\<lparr>o_state := PENDING_CANCEL\<rparr> else slot m tp2 side2)"
    "om_inv (CancelOrder ex tp side m)" "om_sent_new (CancelOrder ex tp side m) = om_sent_new m"
    "om_next_order_id (CancelOrder ex tp side m) = om_next_order_id m"
    "om_sent_cancel (CancelOrder ex tp side m) = om_sent_cancel m @
       [\<lparr>rc_exchange_id = ex, rc_type = CANCEL, rc_trading_pair = o_trading_pair (slot m tp side),
         rc_order_id = o_order_id (slot m tp side)\<rparr>]"
proof -
  obtain ord m1 where g: "GetOrder tp side m = (ord, m1)" by force
  note s = GetOrder_slot [OF g]
  show "slot (CancelOrder ex tp side m) tp2 side2 =
       (if tp2 = tp \<and> side2 = side then (slot m tp side)\<lparr>o_state := PENDING_CANCEL\<rparr> else slot m tp2 side2)"
    "om_inv (CancelOrder ex tp side m)" "om_sent_new (CancelOrder ex tp side m) = om_sent_new m"
    "om_next_order_id (CancelOrder ex tp side m) = om_next_order_id m"
    "om_sent_cancel (CancelOrder ex tp side m) = om_sent_cancel m @
       [\<lparr>rc_exchange_id = ex, rc_type = CANCEL, rc_trading_pair = o_trading_pair (slot m tp side),
         rc_order_id = o_order_id (slot m tp side)\<rparr>]"
    using g s assms put_order_slot [of "m1\<lparr>om_sent_cancel := x\<rparr>" for x]
    by (simp_all add: CancelOrder_def Let_def)
qed

lemma OnOrderResponse_result:
  assumes "om_inv m"
  shows "om_orders m (cr_trading_pair r) = None \<Longrightarrow> OnOrderResponse r m = m"
    "om_orders m (cr_trading_pair r) \<noteq> None \<Longrightarrow>
       slot (OnOrderResponse r m) tp2 side2 =
         (if tp2 = cr_trading_pair r \<and> side2 = cr_side r
          then respond (cr_type r) (cr_leaves_qty r) (slot m tp2 side2) else slot m tp2 side2)"
    "om_inv (OnOrderResponse r m)" "om_sent_new (OnOrderResponse r m) = om_sent_new m"
    "om_next_order_id (OnOrderResponse r m) = om_next_order_id m"
  using assms put_order_slot [OF assms, of "cr_trading_pair r" "cr_side r"]
  by (auto simp: OnOrderResponse_def slot_def [of m] split: option.split)

section \<open>At most one active order per pair and side\<close>

datatype om_op =
    OpNew ExchangeId TradingPair Price Side Qty
  | OpCancel ExchangeId TradingPair Side
  | OpResponse MEClientResponse

fun om_step :: "om_op \<Rightarrow> OrderManager \<Rightarrow> OrderManager" where
  "om_step (OpNew ex tp price side qty) m = NewOrder ex tp price side qty m"
| "om_step (OpCancel ex tp side) m = CancelOrder ex tp side m"
| "om_step (OpResponse r) m = OnOrderResponse r m"

definition om_run :: "om_op list \<Rightarrow> OrderManager \<Rightarrow> OrderManager" where
  "om_run ops m = fold om_step ops m"

text \<open>The operation sends a new order for the slot; the operation is a response that ends the
  slot's order.\<close>

fun sends :: "om_op \<Rightarrow> OrderManager \<Rightarrow> TradingPair \<Rightarrow> Side \<Rightarrow> bool" where
  "sends (OpNew ex tp price side qty) m tp2 side2 \<longleftrightarrow>
     tp = tp2 \<and> side = side2 \<and> om_sent_new (NewOrder ex tp price side qty m) \<noteq> om_sent_new m"
| "sends _ m tp2 side2 \<longleftrightarrow> False"

fun closes :: "om_op \<Rightarrow> TradingPair \<Rightarrow> Side \<Rightarrow> bool" where
  "closes (OpResponse r) tp side \<longleftrightarrow>
     cr_trading_pair r = tp \<and> cr_side r = side \<and>
     (cr_type r = CANCELED \<or> cr_type r = FILLED \<and> cr_leaves_qty r = 0)"
| "closes _ tp side \<longleftrightarrow> False"

lemma om_step_inv: "om_inv m \<Longrightarrow> om_inv (om_step opr m)"
  by (cases opr) (simp_all add: NewOrder_inv CancelOrder_result OnOrderResponse_result)

lemma om_run_inv: "om_inv m \<Longrightarrow> om_inv (om_run ops m)"
  unfolding om_run_def by (induction ops arbitrary: m) (simp_all add: om_step_inv)

lemma om_inv_new: "om_inv OrderManager_new"
  by (simp add: om_inv_def OrderManager_new_def)

lemma respond_live: "OrderIsLive ord \<Longrightarrow> \<not> (type = CANCELED \<or> type = FILLED \<and> leaves = 0) \<Longrightarrow>
    OrderIsLive (respond type leaves ord)"
  by (auto simp: respond_def OrderIsLive_def Let_def split: ClientResponseType.split)

lemma live_kept:
  assumes "om_inv m" and "OrderIsLive (slot m tp side)" and "\<not> closes opr tp side"
  shows "OrderIsLive (slot (om_step opr m) tp side)"
proof (cases opr)
  case (OpNew ex tp2 price side2 qty)
  then show ?thesis
    using assms NewOrder_live [of m tp2 side2] NewOrder_free [of m tp2 side2]
    by (cases "OrderIsLive (slot m tp2 side2)") (simp_all add: OrderIsLive_def)
next
  case (OpCancel ex tp2 side2)
  with assms show ?thesis by (auto simp: CancelOrder_result(1) OrderIsLive_def)
next
  case (OpResponse r)
  show ?thesis
  proof (cases "om_orders m (cr_trading_pair r) = None")
    case True
    with OpResponse assms show ?thesis by (simp add: OnOrderResponse_result(1))
  next
    case False
    have "OrderIsLive (respond (cr_type r) (cr_leaves_qty r) (slot m tp side))"
      if "tp = cr_trading_pair r" "side = cr_side r"
      using that assms(2,3) OpResponse by (intro respond_live) simp_all
    with OpResponse assms(2) OnOrderResponse_result(2) [OF assms(1) False] show ?thesis by auto
  qed
qed

lemma live_kept_run:
  "om_inv m \<Longrightarrow> OrderIsLive (slot m tp side) \<Longrightarrow> \<not> (\<exists>c \<in> set ops. closes c tp side) \<Longrightarrow>
   OrderIsLive (slot (om_run ops m) tp side)"
  unfolding om_run_def
  by (induction ops arbitrary: m) (simp_all add: om_step_inv live_kept)

lemma sends_iff_dead: "om_inv m \<Longrightarrow> sends opr m tp side \<Longrightarrow>
    \<not> OrderIsLive (slot m tp side) \<and> OrderIsLive (slot (om_step opr m) tp side)"
proof (cases opr)
  case (OpNew ex tp2 price side2 qty)
  assume "om_inv m" and "sends opr m tp side"
  moreover from this OpNew NewOrder_live(2) [of m tp side] have "\<not> OrderIsLive (slot m tp side)" by auto
  ultimately show ?thesis
    using OpNew NewOrder_free(1) [of m tp side] by (simp add: OrderIsLive_def)
qed simp_all

text \<open>C28: between two new orders that the manager sends for the same trading pair and side, in any
  sequence of requests, cancellations and responses, lies a response for that pair and side that
  ends the first one: a cancellation or a complete fill.  So the manager never has two orders of a
  pair and side underway.\<close>

theorem one_active_order:
  assumes "sends first (om_run before OrderManager_new) tp side"
    and "sends second (om_run (before @ [first] @ mid) OrderManager_new) tp side"
  shows "\<exists>c \<in> set mid. closes c tp side"
proof (rule ccontr)
  assume no: "\<not> (\<exists>c \<in> set mid. closes c tp side)"
  let ?m = "om_run before OrderManager_new"
  have inv: "om_inv ?m" by (simp add: om_run_inv om_inv_new)
  have "OrderIsLive (slot (om_step first ?m) tp side)" using sends_iff_dead [OF inv assms(1)] by blast
  then have "OrderIsLive (slot (om_run mid (om_step first ?m)) tp side)"
    using live_kept_run [OF om_step_inv [OF inv] _ no] by blast
  moreover have "om_run (before @ [first] @ mid) OrderManager_new = om_run mid (om_step first ?m)"
    by (simp add: om_run_def)
  ultimately show False
    using sends_iff_dead [OF om_run_inv [OF om_inv_new] assms(2)] by simp
qed

text \<open>The order ids the manager sends are 1, 2, 3, ... in the order of the requests; they are
  pairwise different as long as fewer than \<open>2^64\<close> orders are sent.\<close>

theorem order_ids_consecutive:
  fixes ops :: "om_op list"
  defines "m \<equiv> om_run ops OrderManager_new"
  shows "List.map rn_order_id (om_sent_new m) = List.map of_nat [1..<Suc (length (om_sent_new m))] \<and>
         (length (om_sent_new m) < 2 ^ 64 \<longrightarrow> distinct (List.map rn_order_id (om_sent_new m)))"
proof -
  have step: "om_inv m \<Longrightarrow> om_next_order_id m = of_nat (Suc (length (om_sent_new m))) \<Longrightarrow>
      List.map rn_order_id (om_sent_new m) = List.map of_nat [1..<Suc (length (om_sent_new m))] \<Longrightarrow>
      om_next_order_id (om_step opr m) = of_nat (Suc (length (om_sent_new (om_step opr m)))) \<and>
      List.map rn_order_id (om_sent_new (om_step opr m)) =
        List.map of_nat [1..<Suc (length (om_sent_new (om_step opr m)))]" for m opr
  proof (cases opr)
    case (OpNew ex tp price side qty)
    assume "om_inv m" and "om_next_order_id m = of_nat (Suc (length (om_sent_new m)))"
      and "List.map rn_order_id (om_sent_new m) = List.map of_nat [1..<Suc (length (om_sent_new m))]"
    with OpNew NewOrder_live [of m tp side] NewOrder_free [of m tp side] show ?thesis
      by (cases "OrderIsLive (slot m tp side)") simp_all
  qed (simp_all add: CancelOrder_result OnOrderResponse_result)
  have run: "om_inv m \<Longrightarrow> om_next_order_id m = of_nat (Suc (length (om_sent_new m))) \<Longrightarrow>
      List.map rn_order_id (om_sent_new m) = List.map of_nat [1..<Suc (length (om_sent_new m))] \<Longrightarrow>
      List.map rn_order_id (om_sent_new (om_run ops m)) =
        List.map of_nat [1..<Suc (length (om_sent_new (om_run ops m)))]" for m
    unfolding om_run_def
  proof (induction ops arbitrary: m)
    case (Cons opr ops)
    with step [OF Cons.prems] om_step_inv [OF Cons.prems(1)] show ?case by simp
  qed simp
  have ids: "List.map rn_order_id (om_sent_new m) = List.map of_nat [1..<Suc (length (om_sent_new m))]"
    unfolding m_def by (rule run) (simp_all add: om_inv_new, simp_all add: OrderManager_new_def)
  moreover have "distinct (List.map rn_order_id (om_sent_new m))" if "length (om_sent_new m) < 2 ^ 64"
    unfolding ids distinct_map
  proof (intro conjI inj_onI)
    fix x y
    assume "x \<in> set [1..<Suc (length (om_sent_new m))]" "y \<in> set [1..<Suc (length (om_sent_new m))]"
      and eq: "(of_nat x :: OrderId) = of_nat y"
    then have "x < 2 ^ 64" "y < 2 ^ 64" using that by auto
    then have "take_bit 64 x = x" "take_bit 64 y = y" by (simp_all add: take_bit_nat_eq_self_iff)
    then show "x = y" using eq by (simp add: word_of_nat_eq_iff)
  qed simp
  ultimately show ?thesis by simp
qed

theorem order_ids_consecutive_witness:
  "distinct (List.map rn_order_id (om_sent_new (om_run
     [OpNew kBinance \<lparr>tp_first = 1, tp_second = 2\<rparr> 10 kAsk 1, OpNew kBinance \<lparr>tp_first = 1, tp_second = 2\<rparr> 10 kBid 1]
     OrderManager_new)))"
proof -
  let ?ops = "[OpNew kBinance \<lparr>tp_first = 1, tp_second = 2\<rparr> 10 kAsk 1,
               OpNew kBinance \<lparr>tp_first = 1, tp_second = 2\<rparr> 10 kBid 1]"
  have "length (om_sent_new (om_run ?ops OrderManager_new)) = 2"
    by (simp add: om_run_def NewOrder_def GetOrder_def put_order_def OrderManager_new_def OrderIsLive_def
        side_array_def OMOrder_default_def Let_def)
  then have "length (om_sent_new (om_run ?ops OrderManager_new)) < 2 ^ 64" by simp
  with order_ids_consecutive [of ?ops] show ?thesis by blast
qed

theorem one_active_order_witness:
  "let tp = \<lparr>tp_first = 1, tp_second = 2\<rparr>;
       new = OpNew kBinance tp 10 kAsk 1;
       fill = OpResponse \<lparr>cr_exchange_id = kBinance, cr_type = FILLED, cr_trading_pair = tp, cr_order_id = 1,
                cr_side = kAsk, cr_price = 10, cr_exec_qty = 1, cr_leaves_qty = 0\<rparr>
   in sends new (om_run [] OrderManager_new) tp kAsk \<and>
      sends new (om_run ([] @ [new] @ [fill]) OrderManager_new) tp kAsk \<and>
      (\<exists>c \<in> set [fill]. closes c tp kAsk)"
proof -
  let ?tp = "\<lparr>tp_first = 1, tp_second = 2\<rparr>"
  let ?new = "OpNew kBinance ?tp 10 kAsk 1"
  let ?fill = "OpResponse \<lparr>cr_exchange_id = kBinance, cr_type = FILLED, cr_trading_pair = ?tp, cr_order_id = 1,
                cr_side = kAsk, cr_price = 10, cr_exec_qty = 1, cr_leaves_qty = 0\<rparr>"
  have 1: "sends ?new (om_run [] OrderManager_new) ?tp kAsk"
    by (simp add: om_run_def NewOrder_def GetOrder_def put_order_def OrderManager_new_def OrderIsLive_def
        side_array_def OMOrder_default_def Let_def)
  have 2: "sends ?new (om_run ([] @ [?new] @ [?fill]) OrderManager_new) ?tp kAsk"
    by (simp add: om_run_def NewOrder_def GetOrder_def put_order_def OrderManager_new_def OrderIsLive_def
        side_array_def OMOrder_default_def Let_def OnOrderResponse_def respond_def)
  from one_active_order [OF 1 2] 1 2 show ?thesis by (simp add: Let_def)
qed

section \<open>Cancellations\<close>

text \<open>A cancellation for a pair and side without an active order blocks the slot: the manager
  asks the exchange to cancel the invalid order id and marks the slot as pending, so that every
  later new order for it is refused until a cancellation or a fill arrives.\<close>

theorem CancelOrder_blocks_slot:
  fixes m :: OrderManager and tp :: TradingPair
  assumes "om_inv m" and "\<not> (\<exists>c \<in> set ops. closes c tp side)"
  shows "\<not> sends (OpNew ex2 tp price side qty) (om_run ops (CancelOrder ex tp side m)) tp side"
proof -
  have "om_inv (CancelOrder ex tp side m)" "OrderIsLive (slot (CancelOrder ex tp side m) tp side)"
    using assms(1) by (simp_all add: CancelOrder_result OrderIsLive_def)
  from live_kept_run [OF this assms(2)] show ?thesis by (simp add: NewOrder_live)
qed

theorem CancelOrder_blocks_slot_witness:
  "\<not> sends (OpNew kBinance \<lparr>tp_first = 1, tp_second = 2\<rparr> 10 kAsk 1)
     (om_run [] (CancelOrder kBinance \<lparr>tp_first = 1, tp_second = 2\<rparr> kAsk OrderManager_new))
     \<lparr>tp_first = 1, tp_second = 2\<rparr> kAsk"
  using CancelOrder_blocks_slot [OF om_inv_new, of "[]" "\<lparr>tp_first = 1, tp_second = 2\<rparr>" kAsk kBinance 10 1 kBinance]
  by simp

end
