(* ===== verification/Wallet.thy ===== *)
theory Wallet
  imports Order_Manager
begin

text \<open>
  The wallet of aot/wallet_asset.h and src/wallet_asset.cpp: the amount of every ticker (a double),
  the amounts reserved for orders, the responses that release or credit them, and the wallets of
  several exchanges.  \<open>rnd\<close> is the rounding of double arithmetic.
\<close>

section \<open>One wallet\<close>

record ReservedForTicker =
  reserved_ticker :: TickerId
  reserved_qty :: Qty

definition ReservedForTicker_default :: ReservedForTicker where
  "ReservedForTicker_default = \<lparr>reserved_ticker = kTickerIdInvalid, reserved_qty = kQtyInvalid\<rparr>"

record Wallet =
  w_assets :: "TickerId \<rightharpoonup> rat"
  w_reserves :: "OrderId \<rightharpoonup> ReservedForTicker"

definition Wallet_new :: Wallet where
  "Wallet_new = \<lparr>w_assets = Map.empty, w_reserves = Map.empty\<rparr>"

definition InitTicker :: "TickerId \<Rightarrow> Wallet \<Rightarrow> Wallet" where
  "InitTicker t w = (case w_assets w t of None \<Rightarrow> w\<lparr>w_assets := (w_assets w)(t \<mapsto> 0)\<rparr> | Some _ \<Rightarrow> w)"

text \<open>\<open>at(t) += qty\<close>; \<open>at\<close> throws for a missing key.\<close>

definition credit :: "rounding \<Rightarrow> TickerId \<Rightarrow> Qty \<Rightarrow> Wallet \<Rightarrow> Wallet result" where
  "credit rnd t qty w =
     (case w_assets w t of
        None \<Rightarrow> Inl OutOfRange
      | Some x \<Rightarrow> Inr (w\<lparr>w_assets := (w_assets w)(t \<mapsto> fadd rnd x (double_of_u64 rnd qty))\<rparr>))"

definition CanReserve :: "rounding \<Rightarrow> TickerId \<Rightarrow> Qty \<Rightarrow> Wallet \<Rightarrow> bool \<times> Wallet" where
  "CanReserve rnd t qty w =
     (let w1 = InitTicker t w in (the (w_assets w1 t) \<ge> double_of_u64 rnd qty, w1))"

definition Reserve :: "rounding \<Rightarrow> OrderId \<Rightarrow> TickerId \<Rightarrow> Qty \<Rightarrow> Wallet \<Rightarrow> bool \<times> Wallet" where
  "Reserve rnd oid t qty w =
     (let (ok, w1) = CanReserve rnd t qty w in
      if \<not> ok then (False, w1)
      else (True, w1\<lparr>w_reserves := (w_reserves w1)(oid \<mapsto> \<lparr>reserved_ticker = t, reserved_qty = qty\<rparr>),
                     w_assets := (w_assets w1)(t \<mapsto> fsub rnd (the (w_assets w1 t)) (double_of_u64 rnd qty))\<rparr>))"

definition erase_reserve :: "OrderId \<Rightarrow> Wallet \<Rightarrow> Wallet" where
  "erase_reserve oid w = w\<lparr>w_reserves := (w_reserves w)(oid := None)\<rparr>"

definition Update :: "rounding \<Rightarrow> MEClientResponse \<Rightarrow> Wallet \<Rightarrow> Wallet result" where
  "Update rnd r w =
     (case cr_type r of
        ACCEPTED \<Rightarrow> Inr (erase_reserve (cr_order_id r) w)
      | CANCEL_REJECTED \<Rightarrow> Inr (erase_reserve (cr_order_id r) w)
      | CANCELED \<Rightarrow>
          (let local_reserved = (case w_reserves w (cr_order_id r) of
                                   None \<Rightarrow> ReservedForTicker_default | Some x \<Rightarrow> x)
           in bind_result (credit rnd (reserved_ticker local_reserved) (reserved_qty local_reserved) w)
                (\<lambda>w1. Inr (erase_reserve (cr_order_id r) w1)))
      | FILLED \<Rightarrow>
          (let w1 = erase_reserve (cr_order_id r) w in
           if cr_side r = kAsk
           then let t = tp_first (cr_trading_pair r) in credit rnd t (cr_exec_qty r) (InitTicker t w1)
           else if cr_side r = kBid
           then let t = tp_second (cr_trading_pair r) in credit rnd t (cr_exec_qty r) (InitTicker t w1)
           else Inr w1)
      | RESP_INVALID \<Rightarrow>
          (case w_reserves w (cr_order_id r) of
             None \<Rightarrow> Inr w
           | Some local_reserved \<Rightarrow>
               bind_result (credit rnd (reserved_ticker local_reserved) (reserved_qty local_reserved) w)
                 (\<lambda>w1. Inr (erase_reserve (cr_order_id r) w1))))"

section \<open>The wallets of the exchanges\<close>

type_synonym exchange_wallets = "ExchangeId \<rightharpoonup> Wallet"

definition Wallets_At :: "ExchangeId \<Rightarrow> exchange_wallets \<Rightarrow> Wallet option" where
  "Wallets_At ex ws = ws ex"

definition InitWallets :: "ExchangeId list \<Rightarrow> exchange_wallets \<Rightarrow> exchange_wallets" where
  "InitWallets ids ws = fold (\<lambda>i ws. case ws i of None \<Rightarrow> ws(i \<mapsto> Wallet_new) | Some _ \<Rightarrow> ws) ids ws"

definition Wallets_Update :: "rounding \<Rightarrow> MEClientResponse \<Rightarrow> exchange_wallets \<Rightarrow> exchange_wallets result" where
  "Wallets_Update rnd r ws =
     (if cr_exchange_id r = kExchangeIdInvalid then Inr ws
      else case ws (cr_exchange_id r) of
        None \<Rightarrow> Inr ws
      | Some w \<Rightarrow> bind_result (Update rnd r w) (\<lambda>w1. Inr (ws(cr_exchange_id r \<mapsto> w1))))"

definition Wallets_CanReserve :: "rounding \<Rightarrow> ExchangeId \<Rightarrow> TickerId \<Rightarrow> Qty \<Rightarrow> exchange_wallets \<Rightarrow> bool \<times> exchange_wallets" where
  "Wallets_CanReserve rnd ex t qty ws =
     (case ws ex of
        None \<Rightarrow> (False, ws)
      | Some w \<Rightarrow> (let (ok, w1) = CanReserve rnd t qty w in (ok, ws(ex \<mapsto> w1))))"

definition Wallets_Reserve ::
    "rounding \<Rightarrow> ExchangeId \<Rightarrow> OrderId \<Rightarrow> TickerId \<Rightarrow> Qty \<Rightarrow> exchange_wallets \<Rightarrow> bool \<times> exchange_wallets" where
  "Wallets_Reserve rnd ex oid t qty ws =
     (case ws ex of
        None \<Rightarrow> (False, ws)
      | Some w \<Rightarrow> (let (ok, w1) = Reserve rnd oid t qty w in (ok, ws(ex \<mapsto> w1))))"

record BusEventReserveQty =
  rq_exchange_id :: ExchangeId
  rq_order_id :: OrderId
  rq_ticker_id :: TickerId
  rq_qty :: Qty

definition Wallet_OnNewSignal :: "rounding \<Rightarrow> BusEventReserveQty \<Rightarrow> exchange_wallets \<Rightarrow> bool \<times> exchange_wallets" where
  "Wallet_OnNewSignal rnd e ws =
     (if rq_exchange_id e = kExchangeIdInvalid then (False, ws)
      else Wallets_Reserve rnd (rq_exchange_id e) (rq_order_id e) (rq_ticker_id e) (rq_qty e) ws)"

section \<open>Balances stay non-negative\<close>

definition wallet_nonneg :: "Wallet \<Rightarrow> bool" where
  "wallet_nonneg w \<longleftrightarrow> (\<forall>t x. w_assets w t = Some x \<longrightarrow> 0 \<le> x)"

lemma InitTicker_nonneg: "wallet_nonneg w \<Longrightarrow> wallet_nonneg (InitTicker t w)"
  by (auto simp: wallet_nonneg_def InitTicker_def split: option.split)

lemma credit_nonneg:
  assumes "ieee_rounding rnd" and "wallet_nonneg w" and "credit rnd t q w = Inr w1"
  shows "wallet_nonneg w1"
proof -
  have "0 \<le> fadd rnd x (double_of_u64 rnd q)" if "0 \<le> x" for x
    using ieee_mono [OF assms(1), of 0 "x + double_of_u64 rnd q"] that double_of_u64_nonneg [OF assms(1), of q]
    by (simp add: fadd_def assms(1))
  with assms(2,3) show ?thesis by (auto simp: credit_def wallet_nonneg_def split: option.splits if_splits)
qed

lemma erase_reserve_nonneg [simp]: "wallet_nonneg (erase_reserve oid w) = wallet_nonneg w"
  by (simp add: wallet_nonneg_def erase_reserve_def)

lemma Reserve_nonneg:
  assumes "ieee_rounding rnd" and "wallet_nonneg w"
  shows "wallet_nonneg (snd (Reserve rnd oid t q w))"
proof -
  have w1: "wallet_nonneg (InitTicker t w)" using assms(2) by (rule InitTicker_nonneg)
  have "0 \<le> fsub rnd x (double_of_u64 rnd q)" if "double_of_u64 rnd q \<le> x" for x
    using ieee_mono [OF assms(1), of 0 "x - double_of_u64 rnd q"] that by (simp add: fsub_def assms(1))
  with w1 show ?thesis by (auto simp: Reserve_def CanReserve_def Let_def wallet_nonneg_def)
qed

datatype wallet_op = WReserve OrderId TickerId Qty | WCanReserve TickerId Qty | WUpdate MEClientResponse

fun wallet_step :: "rounding \<Rightarrow> wallet_op \<Rightarrow> Wallet \<Rightarrow> Wallet result" where
  "wallet_step rnd (WReserve oid t q) w = Inr (snd (Reserve rnd oid t q w))"
| "wallet_step rnd (WCanReserve t q) w = Inr (snd (CanReserve rnd t q w))"
| "wallet_step rnd (WUpdate r) w = Update rnd r w"

lemma Update_nonneg:
  assumes "ieee_rounding rnd" and "wallet_nonneg w" and "Update rnd r w = Inr w1"
  shows "wallet_nonneg w1"
proof -
  show ?thesis
  proof (cases "cr_type r")
    case FILLED
    with assms(2,3) show ?thesis
      by (auto simp: Update_def Let_def InitTicker_nonneg split: if_splits elim!: credit_nonneg [OF assms(1), rotated])
  qed (use assms(2,3) in \<open>auto simp: Update_def Let_def bind_result_Inr_iff
         split: option.splits intro: credit_nonneg [OF assms(1)]\<close>)
qed

lemma wallet_step_nonneg:
  "ieee_rounding rnd \<Longrightarrow> wallet_nonneg w \<Longrightarrow> wallet_step rnd opr w = Inr w1 \<Longrightarrow> wallet_nonneg w1"
  by (cases opr) (auto simp: Reserve_nonneg CanReserve_def Let_def InitTicker_nonneg intro: Update_nonneg)

text \<open>C26: no sequence of reservations and exchange responses makes a balance negative, whatever the
  rounding mode of the double arithmetic: a reservation is taken only when the balance covers it,
  and responses only add.\<close>

theorem wallet_never_negative:
  assumes "ieee_rounding rnd" and "fold_result (wallet_step rnd) ops Wallet_new = Inr w"
  shows "\<forall>t x. w_assets w t = Some x \<longrightarrow> 0 \<le> x"
proof -
  have "wallet_nonneg w0 \<Longrightarrow> fold_result (wallet_step rnd) ops w0 = Inr w \<Longrightarrow> wallet_nonneg w" for w0
    using wallet_step_nonneg [OF assms(1)]
    by (induction ops arbitrary: w0) (auto simp: bind_result_Inr_iff)
  from this [of Wallet_new] assms(2) show ?thesis by (simp add: wallet_nonneg_def Wallet_new_def)
qed

section \<open>Reservations\<close>

lemma Reserve_exact:
  assumes ieee: "ieee_rounding rnd" and bal: "w_assets w t = Some (of_nat n)" "n \<le> 2 ^ 53"
  shows "unat q \<le> n \<Longrightarrow> Reserve rnd oid t q w =
     (True, w\<lparr>w_reserves := (w_reserves w)(oid \<mapsto> \<lparr>reserved_ticker = t, reserved_qty = q\<rparr>),
              w_assets := (w_assets w)(t \<mapsto> of_nat (n - unat q))\<rparr>)"
    and "unat q > n \<Longrightarrow> unat q \<le> 2 ^ 53 \<Longrightarrow> Reserve rnd oid t q w = (False, w)"
proof -
  have init: "InitTicker t w = w" using bal by (simp add: InitTicker_def)
  define m where "m = unat q"
  show "Reserve rnd oid t q w =
     (True, w\<lparr>w_reserves := (w_reserves w)(oid \<mapsto> \<lparr>reserved_ticker = t, reserved_qty = q\<rparr>),
              w_assets := (w_assets w)(t \<mapsto> of_nat (n - unat q))\<rparr>)" if q: "unat q \<le> n"
  proof -
    have "m \<le> n" using q by (simp add: m_def)
    moreover from this have "double_of_u64 rnd q = of_nat m"
      using ieee_nat [OF ieee, of m] bal(2) by (simp only: double_of_u64_def m_def)
    moreover have "fsub rnd (of_nat n) (of_nat m) = of_nat (n - m)"
      using ieee_nat [OF ieee, of "n - m"] \<open>m \<le> n\<close> bal(2) by (simp add: fsub_def of_nat_diff)
    ultimately show ?thesis using init bal(1) by (simp add: Reserve_def CanReserve_def flip: m_def)
  qed
  show "Reserve rnd oid t q w = (False, w)" if "unat q > n" "unat q \<le> 2 ^ 53"
  proof -
    have "double_of_u64 rnd q = of_nat m"
      using ieee_nat [OF ieee that(2)] by (simp only: double_of_u64_def m_def)
    with init bal(1) that(1) show ?thesis by (simp add: Reserve_def CanReserve_def flip: m_def)
  qed
qed

text \<open>Reserving and cancelling is a round trip.  For a whole balance of at most \<open>2^53\<close> units (which
  a double holds exactly) and an order id without a reservation, a reservation the balance covers
  takes exactly its quantity, and the cancellation of that order restores the wallet; a
  reservation the balance does not cover changes nothing.\<close>

theorem reserve_cancel_roundtrip:
  assumes ieee: "ieee_rounding rnd" and bal: "w_assets w t = Some (of_nat n)" "n \<le> 2 ^ 53"
    and fresh: "w_reserves w oid = None" and resp: "cr_type r = CANCELED" "cr_order_id r = oid"
    and q53: "unat q \<le> 2 ^ 53"
  shows "(unat q \<le> n \<longrightarrow> fst (Reserve rnd oid t q w) \<and>
            w_assets (snd (Reserve rnd oid t q w)) t = Some (of_nat (n - unat q)) \<and>
            Update rnd r (snd (Reserve rnd oid t q w)) = Inr w) \<and>
         (unat q > n \<longrightarrow> Reserve rnd oid t q w = (False, w))"
proof (intro conjI impI)
  assume q: "unat q \<le> n"
  note res = Reserve_exact(1) [OF ieee bal q]
  show "fst (Reserve rnd oid t q w)" "w_assets (snd (Reserve rnd oid t q w)) t = Some (of_nat (n - unat q))"
    by (simp_all add: res)
  define m where "m = unat q"
  have "double_of_u64 rnd q = of_nat m"
    using ieee_nat [OF ieee q53] by (simp only: double_of_u64_def m_def)
  moreover have "fadd rnd (of_nat (n - m)) (of_nat m) = of_nat n"
    using ieee_nat [OF ieee bal(2)] q by (simp add: fadd_def of_nat_diff flip: m_def)
  ultimately show "Update rnd r (snd (Reserve rnd oid t q w)) = Inr w"
    using resp fresh bal(1)
    by (simp add: res Update_def credit_def erase_reserve_def Let_def fun_upd_idem flip: m_def)
next
  assume "unat q > n"
  then show "Reserve rnd oid t q w = (False, w)" using Reserve_exact(2) [OF ieee bal] q53 by blast
qed

text \<open>cancelling an order that was accepted throws.  \<open>ACCEPTED\<close> erases the reservation, so that a
  later \<open>CANCELED\<close> of the same order works on a default entry, whose ticker is the invalid id, and
  \<open>at\<close> throws \<open>std::out_of_range\<close>: the reserved amount is never given back.\<close>

theorem cancel_after_accept_throws:
  assumes "cr_type acc = ACCEPTED" and "cr_order_id acc = oid" and "cr_type can = CANCELED" and "cr_order_id can = oid"
    and "w_assets w kTickerIdInvalid = None"
  shows "bind_result (Update rnd acc w) (Update rnd can) = Inl OutOfRange"
  using assms
  by (simp add: Update_def erase_reserve_def credit_def Let_def ReservedForTicker_default_def)

definition demo_response :: "ClientResponseType \<Rightarrow> MEClientResponse" where
  "demo_response ty = \<lparr>cr_exchange_id = kBinance, cr_type = ty, cr_trading_pair = \<lparr>tp_first = 1, tp_second = 2\<rparr>,
     cr_order_id = 7, cr_side = kAsk, cr_price = 10, cr_exec_qty = 4, cr_leaves_qty = 0\<rparr>"

theorem wallet_never_negative_witness:
  "\<exists>w. fold_result (wallet_step (\<lambda>x. x)) [WUpdate (demo_response FILLED), WReserve 8 1 3] Wallet_new = Inr w \<and>
       w_assets w 1 = Some 1 \<and> (\<forall>t x. w_assets w t = Some x \<longrightarrow> 0 \<le> x)"
proof -
  let ?ops = "[WUpdate (demo_response FILLED), WReserve 8 1 3]"
  obtain w where "fold_result (wallet_step (\<lambda>x. x)) ?ops Wallet_new = Inr w" and "w_assets w 1 = Some 1"
    by (simp add: demo_response_def Wallet_new_def Update_def erase_reserve_def InitTicker_def credit_def Reserve_def
        CanReserve_def Let_def double_of_u64_def fadd_def fsub_def)
  with wallet_never_negative [OF ieee_rounding_id, of ?ops w] show ?thesis by blast
qed

theorem reserve_cancel_roundtrip_witness:
  "Update (\<lambda>x. x) (demo_response CANCELED)
     (snd (Reserve (\<lambda>x. x) 7 1 3 (Wallet_new\<lparr>w_assets := [1 \<mapsto> 10]\<rparr>))) = Inr (Wallet_new\<lparr>w_assets := [1 \<mapsto> 10]\<rparr>)"
  using reserve_cancel_roundtrip [OF ieee_rounding_id, of "Wallet_new\<lparr>w_assets := [1 \<mapsto> 10]\<rparr>" 1 10 7
      "demo_response CANCELED" 3]
  by (simp add: Wallet_new_def demo_response_def)

theorem cancel_after_accept_throws_witness:
  "bind_result (Update (\<lambda>x. x) (demo_response ACCEPTED) (snd (Reserve (\<lambda>x. x) 7 1 3 (Wallet_new\<lparr>w_assets := [1 \<mapsto> 10]\<rparr>))))
     (Update (\<lambda>x. x) (demo_response CANCELED)) = Inl OutOfRange"
  by (rule cancel_after_accept_throws [where oid = 7])
    (simp_all add: demo_response_def Wallet_new_def Reserve_def CanReserve_def InitTicker_def Let_def kTickerIdInvalid_def)

end
