(* ===== verification/Order_Book.thy ===== *)
theory Order_Book
  imports Market_Data
begin

text \<open>
  The limit order book \<open>Trading::MarketOrderBook2\<close> (aot/strategy/market_order_book.h,
  src/market_order_book.cpp) and the data of aot/strategy/market_order.h.

  Each side of the book keeps its price levels twice: in a hash map from price to level and in
  an intrusive AVL tree ordered by price.  The level objects live in a memory pool and are
  changed through the pointer found in the hash map, so the model keeps an explicit heap of
  levels; the hash map and the tree hold addresses.  The four members of a side (hash map,
  tree, pool, and the heap of its pool) form the record \<open>book_side\<close>; the class has one for the
  bids and one for the asks.

  \<^item> \<open>boost::intrusive::avltree\<close> is the argument \<open>av\<close>, and \<open>avltree_spec\<close> what the code relies
    on of it; \<open>list_avl\<close> shows that it can hold.
  \<^item> The hash map is an association list.  \<open>at\<close> of a missing price gives the null pointer.
    The order in which \<open>ClearOrderBook\<close> visits the hash map only decides in which order blocks
    return to the pool.
  \<^item> The level order is a parameter \<open>before\<close>: \<open>(>)\<close> for the bids and \<open>(<)\<close> for the asks.
  \<^item> The arguments of log statements are not evaluated by the model.
\<close>

section \<open>Orders, levels and the best bid and offer\<close>

record MarketOrder =
  mo_order_id :: OrderId
  mo_side :: Side
  mo_price :: Price
  mo_qty :: Qty

record MarketOrdersAtPrice =
  moap_side :: Side
  moap_price :: Price
  moap_first_mkt_order :: MarketOrder

definition MarketOrder_toString :: "MarketOrder \<Rightarrow> string" where
  "MarketOrder_toString o1 =
     ''MarketOrder[oid:'' @ orderIdToString (mo_order_id o1) @ '' side:'' @ sideToString (mo_side o1)
       @ '' price:'' @ priceToString (mo_price o1) @ '' qty:'' @ qtyToString (mo_qty o1) @ '']''"

definition MarketOrdersAtPrice_toString :: "MarketOrdersAtPrice \<Rightarrow> string" where
  "MarketOrdersAtPrice_toString l =
     ''MarketOrdersAtPrice[side:'' @ sideToString (moap_side l) @ '' price:'' @
     priceToString (moap_price l) @ '' first_mkt_order:'' @
     MarketOrder_toString (moap_first_mkt_order l) @ '']''"

record BBO =
  bid_price :: Price
  ask_price :: Price
  bid_qty :: Qty
  ask_qty :: Qty

definition BBO_default :: BBO where
  "BBO_default = \<lparr>bid_price = kPriceInvalid, ask_price = kPriceInvalid,
                  bid_qty = kQtyInvalid, ask_qty = kQtyInvalid\<rparr>"

definition BBO_ToString :: "BBO \<Rightarrow> string" where
  "BBO_ToString b =
     ''BBO{'' @ qtyToString (bid_qty b) @ ''@'' @ priceToString (bid_price b) @ ''X'' @
     priceToString (ask_price b) @ ''@'' @ qtyToString (ask_qty b) @ ''}''"

text \<open>\<open>std::round\<close> rounds halves away from zero; its argument here is not negative.  The sums and
  products are of type \<open>uint64_t\<close> and wrap.\<close>

definition GetWeightedPrice :: "rounding \<Rightarrow> BBO \<Rightarrow> Price" where
  "GetWeightedPrice rnd b =
     (if bid_qty b + ask_qty b = 0 then kPriceInvalid
      else let num = bid_price b * bid_qty b + ask_price b * ask_qty b;
               x = fdiv rnd (double_of_u64 rnd num) (double_of_u64 rnd (bid_qty b + ask_qty b))
           in word_of_int (\<lfloor>x + 1 / 2\<rfloor>))"

section \<open>The AVL tree\<close>

record 't avl_ops =
  avl_empty :: 't
  avl_insert_equal :: "(addr \<Rightarrow> addr \<Rightarrow> bool) \<Rightarrow> addr \<Rightarrow> 't \<Rightarrow> 't"
  avl_erase :: "(addr \<Rightarrow> addr \<Rightarrow> bool) \<Rightarrow> addr \<Rightarrow> 't \<Rightarrow> 't"
  avl_count :: "(addr \<Rightarrow> addr \<Rightarrow> bool) \<Rightarrow> addr \<Rightarrow> 't \<Rightarrow> nat"
  avl_size :: "'t \<Rightarrow> nat"
  avl_seq :: "'t \<Rightarrow> addr list"    \<comment> \<open>the nodes from \<open>begin()\<close> to \<open>end()\<close>\<close>

definition strict_weak :: "(addr \<Rightarrow> addr \<Rightarrow> bool) \<Rightarrow> bool" where
  "strict_weak lt \<longleftrightarrow> (\<forall>x. \<not> lt x x) \<and> (\<forall>x y z. lt x y \<longrightarrow> lt y z \<longrightarrow> lt x z) \<and>
     (\<forall>x y z. lt x z \<longrightarrow> lt x y \<or> lt y z)"

text \<open>The documented behaviour of \<open>insert_equal\<close> (the node goes before the upper bound of its
  key), \<open>erase(key)\<close> (every equivalent node is removed), \<open>count\<close> and \<open>size\<close>, for a strict weak
  ordering by which the tree is sorted.\<close>

definition avltree_spec :: "'t avl_ops \<Rightarrow> bool" where
  "avltree_spec av \<longleftrightarrow>
     avl_seq av (avl_empty av) = [] \<and>
     (\<forall>t. avl_size av t = length (avl_seq av t)) \<and>
     (\<forall>lt x t. strict_weak lt \<longrightarrow> sorted_wrt (\<lambda>a b. \<not> lt b a) (avl_seq av t) \<longrightarrow>
        avl_seq av (avl_insert_equal av lt x t) =
          takeWhile (\<lambda>y. \<not> lt x y) (avl_seq av t) @ x # dropWhile (\<lambda>y. \<not> lt x y) (avl_seq av t) \<and>
        avl_seq av (avl_erase av lt x t) = filter (\<lambda>y. lt x y \<or> lt y x) (avl_seq av t) \<and>
        avl_count av lt x t = length (filter (\<lambda>y. \<not> lt x y \<and> \<not> lt y x) (avl_seq av t)))"

definition list_avl :: "addr list avl_ops" where
  "list_avl =
     \<lparr>avl_empty = [],
      avl_insert_equal = (\<lambda>lt x t. takeWhile (\<lambda>y. \<not> lt x y) t @ x # dropWhile (\<lambda>y. \<not> lt x y) t),
      avl_erase = (\<lambda>lt x t. filter (\<lambda>y. lt x y \<or> lt y x) t),
      avl_count = (\<lambda>lt x t. length (filter (\<lambda>y. \<not> lt x y \<and> \<not> lt y x) t)),
      avl_size = length,
      avl_seq = (\<lambda>t. t)\<rparr>"

section \<open>One side of the book\<close>

record 't book_side =
  bk_hash :: "(Price \<times> addr) list"
  bk_tree :: 't
  bk_pool :: MemoryPool
  bk_heap :: "addr \<rightharpoonup> MarketOrdersAtPrice"

definition level_price :: "(addr \<rightharpoonup> MarketOrdersAtPrice) \<Rightarrow> addr \<Rightarrow> Price" where
  "level_price heap a = (case heap a of None \<Rightarrow> kPriceInvalid | Some l \<Rightarrow> moap_price l)"

text \<open>The comparison the tree is given: the prices of the two nodes.\<close>

definition node_before ::
    "(Price \<Rightarrow> Price \<Rightarrow> bool) \<Rightarrow> (addr \<rightharpoonup> MarketOrdersAtPrice) \<Rightarrow> addr \<Rightarrow> addr \<Rightarrow> bool" where
  "node_before before heap a b = before (level_price heap a) (level_price heap b)"

definition deref :: "(addr \<rightharpoonup> 'a) \<Rightarrow> addr \<Rightarrow> 'a result" where
  "deref heap a = (case heap a of None \<Rightarrow> Inl DanglingDeref | Some x \<Rightarrow> Inr x)"

text \<open>\<open>*map.begin()\<close>.\<close>

definition begin_level :: "'t avl_ops \<Rightarrow> 't book_side \<Rightarrow> MarketOrdersAtPrice result" where
  "begin_level av s =
     (case avl_seq av (bk_tree s) of [] \<Rightarrow> Inl NullDeref | a # _ \<Rightarrow> deref (bk_heap s) a)"

definition GetOrdersAtPrice :: "Price \<Rightarrow> 't book_side \<Rightarrow> addr option" where
  "GetOrdersAtPrice p s = map_of (bk_hash s) p"

text \<open>\<open>AddOrdersAtPrice\<close> on the side the level belongs to; a null pointer is dereferenced.\<close>

definition AddOrdersAtPrice ::
    "'t avl_ops \<Rightarrow> (Price \<Rightarrow> Price \<Rightarrow> bool) \<Rightarrow> addr option \<Rightarrow> 't book_side \<Rightarrow> 't book_side result" where
  "AddOrdersAtPrice av before new s =
     (case new of
        None \<Rightarrow> Inl NullDeref
      | Some a \<Rightarrow>
          Inr (s\<lparr>bk_hash := (level_price (bk_heap s) a, a) # bk_hash s,
                 bk_tree := avl_insert_equal av (node_before before (bk_heap s)) a (bk_tree s)\<rparr>))"

text \<open>\<open>AddOrder\<close> on the side of the order.  A level allocated for an order whose side is neither
  bid nor ask is put into no container (\<open>filed = False\<close>).\<close>

definition AddOrder_side ::
    "'t avl_ops \<Rightarrow> (Price \<Rightarrow> Price \<Rightarrow> bool) \<Rightarrow> bool \<Rightarrow> MarketOrder \<Rightarrow> 't book_side \<Rightarrow> 't book_side result"
  where
  "AddOrder_side av before filed ord s =
     (case GetOrdersAtPrice (mo_price ord) s of
        None \<Rightarrow>
          (case Allocate (bk_pool s) of
             (None, p) \<Rightarrow> Inl NullDeref
           | (Some a, p) \<Rightarrow>
               let lvl = \<lparr>moap_side = mo_side ord, moap_price = mo_price ord, moap_first_mkt_order = ord\<rparr>;
                   s1 = s\<lparr>bk_pool := p, bk_heap := (bk_heap s)(a \<mapsto> lvl)\<rparr>
               in if filed then AddOrdersAtPrice av before (Some a) s1 else Inr s1)
      | Some a \<Rightarrow>
          bind_result (deref (bk_heap s) a)
            (\<lambda>lvl. let first = (moap_first_mkt_order lvl)\<lparr>mo_order_id := mo_order_id ord,
                                 mo_price := mo_price ord, mo_qty := mo_qty ord\<rparr>
                   in Inr (s\<lparr>bk_heap := (bk_heap s)(a \<mapsto> lvl\<lparr>moap_first_mkt_order := first\<rparr>)\<rparr>)))"

text \<open>\<open>RemoveOrdersAtPrice\<close>: \<open>in_tree\<close> says that the side is bid or ask, so that the tree is
  looked at.  The level is destroyed and its block returned.\<close>

definition RemoveOrdersAtPrice_side ::
    "'t avl_ops \<Rightarrow> (Price \<Rightarrow> Price \<Rightarrow> bool) \<Rightarrow> bool \<Rightarrow> Price \<Rightarrow> 't book_side \<Rightarrow> 't book_side result" where
  "RemoveOrdersAtPrice_side av before in_tree price s =
     (case GetOrdersAtPrice price s of
        None \<Rightarrow> Inr s
      | Some a \<Rightarrow>
          bind_result (deref (bk_heap s) a)
            (\<lambda>_. let lt = node_before before (bk_heap s);
                     tree = (if in_tree \<and> avl_count av lt a (bk_tree s) \<noteq> 0
                             then avl_erase av lt a (bk_tree s) else bk_tree s)
                 in Inr (s\<lparr>bk_tree := tree,
                           bk_hash := filter (\<lambda>e. fst e \<noteq> price) (bk_hash s),
                           bk_heap := (bk_heap s)(a := None),
                           bk_pool := Deallocate (Some a) (bk_pool s)\<rparr>)))"

definition ClearOrderBook_side :: "'t avl_ops \<Rightarrow> 't book_side \<Rightarrow> 't book_side" where
  "ClearOrderBook_side av s =
     s\<lparr>bk_tree := avl_empty av,
       bk_pool := fold (\<lambda>e p. Deallocate (Some (snd e)) p) (bk_hash s) (bk_pool s),
       bk_heap := fold (\<lambda>e h. h(snd e := None)) (bk_hash s) (bk_heap s),
       bk_hash := []\<rparr>"

section \<open>MarketOrderBook2\<close>

text \<open>\<open>ob_signals\<close> records the calls \<open>bbo_signal_emitter_\<close> has made: subscriber and signal.\<close>

record 't MarketOrderBook2 =
  ob_bids :: "'t book_side"
  ob_asks :: "'t book_side"
  ob_bbo :: BBO
  ob_exchange_id :: ExchangeId
  ob_trading_pair :: TradingPair
  ob_subscribers :: "nat option list"
  ob_signals :: "(nat \<times> BBO) list"

definition kMaxOrdersAtPrice :: nat where "kMaxOrdersAtPrice = 50000 * 2"

definition empty_side :: "'t avl_ops \<Rightarrow> (nat \<Rightarrow> addr option) \<Rightarrow> 't book_side" where
  "empty_side av chunks =
     \<lparr>bk_hash = [], bk_tree = avl_empty av,
      bk_pool = MemoryPool_new chunks kMaxOrdersAtPrice, bk_heap = Map.empty\<rparr>"

definition MarketOrderBook2_new ::
    "'t avl_ops \<Rightarrow> (nat \<Rightarrow> addr option) \<Rightarrow> (nat \<Rightarrow> addr option) \<Rightarrow> ExchangeId \<Rightarrow> TradingPair \<Rightarrow>
     't MarketOrderBook2" where
  "MarketOrderBook2_new av chb cha ex tp =
     \<lparr>ob_bids = empty_side av chb, ob_asks = empty_side av cha, ob_bbo = BBO_default,
      ob_exchange_id = ex, ob_trading_pair = tp, ob_subscribers = [], ob_signals = []\<rparr>"

definition SubscribeToBBO :: "nat option \<Rightarrow> 't MarketOrderBook2 \<Rightarrow> 't MarketOrderBook2" where
  "SubscribeToBBO cb b = b\<lparr>ob_subscribers := ob_subscribers b @ [cb]\<rparr>"

definition Emit :: "BBO \<Rightarrow> 't MarketOrderBook2 \<Rightarrow> 't MarketOrderBook2" where
  "Emit signal b =
     b\<lparr>ob_signals := ob_signals b @
         List.map (\<lambda>cb. (the cb, signal)) (filter (\<lambda>cb. cb \<noteq> None) (ob_subscribers b))\<rparr>"

definition AddOrder ::
    "'t avl_ops \<Rightarrow> MarketOrder \<Rightarrow> 't MarketOrderBook2 \<Rightarrow> 't MarketOrderBook2 result" where
  "AddOrder av ord b =
     (if mo_side ord = kBid
      then bind_result (AddOrder_side av (>) True ord (ob_bids b)) (\<lambda>s. Inr (b\<lparr>ob_bids := s\<rparr>))
      else bind_result (AddOrder_side av (<) (mo_side ord = kAsk) ord (ob_asks b))
             (\<lambda>s. Inr (b\<lparr>ob_asks := s\<rparr>)))"

definition RemoveOrdersAtPrice ::
    "'t avl_ops \<Rightarrow> Side \<Rightarrow> Price \<Rightarrow> 't MarketOrderBook2 \<Rightarrow> 't MarketOrderBook2 result" where
  "RemoveOrdersAtPrice av side price b =
     (if side = kBid
      then bind_result (RemoveOrdersAtPrice_side av (>) True price (ob_bids b))
             (\<lambda>s. Inr (b\<lparr>ob_bids := s\<rparr>))
      else bind_result (RemoveOrdersAtPrice_side av (<) (side = kAsk) price (ob_asks b))
             (\<lambda>s. Inr (b\<lparr>ob_asks := s\<rparr>)))"

definition ClearOrderBook :: "'t avl_ops \<Rightarrow> 't MarketOrderBook2 \<Rightarrow> 't MarketOrderBook2" where
  "ClearOrderBook av b =
     b\<lparr>ob_bids := ClearOrderBook_side av (ob_bids b), ob_asks := ClearOrderBook_side av (ob_asks b)\<rparr>"

text \<open>The top of a side as \<open>UpdateBBO\<close> reads it.\<close>

definition side_top :: "'t avl_ops \<Rightarrow> 't book_side \<Rightarrow> (Price \<times> Qty) result" where
  "side_top av s =
     (if avl_size av (bk_tree s) \<noteq> 0
      then bind_result (begin_level av s)
             (\<lambda>l. Inr (mo_price (moap_first_mkt_order l), mo_qty (moap_first_mkt_order l)))
      else Inr (kPriceInvalid, kQtyInvalid))"

definition UpdateBBO ::
    "'t avl_ops \<Rightarrow> bool \<Rightarrow> bool \<Rightarrow> 't MarketOrderBook2 \<Rightarrow> 't MarketOrderBook2 result" where
  "UpdateBBO av update_bid update_ask b =
     bind_result
       (if update_bid
        then bind_result (side_top av (ob_bids b))
               (\<lambda>(p, q). Inr (b\<lparr>ob_bbo := (ob_bbo b)\<lparr>bid_price := p, bid_qty := q\<rparr>\<rparr>))
        else Inr b)
       (\<lambda>b1. if update_ask
             then bind_result (side_top av (ob_asks b1))
                    (\<lambda>(p, q). Inr (b1\<lparr>ob_bbo := (ob_bbo b1)\<lparr>ask_price := p, ask_qty := q\<rparr>\<rparr>))
             else Inr b1)"

text \<open>\<open>price >= bids.begin()->price_\<close> (for the bids), true on an empty side.\<close>

definition touches_top ::
    "'t avl_ops \<Rightarrow> (Price \<Rightarrow> Price \<Rightarrow> bool) \<Rightarrow> Price \<Rightarrow> 't book_side \<Rightarrow> bool result" where
  "touches_top av at_least price s =
     (if avl_size av (bk_tree s) = 0 then Inr True
      else bind_result (begin_level av s) (\<lambda>l. Inr (at_least price (moap_price l))))"

definition emit_if :: "bool \<Rightarrow> 't MarketOrderBook2 \<Rightarrow> 't MarketOrderBook2" where
  "emit_if updated b = (if updated then Emit (ob_bbo b) b else b)"

definition OnMarketUpdate ::
    "'t avl_ops \<Rightarrow> MEMarketUpdate2 \<Rightarrow> 't MarketOrderBook2 \<Rightarrow> 't MarketOrderBook2 result" where
  "OnMarketUpdate av u b =
     (let b0 = (if mu2_type u = CLEAR then ClearOrderBook av b else b);
          side = mu2_side u; price = mu2_price u; qty = mu2_qty u in
      bind_result (if side = kBid then touches_top av (\<ge>) price (ob_bids b0) else Inr False) (\<lambda>bid_upd.
      bind_result (if side = kAsk then touches_top av (\<le>) price (ob_asks b0) else Inr False) (\<lambda>ask_upd.
      bind_result
        (if qty \<noteq> 0
         then AddOrder av \<lparr>mo_order_id = kOrderIdInvalid, mo_side = side, mo_price = price, mo_qty = qty\<rparr> b0
         else RemoveOrdersAtPrice av side price b0) (\<lambda>b1.
      bind_result (UpdateBBO av bid_upd ask_upd b1) (\<lambda>b2.
      Inr (emit_if (bid_upd \<or> ask_upd) b2))))))"

text \<open>One element of a snapshot or diff; the flag is \<open>bid_will_be_updated\<close> (or its ask
  counterpart) so far.  A snapshot looks at the top only for an element it adds, a diff for every
  element.\<close>

definition apply_elem ::
    "'t avl_ops \<Rightarrow> bool \<Rightarrow> Side \<Rightarrow> BookSnapshotElem \<Rightarrow> bool \<times> 't MarketOrderBook2 \<Rightarrow>
     (bool \<times> 't MarketOrderBook2) result" where
  "apply_elem av is_diff side e st =
     (let (upd, b) = st; price = bse_price e; qty = bse_qty e in
      bind_result
        (if upd then Inr True
         else if qty > 0 \<or> is_diff
           then (if side = kBid then touches_top av (\<ge>) price (ob_bids b)
                 else touches_top av (\<le>) price (ob_asks b))
           else Inr False) (\<lambda>upd1.
      bind_result
        (if qty > 0
         then AddOrder av \<lparr>mo_order_id = kOrderIdInvalid, mo_side = side, mo_price = price, mo_qty = qty\<rparr> b
         else RemoveOrdersAtPrice av side price b) (\<lambda>b1.
      Inr (upd1, b1))))"

definition apply_levels ::
    "'t avl_ops \<Rightarrow> bool \<Rightarrow> BookSnapshotElem list \<Rightarrow> BookSnapshotElem list \<Rightarrow> 't MarketOrderBook2 \<Rightarrow>
     't MarketOrderBook2 result" where
  "apply_levels av is_diff bids asks b =
     bind_result (fold_result (apply_elem av is_diff kBid) bids (False, b)) (\<lambda>(bid_upd, b1).
     bind_result (fold_result (apply_elem av is_diff kAsk) asks (False, b1)) (\<lambda>(ask_upd, b2).
     bind_result (UpdateBBO av bid_upd ask_upd b2) (\<lambda>b3.
     Inr (emit_if (bid_upd \<or> ask_upd) b3))))"

definition OnMarketSnapshot ::
    "'t avl_ops \<Rightarrow> BookSnapshot2 option \<Rightarrow> 't MarketOrderBook2 \<Rightarrow> 't MarketOrderBook2 result" where
  "OnMarketSnapshot av snapshot b =
     (case snapshot of
        None \<Rightarrow> Inr b
      | Some s \<Rightarrow> apply_levels av False (bs2_bids s) (bs2_asks s) (ClearOrderBook av b))"

definition OnMarketDiff ::
    "'t avl_ops \<Rightarrow> BookDiffSnapshot2 option \<Rightarrow> 't MarketOrderBook2 \<Rightarrow> 't MarketOrderBook2 result" where
  "OnMarketDiff av diff b =
     (case diff of
        None \<Rightarrow> Inr b
      | Some d \<Rightarrow> apply_levels av True (bd2_bids d) (bd2_asks d) b)"

end
