(* ===== verification/Arbitrage.thy ===== *)
theory Arbitrage
  imports Order_Manager Order_Book "HOL-Library.AList"
begin

text \<open>
  The data of the arbitrage strategy: the trading pairs of the exchanges
  (aot/common/exchange_trading_pair.h), steps, cycles and trades with their hashes
  (aot/strategy/arbitrage), trade states, the calculation of profit and loss
  (aot/pnl/pnl_calculator.h), the dictionary of cycles, and the history of spreads
  (aot/strategy/arbitrage/spread_monitor.h).

  A hash map that the code enumerates is an association list, in the order of enumeration.
  \<open>hc\<close> is \<open>boost::hash_combine\<close> on values that are their own hash, \<open>sh\<close> holds \<open>std::hash\<close>.
\<close>

section \<open>Trading pairs of the exchanges\<close>

type_synonym TradingPairHashMap = "TradingPair \<rightharpoonup> TradingPairInfo"

type_synonym ExchangeTradingPairs = "(ExchangeId \<times> TradingPairHashMap) list"

text \<open>\<open>emplace\<close> keeps the entry of an exchange that is there already.\<close>

definition AddExchange :: "ExchangeId \<Rightarrow> TradingPairHashMap \<Rightarrow> ExchangeTradingPairs \<Rightarrow> ExchangeTradingPairs" where
  "AddExchange ex pairs etp = (case map_of etp ex of None \<Rightarrow> AList.update ex pairs etp | Some _ \<Rightarrow> etp)"

definition AddOrUpdatePair ::
    "ExchangeId \<Rightarrow> TradingPair \<Rightarrow> TradingPairInfo \<Rightarrow> ExchangeTradingPairs \<Rightarrow> ExchangeTradingPairs" where
  "AddOrUpdatePair ex tp info etp =
     (let pairs = (case map_of etp ex of None \<Rightarrow> Map.empty | Some m \<Rightarrow> m)
      in AList.update ex (pairs(tp \<mapsto> info)) etp)"

definition GetPairsForExchange :: "ExchangeId \<Rightarrow> ExchangeTradingPairs \<Rightarrow> TradingPairHashMap option" where
  "GetPairsForExchange ex etp = map_of etp ex"

definition GetPairInfo :: "ExchangeId \<Rightarrow> TradingPair \<Rightarrow> ExchangeTradingPairs \<Rightarrow> TradingPairInfo option" where
  "GetPairInfo ex tp etp = (case map_of etp ex of None \<Rightarrow> None | Some pairs \<Rightarrow> pairs tp)"

definition RemoveExchange :: "ExchangeId \<Rightarrow> ExchangeTradingPairs \<Rightarrow> ExchangeTradingPairs" where
  "RemoveExchange ex etp = AList.delete ex etp"

definition RemovePair :: "ExchangeId \<Rightarrow> TradingPair \<Rightarrow> ExchangeTradingPairs \<Rightarrow> ExchangeTradingPairs" where
  "RemovePair ex tp etp =
     (case map_of etp ex of None \<Rightarrow> etp | Some pairs \<Rightarrow> AList.update ex (pairs(tp := None)) etp)"

definition ExchangeExists :: "ExchangeId \<Rightarrow> ExchangeTradingPairs \<Rightarrow> bool" where
  "ExchangeExists ex etp \<longleftrightarrow> map_of etp ex \<noteq> None"

definition PairExists :: "ExchangeId \<Rightarrow> TradingPair \<Rightarrow> ExchangeTradingPairs \<Rightarrow> bool" where
  "PairExists ex tp etp = (case map_of etp ex of None \<Rightarrow> False | Some pairs \<Rightarrow> pairs tp \<noteq> None)"

definition GetAllExchanges :: "ExchangeTradingPairs \<Rightarrow> ExchangeId list" where
  "GetAllExchanges etp = List.map fst etp"

section \<open>Steps, cycles and trades\<close>

datatype Operation = kBuy | kSell

fun OperationToString :: "Operation \<Rightarrow> string" where
  "OperationToString kBuy = ''Buy''"
| "OperationToString kSell = ''Sell''"

record Step =
  st_trading_pair :: TradingPair
  st_exchange_id :: ExchangeId
  st_market_type :: MarketType
  st_operation :: Operation

definition Step_eq :: "Step \<Rightarrow> Step \<Rightarrow> bool" where
  "Step_eq a b \<longleftrightarrow> tp_eq (st_trading_pair a) (st_trading_pair b) \<and> st_exchange_id a = st_exchange_id b \<and>
     st_market_type a = st_market_type b \<and> st_operation a = st_operation b"

fun operation_code :: "Operation \<Rightarrow> nat" where
  "operation_code kBuy = 0"
| "operation_code kSell = 1"

definition StepHashLight :: "hash_combine \<Rightarrow> std_hash \<Rightarrow> Step \<Rightarrow> u64" where
  "StepHashLight hc sh s =
     hc (hc (hc 0 (hash_enum sh (exchange_code (st_exchange_id s))))
          (hash_enum sh (market_code (st_market_type s))))
       (TradingPairHash hc sh (st_trading_pair s))"

definition StepHash :: "hash_combine \<Rightarrow> std_hash \<Rightarrow> Step \<Rightarrow> u64" where
  "StepHash hc sh s =
     hc (hc (hc (hc 0 (hash_enum sh (exchange_code (st_exchange_id s))))
          (hash_enum sh (market_code (st_market_type s))))
       (TradingPairHash hc sh (st_trading_pair s)))
       (of_nat (operation_code (st_operation s)))"

text \<open>A cycle is a vector of steps; its two times are never written or compared.\<close>

type_synonym ArbitrageCycle = "Step list"

definition ArbitrageCycleHash :: "hash_combine \<Rightarrow> std_hash \<Rightarrow> ArbitrageCycle \<Rightarrow> u64" where
  "ArbitrageCycleHash hc sh cycle = fold (\<lambda>step seed. hc seed (StepHash hc sh step)) cycle 0"

definition ArbitrageCycle_eq :: "ArbitrageCycle \<Rightarrow> ArbitrageCycle \<Rightarrow> bool" where
  "ArbitrageCycle_eq l r \<longleftrightarrow> (if length l \<noteq> length r then False else list_all2 Step_eq l r)"

record TradingPairContext =
  tpc_exchange_id :: ExchangeId
  tpc_market_type :: MarketType
  tpc_trading_pair :: TradingPair

definition TradingPairContext_eq :: "TradingPairContext \<Rightarrow> TradingPairContext \<Rightarrow> bool" where
  "TradingPairContext_eq a b \<longleftrightarrow> tpc_exchange_id a = tpc_exchange_id b \<and>
     tpc_market_type a = tpc_market_type b \<and> tp_eq (tpc_trading_pair a) (tpc_trading_pair b)"

definition TradingPairContextHash :: "hash_combine \<Rightarrow> std_hash \<Rightarrow> TradingPairContext \<Rightarrow> u64" where
  "TradingPairContextHash hc sh c =
     hc (hc (hc 0 (hash_enum sh (exchange_code (tpc_exchange_id c))))
          (hash_enum sh (market_code (tpc_market_type c))))
       (TradingPairHash hc sh (tpc_trading_pair c))"

record ArbitrageTrade =
  at_trading_pair_context :: TradingPairContext
  at_step :: Step

definition ArbitrageTradeHash :: "hash_combine \<Rightarrow> std_hash \<Rightarrow> ArbitrageTrade \<Rightarrow> u64" where
  "ArbitrageTradeHash hc sh t =
     hc (hc 0 (TradingPairContextHash hc sh (at_trading_pair_context t))) (StepHash hc sh (at_step t))"

definition ArbitrageTrade_eq :: "ArbitrageTrade \<Rightarrow> ArbitrageTrade \<Rightarrow> bool" where
  "ArbitrageTrade_eq l r \<longleftrightarrow>
     TradingPairContext_eq (at_trading_pair_context l) (at_trading_pair_context r) \<and>
     Step_eq (at_step l) (at_step r)"

section \<open>JSON forms\<close>

text \<open>The values of \<open>nlohmann::json\<close> that the serialisers build.\<close>

datatype json = JString string | JNumber u64 | JReal rat | JArray "json list" | JObject "(string \<times> json) list"

definition Step_SerializeToJson :: "Step \<Rightarrow> json" where
  "Step_SerializeToJson s = JObject
     [(''trading_pair'', JString (TradingPair_ToString (st_trading_pair s))),
      (''exchange_id'', JString (ExchangeIdPrinter (st_exchange_id s))),
      (''market_type'', JString (MarketTypePrinter (st_market_type s))),
      (''operation'', JString (OperationToString (st_operation s)))]"

definition ArbitrageCycle_SerializeToJson :: "hash_combine \<Rightarrow> std_hash \<Rightarrow> ArbitrageCycle \<Rightarrow> json" where
  "ArbitrageCycle_SerializeToJson hc sh cycle = JObject
     [(''id'', JNumber (ArbitrageCycleHash hc sh cycle)),
      (''steps'', JArray (List.map Step_SerializeToJson cycle))]"

definition TradingPairContext_SerializeToJson :: "TradingPairContext \<Rightarrow> json" where
  "TradingPairContext_SerializeToJson c = JObject
     [(''exchange_id'', JString (ExchangeIdPrinter (tpc_exchange_id c))),
      (''market_type'', JString (MarketTypePrinter (tpc_market_type c))),
      (''trading_pair'', JString (TradingPair_ToString (tpc_trading_pair c)))]"

definition ArbitrageTrade_SerializeToJson :: "hash_combine \<Rightarrow> std_hash \<Rightarrow> ArbitrageTrade \<Rightarrow> json" where
  "ArbitrageTrade_SerializeToJson hc sh t = JObject
     [(''id'', JNumber (ArbitrageTradeHash hc sh t)),
      (''trading_pair_context'', TradingPairContext_SerializeToJson (at_trading_pair_context t)),
      (''step'', Step_SerializeToJson (at_step t))]"

section \<open>Trade states and profit\<close>

text \<open>A time 0 stands for one that is not yet set.\<close>

record TransactionReport =
  tr_exchange_id :: ExchangeId
  tr_trading_pair :: TradingPair
  tr_operation :: Operation
  tr_entry_price :: Price
  tr_exit_price :: Price
  tr_entry_qty :: Qty
  tr_exit_qty :: Qty
  tr_entry_time :: Nanos
  tr_exit_time :: Nanos
  tr_pnl :: rat

definition TransactionReport_new :: "ExchangeId \<Rightarrow> TradingPair \<Rightarrow> Operation \<Rightarrow> TransactionReport" where
  "TransactionReport_new ex tp oper =
     \<lparr>tr_exchange_id = ex, tr_trading_pair = tp, tr_operation = oper, tr_entry_price = kPriceInvalid,
      tr_exit_price = kPriceInvalid, tr_entry_qty = kQtyInvalid, tr_exit_qty = kQtyInvalid,
      tr_entry_time = 0, tr_exit_time = 0, tr_pnl = 0\<rparr>"

record TradeState =
  ts_transaction_states :: "(u64 \<times> TransactionReport) list"
  ts_is_open :: bool
  ts_pnl :: rat
  ts_entry_time :: Nanos
  ts_exit_time :: Nanos

definition TradeState_default :: TradeState where
  "TradeState_default = \<lparr>ts_transaction_states = [], ts_is_open = False, ts_pnl = 0, ts_entry_time = 0, ts_exit_time = 0\<rparr>"

text \<open>\<open>CalculatePnl\<close> of a transaction: \<open>None\<close> is the result \<open>false\<close>; the profit is also stored.\<close>

definition CalculatePnl ::
    "rounding \<Rightarrow> ExchangeTradingPairs \<Rightarrow> TransactionReport \<Rightarrow> rat option \<times> TransactionReport" where
  "CalculatePnl rnd etp t =
     (case GetPairInfo (tr_exchange_id t) (tr_trading_pair t) etp of
        None \<Rightarrow> (None, t)
      | Some pair_info \<Rightarrow>
          let min_qty = min (tr_entry_qty t) (tr_exit_qty t);
              min_qty_double = GetQtyDouble rnd pair_info min_qty;
              price_exit_double = GetPriceDouble rnd pair_info (tr_exit_price t);
              price_enter_double = GetPriceDouble rnd pair_info (tr_entry_price t);
              pnl = (if tr_operation t = kSell
                     then fmul rnd (fsub rnd price_enter_double price_exit_double) min_qty_double
                     else fmul rnd (fsub rnd price_exit_double price_enter_double) min_qty_double)
          in (Some pnl, t\<lparr>tr_pnl := pnl\<rparr>))"

text \<open>The loop over the transactions of a trade stops at the first one that fails.\<close>

fun sum_pnl ::
    "rounding \<Rightarrow> ExchangeTradingPairs \<Rightarrow> rat \<Rightarrow> (u64 \<times> TransactionReport) list \<Rightarrow>
     rat option \<times> (u64 \<times> TransactionReport) list" where
  "sum_pnl rnd etp acc [] = (Some acc, [])"
| "sum_pnl rnd etp acc ((h, t) # rest) =
     (case CalculatePnl rnd etp t of
        (None, t') \<Rightarrow> (None, (h, t') # rest)
      | (Some pnl, t') \<Rightarrow>
          (let (r, rest') = sum_pnl rnd etp (fadd rnd acc pnl) rest in (r, (h, t') # rest')))"

definition CalculatePnl_trade ::
    "rounding \<Rightarrow> ExchangeTradingPairs \<Rightarrow> TradeState \<Rightarrow> rat option \<times> TradeState" where
  "CalculatePnl_trade rnd etp ts =
     (let (r, trs) = sum_pnl rnd etp 0 (ts_transaction_states ts)
      in (r, ts\<lparr>ts_transaction_states := trs\<rparr>))"

section \<open>The dictionary of cycles\<close>

text \<open>A multimap from the hash of an exchange, market and pair to the cycles that use them.\<close>

type_synonym TradeDictionary = "(u64 \<times> ArbitrageCycle) list"

definition equal_range :: "u64 \<Rightarrow> TradeDictionary \<Rightarrow> ArbitrageCycle list" where
  "equal_range key d = List.map snd (filter (\<lambda>e. fst e = key) d)"

definition GetUniqueCycles :: "TradeDictionary \<Rightarrow> ArbitrageCycle list" where
  "GetUniqueCycles d =
     fold (\<lambda>e cs. if list_ex (ArbitrageCycle_eq (snd e)) cs then cs else cs @ [snd e]) d []"

definition TradeDictionary_SerializeToJson :: "hash_combine \<Rightarrow> std_hash \<Rightarrow> TradeDictionary \<Rightarrow> json" where
  "TradeDictionary_SerializeToJson hc sh d = JObject
     [(''trade_dictionary'', JArray (List.map (\<lambda>e. ArbitrageCycle_SerializeToJson hc sh (snd e)) d))]"

section \<open>The history of spreads\<close>

text \<open>\<open>SpreadMonitor\<close>: the spreads of a strategy in a window of the last \<open>time_window_\<close> values.\<close>

record SpreadMonitor =
  sm_spread_history :: "u64 \<rightharpoonup> rat list"
  sm_time_window :: nat

definition SpreadMonitor_new :: SpreadMonitor where
  "SpreadMonitor_new = \<lparr>sm_spread_history = Map.empty, sm_time_window = 10\<rparr>"

definition AddSpreadToHistory :: "u64 \<Rightarrow> rat \<Rightarrow> SpreadMonitor \<Rightarrow> SpreadMonitor" where
  "AddSpreadToHistory strategy_id spread m =
     (let h = (case sm_spread_history m strategy_id of None \<Rightarrow> [] | Some h \<Rightarrow> h) @ [spread];
          h' = (if length h > sm_time_window m then tl h else h)
      in m\<lparr>sm_spread_history := (sm_spread_history m)(strategy_id \<mapsto> h')\<rparr>)"

definition CalculateAverageSpread :: "rounding \<Rightarrow> u64 \<Rightarrow> SpreadMonitor \<Rightarrow> rat" where
  "CalculateAverageSpread rnd strategy_id m =
     (case sm_spread_history m strategy_id of
        None \<Rightarrow> 0
      | Some h \<Rightarrow> if h = [] then 0
                  else fdiv rnd (fold (\<lambda>x sum. fadd rnd sum x) h 0) (rnd (of_nat (length h))))"

definition CalculatePercentageDeviation :: "rounding \<Rightarrow> u64 \<Rightarrow> rat \<Rightarrow> SpreadMonitor \<Rightarrow> rat" where
  "CalculatePercentageDeviation rnd strategy_id current m =
     (let average = CalculateAverageSpread rnd strategy_id m
      in if average = 0 then 0 else fmul rnd (fdiv rnd (fsub rnd current average) average) 100)"

definition IsSpreadOutOfBounds :: "rounding \<Rightarrow> u64 \<Rightarrow> rat \<Rightarrow> rat \<Rightarrow> SpreadMonitor \<Rightarrow> bool" where
  "IsSpreadOutOfBounds rnd strategy_id spread thr m \<longleftrightarrow>
     \<bar>CalculatePercentageDeviation rnd strategy_id spread m\<bar> > thr"

section \<open>Facts about the data\<close>

lemma Step_eq_iff [simp]: "Step_eq a b \<longleftrightarrow> a = b"
  by (cases a; cases b) (auto simp: Step_eq_def)

lemma ArbitrageCycle_eq_iff [simp]: "ArbitrageCycle_eq l r \<longleftrightarrow> l = r"
  by (auto simp: ArbitrageCycle_eq_def list_all2_conv_all_nth list_eq_iff_nth_eq)

lemma TradingPairContext_eq_iff: "TradingPairContext_eq a b \<longleftrightarrow> a = b"
  by (cases a; cases b) (auto simp: TradingPairContext_eq_def)

lemma ArbitrageTrade_eq_iff: "ArbitrageTrade_eq l r \<longleftrightarrow> l = r"
  by (cases l; cases r) (auto simp: ArbitrageTrade_eq_def TradingPairContext_eq_iff)

lemma set_equal_range: "cycle \<in> set (equal_range key d) \<longleftrightarrow> (key, cycle) \<in> set d"
  by (force simp: equal_range_def)

lemma GetUniqueCycles_fold:
  "distinct cs \<Longrightarrow>
   distinct (fold (\<lambda>e cs. if list_ex (ArbitrageCycle_eq (snd e)) cs then cs else cs @ [snd e]) d cs) \<and>
   set (fold (\<lambda>e cs. if list_ex (ArbitrageCycle_eq (snd e)) cs then cs else cs @ [snd e]) d cs) =
     set cs \<union> snd ` set d"
  by (induction d arbitrary: cs) (auto simp: list_ex_iff)

lemma GetUniqueCycles_spec:
  "distinct (GetUniqueCycles d) \<and> set (GetUniqueCycles d) = snd ` set d"
  using GetUniqueCycles_fold [of "[]" d] by (simp add: GetUniqueCycles_def)

lemma GetPairInfo_AddOrUpdatePair:
  "GetPairInfo ex tp (AddOrUpdatePair ex' tp' info etp) =
     (if ex = ex' \<and> tp = tp' then Some info else GetPairInfo ex tp etp)"
  by (auto simp: GetPairInfo_def AddOrUpdatePair_def Let_def update_conv' split: option.splits)

lemma GetPairInfo_RemovePair:
  "GetPairInfo ex tp (RemovePair ex' tp' etp) = (if ex = ex' \<and> tp = tp' then None else GetPairInfo ex tp etp)"
  by (auto simp: GetPairInfo_def RemovePair_def Let_def update_conv' split: option.splits)

lemma PairExists_iff: "PairExists ex tp etp \<longleftrightarrow> GetPairInfo ex tp etp \<noteq> None"
  by (auto simp: PairExists_def GetPairInfo_def split: option.splits)

text \<open>All transactions of a trade have pair information.\<close>

definition pairs_known :: "ExchangeTradingPairs \<Rightarrow> (u64 \<times> TransactionReport) list \<Rightarrow> bool" where
  "pairs_known etp trs \<longleftrightarrow>
     (\<forall>e \<in> set trs. PairExists (tr_exchange_id (snd e)) (tr_trading_pair (snd e)) etp)"

lemma sum_pnl_total:
  "pairs_known etp trs \<Longrightarrow> \<exists>p. fst (sum_pnl rnd etp acc trs) = Some p"
proof (induction trs arbitrary: acc)
  case (Cons e trs)
  obtain h t where e: "e = (h, t)" by force
  from Cons.prems obtain info where "GetPairInfo (tr_exchange_id t) (tr_trading_pair t) etp = Some info"
    by (auto simp: pairs_known_def PairExists_iff e)
  moreover have "pairs_known etp trs" using Cons.prems by (simp add: pairs_known_def)
  ultimately show ?case using Cons.IH by (auto simp: e CalculatePnl_def Let_def split_beta)
qed simp

lemma sum_pnl_keys: "List.map fst (snd (sum_pnl rnd etp acc trs)) = List.map fst trs"
proof (induction trs arbitrary: acc)
  case (Cons e trs)
  then show ?case by (cases e) (auto simp: split_beta split: prod.splits option.splits)
qed simp

definition spreads_of :: "u64 \<Rightarrow> SpreadMonitor \<Rightarrow> rat list" where
  "spreads_of k m = (case sm_spread_history m k of None \<Rightarrow> [] | Some h \<Rightarrow> h)"

interpretation spreads: last_window "spreads_of k" "\<lambda>(k', x). AddSpreadToHistory k' x" "\<lambda>(k', x). if k' = k then Some x else None"
    "\<lambda>m. sm_time_window m = n" n for k n
  by unfold_locales (auto simp: spreads_of_def AddSpreadToHistory_def Let_def split: if_splits option.splits)

text \<open>The window of spreads.  After any additions the history of a strategy holds the last ten
  of its spreads, in order, and the additions to other strategies do not touch it.\<close>

theorem spread_window:
  "spreads_of k (fold (\<lambda>(k, x). AddSpreadToHistory k x) adds SpreadMonitor_new) =
     last_n 10 (List.map snd (filter (\<lambda>e. fst e = k) adds))"
proof -
  have "List.map_filter (\<lambda>(k', x). if k' = k then Some x else None) adds = List.map snd (filter (\<lambda>e. fst e = k) adds)"
    by (induction adds) (auto simp: map_filter_simps)
  then show ?thesis
    using spreads.fold_view [of SpreadMonitor_new 10 k "[]" adds] by (simp add: SpreadMonitor_new_def spreads_of_def)
qed

end
