(* ===== verification/Order_Book_Props.thy ===== *)
theory Order_Book_Props
  imports Order_Book
begin

text \<open>
  Correctness of \<open>MarketOrderBook2\<close>.  The invariant \<open>side_inv\<close> ties the hash map, the tree, the
  heap and the pool of a side together; the abstract side is the partial map \<open>side_levels\<close> from
  prices to quantities.  The operations of a side are proved once for any price order in the
  locale \<open>price_order\<close>, which is interpreted for the bids and the asks; the theorems on whole
  market data messages follow from those facts.
\<close>

section \<open>Invariant and abstraction\<close>

definition side_inv :: "'t avl_ops \<Rightarrow> (Price \<Rightarrow> Price \<Rightarrow> bool) \<Rightarrow> 't book_side \<Rightarrow> bool" where
  "side_inv av before s \<longleftrightarrow>
     MemoryPool_inv (bk_pool s) \<and> mp_live (bk_pool s) = snd ` set (bk_hash s) \<and>
     distinct (List.map fst (bk_hash s)) \<and> distinct (List.map snd (bk_hash s)) \<and>
     (\<forall>(p, a) \<in> set (bk_hash s). \<exists>l. bk_heap s a = Some l \<and> moap_price l = p \<and>
        mo_price (moap_first_mkt_order l) = p \<and> mo_qty (moap_first_mkt_order l) \<noteq> 0) \<and>
     set (avl_seq av (bk_tree s)) = snd ` set (bk_hash s) \<and>
     sorted_wrt (node_before before (bk_heap s)) (avl_seq av (bk_tree s))"

definition side_levels :: "'t book_side \<Rightarrow> (Price \<rightharpoonup> Qty)" where
  "side_levels s p =
     (case map_of (bk_hash s) p of
        None \<Rightarrow> None
      | Some a \<Rightarrow> map_option (\<lambda>l. mo_qty (moap_first_mkt_order l)) (bk_heap s a))"

text \<open>What the top of a side has to be: its first price with its quantity, or the invalid pair.\<close>

definition top_of :: "(Price \<Rightarrow> Price \<Rightarrow> bool) \<Rightarrow> (Price \<rightharpoonup> Qty) \<Rightarrow> Price \<times> Qty \<Rightarrow> bool" where
  "top_of before m pq \<longleftrightarrow>
     (if m = Map.empty then pq = (kPriceInvalid, kQtyInvalid)
      else m (fst pq) = Some (snd pq) \<and> (\<forall>p \<in> dom m. p = fst pq \<or> before (fst pq) p))"

section \<open>Shared facts\<close>

lemma Deallocate_all:
  assumes "MemoryPool_inv p" and "snd ` set es \<subseteq> mp_live p" and "distinct (List.map snd es)"
  shows "mp_live (fold (\<lambda>e p. Deallocate (Some (snd e)) p) es p) = mp_live p - snd ` set es \<and>
         MemoryPool_inv (fold (\<lambda>e p. Deallocate (Some (snd e)) p) es p) \<and>
         memory_suffices (fold (\<lambda>e p. Deallocate (Some (snd e)) p) es p) = memory_suffices p"
  using assms
proof (induction es arbitrary: p)
  case (Cons e es)
  let ?q = "Deallocate (Some (snd e)) p"
  have q: "mp_live ?q = mp_live p - {snd e}" "MemoryPool_inv ?q"
    using mp.dealloc_Some [of p "snd e"] Cons.prems by auto
  moreover have "snd e \<notin> snd ` set es" using Cons.prems(3) by simp
  ultimately have "snd ` set es \<subseteq> mp_live ?q" using Cons.prems by (simp add: subset_Diff_insert)
  with Cons.IH [OF q(2)] Cons.prems q(1) show ?case by auto
qed simp

lemma avltree_spec_list_avl: "avltree_spec list_avl"
  by (simp add: avltree_spec_def list_avl_def)

lemma av_empty: "avltree_spec av \<Longrightarrow> avl_seq av (avl_empty av) = []"
  and av_size: "avltree_spec av \<Longrightarrow> avl_size av t = length (avl_seq av t)"
  by (simp_all add: avltree_spec_def)

lemma av_update:
  assumes "avltree_spec av" and "strict_weak lt" and "sorted_wrt (\<lambda>a b. \<not> lt b a) (avl_seq av t)"
  shows "avl_seq av (avl_insert_equal av lt x t) =
           takeWhile (\<lambda>y. \<not> lt x y) (avl_seq av t) @ x # dropWhile (\<lambda>y. \<not> lt x y) (avl_seq av t)"
    and "avl_seq av (avl_erase av lt x t) = filter (\<lambda>y. lt x y \<or> lt y x) (avl_seq av t)"
    and "avl_count av lt x t = length (filter (\<lambda>y. \<not> lt x y \<and> \<not> lt y x) (avl_seq av t))"
  using assms by (simp_all add: avltree_spec_def)

lemma side_inv_hash_lookup:
  assumes "side_inv av before s" and "map_of (bk_hash s) p = Some a"
  shows "\<exists>l. bk_heap s a = Some l \<and> moap_price l = p \<and> mo_price (moap_first_mkt_order l) = p \<and>
           mo_qty (moap_first_mkt_order l) \<noteq> 0 \<and> side_levels s p = Some (mo_qty (moap_first_mkt_order l))"
  using assms map_of_SomeD [OF assms(2)] by (fastforce simp: side_inv_def side_levels_def)

lemma side_inv_node:
  assumes "side_inv av before s" and "a \<in> set (avl_seq av (bk_tree s))"
  shows "map_of (bk_hash s) (level_price (bk_heap s) a) = Some a"
proof -
  obtain p where p: "(p, a) \<in> set (bk_hash s)" using assms by (auto simp: side_inv_def)
  then have "level_price (bk_heap s) a = p"
    using assms(1) by (auto simp: side_inv_def level_price_def)
  with p assms(1) show ?thesis by (simp add: side_inv_def)
qed

lemma side_inv_price_inj:
  assumes "side_inv av before s" and "a \<in> set (avl_seq av (bk_tree s))"
    and "b \<in> set (avl_seq av (bk_tree s))" and "level_price (bk_heap s) a = level_price (bk_heap s) b"
  shows "a = b"
  using assms side_inv_node by (metis option.inject)

lemma dom_side_levels:
  assumes "side_inv av before s"
  shows "dom (side_levels s) = level_price (bk_heap s) ` set (avl_seq av (bk_tree s))"
proof (intro set_eqI iffI)
  fix p
  assume "p \<in> dom (side_levels s)"
  then obtain a where a: "map_of (bk_hash s) p = Some a"
    by (auto simp: side_levels_def split: option.splits)
  then have "a \<in> set (avl_seq av (bk_tree s))"
    using assms map_of_SomeD [OF a] by (force simp: side_inv_def)
  moreover have "level_price (bk_heap s) a = p"
    using side_inv_hash_lookup [OF assms a] by (auto simp: level_price_def)
  ultimately show "p \<in> level_price (bk_heap s) ` set (avl_seq av (bk_tree s))" by blast
next
  fix p
  assume "p \<in> level_price (bk_heap s) ` set (avl_seq av (bk_tree s))"
  then show "p \<in> dom (side_levels s)"
    using side_inv_node [OF assms] side_inv_hash_lookup [OF assms] by blast
qed

section \<open>One side, for any price order\<close>

locale price_order =
  fixes before :: "Price \<Rightarrow> Price \<Rightarrow> bool"
  assumes irrefl: "\<not> before p p"
    and trans: "before p q \<Longrightarrow> before q r \<Longrightarrow> before p r"
    and total: "p \<noteq> q \<Longrightarrow> before p q \<or> before q p"
begin

lemma strict_weak_nodes: "strict_weak (node_before before heap)"
  unfolding strict_weak_def node_before_def using irrefl trans total by metis

lemma sorted_weaken:
  assumes "sorted_wrt (node_before before heap) xs"
  shows "sorted_wrt (\<lambda>a b. \<not> node_before before heap b a) xs"
  using assms by (rule sorted_wrt_mono_rel [rotated]) (metis node_before_def irrefl trans)

lemma insert_sorted:
  assumes "sorted_wrt (node_before before heap) xs"
    and "\<forall>y \<in> set xs. level_price heap y \<noteq> level_price heap x"
  shows "sorted_wrt (node_before before heap)
     (takeWhile (\<lambda>y. \<not> node_before before heap x y) xs @ x #
      dropWhile (\<lambda>y. \<not> node_before before heap x y) xs)"
  using assms
proof (induction xs)
  case (Cons y ys)
  show ?case
  proof (cases "node_before before heap x y")
    case True
    with Cons.prems show ?thesis by (auto simp: node_before_def intro: trans)
  next
    case False
    with Cons.prems total have "node_before before heap y x"
      by (metis list.set_intros(1) node_before_def)
    with False Cons show ?thesis
      by (auto dest: set_takeWhileD simp: set_dropWhileD)
  qed
qed simp

lemma seq_filter_others:
  assumes "side_inv av before s" and "a \<in> set (avl_seq av (bk_tree s))"
  shows "filter (\<lambda>y. node_before before (bk_heap s) a y \<or> node_before before (bk_heap s) y a)
           (avl_seq av (bk_tree s)) = filter (\<lambda>y. y \<noteq> a) (avl_seq av (bk_tree s))"
proof (rule filter_cong [OF refl])
  fix y
  assume "y \<in> set (avl_seq av (bk_tree s))"
  then show "(node_before before (bk_heap s) a y \<or> node_before before (bk_heap s) y a) = (y \<noteq> a)"
    using side_inv_price_inj [OF assms(1,2)] irrefl total unfolding node_before_def by metis
qed

lemma top_of_front:
  assumes inv: "side_inv av before s" and seq: "avl_seq av (bk_tree s) = a # rest"
    and l: "bk_heap s a = Some l"
  shows "top_of before (side_levels s) (moap_price l, mo_qty (moap_first_mkt_order l)) \<and>
         mo_price (moap_first_mkt_order l) = moap_price l"
proof -
  have price: "level_price (bk_heap s) a = moap_price l" using l by (simp add: level_price_def)
  have look: "map_of (bk_hash s) (moap_price l) = Some a"
    using side_inv_node [OF inv, of a] seq price by simp
  then have lv: "side_levels s (moap_price l) = Some (mo_qty (moap_first_mkt_order l))"
    and "mo_price (moap_first_mkt_order l) = moap_price l"
    using side_inv_hash_lookup [OF inv look] l by simp_all
  moreover have "p = moap_price l \<or> before (moap_price l) p" if pd: "p \<in> dom (side_levels s)" for p
  proof -
    obtain b where b: "b \<in> set (a # rest)" "p = level_price (bk_heap s) b"
      using pd unfolding dom_side_levels [OF inv] seq by auto
    have "sorted_wrt (node_before before (bk_heap s)) (a # rest)"
      using inv seq by (simp add: side_inv_def)
    with b price show ?thesis by (auto simp: node_before_def)
  qed
  ultimately show ?thesis by (auto simp: top_of_def)
qed

lemma side_top_correct:
  assumes spec: "avltree_spec av" and inv: "side_inv av before s"
  shows "\<exists>pq. side_top av s = Inr pq \<and> top_of before (side_levels s) pq"
proof (cases "avl_seq av (bk_tree s)")
  case Nil
  then have "side_levels s = Map.empty" using dom_side_levels [OF inv] by (simp add: dom_eq_empty_conv)
  with Nil spec show ?thesis by (simp add: side_top_def top_of_def av_size)
next
  case (Cons a rest)
  then have "a \<in> snd ` set (bk_hash s)" using inv by (auto simp: side_inv_def)
  then obtain l where l: "bk_heap s a = Some l" using inv by (fastforce simp: side_inv_def)
  with Cons spec top_of_front [OF inv Cons l] show ?thesis
    by (simp add: side_top_def begin_level_def deref_def av_size)
qed

text \<open>The lazy test: when it fails, the top is strictly ahead of the price.\<close>

lemma touches_top_correct:
  assumes spec: "avltree_spec av" and inv: "side_inv av before s"
    and al: "\<And>p q. at_least p q \<longleftrightarrow> p = q \<or> before p q"
  shows "\<exists>r. touches_top av at_least price s = Inr r \<and>
     (\<not> r \<longrightarrow> (\<forall>pq. top_of before (side_levels s) pq \<longrightarrow>
                 side_levels s \<noteq> Map.empty \<and> before (fst pq) price))"
proof (cases "avl_seq av (bk_tree s)")
  case Nil
  with spec show ?thesis by (intro exI [of _ True]) (simp add: touches_top_def av_size)
next
  case (Cons a rest)
  then have "a \<in> snd ` set (bk_hash s)" using inv by (auto simp: side_inv_def)
  then obtain l where l: "bk_heap s a = Some l" using inv by (fastforce simp: side_inv_def)
  have ne: "side_levels s \<noteq> Map.empty" using dom_side_levels [OF inv] Cons by fastforce
  have front: "top_of before (side_levels s) (moap_price l, mo_qty (moap_first_mkt_order l))"
    using top_of_front [OF inv Cons l] by simp
  have eq: "fst pq = moap_price l" if "top_of before (side_levels s) pq" for pq
  proof -
    have "fst pq \<in> dom (side_levels s)" "moap_price l \<in> dom (side_levels s)"
      using that front ne by (auto simp: top_of_def)
    then have "moap_price l = fst pq \<or> before (fst pq) (moap_price l)"
      and "fst pq = moap_price l \<or> before (moap_price l) (fst pq)"
      using that front ne by (simp_all add: top_of_def)
    then show ?thesis using irrefl [of "fst pq"] trans [of "fst pq" "moap_price l" "fst pq"] by metis
  qed
  have "touches_top av at_least price s = Inr (at_least price (moap_price l))"
    using Cons l spec by (simp add: touches_top_def begin_level_def deref_def av_size)
  moreover have "before (fst pq) price"
    if "\<not> at_least price (moap_price l)" and "top_of before (side_levels s) pq" for pq
    using that eq [OF that(2)] al [of price "moap_price l"] total [of price "moap_price l"] by simp
  ultimately show ?thesis using ne by blast
qed

lemma top_of_behind:
  assumes "top_of before m pq" and "m \<noteq> Map.empty" and "before (fst pq) price"
  shows "top_of before (m(price := v)) pq"
proof -
  have "price \<noteq> fst pq" using assms(3) irrefl by blast
  moreover have top: "m (fst pq) = Some (snd pq)" "\<forall>p \<in> dom m. p = fst pq \<or> before (fst pq) p"
    using assms(1,2) by (simp_all add: top_of_def)
  ultimately have "m(price := v) \<noteq> Map.empty" by (metis fun_upd_other option.distinct(1))
  with top assms(3) \<open>price \<noteq> fst pq\<close> show ?thesis by (auto simp: top_of_def)
qed

text \<open>Adding at a price without a level.\<close>

lemma add_new_level:
  assumes spec: "avltree_spec av" and inv: "side_inv av before s"
    and none: "map_of (bk_hash s) (mo_price ord) = None"
    and alloc: "Allocate (bk_pool s) = (Some a, pool)" and qty: "mo_qty ord \<noteq> 0"
  defines "heap \<equiv> (bk_heap s)(a \<mapsto> \<lparr>moap_side = mo_side ord, moap_price = mo_price ord, moap_first_mkt_order = ord\<rparr>)"
  defines "s' \<equiv> s\<lparr>bk_pool := pool, bk_heap := heap, bk_hash := (mo_price ord, a) # bk_hash s,
                 bk_tree := avl_insert_equal av (node_before before heap) a (bk_tree s)\<rparr>"
  shows "side_inv av before s' \<and> side_levels s' = (side_levels s)(mo_price ord \<mapsto> mo_qty ord)"
proof -
  let ?seq = "avl_seq av (bk_tree s)"
  have pool: "a \<notin> mp_live (bk_pool s)" "mp_live pool = insert a (mp_live (bk_pool s))" "MemoryPool_inv pool"
    using mp.alloc_Some [OF _ alloc] inv by (auto simp: side_inv_def)
  have fresh: "a \<notin> snd ` set (bk_hash s)" "a \<notin> set ?seq" using pool(1) inv by (auto simp: side_inv_def)
  have price: "level_price heap b = level_price (bk_heap s) b" if "b \<in> set ?seq" for b
    using that fresh(2) by (auto simp: level_price_def heap_def)
  have price_a: "level_price heap a = mo_price ord" by (simp add: level_price_def heap_def)
  have differ: "level_price heap y \<noteq> level_price heap a" if "y \<in> set ?seq" for y
    using that price [OF that] price_a none side_inv_node [OF inv that] by auto
  have sorted: "sorted_wrt (node_before before heap) ?seq"
    using inv price by (auto simp: side_inv_def node_before_def elim: sorted_wrt_mono_rel [rotated])
  have seq: "avl_seq av (bk_tree s') =
      takeWhile (\<lambda>y. \<not> node_before before heap a y) ?seq @ a # dropWhile (\<lambda>y. \<not> node_before before heap a y) ?seq"
    using av_update(1) [OF spec strict_weak_nodes sorted_weaken [OF sorted]] by (simp add: s'_def)
  then have set: "set (avl_seq av (bk_tree s')) = insert a (set ?seq)"
    using takeWhile_dropWhile_set [of "\<lambda>y. \<not> node_before before heap a y" ?seq] by auto
  have levels: "side_levels s' = (side_levels s)(mo_price ord \<mapsto> mo_qty ord)"
  proof
    fix p
    show "side_levels s' p = ((side_levels s)(mo_price ord \<mapsto> mo_qty ord)) p"
      using fresh(1) map_of_SomeD [of "bk_hash s" p]
      by (force simp: side_levels_def s'_def heap_def split: option.split)
  qed
  have entries: "\<forall>(p, b) \<in> set (bk_hash s'). \<exists>l. bk_heap s' b = Some l \<and> moap_price l = p \<and>
        mo_price (moap_first_mkt_order l) = p \<and> mo_qty (moap_first_mkt_order l) \<noteq> 0"
    using inv fresh(1) qty by (force simp: side_inv_def s'_def heap_def)
  have hash: "distinct (List.map fst (bk_hash s'))" "distinct (List.map snd (bk_hash s'))"
    using inv fresh(1) none by (auto simp: s'_def side_inv_def map_of_eq_None_iff)
  have "sorted_wrt (node_before before (bk_heap s')) (avl_seq av (bk_tree s'))"
    using insert_sorted [OF sorted] differ seq by (simp add: s'_def)
  with pool entries hash set inv have "side_inv av before s'"
    by (simp add: side_inv_def s'_def)
  with levels show ?thesis by simp
qed

text \<open>Changing the order of a level that is there.\<close>

lemma update_level:
  assumes inv: "side_inv av before s" and look: "map_of (bk_hash s) (mo_price ord) = Some a"
    and l: "bk_heap s a = Some l" and qty: "mo_qty ord \<noteq> 0"
  defines "s' \<equiv> s\<lparr>bk_heap := (bk_heap s)(a \<mapsto> l\<lparr>moap_first_mkt_order := (moap_first_mkt_order l)
                 \<lparr>mo_order_id := mo_order_id ord, mo_price := mo_price ord, mo_qty := mo_qty ord\<rparr>\<rparr>)\<rparr>"
  shows "side_inv av before s' \<and> side_levels s' = (side_levels s)(mo_price ord \<mapsto> mo_qty ord)"
proof -
  have price: "moap_price l = mo_price ord" using side_inv_hash_lookup [OF inv look] l by simp
  have same: "level_price (bk_heap s') = level_price (bk_heap s)"
    using l by (auto simp: level_price_def s'_def fun_eq_iff)
  have entries: "\<forall>(p, b) \<in> set (bk_hash s'). \<exists>l. bk_heap s' b = Some l \<and> moap_price l = p \<and>
        mo_price (moap_first_mkt_order l) = p \<and> mo_qty (moap_first_mkt_order l) \<noteq> 0"
  proof (clarify)
    fix p b
    assume pb: "(p, b) \<in> set (bk_hash s')"
    show "\<exists>l. bk_heap s' b = Some l \<and> moap_price l = p \<and> mo_price (moap_first_mkt_order l) = p \<and>
            mo_qty (moap_first_mkt_order l) \<noteq> 0"
    proof (cases "b = a")
      case True
      then have "p = mo_price ord" using pb inv price l by (auto simp: side_inv_def s'_def)
      with True price qty show ?thesis by (simp add: s'_def)
    next
      case False
      with pb inv show ?thesis by (force simp: side_inv_def s'_def)
    qed
  qed
  have levels: "side_levels s' = (side_levels s)(mo_price ord \<mapsto> mo_qty ord)"
  proof
    fix p
    have "b \<noteq> a" if "map_of (bk_hash s) p = Some b" and "p \<noteq> mo_price ord" for b
      using side_inv_hash_lookup [OF inv that(1)] l price that(2) by auto
    then show "side_levels s' p = ((side_levels s)(mo_price ord \<mapsto> mo_qty ord)) p"
      using look by (auto simp: side_levels_def s'_def split: option.split)
  qed
  have "node_before before (bk_heap s') = node_before before (bk_heap s)"
    using same by (simp add: node_before_def fun_eq_iff)
  moreover have "bk_pool s' = bk_pool s" "bk_hash s' = bk_hash s" "bk_tree s' = bk_tree s"
    by (simp_all add: s'_def)
  ultimately have "side_inv av before s'"
    using inv entries by (simp add: side_inv_def)
  with levels show ?thesis by simp
qed

lemma AddOrder_side_correct:
  assumes spec: "avltree_spec av" and inv: "side_inv av before s"
    and mem: "memory_suffices (bk_pool s)" and qty: "mo_qty ord \<noteq> 0"
  shows "\<exists>s'. AddOrder_side av before True ord s = Inr s' \<and> side_inv av before s' \<and>
     memory_suffices (bk_pool s') \<and> side_levels s' = (side_levels s)(mo_price ord \<mapsto> mo_qty ord)"
proof (cases "map_of (bk_hash s) (mo_price ord)")
  case None
  obtain a p where alloc: "Allocate (bk_pool s) = (Some a, p)" "memory_suffices p"
    using memory_suffices_Allocate [OF mem] by blast
  from add_new_level [OF spec inv None alloc(1) qty] None alloc show ?thesis
    by (simp add: AddOrder_side_def GetOrdersAtPrice_def AddOrdersAtPrice_def level_price_def Let_def)
next
  case (Some a)
  then obtain l where l: "bk_heap s a = Some l" using side_inv_hash_lookup [OF inv Some] by blast
  from update_level [OF inv Some l qty] Some l mem show ?thesis
    by (simp add: AddOrder_side_def GetOrdersAtPrice_def deref_def Let_def)
qed

text \<open>Removing a level.\<close>

lemma remove_level:
  assumes spec: "avltree_spec av" and inv: "side_inv av before s" and look: "map_of (bk_hash s) price = Some a"
  defines "lt \<equiv> node_before before (bk_heap s)"
  defines "s' \<equiv> s\<lparr>bk_tree := avl_erase av lt a (bk_tree s), bk_hash := filter (\<lambda>e. fst e \<noteq> price) (bk_hash s),
                 bk_heap := (bk_heap s)(a := None), bk_pool := Deallocate (Some a) (bk_pool s)\<rparr>"
  shows "avl_count av lt a (bk_tree s) \<noteq> 0 \<and> side_inv av before s' \<and>
         side_levels s' = (side_levels s)(price := None)"
proof -
  let ?seq = "avl_seq av (bk_tree s)"
  have pa: "(price, a) \<in> set (bk_hash s)" using map_of_SomeD [OF look] .
  then have live: "a \<in> mp_live (bk_pool s)" "a \<in> set ?seq" using inv by (auto simp: side_inv_def image_iff) force+
  have sorted: "sorted_wrt lt ?seq" using inv by (simp add: side_inv_def lt_def)
  note ops = av_update [OF spec strict_weak_nodes sorted_weaken [OF sorted [unfolded lt_def]], folded lt_def]
  have "\<not> lt a a" using irrefl by (simp add: lt_def node_before_def)
  with live(2) have "a \<in> set (filter (\<lambda>y. \<not> lt a y \<and> \<not> lt y a) ?seq)" by simp
  then have count: "avl_count av lt a (bk_tree s) \<noteq> 0" unfolding ops(3) by force
  have seq: "avl_seq av (bk_tree s') = filter (\<lambda>y. y \<noteq> a) ?seq"
    using ops(2) seq_filter_others [OF inv live(2)] by (simp add: s'_def lt_def)
  have other: "b \<noteq> a" if "(p, b) \<in> set (bk_hash s)" "p \<noteq> price" for p b
  proof
    assume "b = a"
    with that pa inv have "p = price"
      by (auto simp: side_inv_def distinct_map inj_on_def) (metis prod.inject snd_conv)
    with that(2) show False ..
  qed
  have addrs: "snd ` set (bk_hash s') = snd ` set (bk_hash s) - {a}"
  proof -
    have "b = a" if "(price, b) \<in> set (bk_hash s)" for b
      using that inv look map_of_is_SomeI [OF _ that] by (simp add: side_inv_def)
    with other show ?thesis by (fastforce simp: s'_def image_iff)
  qed
  have pool: "mp_live (bk_pool s') = mp_live (bk_pool s) - {a}" "MemoryPool_inv (bk_pool s')"
    using mp.dealloc_Some [OF _ live(1)] inv by (auto simp: side_inv_def s'_def)
  have entries: "\<forall>(p, b) \<in> set (bk_hash s'). \<exists>l. bk_heap s' b = Some l \<and> moap_price l = p \<and>
        mo_price (moap_first_mkt_order l) = p \<and> mo_qty (moap_first_mkt_order l) \<noteq> 0"
    using inv other by (force simp: side_inv_def s'_def)
  have sorted': "sorted_wrt (node_before before (bk_heap s')) (avl_seq av (bk_tree s'))"
    unfolding seq using sorted_wrt_filter [OF sorted]
    by (rule sorted_wrt_mono_rel [rotated]) (auto simp: s'_def lt_def node_before_def level_price_def)
  have levels: "side_levels s' = (side_levels s)(price := None)"
    using other map_of_SomeD [of "bk_hash s"]
    by (force simp: side_levels_def s'_def map_of_filter_key fun_eq_iff split: option.split)
  have "distinct (List.map fst (bk_hash s'))" "distinct (List.map snd (bk_hash s'))"
    using inv by (auto simp: s'_def side_inv_def intro: distinct_map_filter)
  with pool addrs entries sorted' seq inv have "side_inv av before s'"
    by (auto simp: side_inv_def)
  with count levels show ?thesis by blast
qed

lemma RemoveOrdersAtPrice_side_correct:
  assumes spec: "avltree_spec av" and inv: "side_inv av before s" and mem: "memory_suffices (bk_pool s)"
  shows "\<exists>s'. RemoveOrdersAtPrice_side av before True price s = Inr s' \<and> side_inv av before s' \<and>
     memory_suffices (bk_pool s') \<and> side_levels s' = (side_levels s)(price := None)"
proof (cases "map_of (bk_hash s) price")
  case None
  then have "side_levels s = (side_levels s)(price := None)" by (auto simp: side_levels_def fun_eq_iff)
  with None inv mem show ?thesis by (simp add: RemoveOrdersAtPrice_side_def GetOrdersAtPrice_def)
next
  case (Some a)
  then obtain l where l: "bk_heap s a = Some l" using side_inv_hash_lookup [OF inv Some] by blast
  from remove_level [OF spec inv Some] Some l mem show ?thesis
    by (simp add: RemoveOrdersAtPrice_side_def GetOrdersAtPrice_def deref_def Let_def)
qed

lemma ClearOrderBook_side_correct:
  assumes spec: "avltree_spec av" and inv: "side_inv av before s"
  shows "side_inv av before (ClearOrderBook_side av s) \<and>
     side_levels (ClearOrderBook_side av s) = Map.empty \<and>
     mp_live (bk_pool (ClearOrderBook_side av s)) = {} \<and>
     memory_suffices (bk_pool (ClearOrderBook_side av s)) = memory_suffices (bk_pool s)"
proof -
  have "mp_live (bk_pool (ClearOrderBook_side av s)) = {}" and "MemoryPool_inv (bk_pool (ClearOrderBook_side av s))"
    and "memory_suffices (bk_pool (ClearOrderBook_side av s)) = memory_suffices (bk_pool s)"
    using Deallocate_all [of "bk_pool s" "bk_hash s"] inv by (auto simp: side_inv_def ClearOrderBook_side_def)
  then show ?thesis
    using av_empty [OF spec] by (auto simp: side_inv_def ClearOrderBook_side_def side_levels_def)
qed

lemma empty_side_inv:
  assumes "avltree_spec av" and "chunks_distinct ch"
  shows "side_inv av before (empty_side av ch)"
  using assms MemoryPool_new_inv [of ch] by (simp add: side_inv_def empty_side_def av_empty)

end

interpretation bids: price_order "(>)"
  by unfold_locales auto

interpretation asks: price_order "(<)"
  by unfold_locales auto

end
