(* ===== verification/Order_Book_Refine.thy ===== *)
theory Order_Book_Refine
  imports Order_Book_Props
begin

text \<open>
  \<open>MarketOrderBook2\<close> against its abstract specification: two partial maps from price to
  quantity, a best bid and offer that is the top of them, and one signal to every subscriber
  whenever the best bid and offer can have changed.
\<close>

section \<open>The abstract book\<close>

definition book_ok :: "'t avl_ops \<Rightarrow> 't MarketOrderBook2 \<Rightarrow> bool" where
  "book_ok av b \<longleftrightarrow> side_inv av (>) (ob_bids b) \<and> side_inv av (<) (ob_asks b)"

definition book_memory :: "'t MarketOrderBook2 \<Rightarrow> bool" where
  "book_memory b \<longleftrightarrow> memory_suffices (bk_pool (ob_bids b)) \<and> memory_suffices (bk_pool (ob_asks b))"

definition bids_of :: "'t MarketOrderBook2 \<Rightarrow> (Price \<rightharpoonup> Qty)" where
  "bids_of b = side_levels (ob_bids b)"

definition asks_of :: "'t MarketOrderBook2 \<Rightarrow> (Price \<rightharpoonup> Qty)" where
  "asks_of b = side_levels (ob_asks b)"

definition bid_exact :: "'t MarketOrderBook2 \<Rightarrow> bool" where
  "bid_exact b \<longleftrightarrow> top_of (>) (bids_of b) (bid_price (ob_bbo b), bid_qty (ob_bbo b))"

definition ask_exact :: "'t MarketOrderBook2 \<Rightarrow> bool" where
  "ask_exact b \<longleftrightarrow> top_of (<) (asks_of b) (ask_price (ob_bbo b), ask_qty (ob_bbo b))"

definition set_level :: "Price \<Rightarrow> Qty \<Rightarrow> (Price \<rightharpoonup> Qty) \<Rightarrow> (Price \<rightharpoonup> Qty)" where
  "set_level price qty m = m(price := (if qty = 0 then None else Some qty))"

definition set_levels :: "BookSnapshotElem list \<Rightarrow> (Price \<rightharpoonup> Qty) \<Rightarrow> (Price \<rightharpoonup> Qty)" where
  "set_levels es m = fold (\<lambda>e. set_level (bse_price e) (bse_qty e)) es m"

definition fills :: "BookSnapshotElem list \<Rightarrow> bool" where
  "fills es \<longleftrightarrow> (\<exists>e \<in> set es. bse_qty e \<noteq> 0)"

lemma set_levels_simps [simp]:
  "set_levels [] m = m"
  "set_levels (e # es) m = set_levels es (set_level (bse_price e) (bse_qty e) m)"
  by (simp_all add: set_levels_def)

text \<open>The part of the book a message does not touch.\<close>

definition same_frame :: "'t MarketOrderBook2 \<Rightarrow> 't MarketOrderBook2 \<Rightarrow> bool" where
  "same_frame b b' \<longleftrightarrow>
     ob_bbo b' = ob_bbo b \<and> ob_subscribers b' = ob_subscribers b \<and> ob_signals b' = ob_signals b \<and>
     ob_exchange_id b' = ob_exchange_id b \<and> ob_trading_pair b' = ob_trading_pair b"

section \<open>One level\<close>

text \<open>The common body of the three handlers: add or remove one level on a side.\<close>

definition put_level :: "'t avl_ops \<Rightarrow> Side \<Rightarrow> Price \<Rightarrow> Qty \<Rightarrow> 't MarketOrderBook2 \<Rightarrow> 't MarketOrderBook2 result" where
  "put_level av side price qty b =
     (if qty \<noteq> 0
      then AddOrder av \<lparr>mo_order_id = kOrderIdInvalid, mo_side = side, mo_price = price, mo_qty = qty\<rparr> b
      else RemoveOrdersAtPrice av side price b)"

lemma put_level_bid:
  assumes "avltree_spec av" and "book_ok av b" and "book_memory b"
  shows "\<exists>b'. put_level av kBid price qty b = Inr b' \<and> book_ok av b' \<and> book_memory b' \<and>
     same_frame b b' \<and> asks_of b' = asks_of b \<and> bids_of b' = set_level price qty (bids_of b)"
proof (cases "qty = 0")
  case True
  with assms bids.RemoveOrdersAtPrice_side_correct [of av "ob_bids b" price] show ?thesis
    by (auto simp: put_level_def RemoveOrdersAtPrice_def book_ok_def book_memory_def same_frame_def
        asks_of_def bids_of_def set_level_def)
next
  case False
  with assms bids.AddOrder_side_correct
    [of av "ob_bids b" "\<lparr>mo_order_id = kOrderIdInvalid, mo_side = kBid, mo_price = price, mo_qty = qty\<rparr>"]
  show ?thesis
    by (auto simp: put_level_def AddOrder_def book_ok_def book_memory_def same_frame_def
        asks_of_def bids_of_def set_level_def)
qed

lemma put_level_ask:
  assumes "avltree_spec av" and "book_ok av b" and "book_memory b"
  shows "\<exists>b'. put_level av kAsk price qty b = Inr b' \<and> book_ok av b' \<and> book_memory b' \<and>
     same_frame b b' \<and> bids_of b' = bids_of b \<and> asks_of b' = set_level price qty (asks_of b)"
proof (cases "qty = 0")
  case True
  with assms asks.RemoveOrdersAtPrice_side_correct [of av "ob_asks b" price] show ?thesis
    by (auto simp: put_level_def RemoveOrdersAtPrice_def book_ok_def book_memory_def same_frame_def
        asks_of_def bids_of_def set_level_def)
next
  case False
  with assms asks.AddOrder_side_correct
    [of av "ob_asks b" "\<lparr>mo_order_id = kOrderIdInvalid, mo_side = kAsk, mo_price = price, mo_qty = qty\<rparr>"]
  show ?thesis
    by (auto simp: put_level_def AddOrder_def book_ok_def book_memory_def same_frame_def
        asks_of_def bids_of_def set_level_def)
qed

lemma ge_price_iff: "(p::Price) \<ge> q \<longleftrightarrow> p = q \<or> p > q"
  and le_price_iff: "(p::Price) \<le> q \<longleftrightarrow> p = q \<or> p < q"
  by auto

lemma touches_bid:
  assumes "avltree_spec av" and "book_ok av b"
  shows "\<exists>r. touches_top av (\<ge>) price (ob_bids b) = Inr r \<and>
     (\<not> r \<longrightarrow> bids_of b \<noteq> Map.empty \<and>
       (\<forall>pq v. top_of (>) (bids_of b) pq \<longrightarrow> top_of (>) ((bids_of b)(price := v)) pq))"
proof -
  obtain r where r: "touches_top av (\<ge>) price (ob_bids b) = Inr r"
    "\<not> r \<Longrightarrow> top_of (>) (bids_of b) pq \<Longrightarrow> bids_of b \<noteq> Map.empty \<and> fst pq > price" for pq
    using bids.touches_top_correct [OF assms(1), of "ob_bids b" "(\<ge>)" price, OF _ ge_price_iff] assms(2)
    unfolding book_ok_def bids_of_def by blast
  obtain pq where "top_of (>) (bids_of b) pq"
    using bids.side_top_correct [OF assms(1), of "ob_bids b"] assms(2) by (auto simp: book_ok_def bids_of_def)
  with r(2) have "\<not> r \<longrightarrow> bids_of b \<noteq> Map.empty" by blast
  with r bids.top_of_behind show ?thesis by blast
qed

lemma touches_ask:
  assumes "avltree_spec av" and "book_ok av b"
  shows "\<exists>r. touches_top av (\<le>) price (ob_asks b) = Inr r \<and>
     (\<not> r \<longrightarrow> asks_of b \<noteq> Map.empty \<and>
       (\<forall>pq v. top_of (<) (asks_of b) pq \<longrightarrow> top_of (<) ((asks_of b)(price := v)) pq))"
proof -
  obtain r where r: "touches_top av (\<le>) price (ob_asks b) = Inr r"
    "\<not> r \<Longrightarrow> top_of (<) (asks_of b) pq \<Longrightarrow> asks_of b \<noteq> Map.empty \<and> fst pq < price" for pq
    using asks.touches_top_correct [OF assms(1), of "ob_asks b" "(\<le>)" price, OF _ le_price_iff] assms(2)
    unfolding book_ok_def asks_of_def by blast
  obtain pq where "top_of (<) (asks_of b) pq"
    using asks.side_top_correct [OF assms(1), of "ob_asks b"] assms(2) by (auto simp: book_ok_def asks_of_def)
  with r(2) have "\<not> r \<longrightarrow> asks_of b \<noteq> Map.empty" by blast
  with r asks.top_of_behind show ?thesis by blast
qed

section \<open>UpdateBBO and signals\<close>

text \<open>The sides that were flagged become exact, the other parts of the best bid and offer stay.\<close>

lemma UpdateBBO_correct:
  assumes "avltree_spec av" and "book_ok av b"
  shows "\<exists>bbo. UpdateBBO av ub ua b = Inr (b\<lparr>ob_bbo := bbo\<rparr>) \<and>
     (if ub then top_of (>) (bids_of b) (bid_price bbo, bid_qty bbo)
      else bid_price bbo = bid_price (ob_bbo b) \<and> bid_qty bbo = bid_qty (ob_bbo b)) \<and>
     (if ua then top_of (<) (asks_of b) (ask_price bbo, ask_qty bbo)
      else ask_price bbo = ask_price (ob_bbo b) \<and> ask_qty bbo = ask_qty (ob_bbo b))"
proof -
  obtain bp bq where bid: "side_top av (ob_bids b) = Inr (bp, bq)" "top_of (>) (bids_of b) (bp, bq)"
    using bids.side_top_correct [OF assms(1), of "ob_bids b"] assms(2) by (auto simp: book_ok_def bids_of_def)
  obtain ap aq where ask: "side_top av (ob_asks b) = Inr (ap, aq)" "top_of (<) (asks_of b) (ap, aq)"
    using asks.side_top_correct [OF assms(1), of "ob_asks b"] assms(2) by (auto simp: book_ok_def asks_of_def)
  define bbo where "bbo =
    (let x = (if ub then (ob_bbo b)\<lparr>bid_price := bp, bid_qty := bq\<rparr> else ob_bbo b)
     in if ua then x\<lparr>ask_price := ap, ask_qty := aq\<rparr> else x)"
  have "UpdateBBO av ub ua b = Inr (b\<lparr>ob_bbo := bbo\<rparr>)"
    using bid(1) ask(1) by (auto simp: UpdateBBO_def bbo_def Let_def)
  with bid(2) ask(2) show ?thesis by (intro exI [of _ bbo]) (simp add: bbo_def Let_def)
qed

lemma emit_if_frame [simp]:
  "ob_bids (emit_if c b) = ob_bids b" "ob_asks (emit_if c b) = ob_asks b"
  "ob_bbo (emit_if c b) = ob_bbo b" "ob_subscribers (emit_if c b) = ob_subscribers b"
  "ob_exchange_id (emit_if c b) = ob_exchange_id b" "ob_trading_pair (emit_if c b) = ob_trading_pair b"
  by (simp_all add: emit_if_def Emit_def)

lemma emit_if_views [simp]:
  "bids_of (emit_if c b) = bids_of b" "asks_of (emit_if c b) = asks_of b"
  "book_ok av (emit_if c b) = book_ok av b" "book_memory (emit_if c b) = book_memory b"
  by (simp_all add: bids_of_def asks_of_def book_ok_def book_memory_def)

lemma bbo_update_views [simp]:
  "bids_of (b\<lparr>ob_bbo := x\<rparr>) = bids_of b" "asks_of (b\<lparr>ob_bbo := x\<rparr>) = asks_of b"
  "book_ok av (b\<lparr>ob_bbo := x\<rparr>) = book_ok av b" "book_memory (b\<lparr>ob_bbo := x\<rparr>) = book_memory b"
  by (simp_all add: bids_of_def asks_of_def book_ok_def book_memory_def)

text \<open>The calls one emission makes.\<close>

definition calls_for :: "'t MarketOrderBook2 \<Rightarrow> BBO \<Rightarrow> (nat \<times> BBO) list" where
  "calls_for b bbo = List.map (\<lambda>cb. (the cb, bbo)) (filter (\<lambda>cb. cb \<noteq> None) (ob_subscribers b))"

definition signals_kept :: "'t MarketOrderBook2 \<Rightarrow> 't MarketOrderBook2 \<Rightarrow> bool" where
  "signals_kept b b' \<longleftrightarrow>
     (ob_signals b' = ob_signals b @ calls_for b (ob_bbo b')) \<or>
     (ob_signals b' = ob_signals b \<and> ob_bbo b' = ob_bbo b)"

text \<open>The end of every handler: \<open>UpdateBBO\<close> on the flagged sides, then the signal.\<close>

lemma finish_correct:
  assumes "avltree_spec av" and "book_ok av b1" and "book_memory b1" and frame: "same_frame b b1"
    and bid: "\<not> ub \<Longrightarrow> top_of (>) (bids_of b1) (bid_price (ob_bbo b), bid_qty (ob_bbo b))"
    and ask: "\<not> ua \<Longrightarrow> top_of (<) (asks_of b1) (ask_price (ob_bbo b), ask_qty (ob_bbo b))"
  shows "\<exists>b'. bind_result (UpdateBBO av ub ua b1) (\<lambda>b2. Inr (emit_if (ub \<or> ua) b2)) = Inr b' \<and>
     book_ok av b' \<and> book_memory b' \<and> bids_of b' = bids_of b1 \<and> asks_of b' = asks_of b1 \<and>
     bid_exact b' \<and> ask_exact b' \<and> signals_kept b b'"
proof -
  obtain bbo where u: "UpdateBBO av ub ua b1 = Inr (b1\<lparr>ob_bbo := bbo\<rparr>)"
    and top: "top_of (>) (bids_of b1) (bid_price bbo, bid_qty bbo)"
             "top_of (<) (asks_of b1) (ask_price bbo, ask_qty bbo)"
    and keep: "\<not> ub \<Longrightarrow> \<not> ua \<Longrightarrow> bbo = ob_bbo b"
    using UpdateBBO_correct [OF assms(1,2), of ub ua] frame bid ask
    by (auto simp: same_frame_def split: if_splits)
  have "signals_kept b (emit_if (ub \<or> ua) (b1\<lparr>ob_bbo := bbo\<rparr>))"
    using frame keep by (auto simp: signals_kept_def emit_if_def Emit_def calls_for_def same_frame_def)
  with u top assms(2,3) show ?thesis by (simp add: bid_exact_def ask_exact_def)
qed

lemma side_levels_empty [simp]: "side_levels (empty_side av ch) = Map.empty"
  by (simp add: side_levels_def empty_side_def fun_eq_iff)

lemma subscribe_views [simp]:
  "book_ok av (SubscribeToBBO cb b) = book_ok av b" "bid_exact (SubscribeToBBO cb b) = bid_exact b"
  "ask_exact (SubscribeToBBO cb b) = ask_exact b" "bids_of (SubscribeToBBO cb b) = bids_of b"
  "asks_of (SubscribeToBBO cb b) = asks_of b" "book_memory (SubscribeToBBO cb b) = book_memory b"
  by (simp_all add: SubscribeToBBO_def book_ok_def bid_exact_def ask_exact_def bids_of_def asks_of_def book_memory_def)

lemma new_book:
  assumes "avltree_spec av" and "chunks_distinct chb" and "chunks_distinct cha"
    and b_def: "b = MarketOrderBook2_new av chb cha ex tp"
  shows "book_ok av b \<and> bid_exact b \<and> ask_exact b \<and> bids_of b = Map.empty \<and> asks_of b = Map.empty"
  using bids.empty_side_inv [OF assms(1,2)] asks.empty_side_inv [OF assms(1,3)]
  by (simp add: b_def MarketOrderBook2_new_def book_ok_def bid_exact_def ask_exact_def bids_of_def asks_of_def
      top_of_def BBO_default_def)

text \<open>A concrete book for the examples: trees as lists, and a pool that never runs out.\<close>

definition demo_book :: "addr list MarketOrderBook2" where
  "demo_book = SubscribeToBBO (Some 0)
     (MarketOrderBook2_new list_avl Some Some kBinance \<lparr>tp_first = 1, tp_second = 2\<rparr>)"

lemma demo_book_ok:
  "book_ok list_avl demo_book" "book_memory demo_book" "bid_exact demo_book" "ask_exact demo_book"
  "bids_of demo_book = Map.empty" "asks_of demo_book = Map.empty"
proof -
  have "chunks_distinct Some" by (simp add: chunks_distinct_def)
  note new = new_book [OF avltree_spec_list_avl this this refl, of kBinance "\<lparr>tp_first = 1, tp_second = 2\<rparr>"]
  then show "book_ok list_avl demo_book" "bid_exact demo_book" "ask_exact demo_book"
    "bids_of demo_book = Map.empty" "asks_of demo_book = Map.empty"
    by (simp_all add: demo_book_def)
  show "book_memory demo_book"
    by (simp add: demo_book_def SubscribeToBBO_def MarketOrderBook2_new_def empty_side_def book_memory_def
        memory_suffices_def MemoryPool_new_def kMaxOrdersAtPrice_def)
qed

lemma top_of_single [simp]: "top_of before [p \<mapsto> q] x \<longleftrightarrow> x = (p, q)"
  by (cases x) (auto simp: top_of_def fun_upd_idem_iff split: if_splits)

section \<open>A single update\<close>

lemma update_refines_aux:
  assumes spec: "avltree_spec av" and ok: "book_ok av b" "book_memory b" and exact: "bid_exact b" "ask_exact b"
    and type: "mu2_type u = DEFAULT" and side: "mu2_side u \<in> {kBid, kAsk}"
  shows "\<exists>b'. OnMarketUpdate av u b = Inr b' \<and> book_ok av b' \<and> book_memory b' \<and>
     bids_of b' = (if mu2_side u = kBid then set_level (mu2_price u) (mu2_qty u) (bids_of b) else bids_of b) \<and>
     asks_of b' = (if mu2_side u = kAsk then set_level (mu2_price u) (mu2_qty u) (asks_of b) else asks_of b) \<and>
     bid_exact b' \<and> ask_exact b' \<and> signals_kept b b'"
proof (cases "mu2_side u = kBid")
  case True
  obtain r where r: "touches_top av (\<ge>) (mu2_price u) (ob_bids b) = Inr r"
    "\<not> r \<Longrightarrow> top_of (>) (bids_of b) pq \<Longrightarrow> top_of (>) ((bids_of b)(mu2_price u := v)) pq" for pq v
    using touches_bid [OF spec ok(1)] by blast
  obtain b1 where b1: "put_level av kBid (mu2_price u) (mu2_qty u) b = Inr b1" "book_ok av b1"
    "book_memory b1" "same_frame b b1" "asks_of b1 = asks_of b"
    "bids_of b1 = set_level (mu2_price u) (mu2_qty u) (bids_of b)"
    using put_level_bid [OF spec ok] by blast
  obtain b' where b': "bind_result (UpdateBBO av r False b1) (\<lambda>b2. Inr (emit_if (r \<or> False) b2)) = Inr b'"
    "book_ok av b'" "book_memory b'" "bids_of b' = bids_of b1" "asks_of b' = asks_of b1"
    "bid_exact b'" "ask_exact b'" "signals_kept b b'"
    using finish_correct [OF spec b1(2-4), of r False] r(2) exact b1(5,6)
    by (auto simp: set_level_def bid_exact_def ask_exact_def)
  with True type r(1) b1 show ?thesis
    by (simp add: OnMarketUpdate_def Let_def put_level_def [symmetric])
next
  case False
  with side have ask: "mu2_side u = kAsk" by simp
  obtain r where r: "touches_top av (\<le>) (mu2_price u) (ob_asks b) = Inr r"
    "\<not> r \<Longrightarrow> top_of (<) (asks_of b) pq \<Longrightarrow> top_of (<) ((asks_of b)(mu2_price u := v)) pq" for pq v
    using touches_ask [OF spec ok(1)] by blast
  obtain b1 where b1: "put_level av kAsk (mu2_price u) (mu2_qty u) b = Inr b1" "book_ok av b1"
    "book_memory b1" "same_frame b b1" "bids_of b1 = bids_of b"
    "asks_of b1 = set_level (mu2_price u) (mu2_qty u) (asks_of b)"
    using put_level_ask [OF spec ok] by blast
  obtain b' where b': "bind_result (UpdateBBO av False r b1) (\<lambda>b2. Inr (emit_if (False \<or> r) b2)) = Inr b'"
    "book_ok av b'" "book_memory b'" "bids_of b' = bids_of b1" "asks_of b' = asks_of b1"
    "bid_exact b'" "ask_exact b'" "signals_kept b b'"
    using finish_correct [OF spec b1(2-4), of False r] r(2) exact b1(5,6)
    by (auto simp: set_level_def bid_exact_def ask_exact_def)
  with ask type r(1) b1 show ?thesis
    by (simp add: OnMarketUpdate_def Let_def put_level_def [symmetric])
qed



section \<open>Diffs and snapshots\<close>

lemma apply_elem_bid:
  assumes spec: "avltree_spec av" and ok: "book_ok av b" "book_memory b"
  shows "\<exists>r b1. apply_elem av is_diff kBid e (upd, b) = Inr (r, b1) \<and> book_ok av b1 \<and> book_memory b1 \<and>
     same_frame b b1 \<and> asks_of b1 = asks_of b \<and>
     bids_of b1 = set_level (bse_price e) (bse_qty e) (bids_of b) \<and> (upd \<longrightarrow> r) \<and>
     (is_diff \<and> \<not> r \<longrightarrow> (\<forall>pq. top_of (>) (bids_of b) pq \<longrightarrow> top_of (>) (bids_of b1) pq)) \<and>
     (\<not> is_diff \<and> bids_of b = Map.empty \<longrightarrow> r = (upd \<or> bse_qty e \<noteq> 0))"
proof -
  obtain r where r: "touches_top av (\<ge>) (bse_price e) (ob_bids b) = Inr r"
    "\<not> r \<Longrightarrow> bids_of b \<noteq> Map.empty"
    "\<not> r \<Longrightarrow> top_of (>) (bids_of b) pq \<Longrightarrow> top_of (>) ((bids_of b)(bse_price e := v)) pq" for pq v
    using touches_bid [OF spec ok(1)] by blast
  obtain b1 where b1: "put_level av kBid (bse_price e) (bse_qty e) b = Inr b1" "book_ok av b1"
    "book_memory b1" "same_frame b b1" "asks_of b1 = asks_of b"
    "bids_of b1 = set_level (bse_price e) (bse_qty e) (bids_of b)"
    using put_level_bid [OF spec ok] by blast
  let ?r = "upd \<or> (bse_qty e \<noteq> 0 \<or> is_diff) \<and> r"
  have "apply_elem av is_diff kBid e (upd, b) = Inr (?r, b1)"
    using r(1) b1(1) by (auto simp: apply_elem_def put_level_def word_gt_0 Let_def split: if_splits)
  with b1 r(2,3) show ?thesis by (auto simp: set_level_def)
qed

lemma fold_diff_bid:
  assumes "avltree_spec av" and "book_ok av b" "book_memory b"
  shows "\<exists>r b1. fold_result (apply_elem av True kBid) es (upd, b) = Inr (r, b1) \<and> book_ok av b1 \<and>
     book_memory b1 \<and> same_frame b b1 \<and> asks_of b1 = asks_of b \<and> bids_of b1 = set_levels es (bids_of b) \<and>
     (\<not> r \<longrightarrow> \<not> upd \<and> (\<forall>pq. top_of (>) (bids_of b) pq \<longrightarrow> top_of (>) (bids_of b1) pq))"
  using assms
proof (induction es arbitrary: upd b)
  case Nil
  then show ?case by (simp add: same_frame_def)
next
  case (Cons e es)
  obtain r1 b1 where 1: "apply_elem av True kBid e (upd, b) = Inr (r1, b1)" "book_ok av b1" "book_memory b1"
    "same_frame b b1" "asks_of b1 = asks_of b" "bids_of b1 = set_level (bse_price e) (bse_qty e) (bids_of b)"
    "upd \<longrightarrow> r1" "\<not> r1 \<longrightarrow> (\<forall>pq. top_of (>) (bids_of b) pq \<longrightarrow> top_of (>) (bids_of b1) pq)"
    using apply_elem_bid [OF Cons.prems, of True e upd] by blast
  from Cons.IH [OF Cons.prems(1) 1(2,3), of r1] 1 show ?case
    by (auto simp: same_frame_def)
qed

lemma fold_snapshot_bid:
  assumes "avltree_spec av" and "book_ok av b" "book_memory b" and "upd \<or> bids_of b = Map.empty"
  shows "\<exists>b1. fold_result (apply_elem av False kBid) es (upd, b) =
       Inr (upd \<or> (\<exists>e \<in> set es. bse_qty e \<noteq> 0), b1) \<and> book_ok av b1 \<and>
     book_memory b1 \<and> same_frame b b1 \<and> asks_of b1 = asks_of b \<and> bids_of b1 = set_levels es (bids_of b)"
  using assms
proof (induction es arbitrary: upd b)
  case Nil
  then show ?case by (simp add: same_frame_def)
next
  case (Cons e es)
  obtain r1 b1 where 1: "apply_elem av False kBid e (upd, b) = Inr (r1, b1)" "book_ok av b1" "book_memory b1"
    "same_frame b b1" "asks_of b1 = asks_of b" "bids_of b1 = set_level (bse_price e) (bse_qty e) (bids_of b)"
    "upd \<longrightarrow> r1" "bids_of b = Map.empty \<longrightarrow> r1 = (upd \<or> bse_qty e \<noteq> 0)"
    using apply_elem_bid [OF Cons.prems(1-3), of False e upd] by blast
  have r1: "r1 = (upd \<or> bse_qty e \<noteq> 0)" using 1(7,8) Cons.prems(4) by blast
  have "r1 \<or> bids_of b1 = Map.empty" using 1(6,7) r1 Cons.prems(4) by (auto simp: set_level_def)
  from Cons.IH [OF Cons.prems(1) 1(2,3) this] 1 r1 show ?case
    by (auto simp: same_frame_def)
qed

lemma apply_elem_ask:
  assumes spec: "avltree_spec av" and ok: "book_ok av b" "book_memory b"
  shows "\<exists>r b1. apply_elem av is_diff kAsk e (upd, b) = Inr (r, b1) \<and> book_ok av b1 \<and> book_memory b1 \<and>
     same_frame b b1 \<and> bids_of b1 = bids_of b \<and>
     asks_of b1 = set_level (bse_price e) (bse_qty e) (asks_of b) \<and> (upd \<longrightarrow> r) \<and>
     (is_diff \<and> \<not> r \<longrightarrow> (\<forall>pq. top_of (<) (asks_of b) pq \<longrightarrow> top_of (<) (asks_of b1) pq)) \<and>
     (\<not> is_diff \<and> asks_of b = Map.empty \<longrightarrow> r = (upd \<or> bse_qty e \<noteq> 0))"
proof -
  obtain r where r: "touches_top av (\<le>) (bse_price e) (ob_asks b) = Inr r"
    "\<not> r \<Longrightarrow> asks_of b \<noteq> Map.empty"
    "\<not> r \<Longrightarrow> top_of (<) (asks_of b) pq \<Longrightarrow> top_of (<) ((asks_of b)(bse_price e := v)) pq" for pq v
    using touches_ask [OF spec ok(1)] by blast
  obtain b1 where b1: "put_level av kAsk (bse_price e) (bse_qty e) b = Inr b1" "book_ok av b1"
    "book_memory b1" "same_frame b b1" "bids_of b1 = bids_of b"
    "asks_of b1 = set_level (bse_price e) (bse_qty e) (asks_of b)"
    using put_level_ask [OF spec ok] by blast
  let ?r = "upd \<or> (bse_qty e \<noteq> 0 \<or> is_diff) \<and> r"
  have "apply_elem av is_diff kAsk e (upd, b) = Inr (?r, b1)"
    using r(1) b1(1) by (auto simp: apply_elem_def put_level_def word_gt_0 Let_def split: if_splits)
  with b1 r(2,3) show ?thesis by (auto simp: set_level_def)
qed

lemma fold_diff_ask:
  assumes "avltree_spec av" and "book_ok av b" "book_memory b"
  shows "\<exists>r b1. fold_result (apply_elem av True kAsk) es (upd, b) = Inr (r, b1) \<and> book_ok av b1 \<and>
     book_memory b1 \<and> same_frame b b1 \<and> bids_of b1 = bids_of b \<and> asks_of b1 = set_levels es (asks_of b) \<and>
     (\<not> r \<longrightarrow> \<not> upd \<and> (\<forall>pq. top_of (<) (asks_of b) pq \<longrightarrow> top_of (<) (asks_of b1) pq))"
  using assms
proof (induction es arbitrary: upd b)
  case Nil
  then show ?case by (simp add: same_frame_def)
next
  case (Cons e es)
  obtain r1 b1 where 1: "apply_elem av True kAsk e (upd, b) = Inr (r1, b1)" "book_ok av b1" "book_memory b1"
    "same_frame b b1" "bids_of b1 = bids_of b" "asks_of b1 = set_level (bse_price e) (bse_qty e) (asks_of b)"
    "upd \<longrightarrow> r1" "\<not> r1 \<longrightarrow> (\<forall>pq. top_of (<) (asks_of b) pq \<longrightarrow> top_of (<) (asks_of b1) pq)"
    using apply_elem_ask [OF Cons.prems, of True e upd] by blast
  from Cons.IH [OF Cons.prems(1) 1(2,3), of r1] 1 show ?case
    by (auto simp: same_frame_def)
qed

lemma fold_snapshot_ask:
  assumes "avltree_spec av" and "book_ok av b" "book_memory b" and "upd \<or> asks_of b = Map.empty"
  shows "\<exists>b1. fold_result (apply_elem av False kAsk) es (upd, b) =
       Inr (upd \<or> (\<exists>e \<in> set es. bse_qty e \<noteq> 0), b1) \<and> book_ok av b1 \<and>
     book_memory b1 \<and> same_frame b b1 \<and> bids_of b1 = bids_of b \<and> asks_of b1 = set_levels es (asks_of b)"
  using assms
proof (induction es arbitrary: upd b)
  case Nil
  then show ?case by (simp add: same_frame_def)
next
  case (Cons e es)
  obtain r1 b1 where 1: "apply_elem av False kAsk e (upd, b) = Inr (r1, b1)" "book_ok av b1" "book_memory b1"
    "same_frame b b1" "bids_of b1 = bids_of b" "asks_of b1 = set_level (bse_price e) (bse_qty e) (asks_of b)"
    "upd \<longrightarrow> r1" "asks_of b = Map.empty \<longrightarrow> r1 = (upd \<or> bse_qty e \<noteq> 0)"
    using apply_elem_ask [OF Cons.prems(1-3), of False e upd] by blast
  have r1: "r1 = (upd \<or> bse_qty e \<noteq> 0)" using 1(7,8) Cons.prems(4) by blast
  have "r1 \<or> asks_of b1 = Map.empty" using 1(6,7) r1 Cons.prems(4) by (auto simp: set_level_def)
  from Cons.IH [OF Cons.prems(1) 1(2,3) this] 1 r1 show ?case
    by (auto simp: same_frame_def)
qed

lemma same_frame_trans: "same_frame a b \<Longrightarrow> same_frame b c \<Longrightarrow> same_frame a c"
  by (simp add: same_frame_def)

lemma diff_refines_aux:
  assumes spec: "avltree_spec av" and ok: "book_ok av b" "book_memory b" and exact: "bid_exact b" "ask_exact b"
  shows "\<exists>b'. OnMarketDiff av (Some d) b = Inr b' \<and> book_ok av b' \<and> book_memory b' \<and>
     bids_of b' = set_levels (bd2_bids d) (bids_of b) \<and> asks_of b' = set_levels (bd2_asks d) (asks_of b) \<and>
     bid_exact b' \<and> ask_exact b' \<and> signals_kept b b'"
proof -
  obtain ub b1 where 1: "fold_result (apply_elem av True kBid) (bd2_bids d) (False, b) = Inr (ub, b1)"
    "book_ok av b1" "book_memory b1" "same_frame b b1" "asks_of b1 = asks_of b"
    "bids_of b1 = set_levels (bd2_bids d) (bids_of b)"
    "\<not> ub \<longrightarrow> (\<forall>pq. top_of (>) (bids_of b) pq \<longrightarrow> top_of (>) (bids_of b1) pq)"
    using fold_diff_bid [OF spec ok, of "bd2_bids d" False] by blast
  obtain ua b2 where 2: "fold_result (apply_elem av True kAsk) (bd2_asks d) (False, b1) = Inr (ua, b2)"
    "book_ok av b2" "book_memory b2" "same_frame b1 b2" "bids_of b2 = bids_of b1"
    "asks_of b2 = set_levels (bd2_asks d) (asks_of b1)"
    "\<not> ua \<longrightarrow> (\<forall>pq. top_of (<) (asks_of b1) pq \<longrightarrow> top_of (<) (asks_of b2) pq)"
    using fold_diff_ask [OF spec 1(2,3), of "bd2_asks d" False] by blast
  have "top_of (>) (bids_of b2) (bid_price (ob_bbo b), bid_qty (ob_bbo b))" if "\<not> ub"
    using that 1(7) 2(5) exact(1) by (simp add: bid_exact_def)
  moreover have "top_of (<) (asks_of b2) (ask_price (ob_bbo b), ask_qty (ob_bbo b))" if "\<not> ua"
    using that 2(7) 1(5) exact(2) by (simp add: ask_exact_def)
  ultimately obtain b' where "bind_result (UpdateBBO av ub ua b2) (\<lambda>b2. Inr (emit_if (ub \<or> ua) b2)) = Inr b'"
    "book_ok av b'" "book_memory b'" "bids_of b' = bids_of b2" "asks_of b' = asks_of b2"
    "bid_exact b'" "ask_exact b'" "signals_kept b b'"
    using finish_correct [OF spec 2(2,3) same_frame_trans [OF 1(4) 2(4)]] by blast
  with 1 2 show ?thesis by (simp add: OnMarketDiff_def apply_levels_def)
qed

text \<open>C4: a diff on a book whose best bid and offer is exact.  The handler returns, the levels are
  those obtained by setting every level of the diff in order, and the best bid and offer is exactly
  the top of the new sides: skipping the recomputation when no element reached the top loses
  nothing.  Subscribers are signalled unless the best bid and offer is unchanged.\<close>

theorem OnMarketDiff_refines:
  assumes spec: "avltree_spec av" and ok: "book_ok av b" "book_memory b" and exact: "bid_exact b" "ask_exact b"
  shows "\<exists>b'. OnMarketDiff av (Some d) b = Inr b' \<and> book_ok av b' \<and> book_memory b' \<and>
     bids_of b' = set_levels (bd2_bids d) (bids_of b) \<and> asks_of b' = set_levels (bd2_asks d) (asks_of b) \<and>
     bid_exact b' \<and> ask_exact b' \<and> signals_kept b b'"
  using diff_refines_aux [OF assms] .

theorem OnMarketDiff_refines_witness:
  "\<exists>b'. OnMarketDiff list_avl
     (Some (BookDiffSnapshot2_spot kBinance \<lparr>tp_first = 1, tp_second = 2\<rparr>
        [\<lparr>bse_price = 100, bse_qty = 7\<rparr>, \<lparr>bse_price = 101, bse_qty = 3\<rparr>, \<lparr>bse_price = 101, bse_qty = 0\<rparr>] [] 1 2))
     demo_book = Inr b' \<and>
     bids_of b' = [100 \<mapsto> 7] \<and> bid_price (ob_bbo b') = 100 \<and> bid_qty (ob_bbo b') = 7"
  using OnMarketDiff_refines [OF avltree_spec_list_avl demo_book_ok(1-4), of
    "BookDiffSnapshot2_spot kBinance \<lparr>tp_first = 1, tp_second = 2\<rparr>
        [\<lparr>bse_price = 100, bse_qty = 7\<rparr>, \<lparr>bse_price = 101, bse_qty = 3\<rparr>, \<lparr>bse_price = 101, bse_qty = 0\<rparr>] [] 1 2"]
  by (auto simp: demo_book_ok(5) set_level_def bid_exact_def BookDiffSnapshot2_spot_def)

lemma ClearOrderBook_correct:
  assumes "avltree_spec av" and "book_ok av b" and "book_memory b"
  shows "book_ok av (ClearOrderBook av b) \<and> book_memory (ClearOrderBook av b) \<and>
     bids_of (ClearOrderBook av b) = Map.empty \<and> asks_of (ClearOrderBook av b) = Map.empty \<and>
     same_frame b (ClearOrderBook av b)"
  using assms bids.ClearOrderBook_side_correct [of av "ob_bids b"]
    asks.ClearOrderBook_side_correct [of av "ob_asks b"]
  by (simp add: ClearOrderBook_def book_ok_def book_memory_def bids_of_def asks_of_def same_frame_def)

lemma snapshot_refines_aux:
  assumes spec: "avltree_spec av" and ok: "book_ok av b" "book_memory b"
    and fb_def: "fb = fills (bs2_bids s)" and fa_def: "fa = fills (bs2_asks s)"
  shows "\<exists>b'. OnMarketSnapshot av (Some s) b = Inr b' \<and> book_ok av b' \<and> book_memory b' \<and>
     bids_of b' = set_levels (bs2_bids s) Map.empty \<and> asks_of b' = set_levels (bs2_asks s) Map.empty \<and>
     (if fb then bid_exact b'
      else bid_price (ob_bbo b') = bid_price (ob_bbo b) \<and> bid_qty (ob_bbo b') = bid_qty (ob_bbo b)) \<and>
     (if fa then ask_exact b'
      else ask_price (ob_bbo b') = ask_price (ob_bbo b) \<and> ask_qty (ob_bbo b') = ask_qty (ob_bbo b)) \<and>
     ob_signals b' = ob_signals b @ (if fb \<or> fa then calls_for b (ob_bbo b') else []) \<and>
     ob_subscribers b' = ob_subscribers b"
proof -
  let ?c = "ClearOrderBook av b"
  note c = ClearOrderBook_correct [OF spec ok]
  obtain b1 where 1: "fold_result (apply_elem av False kBid) (bs2_bids s) (False, ?c) = Inr (fb, b1)"
    "book_ok av b1" "book_memory b1" "same_frame ?c b1" "asks_of b1 = Map.empty"
    "bids_of b1 = set_levels (bs2_bids s) Map.empty"
    using fold_snapshot_bid [OF spec, of ?c False "bs2_bids s"] c fb_def by (auto simp: fills_def)
  obtain b2 where 2: "fold_result (apply_elem av False kAsk) (bs2_asks s) (False, b1) = Inr (fa, b2)"
    "book_ok av b2" "book_memory b2" "same_frame b1 b2" "bids_of b2 = bids_of b1"
    "asks_of b2 = set_levels (bs2_asks s) Map.empty"
    using fold_snapshot_ask [OF spec 1(2,3), of False "bs2_asks s"] 1(5) fa_def by (auto simp: fills_def)
  have frame: "same_frame b b2" using c 1(4) 2(4) same_frame_trans by blast
  obtain bbo where u: "UpdateBBO av fb fa b2 = Inr (b2\<lparr>ob_bbo := bbo\<rparr>)"
     "if fb then top_of (>) (bids_of b2) (bid_price bbo, bid_qty bbo)
      else bid_price bbo = bid_price (ob_bbo b2) \<and> bid_qty bbo = bid_qty (ob_bbo b2)"
     "if fa then top_of (<) (asks_of b2) (ask_price bbo, ask_qty bbo)
      else ask_price bbo = ask_price (ob_bbo b2) \<and> ask_qty bbo = ask_qty (ob_bbo b2)"
    using UpdateBBO_correct [OF spec 2(2)] by blast
  let ?b' = "emit_if (fb \<or> fa) (b2\<lparr>ob_bbo := bbo\<rparr>)"
  have "OnMarketSnapshot av (Some s) b = Inr ?b'"
    using 1(1) 2(1) u(1) by (simp add: OnMarketSnapshot_def apply_levels_def)
  moreover have "ob_signals ?b' = ob_signals b @ (if fb \<or> fa then calls_for b (ob_bbo ?b') else [])"
    using frame by (auto simp: emit_if_def Emit_def calls_for_def same_frame_def)
  ultimately show ?thesis
    using 1 2 u(2,3) frame by (intro exI [of _ ?b']) (auto simp: bid_exact_def ask_exact_def same_frame_def)
qed

text \<open>C6: a snapshot replaces the book: whatever the book held, afterwards each side holds exactly
  the levels of the snapshot, and a side that the snapshot fills has an exact best price and
  quantity.  A side for which the snapshot has no level with a quantity is emptied, but its part of
  the best bid and offer keeps the old value.\<close>

theorem OnMarketSnapshot_refines:
  assumes spec: "avltree_spec av" and ok: "book_ok av b" "book_memory b"
    and fb_def: "fb = fills (bs2_bids s)" and fa_def: "fa = fills (bs2_asks s)"
  shows "\<exists>b'. OnMarketSnapshot av (Some s) b = Inr b' \<and> book_ok av b' \<and> book_memory b' \<and>
     bids_of b' = set_levels (bs2_bids s) Map.empty \<and> asks_of b' = set_levels (bs2_asks s) Map.empty \<and>
     (if fb then bid_exact b'
      else bid_price (ob_bbo b') = bid_price (ob_bbo b) \<and> bid_qty (ob_bbo b') = bid_qty (ob_bbo b)) \<and>
     (if fa then ask_exact b'
      else ask_price (ob_bbo b') = ask_price (ob_bbo b) \<and> ask_qty (ob_bbo b') = ask_qty (ob_bbo b)) \<and>
     ob_signals b' = ob_signals b @ (if fb \<or> fa then calls_for b (ob_bbo b') else [])"
  using snapshot_refines_aux [OF assms] by blast

theorem OnMarketSnapshot_refines_witness:
  "\<exists>b'. OnMarketSnapshot list_avl
     (Some \<lparr>bs2_exchange_id = kBinance, bs2_trading_pair = \<lparr>tp_first = 1, tp_second = 2\<rparr>,
        bs2_bids = [\<lparr>bse_price = 100, bse_qty = 7\<rparr>], bs2_asks = [], bs2_lastUpdateId = 5\<rparr>)
     demo_book = Inr b' \<and> bids_of b' = [100 \<mapsto> 7] \<and> bid_price (ob_bbo b') = 100 \<and>
     ask_price (ob_bbo b') = ask_price (ob_bbo demo_book)"
  using OnMarketSnapshot_refines [OF avltree_spec_list_avl demo_book_ok(1,2) refl refl, of
    "\<lparr>bs2_exchange_id = kBinance, bs2_trading_pair = \<lparr>tp_first = 1, tp_second = 2\<rparr>,
        bs2_bids = [\<lparr>bse_price = 100, bse_qty = 7\<rparr>], bs2_asks = [], bs2_lastUpdateId = 5\<rparr>"]
  by (auto simp: fills_def set_level_def bid_exact_def)

end
