(* ===== verification/Bus.thy ===== *)
theory Bus
  imports Market_Data
begin

text \<open>
  The message bus of aot/bus/bus.h.  A component is a number; \<open>None\<close> is a null pointer.  The map
  from a publisher to its subscribers is an association list (its order is the order in which
  \<open>std::unordered_map\<close> enumerates the publishers).

  The handler an event runs on a component is an argument: it changes a state and reports whether
  it threw an exception.  \<open>CoBus::AsyncSend\<close> calls the handlers directly, one after the other;
  \<open>Bus::AsyncSend\<close> posts them to a strand, which runs them in the order of posting.
\<close>

section \<open>Subscriptions\<close>

type_synonym component = nat
type_synonym subscribers = "component option list"

record CoBus =
  cb_subscribers :: "(component \<times> subscribers) list"

fun push_subscriber :: "component \<Rightarrow> component option \<Rightarrow> (component \<times> subscribers) list \<Rightarrow>
    (component \<times> subscribers) list" where
  "push_subscriber publisher subscriber [] = [(publisher, [subscriber])]"
| "push_subscriber publisher subscriber ((p, ss) # rest) =
     (if p = publisher then (p, ss @ [subscriber]) # rest
      else (p, ss) # push_subscriber publisher subscriber rest)"

definition Subscribe :: "component \<Rightarrow> component option \<Rightarrow> CoBus \<Rightarrow> CoBus" where
  "Subscribe publisher subscriber b = b\<lparr>cb_subscribers := push_subscriber publisher subscriber (cb_subscribers b)\<rparr>"

section \<open>Sending\<close>

text \<open>\<open>event->Accept(component)\<close>: the new state, and whether an exception was thrown.\<close>

type_synonym 's handler = "component \<Rightarrow> 's \<Rightarrow> 's \<times> bool"

definition deliver :: "'s handler \<Rightarrow> component option \<Rightarrow> 's \<Rightarrow> 's" where
  "deliver accept c s = (case c of None \<Rightarrow> s | Some k \<Rightarrow> fst (accept k s))"

definition AsyncSend :: "component \<Rightarrow> 's handler option \<Rightarrow> CoBus \<Rightarrow> 's \<Rightarrow> 's" where
  "AsyncSend publisher event b s =
     (case event of
        None \<Rightarrow> s
      | Some accept \<Rightarrow>
          (case map_of (cb_subscribers b) publisher of
             None \<Rightarrow> s
           | Some ss \<Rightarrow> fold (deliver accept) ss s))"

text \<open>\<open>Bus::AsyncSend\<close>: one task per subscriber goes to the strand; a null subscriber is called too.\<close>

definition Bus_AsyncSend ::
    "component \<Rightarrow> 'e option \<Rightarrow> CoBus \<Rightarrow> (component option \<times> 'e) list \<Rightarrow> (component option \<times> 'e) list" where
  "Bus_AsyncSend publisher event b strand =
     (case event of
        None \<Rightarrow> strand
      | Some e \<Rightarrow>
          (case map_of (cb_subscribers b) publisher of
             None \<Rightarrow> strand
           | Some ss \<Rightarrow> strand @ List.map (\<lambda>c. (c, e)) ss))"

fun run_strand :: "('e \<Rightarrow> component \<Rightarrow> 's \<Rightarrow> 's) \<Rightarrow> (component option \<times> 'e) list \<Rightarrow> 's \<Rightarrow> 's result" where
  "run_strand accept [] s = Inr s"
| "run_strand accept ((None, e) # tasks) s = Inl NullDeref"
| "run_strand accept ((Some c, e) # tasks) s = run_strand accept tasks (accept e c s)"

section \<open>Stopping\<close>

text \<open>The state of the loop: the set of processed subscribers and the calls of \<open>AsyncStop\<close> so
  far; \<open>throws\<close> says which component's \<open>AsyncStop\<close> throws.\<close>

definition stop_one :: "(component \<Rightarrow> bool) \<Rightarrow> component option \<Rightarrow> component set \<times> component list \<Rightarrow>
    component set \<times> component list" where
  "stop_one throws subscriber st =
     (case subscriber of
        None \<Rightarrow> st
      | Some c \<Rightarrow>
          if c \<in> fst st then st
          else if throws c then (fst st, snd st @ [c])
          else (insert c (fst st), snd st @ [c]))"

definition StopAllSubscribers :: "(component \<Rightarrow> bool) \<Rightarrow> CoBus \<Rightarrow> component list" where
  "StopAllSubscribers throws b =
     snd (fold (stop_one throws) (concat (List.map snd (cb_subscribers b))) ({}, []))"

definition StopSubscribersForPublisher :: "(component \<Rightarrow> bool) \<Rightarrow> component option \<Rightarrow> CoBus \<Rightarrow> component list" where
  "StopSubscribersForPublisher throws publisher b =
     (case publisher of
        None \<Rightarrow> []
      | Some p \<Rightarrow>
          (case map_of (cb_subscribers b) p of
             None \<Rightarrow> []
           | Some ss \<Rightarrow> snd (fold (stop_one throws) ss ({}, []))))"

section \<open>Properties\<close>

lemma push_subscriber_lookup:
  "map_of (push_subscriber p s m) q =
     (if q = p then Some ((case map_of m p of None \<Rightarrow> [] | Some ss \<Rightarrow> ss) @ [s]) else map_of m q)"
  by (induction p s m rule: push_subscriber.induct) auto

lemma fold_deliver:
  assumes "\<And>c s. fst (accept c s) = s @ [(c, e)]"
  shows "fold (deliver accept) ss calls = calls @ List.map (\<lambda>c. (c, e)) (List.map the (filter (\<lambda>c. c \<noteq> None) ss))"
  using assms by (induction ss arbitrary: calls) (auto simp: deliver_def split: option.splits)

text \<open>\<open>CoBus\<close> delivers an event to every subscriber of the publisher, in the order of the
  subscriptions and once per subscription, skipping null subscribers; a handler that throws does
  not keep the event from the ones behind it.  After one more subscription the new subscriber is
  served last.  (The handler here records its calls; which calls throw is arbitrary.)\<close>

theorem CoBus_delivers_in_order:
  fixes throws :: "component \<Rightarrow> bool" and e :: 'e
  assumes "map_of (cb_subscribers b) p = Some ss"
  defines "record_call \<equiv> \<lambda>c log. (log @ [(c, e)], throws c)"
  shows "AsyncSend p (Some record_call) b [] = List.map (\<lambda>c. (c, e)) (List.map the (filter (\<lambda>c. c \<noteq> None) ss)) \<and>
         AsyncSend p (Some record_call) (Subscribe p (Some k) b) [] =
           AsyncSend p (Some record_call) b [] @ [(k, e)]"
  using assms(1) fold_deliver [of record_call e] 
  by (simp add: AsyncSend_def Subscribe_def push_subscriber_lookup record_call_def deliver_def [of _ "Some k"])

theorem CoBus_delivers_in_order_witness:
  "AsyncSend 0 (Some (\<lambda>c log. (log @ [(c, ''bbo'')], even c)))
     \<lparr>cb_subscribers = [(7, [Some 1]), (0, [Some 4, None, Some 5])]\<rparr> [] = [(4, ''bbo''), (5, ''bbo'')]"
  using CoBus_delivers_in_order [of "\<lparr>cb_subscribers = [(7, [Some 1]), (0, [Some 4, None, Some 5])]\<rparr>" 0
      "[Some 4, None, Some 5]" "''bbo''" even]
  by simp

lemma stop_fold:
  assumes "distinct (snd st)" and "set (snd st) = fst st"
  shows "distinct (snd (fold (stop_one (\<lambda>_. False)) ss st)) \<and>
     set (snd (fold (stop_one (\<lambda>_. False)) ss st)) = set (snd st) \<union> {c. Some c \<in> set ss}"
  using assms
proof (induction ss arbitrary: st)
  case (Cons s ss)
  let ?st = "stop_one (\<lambda>_. False) s st"
  have "distinct (snd ?st) \<and> set (snd ?st) = fst ?st \<and> set (snd ?st) = set (snd st) \<union> {c. Some c = s}"
    using Cons.prems by (cases s) (auto simp: stop_one_def)
  with Cons.IH [of ?st] show ?case by auto
qed simp

text \<open>When no \<open>AsyncStop\<close> throws, \<open>StopAllSubscribers\<close> stops every component that is
  subscribed to anything, each exactly once however many subscriptions it has.\<close>

theorem StopAllSubscribers_once:
  "distinct (StopAllSubscribers (\<lambda>_. False) b) \<and>
   set (StopAllSubscribers (\<lambda>_. False) b) = {c. \<exists>(p, ss) \<in> set (cb_subscribers b). Some c \<in> set ss}"
  using stop_fold [of "({}, [])" "concat (List.map snd (cb_subscribers b))"]
  by (simp add: StopAllSubscribers_def split_beta)

end
