(* ===== verification/Order_Book_Component.thy ===== *)
theory Order_Book_Component
  imports Order_Book_Refine Bus
begin

text \<open>
  \<open>Trading::OrderBookComponent\<close> of aot/strategy/market_order_book.h: one \<open>MarketOrderBook2\<close> per
  exchange and trading pair, the handlers of the three market data events, the queries for the
  price and quantity at a level, and the publication of a new best bid and offer on the bus.

  Each handler is one step of the component: the coroutines run on one executor and do not suspend
  in between.  \<open>obc_sent\<close> records what is handed to \<open>bus_.AsyncSend\<close>: the event, or \<open>None\<close> when the
  bus event could not be allocated (then the smart pointer to the message is its only owner and its
  end returns the block).  A sent event owns its message; the receivers give both back later.  The subscriber that \<open>AddOrderBook\<close> registers has number 0.
\<close>

section \<open>State\<close>

record NewBBO =
  nb_exchange_id :: ExchangeId
  nb_trading_pair :: TradingPair
  nb_bbo :: BBO
  nb_market_type :: MarketType

text \<open>A bus event wraps a pointer to the message, which is null when that allocation failed.\<close>

type_synonym BusEventNewBBO = "NewBBO option"

record 't OrderBookComponent =
  obc_order_books :: "ExchangeId \<rightharpoonup> (TradingPair \<rightharpoonup> 't MarketOrderBook2)"
  obc_market_type :: MarketType
  obc_new_bbo_pool :: MemoryPool
  obc_bus_event_pool :: MemoryPool
  obc_sent :: "BusEventNewBBO option list"

definition OrderBookComponent_new ::
    "(nat \<Rightarrow> addr option) \<Rightarrow> (nat \<Rightarrow> addr option) \<Rightarrow> nat \<Rightarrow> MarketType \<Rightarrow> 't OrderBookComponent" where
  "OrderBookComponent_new ch1 ch2 max_new_bbo mt =
     \<lparr>obc_order_books = Map.empty, obc_market_type = mt, obc_new_bbo_pool = MemoryPool_new ch1 max_new_bbo,
      obc_bus_event_pool = MemoryPool_new ch2 max_new_bbo, obc_sent = []\<rparr>"

definition find_book :: "ExchangeId \<Rightarrow> TradingPair \<Rightarrow> 't OrderBookComponent \<Rightarrow> 't MarketOrderBook2 option" where
  "find_book ex tp c = Option.bind (obc_order_books c ex) (\<lambda>inner. inner tp)"

section \<open>Operations\<close>

definition SendBBOToBus :: "ExchangeId \<Rightarrow> TradingPair \<Rightarrow> BBO \<Rightarrow> 't OrderBookComponent \<Rightarrow> 't OrderBookComponent" where
  "SendBBOToBus ex tp bbo c =
     (let (request, p1) = Allocate (obc_new_bbo_pool c);
          msg = \<lparr>nb_exchange_id = ex, nb_trading_pair = tp, nb_bbo = bbo, nb_market_type = obc_market_type c\<rparr>;
          (bus_event, p2) = Allocate (obc_bus_event_pool c)
      in c\<lparr>obc_new_bbo_pool := (if bus_event = None then Deallocate request p1 else p1), obc_bus_event_pool := p2,
           obc_sent := obc_sent c @
             [map_option (\<lambda>_. map_option (\<lambda>_. msg) request) bus_event]\<rparr>)"

definition AddOrderBook ::
    "'t avl_ops \<Rightarrow> (nat \<Rightarrow> addr option) \<Rightarrow> (nat \<Rightarrow> addr option) \<Rightarrow> ExchangeId \<Rightarrow> TradingPair \<Rightarrow>
     't OrderBookComponent \<Rightarrow> 't OrderBookComponent" where
  "AddOrderBook av chb cha ex tp c =
     (let inner = (case obc_order_books c ex of None \<Rightarrow> Map.empty | Some m \<Rightarrow> m);
          c1 = c\<lparr>obc_order_books := (obc_order_books c)(ex \<mapsto> inner)\<rparr>
      in case inner tp of
           Some _ \<Rightarrow> c1
         | None \<Rightarrow>
             let book = SubscribeToBBO (Some 0) (MarketOrderBook2_new av chb cha ex tp)
             in c1\<lparr>obc_order_books := (obc_order_books c)(ex \<mapsto> inner(tp \<mapsto> book))\<rparr>)"

text \<open>The common part of the handlers: look the book up, run the operation on it, and make the
  calls of the signal, which all go to \<open>SendBBOToBus\<close>.\<close>

definition on_book ::
    "('t MarketOrderBook2 \<Rightarrow> 't MarketOrderBook2 result) \<Rightarrow> ExchangeId \<Rightarrow> TradingPair \<Rightarrow>
     't OrderBookComponent \<Rightarrow> 't OrderBookComponent result" where
  "on_book oper ex tp c =
     (case obc_order_books c ex of
        None \<Rightarrow> Inr c
      | Some inner \<Rightarrow>
          (case inner tp of
             None \<Rightarrow> Inr c
           | Some book \<Rightarrow>
               bind_result (oper book) (\<lambda>book'.
                 let c1 = c\<lparr>obc_order_books := (obc_order_books c)(ex \<mapsto> inner(tp \<mapsto> book'))\<rparr>;
                     calls = drop (length (ob_signals book)) (ob_signals book')
                 in Inr (fold (\<lambda>call. SendBBOToBus ex tp (snd call)) calls c1))))"

definition HandleNewMEMarketUpdate ::
    "'t avl_ops \<Rightarrow> MEMarketUpdate2 option \<Rightarrow> 't OrderBookComponent \<Rightarrow> 't OrderBookComponent result" where
  "HandleNewMEMarketUpdate av event c =
     (case event of
        None \<Rightarrow> Inr c
      | Some u \<Rightarrow> on_book (OnMarketUpdate av u) (mu2_exchange_id u) (mu2_trading_pair u) c)"

definition HandleResponseNewSnapshot ::
    "'t avl_ops \<Rightarrow> BookSnapshot2 option \<Rightarrow> 't OrderBookComponent \<Rightarrow> 't OrderBookComponent result" where
  "HandleResponseNewSnapshot av event c =
     (case event of
        None \<Rightarrow> Inr c
      | Some s \<Rightarrow> on_book (OnMarketSnapshot av (Some s)) (bs2_exchange_id s) (bs2_trading_pair s) c)"

definition HandleNewDiff ::
    "'t avl_ops \<Rightarrow> BookDiffSnapshot2 option \<Rightarrow> 't OrderBookComponent \<Rightarrow> 't OrderBookComponent result" where
  "HandleNewDiff av event c =
     (case event of
        None \<Rightarrow> Inr c
      | Some d \<Rightarrow> on_book (OnMarketDiff av (Some d)) (bd2_exchange_id d) (bd2_trading_pair d) c)"

text \<open>The level at index \<open>level\<close> of a side, and the two queries.\<close>

definition level_at :: "'t avl_ops \<Rightarrow> 't book_side \<Rightarrow> nat \<Rightarrow> (Price \<times> Qty) result" where
  "level_at av s level =
     (if level \<ge> avl_size av (bk_tree s) then Inr (kPriceInvalid, kQtyInvalid)
      else bind_result (deref (bk_heap s) (avl_seq av (bk_tree s) ! level))
             (\<lambda>l. Inr (mo_price (moap_first_mkt_order l), mo_qty (moap_first_mkt_order l))))"

definition AsyncGetPriceAndQtyAtLevelBid ::
    "'t avl_ops \<Rightarrow> ExchangeId \<Rightarrow> TradingPair \<Rightarrow> nat \<Rightarrow> 't OrderBookComponent \<Rightarrow> (Price \<times> Qty) result" where
  "AsyncGetPriceAndQtyAtLevelBid av ex tp level c =
     (case obc_order_books c ex of
        None \<Rightarrow> Inr (kPriceInvalid, kQtyInvalid)
      | Some inner \<Rightarrow>
          (case inner tp of
             None \<Rightarrow> Inr (kPriceInvalid, kQtyInvalid)
           | Some book \<Rightarrow> level_at av (ob_bids book) level))"

definition AsyncGetPriceAndQtyAtLevelAsk ::
    "'t avl_ops \<Rightarrow> ExchangeId \<Rightarrow> TradingPair \<Rightarrow> nat \<Rightarrow> 't OrderBookComponent \<Rightarrow> (Price \<times> Qty) result" where
  "AsyncGetPriceAndQtyAtLevelAsk av ex tp level c =
     (case obc_order_books c ex of
        None \<Rightarrow> Inr (kPriceInvalid, kQtyInvalid)
      | Some inner \<Rightarrow>
          (case inner tp of
             None \<Rightarrow> Inr (kPriceInvalid, kQtyInvalid)
           | Some book \<Rightarrow> level_at av (ob_asks book) level))"

section \<open>Level queries\<close>

text \<open>The levels of a side from the top down.\<close>

definition side_list :: "'t avl_ops \<Rightarrow> 't book_side \<Rightarrow> (Price \<times> Qty) list" where
  "side_list av s =
     List.map (\<lambda>a. (level_price (bk_heap s) a, the (side_levels s (level_price (bk_heap s) a))))
       (avl_seq av (bk_tree s))"

lemma side_list_levels:
  assumes "side_inv av before s"
  shows "set (side_list av s) = {(p, q). side_levels s p = Some q}"
proof -
  have "(p, q) \<in> set (side_list av s) \<longleftrightarrow> p \<in> dom (side_levels s) \<and> q = the (side_levels s p)" for p q
    unfolding dom_side_levels [OF assms] by (auto simp: side_list_def)
  then show ?thesis by (auto simp: dom_def)
qed

lemma side_list_sorted:
  assumes "side_inv av before s"
  shows "sorted_wrt before (List.map fst (side_list av s))"
  using assms by (simp add: side_list_def sorted_wrt_map side_inv_def node_before_def [abs_def])

lemma level_at_list:
  assumes spec: "avltree_spec av" and inv: "side_inv av before s"
  shows "level_at av s k =
     Inr (if k < length (side_list av s) then side_list av s ! k else (kPriceInvalid, kQtyInvalid))"
proof (cases "k < length (avl_seq av (bk_tree s))")
  case True
  let ?a = "avl_seq av (bk_tree s) ! k"
  have a: "?a \<in> set (avl_seq av (bk_tree s))" using True by simp
  from side_inv_hash_lookup [OF inv side_inv_node [OF inv a]] True show ?thesis
    using av_size [OF spec] by (auto simp: level_at_def deref_def side_list_def)
next
  case False
  then show ?thesis using av_size [OF spec] by (simp add: level_at_def side_list_def)
qed

text \<open>C9: the level queries.  For a book with consistent sides there is one list of the bid levels,
  with strictly falling prices and holding exactly the price-quantity pairs of the bid side, such
  that the query for level \<open>k\<close> answers the \<open>k\<close>-th entry, and the invalid pair behind the end;
  likewise for the asks with strictly rising prices.\<close>

theorem level_query_correct:
  assumes "avltree_spec av" and "find_book ex tp c = Some b" and "book_ok av b"
  shows "\<exists>bl al. sorted_wrt (>) (List.map fst bl) \<and> set bl = {(p, q). bids_of b p = Some q} \<and>
     sorted_wrt (<) (List.map fst al) \<and> set al = {(p, q). asks_of b p = Some q} \<and>
     (\<forall>k. AsyncGetPriceAndQtyAtLevelBid av ex tp k c =
            Inr (if k < length bl then bl ! k else (kPriceInvalid, kQtyInvalid))) \<and>
     (\<forall>k. AsyncGetPriceAndQtyAtLevelAsk av ex tp k c =
            Inr (if k < length al then al ! k else (kPriceInvalid, kQtyInvalid)))"
proof -
  have inv: "side_inv av (>) (ob_bids b)" "side_inv av (<) (ob_asks b)"
    using assms(3) by (simp_all add: book_ok_def)
  have look: "AsyncGetPriceAndQtyAtLevelBid av ex tp k c = level_at av (ob_bids b) k"
    "AsyncGetPriceAndQtyAtLevelAsk av ex tp k c = level_at av (ob_asks b) k" for k
    using assms(2)
    by (auto simp: find_book_def AsyncGetPriceAndQtyAtLevelBid_def AsyncGetPriceAndQtyAtLevelAsk_def
        bind_eq_Some_conv)
  show ?thesis
    using side_list_sorted [OF inv(1)] side_list_levels [OF inv(1)] level_at_list [OF assms(1) inv(1)]
      side_list_sorted [OF inv(2)] side_list_levels [OF inv(2)] level_at_list [OF assms(1) inv(2)]
    by (intro exI [of _ "side_list av (ob_bids b)"] exI [of _ "side_list av (ob_asks b)"])
      (simp add: look bids_of_def asks_of_def)
qed

text \<open>A component with one example book.\<close>

definition demo_component :: "addr list OrderBookComponent" where
  "demo_component = AddOrderBook list_avl Some Some kBinance \<lparr>tp_first = 1, tp_second = 2\<rparr>
     (OrderBookComponent_new Some Some 8 kSpot)"

lemma demo_component_book: "find_book kBinance \<lparr>tp_first = 1, tp_second = 2\<rparr> demo_component = Some demo_book"
  by (simp add: demo_component_def AddOrderBook_def OrderBookComponent_new_def find_book_def demo_book_def)

theorem level_query_correct_witness:
  "AsyncGetPriceAndQtyAtLevelBid list_avl kBinance \<lparr>tp_first = 1, tp_second = 2\<rparr> 0 demo_component =
     Inr (kPriceInvalid, kQtyInvalid)"
  using level_query_correct [OF avltree_spec_list_avl demo_component_book demo_book_ok(1)] demo_book_ok(5)
  by auto

section \<open>The handlers\<close>

definition obc_inv :: "'t avl_ops \<Rightarrow> 't OrderBookComponent \<Rightarrow> bool" where
  "obc_inv av c \<longleftrightarrow>
     (\<forall>ex tp b. find_book ex tp c = Some b \<longrightarrow>
        book_ok av b \<and> book_memory b \<and> bid_exact b \<and> ask_exact b \<and> ob_subscribers b = [Some 0])"

lemma SendBBOToBus_books [simp]: "obc_order_books (SendBBOToBus ex tp bbo c) = obc_order_books c"
  by (simp add: SendBBOToBus_def split_beta Let_def)

lemma fold_SendBBOToBus_books [simp]:
  "obc_order_books (fold (\<lambda>call. SendBBOToBus ex tp (snd call)) calls c) = obc_order_books c"
  by (induction calls arbitrary: c) simp_all

lemma find_book_cong: "obc_order_books c = obc_order_books c' \<Longrightarrow> find_book ex tp c = find_book ex tp c'"
  by (simp add: find_book_def)

lemma on_book_unknown: "find_book ex tp c = None \<Longrightarrow> on_book oper ex tp c = Inr c"
  by (auto simp: find_book_def on_book_def bind_eq_None_conv split: option.splits)

lemma on_book_known:
  assumes "find_book ex tp c = Some b" and "oper b = Inr b'"
  shows "\<exists>c' m. on_book oper ex tp c = Inr c' \<and> find_book ex tp c' = Some b' \<and>
     (\<forall>ex2 tp2. (ex2, tp2) \<noteq> (ex, tp) \<longrightarrow> find_book ex2 tp2 c' = find_book ex2 tp2 c) \<and>
     c' = fold (\<lambda>call. SendBBOToBus ex tp (snd call)) (drop (length (ob_signals b)) (ob_signals b'))
            (c\<lparr>obc_order_books := m\<rparr>)"
proof -
  obtain inner where inner: "obc_order_books c ex = Some inner" "inner tp = Some b"
    using assms(1) by (auto simp: find_book_def bind_eq_Some_conv)
  let ?c1 = "c\<lparr>obc_order_books := (obc_order_books c)(ex \<mapsto> inner(tp \<mapsto> b'))\<rparr>"
  let ?c' = "fold (\<lambda>call. SendBBOToBus ex tp (snd call)) (drop (length (ob_signals b)) (ob_signals b')) ?c1"
  have "on_book oper ex tp c = Inr ?c'" using inner assms(2) by (simp add: on_book_def Let_def)
  moreover have "find_book ex2 tp2 ?c' = (if (ex2, tp2) = (ex, tp) then Some b' else find_book ex2 tp2 c)" for ex2 tp2
    using inner(1) by (auto simp: find_book_def)
  ultimately show ?thesis
    by (intro exI [of _ ?c'] exI [of _ "(obc_order_books c)(ex \<mapsto> inner(tp \<mapsto> b'))"]) simp
qed

lemma one_subscriber_calls:
  "ob_subscribers b = [Some 0] \<Longrightarrow> signals_kept b b' \<Longrightarrow>
   (drop (length (ob_signals b)) (ob_signals b') = [(0, ob_bbo b')]) \<or>
   (drop (length (ob_signals b)) (ob_signals b') = [] \<and> ob_bbo b' = ob_bbo b)"
  by (auto simp: signals_kept_def calls_for_def)

lemma SendBBOToBus_sent:
  assumes "memory_suffices (obc_new_bbo_pool c)" and "memory_suffices (obc_bus_event_pool c)"
  shows "obc_sent (SendBBOToBus ex tp bbo c) = obc_sent c @
     [Some (Some \<lparr>nb_exchange_id = ex, nb_trading_pair = tp, nb_bbo = bbo, nb_market_type = obc_market_type c\<rparr>)]"
proof -
  obtain a1 p1 a2 p2 where "Allocate (obc_new_bbo_pool c) = (Some a1, p1)"
    and "Allocate (obc_bus_event_pool c) = (Some a2, p2)"
    using memory_suffices_Allocate [OF assms(1)] memory_suffices_Allocate [OF assms(2)] by metis
  then show ?thesis by (simp add: SendBBOToBus_def)
qed

lemma obc_inv_replace:
  assumes "obc_inv av c"
    and "\<forall>ex' tp'. (ex', tp') \<noteq> (ex, tp) \<longrightarrow> find_book ex' tp' c' = find_book ex' tp' c"
    and "find_book ex tp c' = Some b'"
    and "book_ok av b' \<and> book_memory b' \<and> bid_exact b' \<and> ask_exact b' \<and> ob_subscribers b' = [Some 0]"
  shows "obc_inv av c'"
  unfolding obc_inv_def
proof (intro allI impI)
  fix ex2 tp2 b2
  assume "find_book ex2 tp2 c' = Some b2"
  with assms show "book_ok av b2 \<and> book_memory b2 \<and> bid_exact b2 \<and> ask_exact b2 \<and> ob_subscribers b2 = [Some 0]"
    unfolding obc_inv_def by (cases "(ex2, tp2) = (ex, tp)") auto
qed

text \<open>\<open>OnMarketUpdate\<close> and \<open>OnMarketDiff\<close> do not change who is subscribed.\<close>

lemma set_side_subscribers:
  "AddOrder av ord b = Inr b' \<Longrightarrow> ob_subscribers b' = ob_subscribers b"
  "RemoveOrdersAtPrice av side price b = Inr b' \<Longrightarrow> ob_subscribers b' = ob_subscribers b"
  by (auto simp: AddOrder_def RemoveOrdersAtPrice_def bind_result_Inr_iff split: if_splits)

lemma UpdateBBO_subscribers: "UpdateBBO av ub ua b = Inr b' \<Longrightarrow> ob_subscribers b' = ob_subscribers b"
  by (auto simp: UpdateBBO_def bind_result_Inr_iff split: if_splits)

lemma fold_elems_subscribers:
  "fold_result (apply_elem av is_diff side) es (u, b) = Inr (u', b') \<Longrightarrow> ob_subscribers b' = ob_subscribers b"
proof (induction es arbitrary: u b)
  case (Cons e es)
  from Cons.prems obtain u1 b1 where 1: "apply_elem av is_diff side e (u, b) = Inr (u1, b1)"
    and 2: "fold_result (apply_elem av is_diff side) es (u1, b1) = Inr (u', b')"
    by (auto simp: bind_result_Inr_iff)
  have "ob_subscribers b1 = ob_subscribers b"
    using 1 set_side_subscribers by (fastforce simp: apply_elem_def Let_def bind_result_Inr_iff split: if_splits)
  with Cons.IH [OF 2] show ?case by simp
qed simp

lemma OnMarketDiff_subscribers: "OnMarketDiff av (Some d) b = Inr b' \<Longrightarrow> ob_subscribers b' = ob_subscribers b"
  by (auto simp: OnMarketDiff_def apply_levels_def bind_result_Inr_iff
      dest!: fold_elems_subscribers UpdateBBO_subscribers)

lemma OnMarketUpdate_subscribers:
  "mu2_type u = DEFAULT \<Longrightarrow> OnMarketUpdate av u b = Inr b' \<Longrightarrow> ob_subscribers b' = ob_subscribers b"
  by (auto simp: OnMarketUpdate_def Let_def bind_result_Inr_iff split: if_splits
      dest!: set_side_subscribers UpdateBBO_subscribers)

text \<open>C8: the component on a diff for a registered book.  The handler returns; only the addressed
  book changes and its sides become those of the diff; every book keeps its invariant and an exact
  best bid and offer; and the bus gets exactly one \<open>NewBBO\<close> with the exact top of that book, unless
  the best bid and offer did not change at all.  For an unregistered exchange or pair nothing
  happens.\<close>

theorem HandleNewDiff_correct:
  assumes spec: "avltree_spec av" and inv: "obc_inv av c"
    and mem: "memory_suffices (obc_new_bbo_pool c)" "memory_suffices (obc_bus_event_pool c)"
  shows "case find_book (bd2_exchange_id d) (bd2_trading_pair d) c of
      None \<Rightarrow> HandleNewDiff av (Some d) c = Inr c
    | Some b \<Rightarrow> \<exists>c' b'. HandleNewDiff av (Some d) c = Inr c' \<and> obc_inv av c' \<and>
        find_book (bd2_exchange_id d) (bd2_trading_pair d) c' = Some b' \<and>
        (\<forall>ex tp. (ex, tp) \<noteq> (bd2_exchange_id d, bd2_trading_pair d) \<longrightarrow> find_book ex tp c' = find_book ex tp c) \<and>
        bids_of b' = set_levels (bd2_bids d) (bids_of b) \<and> asks_of b' = set_levels (bd2_asks d) (asks_of b) \<and>
        (obc_sent c' = obc_sent c @ [Some (Some \<lparr>nb_exchange_id = bd2_exchange_id d,
             nb_trading_pair = bd2_trading_pair d, nb_bbo = ob_bbo b', nb_market_type = obc_market_type c\<rparr>)] \<or>
         obc_sent c' = obc_sent c \<and> ob_bbo b' = ob_bbo b)"
proof (cases "find_book (bd2_exchange_id d) (bd2_trading_pair d) c")
  case None
  then show ?thesis by (simp add: HandleNewDiff_def on_book_unknown)
next
  case (Some b)
  let ?ex = "bd2_exchange_id d" and ?tp = "bd2_trading_pair d"
  have b: "book_ok av b" "book_memory b" "bid_exact b" "ask_exact b" "ob_subscribers b = [Some 0]"
    using inv Some by (auto simp: obc_inv_def)
  obtain b' where b': "OnMarketDiff av (Some d) b = Inr b'" "book_ok av b'" "book_memory b'"
    "bids_of b' = set_levels (bd2_bids d) (bids_of b)" "asks_of b' = set_levels (bd2_asks d) (asks_of b)"
    "bid_exact b'" "ask_exact b'" "signals_kept b b'"
    using diff_refines_aux [OF spec b(1-4)] by blast
  obtain c' m where c': "on_book (OnMarketDiff av (Some d)) ?ex ?tp c = Inr c'" "find_book ?ex ?tp c' = Some b'"
    "\<forall>ex tp. (ex, tp) \<noteq> (?ex, ?tp) \<longrightarrow> find_book ex tp c' = find_book ex tp c"
    "c' = fold (\<lambda>call. SendBBOToBus ?ex ?tp (snd call)) (drop (length (ob_signals b)) (ob_signals b'))
            (c\<lparr>obc_order_books := m\<rparr>)"
    using on_book_known [OF Some, of "OnMarketDiff av (Some d)", OF b'(1)] by blast
  have "obc_inv av c'"
    using obc_inv_replace [OF inv c'(3,2)] b' b(5) OnMarketDiff_subscribers [OF b'(1)] by simp
  moreover have "obc_sent c' = obc_sent c @ [Some (Some \<lparr>nb_exchange_id = ?ex,
             nb_trading_pair = ?tp, nb_bbo = ob_bbo b', nb_market_type = obc_market_type c\<rparr>)] \<or>
         obc_sent c' = obc_sent c \<and> ob_bbo b' = ob_bbo b"
    using one_subscriber_calls [OF b(5) b'(8)]
  proof
    assume "drop (length (ob_signals b)) (ob_signals b') = [(0, ob_bbo b')]"
    with c'(4) SendBBOToBus_sent [of "c\<lparr>obc_order_books := m\<rparr>"] mem show ?thesis by simp
  next
    assume "drop (length (ob_signals b)) (ob_signals b') = [] \<and> ob_bbo b' = ob_bbo b"
    with c'(4) show ?thesis by simp
  qed
  ultimately show ?thesis using Some b' c' by (auto simp: HandleNewDiff_def)
qed

lemma demo_component_ok:
  "obc_inv list_avl demo_component" "memory_suffices (obc_new_bbo_pool demo_component)"
  "memory_suffices (obc_bus_event_pool demo_component)"
proof -
  have "find_book ex tp demo_component = Some b \<Longrightarrow> b = demo_book" for ex tp b
    by (auto simp: demo_component_def AddOrderBook_def OrderBookComponent_new_def find_book_def demo_book_def
        split: if_splits)
  moreover have "ob_subscribers demo_book = [Some 0]"
    by (simp add: demo_book_def SubscribeToBBO_def MarketOrderBook2_new_def)
  ultimately show "obc_inv list_avl demo_component"
    using demo_book_ok by (auto simp: obc_inv_def)
  show "memory_suffices (obc_new_bbo_pool demo_component)" "memory_suffices (obc_bus_event_pool demo_component)"
    by (simp_all add: demo_component_def AddOrderBook_def OrderBookComponent_new_def memory_suffices_def
        MemoryPool_new_def)
qed

theorem HandleNewDiff_correct_witness:
  "\<exists>c' b'. HandleNewDiff list_avl
     (Some (BookDiffSnapshot2_spot kBinance \<lparr>tp_first = 1, tp_second = 2\<rparr> [\<lparr>bse_price = 100, bse_qty = 7\<rparr>] [] 1 2))
     demo_component = Inr c' \<and>
     find_book kBinance \<lparr>tp_first = 1, tp_second = 2\<rparr> c' = Some b' \<and> bids_of b' = [100 \<mapsto> 7]"
  using HandleNewDiff_correct [OF avltree_spec_list_avl demo_component_ok, of
     "BookDiffSnapshot2_spot kBinance \<lparr>tp_first = 1, tp_second = 2\<rparr> [\<lparr>bse_price = 100, bse_qty = 7\<rparr>] [] 1 2"]
  by (auto simp: BookDiffSnapshot2_spot_def demo_component_book demo_book_ok(5) set_level_def)

end
