(* ===== verification/Arbitrage_Strategy.thy ===== *)
theory Arbitrage_Strategy
  imports Arbitrage Order_Book_Component
begin

text \<open>
  \<open>ArbitrageStrategyComponent\<close> of aot/strategy/arbitrage/arbitrage_strategy.h: it keeps the last
  best bid and offer of every instrument and one trade state per cycle, evaluates the cycles of an
  instrument when its best bid and offer changes, opens and closes the trade of a cycle, and
  publishes a report of a closed trade.

  \<open>arb_env\<close> collects what the component only reads: the hash functions, the rounding of doubles,
  the successive readings of the clock and the trading pairs.  \<open>asc_clock\<close> counts the readings.
\<close>

section \<open>State\<close>

record arb_env =
  ae_hc :: hash_combine
  ae_sh :: std_hash
  ae_rnd :: rounding
  ae_clock :: "nat \<Rightarrow> Nanos"
  ae_pairs :: ExchangeTradingPairs

record ArbitrageReport =
  ar_uid_trade :: u64
  ar_time_open :: Nanos
  ar_time_close :: Nanos
  ar_pnl :: rat
  ar_transactions :: "(u64 \<times> TransactionReport) list"

record ArbitrageStrategyComponent =
  asc_exchange_bbo_map :: "u64 \<rightharpoonup> BBO"
  asc_trade_dictionary :: TradeDictionary
  asc_trades_state :: "u64 \<rightharpoonup> TradeState"
  asc_report_pool :: MemoryPool
  asc_bus_event_pool :: MemoryPool
  asc_clock :: nat
  asc_sent :: "ArbitrageReport option list"

definition ArbitrageStrategyComponent_new ::
    "(nat \<Rightarrow> addr option) \<Rightarrow> (nat \<Rightarrow> addr option) \<Rightarrow> nat \<Rightarrow> ArbitrageStrategyComponent" where
  "ArbitrageStrategyComponent_new ch1 ch2 max_event_per_time =
     \<lparr>asc_exchange_bbo_map = Map.empty, asc_trade_dictionary = [], asc_trades_state = Map.empty,
      asc_report_pool = MemoryPool_new ch1 max_event_per_time,
      asc_bus_event_pool = MemoryPool_new ch2 max_event_per_time, asc_clock = 0, asc_sent = []\<rparr>"

definition put_trade :: "u64 \<Rightarrow> TradeState \<Rightarrow> ArbitrageStrategyComponent \<Rightarrow> ArbitrageStrategyComponent" where
  "put_trade uid ts c = c\<lparr>asc_trades_state := (asc_trades_state c)(uid \<mapsto> ts)\<rparr>"

section \<open>Printed reports\<close>

text \<open>\<open>std::to_string\<close> of an integer and of a double: the latter prints six decimals, rounded to
  nearest with ties to even.\<close>

definition to_string_int :: "int \<Rightarrow> string" where
  "to_string_int i = (if i < 0 then ''-'' else []) @ to_string_nat (nat \<bar>i\<bar>)"

definition round_half_even :: "rat \<Rightarrow> int" where
  "round_half_even x =
     (let f = \<lfloor>x\<rfloor>; d = x - of_int f
      in if d < 1 / 2 \<or> d = 1 / 2 \<and> even f then f else f + 1)"

definition to_string_double :: "rat \<Rightarrow> string" where
  "to_string_double x =
     (let n = nat (round_half_even (\<bar>x\<bar> * 10 ^ 6)); ds = to_string_nat (n mod 10 ^ 6)
      in (if x < 0 then ''-'' else []) @ to_string_nat (n div 10 ^ 6) @ ''.'' @
         replicate (6 - length ds) CHR ''0'' @ ds)"

record TransactionReportString =
  trs_exchange_id :: ExchangeId
  trs_trading_pair :: TradingPair
  trs_entry_price :: string
  trs_exit_price :: string
  trs_entry_qty :: string
  trs_exit_qty :: string
  trs_entry_time :: string
  trs_exit_time :: string
  trs_pnl :: rat

definition TransactionReportString_new ::
    "rounding \<Rightarrow> TransactionReport \<Rightarrow> ExchangeTradingPairs \<Rightarrow> TransactionReportString" where
  "TransactionReportString_new rnd ref etp =
     (let s = \<lparr>trs_exchange_id = tr_exchange_id ref, trs_trading_pair = tr_trading_pair ref,
            trs_entry_price = [], trs_exit_price = [], trs_entry_qty = [], trs_exit_qty = [],
            trs_entry_time = to_string_int (tr_entry_time ref), trs_exit_time = to_string_int (tr_exit_time ref),
            trs_pnl = tr_pnl ref\<rparr>
      in case GetPairInfo (tr_exchange_id ref) (tr_trading_pair ref) etp of
           None \<Rightarrow> s
         | Some info \<Rightarrow> s\<lparr>
             trs_entry_price := to_string_double (GetPriceDouble rnd info (tr_entry_price ref)),
             trs_exit_price := to_string_double (GetPriceDouble rnd info (tr_exit_price ref)),
             trs_entry_qty := to_string_double (GetQtyDouble rnd info (tr_entry_qty ref)),
             trs_exit_qty := to_string_double (GetQtyDouble rnd info (tr_exit_qty ref))\<rparr>)"

record ArbitrageReportString =
  ars_uid_trade :: string
  ars_time_open :: string
  ars_time_close :: string
  ars_pnl :: rat
  ars_transactions :: "(u64 \<times> TransactionReportString) list"

definition ArbitrageReportString_new ::
    "rounding \<Rightarrow> ArbitrageReport \<Rightarrow> ExchangeTradingPairs \<Rightarrow> ArbitrageReportString" where
  "ArbitrageReportString_new rnd report etp =
     \<lparr>ars_uid_trade = to_string_nat (unat (ar_uid_trade report)),
      ars_time_open = to_string_int (ar_time_open report), ars_time_close = to_string_int (ar_time_close report),
      ars_pnl = ar_pnl report,
      ars_transactions = List.map (\<lambda>(h, t). (h, TransactionReportString_new rnd t etp)) (ar_transactions report)\<rparr>"

text \<open>\<open>NLOHMANN_DEFINE_TYPE_INTRUSIVE\<close> makes the object of a transaction.  A map whose keys are not strings becomes an
  array of pairs.\<close>

definition TransactionReportString_to_json :: "TransactionReportString \<Rightarrow> json" where
  "TransactionReportString_to_json t = JObject
     [(''entry_price_'', JString (trs_entry_price t)), (''exit_price_'', JString (trs_exit_price t)),
      (''entry_qty_'', JString (trs_entry_qty t)), (''exit_qty_'', JString (trs_exit_qty t)), (''pnl'', JReal (trs_pnl t)),
      (''entry_time_'', JString (trs_entry_time t)), (''exit_time_'', JString (trs_exit_time t))]"

definition ArbitrageReportString_SerializeToJson :: "ArbitrageReportString \<Rightarrow> json" where
  "ArbitrageReportString_SerializeToJson r = JObject
     [(''trade'', JObject
        [(''uid_trade'', JString (ars_uid_trade r)), (''pnl'', JReal (ars_pnl r)),
         (''time_open'', JString (ars_time_open r)), (''time_close'', JString (ars_time_close r)),
         (''transactions'', JArray (List.map (\<lambda>(h, t). JArray [JNumber h, TransactionReportString_to_json t]) (ars_transactions r)))])]"

text \<open>The printed form keeps the uid of the trade, which a double of a JSON reader would not.\<close>

lemma ArbitrageReportString_uid:
  "ars_uid_trade (ArbitrageReportString_new rnd r etp) = ars_uid_trade (ArbitrageReportString_new rnd r' etp') \<longleftrightarrow>
     ar_uid_trade r = ar_uid_trade r'"
  by (auto simp: ArbitrageReportString_new_def word_unat_eq_iff dest: to_string_nat_inj)

section \<open>Cycles\<close>

definition step_key :: "arb_env \<Rightarrow> Step \<Rightarrow> u64" where
  "step_key env s = HashCombined (ae_hc env) (ae_sh env) (st_exchange_id s) (st_market_type s) (st_trading_pair s)"

definition add_step :: "arb_env \<Rightarrow> ArbitrageCycle \<Rightarrow> Step \<Rightarrow> TradeDictionary \<Rightarrow> TradeDictionary" where
  "add_step env cycle s d =
     (let key = step_key env s
      in if list_ex (\<lambda>c. ArbitrageCycle_eq c cycle) (equal_range key d) then d else d @ [(key, cycle)])"

definition new_transactions :: "arb_env \<Rightarrow> ArbitrageCycle \<Rightarrow> (u64 \<times> TransactionReport) list" where
  "new_transactions env cycle =
     fold (\<lambda>s. AList.update (StepHash (ae_hc env) (ae_sh env) s)
                 (TransactionReport_new (st_exchange_id s) (st_trading_pair s) (st_operation s))) cycle []"

definition AddArbitrageCycle ::
    "arb_env \<Rightarrow> ArbitrageCycle \<Rightarrow> ArbitrageStrategyComponent \<Rightarrow> ArbitrageStrategyComponent" where
  "AddArbitrageCycle env cycle c =
     (let c1 = c\<lparr>asc_trade_dictionary := fold (add_step env cycle) cycle (asc_trade_dictionary c)\<rparr>;
          uid_trade = ArbitrageCycleHash (ae_hc env) (ae_sh env) cycle
      in case asc_trades_state c1 uid_trade of
           Some _ \<Rightarrow> c1
         | None \<Rightarrow> put_trade uid_trade (TradeState_default\<lparr>ts_transaction_states := new_transactions env cycle\<rparr>) c1)"

section \<open>The two legs of a cycle\<close>

text \<open>The local variables of the evaluation for one operation.  The hash of the transaction is
  unset at first; the code reads it only after the price of the leg is valid, hence set.\<close>

record leg =
  open_price :: Price
  open_qty :: Qty
  exit_price :: Price
  exit_qty :: Qty
  leg_transaction :: u64

definition leg_none :: leg where
  "leg_none = \<lparr>open_price = kPriceInvalid, open_qty = kQtyInvalid, exit_price = kPriceInvalid,
     exit_qty = kQtyInvalid, leg_transaction = 0\<rparr>"

definition buy_leg :: "BBO \<Rightarrow> u64 \<Rightarrow> leg" where
  "buy_leg b h = \<lparr>open_price = ask_price b, open_qty = ask_qty b, exit_price = bid_price b,
     exit_qty = bid_qty b, leg_transaction = h\<rparr>"

definition sell_leg :: "BBO \<Rightarrow> u64 \<Rightarrow> leg" where
  "sell_leg b h = \<lparr>open_price = bid_price b, open_qty = bid_qty b, exit_price = ask_price b,
     exit_qty = ask_qty b, leg_transaction = h\<rparr>"

fun scan_steps :: "arb_env \<Rightarrow> (u64 \<rightharpoonup> BBO) \<Rightarrow> ArbitrageCycle \<Rightarrow> leg \<Rightarrow> leg \<Rightarrow> (leg \<times> leg) option" where
  "scan_steps env bbos [] buy sell = Some (buy, sell)"
| "scan_steps env bbos (s # rest) buy sell =
     (case bbos (step_key env s) of
        None \<Rightarrow> None
      | Some b \<Rightarrow>
          let h = StepHash (ae_hc env) (ae_sh env) s
          in if st_operation s = kBuy then scan_steps env bbos rest (buy_leg b h) sell
             else scan_steps env bbos rest buy (sell_leg b h))"

definition leg_valid :: "leg \<Rightarrow> bool" where
  "leg_valid l \<longleftrightarrow> open_price l \<noteq> kPriceInvalid \<and> exit_price l \<noteq> kPriceInvalid \<and>
     open_qty l \<noteq> kQtyInvalid \<and> exit_qty l \<noteq> kQtyInvalid"

section \<open>Opening and closing\<close>

definition update_transaction ::
    "u64 \<Rightarrow> (TransactionReport \<Rightarrow> TransactionReport) \<Rightarrow> TradeState \<Rightarrow> TradeState" where
  "update_transaction h f ts = ts\<lparr>ts_transaction_states := AList.map_entry h f (ts_transaction_states ts)\<rparr>"

definition transaction :: "TradeState \<Rightarrow> u64 \<Rightarrow> TransactionReport" where
  "transaction ts h = the (map_of (ts_transaction_states ts) h)"

definition enter :: "leg \<Rightarrow> Nanos \<Rightarrow> TransactionReport \<Rightarrow> TransactionReport" where
  "enter l now t = t\<lparr>tr_entry_price := open_price l, tr_entry_qty := open_qty l, tr_entry_time := now\<rparr>"

definition leave :: "leg \<Rightarrow> Nanos \<Rightarrow> TransactionReport \<Rightarrow> TransactionReport" where
  "leave l now t = t\<lparr>tr_exit_price := exit_price l, tr_exit_qty := exit_qty l, tr_exit_time := now\<rparr>"

definition open_trade :: "leg \<Rightarrow> leg \<Rightarrow> Nanos \<Rightarrow> Nanos \<Rightarrow> TradeState \<Rightarrow> TradeState" where
  "open_trade buy sell now1 now2 ts =
     (let ts1 = update_transaction (leg_transaction buy) (enter buy now1) (ts\<lparr>ts_is_open := True\<rparr>);
          ts2 = update_transaction (leg_transaction sell) (enter sell now2) ts1
      in ts2\<lparr>ts_entry_time := min (tr_entry_time (transaction ts2 (leg_transaction buy)))
                                  (tr_entry_time (transaction ts2 (leg_transaction sell)))\<rparr>)"

definition close_trade :: "leg \<Rightarrow> leg \<Rightarrow> Nanos \<Rightarrow> Nanos \<Rightarrow> TradeState \<Rightarrow> TradeState" where
  "close_trade buy sell now1 now2 ts =
     (let ts1 = update_transaction (leg_transaction buy) (leave buy now1) ts;
          ts2 = update_transaction (leg_transaction sell) (leave sell now2) ts1
      in ts2\<lparr>ts_exit_time := max (tr_exit_time (transaction ts2 (leg_transaction buy)))
                                 (tr_exit_time (transaction ts2 (leg_transaction sell)))\<rparr>)"

text \<open>The signed sum of price differences, computed for the log in \<open>int64_t\<close>:
  \<open>-exit_sell + sell_entry + exit_buy - buy_entry\<close>.\<close>

definition int64 :: "int \<Rightarrow> int result" where
  "int64 i = (if fits_int64 i then Inr i else Inl SignedOverflow)"

definition profit_condition :: "Price \<Rightarrow> Price \<Rightarrow> Price \<Rightarrow> Price \<Rightarrow> int result" where
  "profit_condition exit_sell sell_entry exit_buy buy_entry =
     bind_result (int64 (- sint exit_sell)) (\<lambda>a.
     bind_result (int64 (a + sint sell_entry)) (\<lambda>b.
     bind_result (int64 (b + sint exit_buy)) (\<lambda>d.
     int64 (d - sint buy_entry))))"

text \<open>Take profit and stop loss, both with threshold 0.  A division by a zero entry price gives an
  infinity with the sign of the numerator, or NaN, for which no comparison holds.\<close>

definition take_stop :: "rounding \<Rightarrow> Price \<Rightarrow> Price \<Rightarrow> Price \<Rightarrow> Price \<Rightarrow> bool \<times> bool" where
  "take_stop rnd exit_sell sell_entry exit_buy buy_entry =
     (let profit_or_loss_buy = fsub rnd (double_of_u64 rnd exit_buy) (double_of_u64 rnd buy_entry);
          profit_or_loss_sell = fsub rnd (double_of_u64 rnd sell_entry) (double_of_u64 rnd exit_sell);
          profit = fadd rnd profit_or_loss_buy profit_or_loss_sell;
          entry = double_of_u64 rnd buy_entry
      in if entry = 0 then (profit > 0, profit < 0)
         else let percent = fmul rnd (fdiv rnd profit entry) 100 in (percent \<ge> 0, percent \<le> 0))"

text \<open>A null report pointer is written to without a test.\<close>

definition SendArbitrageReportToBus ::
    "u64 \<Rightarrow> TradeState \<Rightarrow> ArbitrageStrategyComponent \<Rightarrow> ArbitrageStrategyComponent result" where
  "SendArbitrageReportToBus uid_trade ts c =
     (let (event, p1) = Allocate (asc_report_pool c)
      in if event = None then Inl NullDeref
         else
           let report = \<lparr>ar_uid_trade = uid_trade, ar_time_open = ts_entry_time ts, ar_time_close = ts_exit_time ts,
                 ar_pnl = ts_pnl ts, ar_transactions = ts_transaction_states ts\<rparr>;
               (bus_event, p2) = Allocate (asc_bus_event_pool c)
           in Inr (c\<lparr>asc_report_pool := (if bus_event = None then Deallocate event p1 else p1),
                     asc_bus_event_pool := p2,
                     asc_sent := asc_sent c @ [map_option (\<lambda>_. report) bus_event]\<rparr>))"

text \<open>The part of the evaluation for an open trade.\<close>

definition try_close ::
    "arb_env \<Rightarrow> u64 \<Rightarrow> leg \<Rightarrow> leg \<Rightarrow> TradeState \<Rightarrow> ArbitrageStrategyComponent \<Rightarrow>
     ArbitrageStrategyComponent result" where
  "try_close env uid buy sell ts c =
     (let buy_entry = tr_entry_price (transaction ts (leg_transaction buy));
          sell_entry = tr_entry_price (transaction ts (leg_transaction sell))
      in bind_result (profit_condition (exit_price sell) sell_entry (exit_price buy) buy_entry) (\<lambda>_.
         let (take_profit, stop_loss) = take_stop (ae_rnd env) (exit_price sell) sell_entry (exit_price buy) buy_entry;
             ts1 = ts\<lparr>ts_is_open := False\<rparr>
         in if stop_loss then Inr (put_trade uid ts1 c)
            else if take_profit then
              let k = asc_clock c;
                  ts2 = close_trade buy sell (ae_clock env k) (ae_clock env (k + 1)) ts1;
                  (r, ts3) = CalculatePnl_trade (ae_rnd env) (ae_pairs env) ts2;
                  c1 = c\<lparr>asc_clock := k + 2\<rparr>
              in (case r of
                    None \<Rightarrow> Inr (put_trade uid ts3 c1)
                  | Some pnl \<Rightarrow>
                      let ts4 = ts3\<lparr>ts_pnl := pnl\<rparr>
                      in SendArbitrageReportToBus uid ts4 (put_trade uid ts4 c1))
            else Inr (put_trade uid ts1 c)))"

definition EvaluateOpportunityArbitrageCycle ::
    "arb_env \<Rightarrow> ArbitrageCycle \<Rightarrow> ArbitrageStrategyComponent \<Rightarrow> ArbitrageStrategyComponent result" where
  "EvaluateOpportunityArbitrageCycle env cycle c =
     (case scan_steps env (asc_exchange_bbo_map c) cycle leg_none leg_none of
        None \<Rightarrow> Inr c
      | Some (buy, sell) \<Rightarrow>
          if \<not> leg_valid buy \<or> \<not> leg_valid sell then Inr c
          else
            let uid_trade = ArbitrageCycleHash (ae_hc env) (ae_sh env) cycle
            in case asc_trades_state c uid_trade of
                 None \<Rightarrow> Inr c
               | Some ts \<Rightarrow>
                   if map_of (ts_transaction_states ts) (leg_transaction buy) = None \<or>
                      map_of (ts_transaction_states ts) (leg_transaction sell) = None then Inr c
                   else
                     let opens = \<not> ts_is_open ts \<and> open_price sell > open_price buy;
                         k = asc_clock c;
                         ts1 = (if opens then open_trade buy sell (ae_clock env k) (ae_clock env (k + 1)) ts else ts);
                         c1 = put_trade uid_trade ts1 (c\<lparr>asc_clock := (if opens then k + 2 else k)\<rparr>)
                     in if ts_is_open ts1 then try_close env uid_trade buy sell ts1 c1 else Inr c1)"

section \<open>Events\<close>

definition AddOrUpdateBBO :: "u64 \<Rightarrow> BBO \<Rightarrow> ArbitrageStrategyComponent \<Rightarrow> ArbitrageStrategyComponent" where
  "AddOrUpdateBBO key bbo c = c\<lparr>asc_exchange_bbo_map := (asc_exchange_bbo_map c)(key \<mapsto> bbo)\<rparr>"

definition HandleNewBBO ::
    "arb_env \<Rightarrow> NewBBO \<Rightarrow> ArbitrageStrategyComponent \<Rightarrow> ArbitrageStrategyComponent result" where
  "HandleNewBBO env e c =
     (let key = HashCombined (ae_hc env) (ae_sh env) (nb_exchange_id e) (nb_market_type e) (nb_trading_pair e);
          c1 = AddOrUpdateBBO key (nb_bbo e) c
      in if key \<notin> fst ` set (asc_trade_dictionary c1) then Inr c1
         else fold_result (EvaluateOpportunityArbitrageCycle env) (equal_range key (asc_trade_dictionary c1)) c1)"

definition ArbitrageStrategy_AsyncHandleEvent ::
    "arb_env \<Rightarrow> BusEventNewBBO option \<Rightarrow> ArbitrageStrategyComponent \<Rightarrow> ArbitrageStrategyComponent result" where
  "ArbitrageStrategy_AsyncHandleEvent env event c =
     (case event of
        None \<Rightarrow> Inr c
      | Some wrapped \<Rightarrow> (case wrapped of None \<Rightarrow> Inr c | Some e \<Rightarrow> HandleNewBBO env e c))"

section \<open>The profit test\<close>

lemma sint_uint_small: "(w :: u64) < 2 ^ 62 \<Longrightarrow> sint w = uint w"
  by (auto simp: sint_uint word_less_def intro!: signed_take_bit_int_eq_self order.trans [OF _ uint_ge_0])

lemma four_prices_fit:
  fixes a b c d :: int
  assumes "0 \<le> a" "a < 2 ^ 62" "0 \<le> b" "b < 2 ^ 62" "0 \<le> c" "c < 2 ^ 62" "0 \<le> d" "d < 2 ^ 62"
  shows "fits_int64 (- a)" "fits_int64 (- a + b)" "fits_int64 (- a + b + c)" "fits_int64 (- a + b + c - d)"
  using assms by (auto simp: fits_int64_def)

text \<open>Prices below \<open>2^62\<close> keep the logged sum in range.\<close>

lemma profit_condition_fits:
  assumes "es < 2 ^ 62" "se < 2 ^ 62" "eb < 2 ^ 62" "be < 2 ^ 62"
  shows "profit_condition es se eb be = Inr (- uint es + uint se + uint eb - uint be)"
proof -
  have "0 \<le> uint x \<and> uint x < 2 ^ 62" if "x < 2 ^ 62" for x :: u64
    using that by (simp add: word_less_def)
  with assms have "0 \<le> uint es" "uint es < 2 ^ 62" "0 \<le> uint se" "uint se < 2 ^ 62"
    "0 \<le> uint eb" "uint eb < 2 ^ 62" "0 \<le> uint be" "uint be < 2 ^ 62" by blast+
  from four_prices_fit [OF this] show ?thesis unfolding profit_condition_def
    by (simp only: int64_def sint_uint_small [OF assms(1)] sint_uint_small [OF assms(2)]
        sint_uint_small [OF assms(3)] sint_uint_small [OF assms(4)] if_True bind_result_simps)
qed

text \<open>If neither leg gained, the trade is not reported as a profit.\<close>

lemma take_stop_no_gain:
  assumes ieee: "ieee_rounding rnd" and "eb \<le> be" and "se \<le> es"
  shows "snd (take_stop rnd es se eb be) \<or> \<not> fst (take_stop rnd es se eb be)"
proof -
  let ?d = "double_of_u64 rnd"
  let ?p = "fadd rnd (fsub rnd (?d eb) (?d be)) (fsub rnd (?d se) (?d es))"
  have "fsub rnd (?d eb) (?d be) \<le> 0" "fsub rnd (?d se) (?d es) \<le> 0"
    using double_of_u64_mono [OF ieee assms(2)] double_of_u64_mono [OF ieee assms(3)]
    by (simp_all add: fsub_def ieee_nonpos [OF ieee])
  then have p: "?p \<le> 0" by (simp add: fadd_def ieee_nonpos [OF ieee])
  have "?p / ?d be \<le> 0" using p double_of_u64_nonneg [OF ieee, of be] by (rule divide_nonpos_nonneg)
  then have "fmul rnd (fdiv rnd ?p (?d be)) 100 \<le> 0"
    using ieee by (simp add: fmul_def fdiv_def ieee_nonpos)
  with p show ?thesis by (auto simp: take_stop_def Let_def)
qed

text \<open>For prices that a double holds exactly, the test is the sign of the exact profit.\<close>

lemma take_stop_exact:
  assumes ieee: "ieee_rounding rnd"
    and small: "unat es \<le> 2 ^ 53" "unat se \<le> 2 ^ 53" "unat eb \<le> 2 ^ 53" "unat be \<le> 2 ^ 53"
  defines "profit \<equiv> int (unat eb) - int (unat be) + (int (unat se) - int (unat es))"
  shows "fst (take_stop rnd es se eb be) \<and> \<not> snd (take_stop rnd es se eb be) \<longleftrightarrow> 0 < profit"
proof -
  have diff: "fsub rnd (double_of_u64 rnd x) (double_of_u64 rnd y) = of_int (int (unat x) - int (unat y))"
    if "unat x \<le> 2 ^ 53" "unat y \<le> 2 ^ 53" for x y
    using ieee_int [OF ieee, of "int (unat x) - int (unat y)"] that double_of_u64_exact [OF ieee]
    by (simp add: fsub_def abs_le_iff del: of_nat_unat)
  let ?p = "rnd (of_int profit)" and ?e = "of_nat (unat be) :: rat"
  have p: "fadd rnd (fsub rnd (double_of_u64 rnd eb) (double_of_u64 rnd be))
      (fsub rnd (double_of_u64 rnd se) (double_of_u64 rnd es)) = ?p"
    using diff [OF small(3,4)] diff [OF small(2,1)] by (simp add: fadd_def profit_def del: of_nat_unat)
  have e: "double_of_u64 rnd be = ?e" by (rule double_of_u64_exact [OF ieee small(4)])
  have pos: "1 \<le> ?p" if "0 < profit"
    using ieee_pos [OF ieee, of 0 "of_int profit"] that by simp
  have neg: "?p \<le> 0" if "\<not> 0 < profit" using ieee_nonpos [OF ieee, of "of_int profit"] that by simp
  have e53: "?e \<le> 2 ^ 53" using small(4) of_nat_mono [of "unat be" "2 ^ 53", where 'a = rat]
    by (simp del: of_nat_unat)
  let ?pc = "rnd (rnd (?p / ?e) * 100)"
  have up: "0 < ?pc" if "0 < profit" "?e \<noteq> 0"
  proof -
    have "0 < ?e" using that(2) by (simp add: neq0_conv [symmetric] del: of_nat_unat neq0_conv)
    then have "1 / 2 ^ 53 \<le> ?p / ?e" using pos [OF that(1)] e53 by (intro frac_le) simp_all
    then have "1 / 2 ^ 53 \<le> rnd (?p / ?e)" by (intro ieee_pos [OF ieee]) simp_all
    then have "1 / 2 ^ 53 \<le> rnd (?p / ?e) * 100" by simp
    then have "1 / 2 ^ 53 \<le> ?pc" by (intro ieee_pos [OF ieee]) simp_all
    then show ?thesis by (rule less_le_trans [rotated]) simp
  qed
  have down: "?pc \<le> 0" if "\<not> 0 < profit"
  proof -
    have "?p / ?e \<le> 0" using neg [OF that] by (intro divide_nonpos_nonneg) (simp_all del: of_nat_unat)
    then show ?thesis using ieee by (simp add: ieee_nonpos)
  qed
  show ?thesis
    using pos neg up down unfolding take_stop_def Let_def p unfolding e fmul_def fdiv_def
    by (cases "?e = 0"; cases "0 < profit") (auto simp del: of_nat_unat)
qed

section \<open>Trades on uncrossed books\<close>

lemma transaction_update:
  "map_of (ts_transaction_states ts) h \<noteq> None \<Longrightarrow>
   transaction (update_transaction h' f ts) h = (if h = h' then f (transaction ts h) else transaction ts h)"
  by (auto simp: transaction_def update_transaction_def map_of_map_entry)

lemma update_transaction_keys [simp]:
  "map_of (ts_transaction_states (update_transaction h' f ts)) h = None \<longleftrightarrow> map_of (ts_transaction_states ts) h = None"
  by (auto simp: update_transaction_def map_of_map_entry split: option.splits)

lemma transaction_sel [simp]:
  "transaction (ts\<lparr>ts_is_open := x\<rparr>) h = transaction ts h"
  "transaction (ts\<lparr>ts_entry_time := a\<rparr>) h = transaction ts h"
  "transaction (ts\<lparr>ts_exit_time := a\<rparr>) h = transaction ts h"
  by (simp_all add: transaction_def)

lemma open_trade_entries:
  assumes "map_of (ts_transaction_states ts) (leg_transaction buy) \<noteq> None"
    and "map_of (ts_transaction_states ts) (leg_transaction sell) \<noteq> None"
  shows "tr_entry_price (transaction (open_trade buy sell n1 n2 ts) (leg_transaction sell)) = open_price sell"
    and "tr_entry_price (transaction (open_trade buy sell n1 n2 ts) (leg_transaction buy)) =
      (if leg_transaction buy = leg_transaction sell then open_price sell else open_price buy)"
    and "ts_is_open (open_trade buy sell n1 n2 ts)"
  using assms
  by (auto simp: open_trade_def Let_def transaction_update enter_def) (simp add: update_transaction_def)

text \<open>A best bid and offer that can be priced has its bid at most its ask.\<close>

definition bbo_uncrossed :: "BBO \<Rightarrow> bool" where
  "bbo_uncrossed b \<longleftrightarrow> bid_price b = kPriceInvalid \<or> ask_price b = kPriceInvalid \<or>
     (bid_price b \<le> ask_price b \<and> ask_price b < 2 ^ 62)"

lemma scan_steps_legs:
  "scan_steps env bbos cycle b0 s0 = Some (b, s) \<Longrightarrow>
   (b = b0 \<or> (\<exists>bbo h. bbo \<in> ran bbos \<and> b = buy_leg bbo h)) \<and>
   (s = s0 \<or> (\<exists>bbo h. bbo \<in> ran bbos \<and> s = sell_leg bbo h))"
proof (induction cycle arbitrary: b0 s0)
  case (Cons st cycle)
  from Cons.prems obtain bbo where bbo: "bbos (step_key env st) = Some bbo" by (auto split: option.splits)
  then have r: "bbo \<in> ran bbos" by (rule ranI)
  let ?h = "StepHash (ae_hc env) (ae_sh env) st"
  show ?case
  proof (cases "st_operation st")
    case kBuy
    with Cons.prems bbo have "scan_steps env bbos cycle (buy_leg bbo ?h) s0 = Some (b, s)" by (simp add: Let_def)
    from Cons.IH [OF this] r show ?thesis by blast
  next
    case kSell
    with Cons.prems bbo have "scan_steps env bbos cycle b0 (sell_leg bbo ?h) = Some (b, s)" by (simp add: Let_def)
    from Cons.IH [OF this] r show ?thesis by blast
  qed
qed simp

lemma leg_none_invalid [simp]: "\<not> leg_valid leg_none"
  by (simp add: leg_none_def leg_valid_def)

text \<open>No trade is open, the books are uncrossed, and nothing was reported.\<close>

definition quiet :: "ArbitrageStrategyComponent \<Rightarrow> bool" where
  "quiet c \<longleftrightarrow> (\<forall>ts \<in> ran (asc_trades_state c). \<not> ts_is_open ts) \<and>
     (\<forall>b \<in> ran (asc_exchange_bbo_map c). bbo_uncrossed b) \<and> asc_sent c = []"

lemma quiet_put_trade: "quiet c \<Longrightarrow> \<not> ts_is_open ts \<Longrightarrow> quiet (put_trade uid ts (c\<lparr>asc_clock := k\<rparr>))"
  by (auto simp: quiet_def put_trade_def ran_def)

lemma put_trade_twice [simp]: "put_trade uid ts (put_trade uid ts' c) = put_trade uid ts c"
  by (simp add: put_trade_def)

lemma try_close_no_gain:
  assumes "ieee_rounding (ae_rnd env)"
    and "exit_price buy \<le> tr_entry_price (transaction ts (leg_transaction buy))"
    and "tr_entry_price (transaction ts (leg_transaction sell)) \<le> exit_price sell"
    and "tr_entry_price (transaction ts (leg_transaction buy)) < 2 ^ 62" and "exit_price sell < 2 ^ 62"
  shows "try_close env uid buy sell ts c = Inr (put_trade uid (ts\<lparr>ts_is_open := False\<rparr>) c)"
  using take_stop_no_gain [OF assms(1-3)] assms(2-5)
  by (auto simp: try_close_def Let_def split_beta profit_condition_fits
      le_less_trans [OF assms(2) assms(4)] le_less_trans [OF assms(3) assms(5)])

text \<open>The evaluation of a closed trade whose prices and transactions are all there.\<close>

lemma Evaluate_closed:
  assumes "scan_steps env (asc_exchange_bbo_map c) cycle leg_none leg_none = Some (buy, sell)"
    and "leg_valid buy" and "leg_valid sell"
    and "asc_trades_state c (ArbitrageCycleHash (ae_hc env) (ae_sh env) cycle) = Some ts" and "\<not> ts_is_open ts"
    and "map_of (ts_transaction_states ts) (leg_transaction buy) \<noteq> None"
    and "map_of (ts_transaction_states ts) (leg_transaction sell) \<noteq> None"
  shows "EvaluateOpportunityArbitrageCycle env cycle c =
     (let uid = ArbitrageCycleHash (ae_hc env) (ae_sh env) cycle; k = asc_clock c;
          ts1 = open_trade buy sell (ae_clock env k) (ae_clock env (k + 1)) ts
      in if open_price buy < open_price sell
         then try_close env uid buy sell ts1 (put_trade uid ts1 (c\<lparr>asc_clock := k + 2\<rparr>))
         else Inr (put_trade uid ts c))"
  using assms open_trade_entries(3) [of ts buy sell "ae_clock env (asc_clock c)" "ae_clock env (asc_clock c + 1)"]
  by (auto simp: EvaluateOpportunityArbitrageCycle_def Let_def)

lemma Evaluate_quiet:
  assumes ieee: "ieee_rounding (ae_rnd env)" and q: "quiet c"
  shows "\<exists>c'. EvaluateOpportunityArbitrageCycle env cycle c = Inr c' \<and> quiet c'"
proof (cases "scan_steps env (asc_exchange_bbo_map c) cycle leg_none leg_none")
  case None
  then show ?thesis using q by (simp add: EvaluateOpportunityArbitrageCycle_def)
next
  case (Some p)
  obtain buy sell where p: "p = (buy, sell)" by force
  let ?uid = "ArbitrageCycleHash (ae_hc env) (ae_sh env) cycle"
  consider "\<not> leg_valid buy \<or> \<not> leg_valid sell \<or> asc_trades_state c ?uid = None"
    | ts where "leg_valid buy" "leg_valid sell" "asc_trades_state c ?uid = Some ts" by blast
  then show ?thesis
  proof cases
    case 1
    then show ?thesis using q Some by (auto simp: EvaluateOpportunityArbitrageCycle_def p Let_def)
  next
    case 2
    from scan_steps_legs [OF Some [unfolded p]] 2 obtain b1 h1 b2 h2 where
      legs: "b1 \<in> ran (asc_exchange_bbo_map c)" "buy = buy_leg b1 h1"
        "b2 \<in> ran (asc_exchange_bbo_map c)" "sell = sell_leg b2 h2" by auto
    have unc: "exit_price buy \<le> open_price buy" "open_price buy < 2 ^ 62"
      "open_price sell \<le> exit_price sell" "exit_price sell < 2 ^ 62"
      using q legs 2(1,2) by (auto simp: quiet_def bbo_uncrossed_def buy_leg_def sell_leg_def leg_valid_def)
    have closed: "\<not> ts_is_open ts" using q 2(3) by (auto simp: quiet_def ran_def)
    show ?thesis
    proof (cases "map_of (ts_transaction_states ts) (leg_transaction buy) = None \<or>
        map_of (ts_transaction_states ts) (leg_transaction sell) = None \<or> \<not> open_price buy < open_price sell")
      case True
      then show ?thesis
        using q Some 2 closed quiet_put_trade [OF q closed, of ?uid "asc_clock c"]
        by (auto simp: EvaluateOpportunityArbitrageCycle_def p Let_def)
    next
      case False
      let ?ts = "open_trade buy sell (ae_clock env (asc_clock c)) (ae_clock env (asc_clock c + 1)) ts"
      note e = open_trade_entries [of ts buy sell "ae_clock env (asc_clock c)" "ae_clock env (asc_clock c + 1)"]
      have "try_close env ?uid buy sell ?ts (put_trade ?uid ?ts (c\<lparr>asc_clock := asc_clock c + 2\<rparr>)) =
        Inr (put_trade ?uid (?ts\<lparr>ts_is_open := False\<rparr>) (c\<lparr>asc_clock := asc_clock c + 2\<rparr>))"
        using False unc e by (subst try_close_no_gain [OF ieee]) (auto intro: less_imp_le order.trans less_le_trans le_less_trans)
      moreover have "\<not> ts_is_open (?ts\<lparr>ts_is_open := False\<rparr>)" by simp
      note quiet_put_trade [OF q this, of ?uid "asc_clock c + 2"]
      ultimately show ?thesis using False
        by (auto simp: Evaluate_closed [OF Some [unfolded p] 2 closed] Let_def)
    qed
  qed
qed

text \<open>The operations of the component: cycles are added, events arrive.\<close>

datatype arb_op = AddCycle ArbitrageCycle | BBOEvent "BusEventNewBBO option"

fun arb_step :: "arb_env \<Rightarrow> arb_op \<Rightarrow> ArbitrageStrategyComponent \<Rightarrow> ArbitrageStrategyComponent result" where
  "arb_step env (AddCycle cycle) c = Inr (AddArbitrageCycle env cycle c)"
| "arb_step env (BBOEvent e) c = ArbitrageStrategy_AsyncHandleEvent env e c"

lemma AddArbitrageCycle_quiet: "quiet c \<Longrightarrow> quiet (AddArbitrageCycle env cycle c)"
  by (auto simp: quiet_def AddArbitrageCycle_def put_trade_def TradeState_default_def Let_def ran_def split: option.splits)

lemma HandleNewBBO_quiet:
  assumes "ieee_rounding (ae_rnd env)" and "quiet c" and "bbo_uncrossed (nb_bbo e)"
  shows "\<exists>c'. HandleNewBBO env e c = Inr c' \<and> quiet c'"
proof -
  have q: "quiet (AddOrUpdateBBO key (nb_bbo e) c)" for key
    using assms(2,3) by (auto simp: quiet_def AddOrUpdateBBO_def ran_def)
  have "\<exists>t. fold_result (EvaluateOpportunityArbitrageCycle env) cs (AddOrUpdateBBO key (nb_bbo e) c) = Inr t \<and> quiet t"
    for cs key
    by (rule fold_result_invariant) (rule Evaluate_quiet [OF assms(1)], assumption, rule q)
  with q show ?thesis by (simp add: HandleNewBBO_def Let_def)
qed

text \<open>C29: no profit on uncrossed books.  As long as every best bid and offer that arrives has its bid
  at most its ask (or lacks a side), whatever cycles are registered and in whatever order the events
  come, the strategy never publishes a report: it closes every trade in the evaluation that opened
  it, at the prices of that moment, and after every event no trade is open.\<close>

theorem no_report_on_uncrossed_books:
  assumes "ieee_rounding (ae_rnd env)"
    and "\<And>e. BBOEvent (Some (Some e)) \<in> set ops \<Longrightarrow> bbo_uncrossed (nb_bbo e)"
  shows "\<exists>c. fold_result (arb_step env) ops (ArbitrageStrategyComponent_new ch1 ch2 n) = Inr c \<and>
     asc_sent c = [] \<and> (\<forall>uid ts. asc_trades_state c uid = Some ts \<longrightarrow> \<not> ts_is_open ts)"
proof -
  have "\<exists>c'. arb_step env opr c = Inr c' \<and> quiet c'" if "opr \<in> set ops" "quiet c" for opr c
  proof (cases opr)
    case (BBOEvent e)
    with that assms show ?thesis
      by (auto simp: ArbitrageStrategy_AsyncHandleEvent_def HandleNewBBO_quiet split: option.split)
  qed (use that(2) in \<open>auto simp: AddArbitrageCycle_quiet\<close>)
  moreover have "quiet (ArbitrageStrategyComponent_new ch1 ch2 n)"
    by (simp add: quiet_def ArbitrageStrategyComponent_new_def)
  ultimately have "\<exists>c. fold_result (arb_step env) ops (ArbitrageStrategyComponent_new ch1 ch2 n) = Inr c \<and> quiet c"
    by (rule fold_result_invariant)
  then show ?thesis by (auto simp: quiet_def ran_def)
qed

text \<open>An example environment: two exchanges with the same pair, exact arithmetic, and a hash that
  separates the example's steps.\<close>

definition demo_pair :: TradingPair where
  "demo_pair = \<lparr>tp_first = 1, tp_second = 2\<rparr>"

definition demo_info :: TradingPairInfo where
  "demo_info = \<lparr>price_precission = 0, qty_precission = 0, https_json_request = ''BTCUSDT'',
     https_query_request = ''BTCUSDT'', ws_query_request = ''btcusdt'', https_query_response = ''BTCUSDT''\<rparr>"

definition demo_env :: arb_env where
  "demo_env = \<lparr>ae_hc = (\<lambda>a b. 10 * a + b), ae_sh = \<lparr>hash_ticker = (\<lambda>t. ucast t), hash_enum = of_nat\<rparr>,
     ae_rnd = (\<lambda>x. x), ae_clock = (\<lambda>k. int k),
     ae_pairs = [(kBinance, [demo_pair \<mapsto> demo_info]), (kBybit, [demo_pair \<mapsto> demo_info])]\<rparr>"

definition demo_cycle :: ArbitrageCycle where
  "demo_cycle =
     [\<lparr>st_trading_pair = demo_pair, st_exchange_id = kBinance, st_market_type = kSpot, st_operation = kBuy\<rparr>,
      \<lparr>st_trading_pair = demo_pair, st_exchange_id = kBybit, st_market_type = kSpot, st_operation = kSell\<rparr>]"

definition demo_event :: "ExchangeId \<Rightarrow> Price \<Rightarrow> Qty \<Rightarrow> Price \<Rightarrow> Qty \<Rightarrow> BusEventNewBBO option" where
  "demo_event ex bp bq ap aq = Some (Some \<lparr>nb_exchange_id = ex, nb_trading_pair = demo_pair,
     nb_bbo = \<lparr>bid_price = bp, ask_price = ap, bid_qty = bq, ask_qty = aq\<rparr>, nb_market_type = kSpot\<rparr>)"

theorem no_report_on_uncrossed_books_witness:
  "\<exists>c. fold_result (arb_step demo_env)
         [AddCycle demo_cycle, BBOEvent (demo_event kBinance 99 5 100 5), BBOEvent (demo_event kBybit 110 5 111 5)]
         (ArbitrageStrategyComponent_new Some Some 8) = Inr c \<and>
     asc_sent c = [] \<and> (\<forall>uid ts. asc_trades_state c uid = Some ts \<longrightarrow> \<not> ts_is_open ts)"
proof (rule no_report_on_uncrossed_books)
  show "ieee_rounding (ae_rnd demo_env)" by (simp add: demo_env_def ieee_rounding_id)
  show "bbo_uncrossed (nb_bbo e)"
    if "BBOEvent (Some (Some e)) \<in> set [AddCycle demo_cycle, BBOEvent (demo_event kBinance 99 5 100 5),
      BBOEvent (demo_event kBybit 110 5 111 5)]" for e
    using that by (auto simp: demo_event_def bbo_uncrossed_def)
qed

section \<open>Reports\<close>

lemma pairs_known_map_entry:
  assumes "\<And>t. tr_exchange_id (f t) = tr_exchange_id t" and "\<And>t. tr_trading_pair (f t) = tr_trading_pair t"
  shows "pairs_known etp (AList.map_entry h f trs) = pairs_known etp trs"
  using assms by (induction trs) (auto simp: pairs_known_def)

lemma pairs_known_trade [simp]:
  "pairs_known etp (ts_transaction_states (open_trade buy sell n1 n2 ts)) = pairs_known etp (ts_transaction_states ts)"
  "pairs_known etp (ts_transaction_states (close_trade buy sell n1 n2 ts)) = pairs_known etp (ts_transaction_states ts)"
  by (simp_all add: open_trade_def close_trade_def update_transaction_def Let_def pairs_known_map_entry
      enter_def leave_def)

lemma sum_pnl_sum:
  "fst (sum_pnl rnd etp acc trs) = Some p \<Longrightarrow>
   p = fold (\<lambda>e a. fadd rnd a (tr_pnl (snd e))) (snd (sum_pnl rnd etp acc trs)) acc"
proof (induction trs arbitrary: acc)
  case (Cons e trs)
  obtain h t where e: "e = (h, t)" by force
  with Cons show ?case
    by (auto simp: CalculatePnl_def Let_def split_beta split: option.splits)
qed simp

lemma sum_pnl_lookup:
  "fst (sum_pnl rnd etp acc trs) = Some p \<Longrightarrow>
   map_of (snd (sum_pnl rnd etp acc trs)) h = map_option (\<lambda>t. snd (CalculatePnl rnd etp t)) (map_of trs h)"
proof (induction trs arbitrary: acc)
  case (Cons e trs)
  obtain h' t where e: "e = (h', t)" by force
  with Cons show ?case
    by (auto simp: split_beta split: prod.splits option.splits)
qed simp

text \<open>The entry and exit of a transaction are those of a leg.\<close>

definition filled :: "leg \<Rightarrow> TransactionReport \<Rightarrow> bool" where
  "filled l t \<longleftrightarrow> tr_entry_price t = open_price l \<and> tr_entry_qty t = open_qty l \<and>
     tr_exit_price t = exit_price l \<and> tr_exit_qty t = exit_qty l"

lemma CalculatePnl_filled [simp]: "filled l (snd (CalculatePnl rnd etp t)) = filled l t"
  by (auto simp: CalculatePnl_def filled_def Let_def split: option.splits)

lemma close_open_filled:
  fixes n1 n2 n3 n4 :: Nanos
  assumes "map_of (ts_transaction_states ts) (leg_transaction buy) \<noteq> None"
    and "map_of (ts_transaction_states ts) (leg_transaction sell) \<noteq> None"
    and "leg_transaction buy \<noteq> leg_transaction sell"
  defines "trs \<equiv> map_of (ts_transaction_states (close_trade buy sell n3 n4
     ((open_trade buy sell n1 n2 ts)\<lparr>ts_is_open := False\<rparr>)))"
  shows "\<exists>t. trs (leg_transaction buy) = Some t \<and> filled buy t"
    and "\<exists>t. trs (leg_transaction sell) = Some t \<and> filled sell t"
  using assms
  by (auto simp: trs_def close_trade_def open_trade_def Let_def update_transaction_def map_of_map_entry
      enter_def leave_def filled_def)

text \<open>What is sent for a closed trade, and that it is closed afterwards.\<close>

definition report_of :: "arb_env \<Rightarrow> leg \<Rightarrow> leg \<Rightarrow> u64 \<Rightarrow> ArbitrageReport \<Rightarrow> bool" where
  "report_of env buy sell uid r \<longleftrightarrow> ar_uid_trade r = uid \<and>
     (\<exists>t. map_of (ar_transactions r) (leg_transaction buy) = Some t \<and> filled buy t) \<and>
     (\<exists>t. map_of (ar_transactions r) (leg_transaction sell) = Some t \<and> filled sell t) \<and>
     ar_pnl r = fold (\<lambda>e a. fadd (ae_rnd env) a (tr_pnl (snd e))) (ar_transactions r) 0"

lemma try_close_profit:
  assumes trs: "map_of (ts_transaction_states ts) (leg_transaction buy) \<noteq> None"
      "map_of (ts_transaction_states ts) (leg_transaction sell) \<noteq> None"
      "leg_transaction buy \<noteq> leg_transaction sell"
    and known: "pairs_known (ae_pairs env) (ts_transaction_states ts)"
    and pools: "fst (Allocate (asc_report_pool c)) \<noteq> None" "fst (Allocate (asc_bus_event_pool c)) \<noteq> None"
    and test: "take_stop (ae_rnd env) (exit_price sell) (open_price sell) (exit_price buy) (open_price buy) = (True, False)"
      "profit_condition (exit_price sell) (open_price sell) (exit_price buy) (open_price buy) = Inr d"
  shows "\<exists>c' r ts'. try_close env uid buy sell (open_trade buy sell n1 n2 ts) c = Inr c' \<and>
     asc_sent c' = asc_sent c @ [Some r] \<and> report_of env buy sell uid r \<and>
     asc_trades_state c' uid = Some ts' \<and> \<not> ts_is_open ts'"
proof -
  let ?ts1 = "(open_trade buy sell n1 n2 ts)\<lparr>ts_is_open := False\<rparr>"
  let ?ts2 = "close_trade buy sell (ae_clock env (asc_clock c)) (ae_clock env (Suc (asc_clock c))) ?ts1"
  let ?sum = "sum_pnl (ae_rnd env) (ae_pairs env) 0 (ts_transaction_states ?ts2)"
  have "pairs_known (ae_pairs env) (ts_transaction_states ?ts2)" using known by simp
  then obtain p where p: "fst ?sum = Some p" using sum_pnl_total by blast
  obtain a p1 b p2 where alloc: "Allocate (asc_report_pool c) = (Some a, p1)"
      "Allocate (asc_bus_event_pool c) = (Some b, p2)"
    using pools by (metis not_None_eq prod.collapse)
  define r where "r = \<lparr>ar_uid_trade = uid, ar_time_open = ts_entry_time ?ts2, ar_time_close = ts_exit_time ?ts2,
     ar_pnl = p, ar_transactions = snd ?sum\<rparr>"
  have "report_of env buy sell uid r"
    using close_open_filled [OF trs, where ?n1.0 = n1 and ?n2.0 = n2 and ?n3.0 = "ae_clock env (asc_clock c)" and
        ?n4.0 = "ae_clock env (Suc (asc_clock c))"]
      sum_pnl_sum [OF p] sum_pnl_lookup [OF p]
    by (force simp: report_of_def r_def)
  moreover have "\<not> ts_is_open ?ts2" by (simp add: close_trade_def Let_def update_transaction_def)
  moreover have "try_close env uid buy sell (open_trade buy sell n1 n2 ts) c =
     Inr (put_trade uid (?ts2\<lparr>ts_transaction_states := snd ?sum, ts_pnl := p\<rparr>) c
       \<lparr>asc_clock := asc_clock c + 2, asc_report_pool := p1, asc_bus_event_pool := p2,
        asc_sent := asc_sent c @ [Some r]\<rparr>)"
    using open_trade_entries [OF trs(1,2), of n1 n2] trs(3) test p alloc
    by (simp add: try_close_def Let_def CalculatePnl_trade_def SendArbitrageReportToBus_def split_beta
        put_trade_def r_def)
  ultimately show ?thesis by (simp add: put_trade_def)
qed

lemma unat_less_u64: "unat (w :: u64) \<le> 2 ^ 53 \<Longrightarrow> w < 2 ^ 62"
  by (simp add: word_less_nat_alt)

lemma try_close_no_report:
  assumes "\<not> (fst tst \<and> \<not> snd tst)"
    and "take_stop (ae_rnd env) (exit_price sell) (tr_entry_price (transaction ts (leg_transaction sell)))
          (exit_price buy) (tr_entry_price (transaction ts (leg_transaction buy))) = tst"
    and "profit_condition (exit_price sell) (tr_entry_price (transaction ts (leg_transaction sell)))
          (exit_price buy) (tr_entry_price (transaction ts (leg_transaction buy))) = Inr d"
  shows "try_close env uid buy sell ts c = Inr (put_trade uid (ts\<lparr>ts_is_open := False\<rparr>) c)"
  using assms by (auto simp: try_close_def Let_def split_beta)

text \<open>C30: when a report is published.  A cycle with both legs priced, whose trade is closed, is
  evaluated; the prices are below \<open>2^53\<close>, the pairs are known and the pools are not empty.  Then
  exactly one report is sent if the bid of the sell leg is above the ask of the buy leg and the
  round trip at the current prices gains, \<open>(exit_buy - open_buy) + (open_sell - exit_sell) > 0\<close>; it
  carries the entry and exit prices and quantities of both legs and the sum of their profits.  Else
  nothing is sent.  The trade is closed afterwards.\<close>

theorem Evaluate_reports_profit:
  assumes ieee: "ieee_rounding (ae_rnd env)"
    and scan: "scan_steps env (asc_exchange_bbo_map c) cycle leg_none leg_none = Some (buy, sell)"
      "leg_valid buy" "leg_valid sell"
    and trade: "asc_trades_state c (ArbitrageCycleHash (ae_hc env) (ae_sh env) cycle) = Some ts" "\<not> ts_is_open ts"
    and trs: "map_of (ts_transaction_states ts) (leg_transaction buy) \<noteq> None"
      "map_of (ts_transaction_states ts) (leg_transaction sell) \<noteq> None"
      "leg_transaction buy \<noteq> leg_transaction sell"
    and known: "pairs_known (ae_pairs env) (ts_transaction_states ts)"
    and small: "unat (exit_price sell) \<le> 2 ^ 53" "unat (open_price sell) \<le> 2 ^ 53"
      "unat (exit_price buy) \<le> 2 ^ 53" "unat (open_price buy) \<le> 2 ^ 53"
    and pools: "fst (Allocate (asc_report_pool c)) \<noteq> None" "fst (Allocate (asc_bus_event_pool c)) \<noteq> None"
  shows "\<exists>c' ts'. EvaluateOpportunityArbitrageCycle env cycle c = Inr c' \<and>
     asc_trades_state c' (ArbitrageCycleHash (ae_hc env) (ae_sh env) cycle) = Some ts' \<and> \<not> ts_is_open ts' \<and>
     (if open_price buy < open_price sell \<and>
         0 < int (unat (exit_price buy)) - int (unat (open_price buy)) +
             (int (unat (open_price sell)) - int (unat (exit_price sell)))
      then \<exists>r. asc_sent c' = asc_sent c @ [Some r] \<and>
             report_of env buy sell (ArbitrageCycleHash (ae_hc env) (ae_sh env) cycle) r
      else asc_sent c' = asc_sent c)"
proof -
  let ?uid = "ArbitrageCycleHash (ae_hc env) (ae_sh env) cycle"
  let ?t1 = "ae_clock env (asc_clock c)" and ?t2 = "ae_clock env (asc_clock c + 1)"
  let ?c = "put_trade ?uid (open_trade buy sell ?t1 ?t2 ts) (c\<lparr>asc_clock := asc_clock c + 2\<rparr>)"
  let ?test = "take_stop (ae_rnd env) (exit_price sell) (open_price sell) (exit_price buy) (open_price buy)"
  note eval = Evaluate_closed [OF scan trade trs(1,2)]
  note entries = open_trade_entries [OF trs(1,2), of ?t1 ?t2]
  note profit = take_stop_exact [OF ieee small] and fits = profit_condition_fits [OF small [THEN unat_less_u64]]
  have pools': "fst (Allocate (asc_report_pool ?c)) \<noteq> None" "fst (Allocate (asc_bus_event_pool ?c)) \<noteq> None"
    using pools by (simp_all add: put_trade_def)
  show ?thesis
  proof (cases "open_price buy < open_price sell \<and> fst ?test \<and> \<not> snd ?test")
    case True
    then have "?test = (True, False)" by (cases ?test) auto
    from try_close_profit [OF trs known pools' this fits, of ?uid ?t1 ?t2] True show ?thesis
      unfolding eval Let_def profit [symmetric] by (auto simp: put_trade_def)
  next
    case False
    show ?thesis
    proof (cases "open_price buy < open_price sell")
      case True
      with False have "\<not> (fst ?test \<and> \<not> snd ?test)" by blast
      from try_close_no_report [OF this, where ts = "open_trade buy sell ?t1 ?t2 ts"] entries trs(3) fits
      have "try_close env ?uid buy sell (open_trade buy sell ?t1 ?t2 ts) ?c =
         Inr (put_trade ?uid ((open_trade buy sell ?t1 ?t2 ts)\<lparr>ts_is_open := False\<rparr>) ?c)" by simp
      with True False show ?thesis
        unfolding eval Let_def profit [symmetric] by (simp add: put_trade_def)
    qed (use trade(2) in \<open>simp add: eval Let_def put_trade_def\<close>)
  qed
qed

text \<open>The example with crossed books.\<close>

definition demo_bbo :: "Price \<Rightarrow> Qty \<Rightarrow> Price \<Rightarrow> Qty \<Rightarrow> BBO" where
  "demo_bbo bp bq ap aq = \<lparr>bid_price = bp, ask_price = ap, bid_qty = bq, ask_qty = aq\<rparr>"

definition demo_ready :: "BBO \<Rightarrow> BBO \<Rightarrow> ArbitrageStrategyComponent" where
  "demo_ready b1 b2 =
     AddOrUpdateBBO (step_key demo_env (demo_cycle ! 1)) b2
       (AddOrUpdateBBO (step_key demo_env (demo_cycle ! 0)) b1
         (AddArbitrageCycle demo_env demo_cycle (ArbitrageStrategyComponent_new Some Some 8)))"

lemmas demo_arb_defs =
  demo_env_def demo_cycle_def demo_pair_def demo_info_def demo_bbo_def step_key_def HashCombined_def
  TradingPairHash_def StepHash_def ArbitrageCycleHash_def AddArbitrageCycle_def AddOrUpdateBBO_def
  add_step_def equal_range_def new_transactions_def TransactionReport_new_def TradeState_default_def
  put_trade_def ArbitrageStrategyComponent_new_def Let_def

lemma demo_keys:
  "step_key demo_env (demo_cycle ! 0) = 12"
  "step_key demo_env (demo_cycle ! 1) = 112"
  "StepHash (ae_hc demo_env) (ae_sh demo_env) (demo_cycle ! 0) = 120"
  "StepHash (ae_hc demo_env) (ae_sh demo_env) (demo_cycle ! 1) = 1121"
  "ArbitrageCycleHash (ae_hc demo_env) (ae_sh demo_env) demo_cycle = 2321"
  by (simp_all add: demo_arb_defs)

lemma demo_ready_state:
  "asc_exchange_bbo_map (demo_ready b1 b2) = [12 \<mapsto> b1, 112 \<mapsto> b2]"
  "asc_trades_state (demo_ready b1 b2) = [2321 \<mapsto> TradeState_default\<lparr>ts_transaction_states :=
     [(120, TransactionReport_new kBinance demo_pair kBuy), (1121, TransactionReport_new kBybit demo_pair kSell)]\<rparr>]"
  "asc_report_pool (demo_ready b1 b2) = MemoryPool_new Some 8"
  "asc_bus_event_pool (demo_ready b1 b2) = MemoryPool_new Some 8"
  "asc_sent (demo_ready b1 b2) = []"
  unfolding demo_ready_def demo_keys by (simp_all add: demo_arb_defs)

lemma demo_scan:
  "scan_steps demo_env [12 \<mapsto> b1, 112 \<mapsto> b2] demo_cycle leg_none leg_none =
     Some (buy_leg b1 120, sell_leg b2 1121)"
  by (simp add: demo_arb_defs)

lemma demo_pairs_known:
  "pairs_known (ae_pairs demo_env)
     [(120, TransactionReport_new kBinance demo_pair kBuy), (1121, TransactionReport_new kBybit demo_pair kSell)]"
  by (simp add: pairs_known_def PairExists_def TransactionReport_new_def demo_env_def)

lemma MemoryPool_new_Allocate: "fst (Allocate (MemoryPool_new Some 8)) \<noteq> None"
  by (simp add: Allocate_def MemoryPool_new_def)

theorem Evaluate_reports_profit_witness:
  "\<exists>c' r. EvaluateOpportunityArbitrageCycle demo_env demo_cycle (demo_ready (demo_bbo 104 1 100 1) (demo_bbo 110 5 108 5)) =
     Inr c' \<and> asc_sent c' = [Some r] \<and>
     report_of demo_env (buy_leg (demo_bbo 104 1 100 1) 120) (sell_leg (demo_bbo 110 5 108 5) 1121) 2321 r"
proof -
  let ?b1 = "demo_bbo 104 1 100 1" and ?b2 = "demo_bbo 110 5 108 5"
  let ?ts = "TradeState_default\<lparr>ts_transaction_states :=
     [(120, TransactionReport_new kBinance demo_pair kBuy), (1121, TransactionReport_new kBybit demo_pair kSell)]\<rparr>"
  have "ieee_rounding (ae_rnd demo_env)" by (simp add: demo_env_def ieee_rounding_id)
  moreover have "leg_valid (buy_leg ?b1 120)" "leg_valid (sell_leg ?b2 1121)"
    by (simp_all add: leg_valid_def buy_leg_def sell_leg_def demo_bbo_def kPriceInvalid_def kQtyInvalid_def)
  moreover note Evaluate_reports_profit [of demo_env "demo_ready ?b1 ?b2" demo_cycle "buy_leg ?b1 120" "sell_leg ?b2 1121" ?ts]
  ultimately show ?thesis
    using demo_pairs_known MemoryPool_new_Allocate
    by (fastforce simp: demo_ready_state demo_keys demo_scan TradeState_default_def buy_leg_def sell_leg_def demo_bbo_def)
qed

text \<open>a reported profit can be a loss.  The test that closes a trade adds the price differences
  of the two legs without their quantities; on the example, with a small quantity on the buy leg and
  a large one on the sell leg, the strategy reports a trade as closed with profit whose profit
  and loss is -16.\<close>

theorem report_with_loss:
  "\<exists>c' r. EvaluateOpportunityArbitrageCycle demo_env demo_cycle (demo_ready (demo_bbo 104 1 100 1) (demo_bbo 110 10 112 10)) =
     Inr c' \<and> asc_sent c' = [Some r] \<and> ar_pnl r = - 16"
proof -
  let ?b1 = "demo_bbo 104 1 100 1" and ?b2 = "demo_bbo 110 10 112 10"
  have "profit_condition 112 110 104 100 = Inr 2"
    by (subst profit_condition_fits) simp_all
  moreover have "take_stop (\<lambda>x. x) 112 110 104 100 = (True, False)"
    by (simp add: take_stop_def fsub_def fadd_def fmul_def fdiv_def double_of_u64_def Let_def)
  moreover have "ae_rnd demo_env = (\<lambda>x. x)" by (simp add: demo_env_def)
  moreover have "GetPairInfo kBinance demo_pair (ae_pairs demo_env) = Some demo_info"
    "GetPairInfo kBybit demo_pair (ae_pairs demo_env) = Some demo_info"
    by (simp_all add: GetPairInfo_def demo_env_def)
  ultimately show ?thesis
    by (simp add: EvaluateOpportunityArbitrageCycle_def demo_scan demo_ready_state demo_keys Let_def
        TradeState_default_def leg_valid_def buy_leg_def sell_leg_def demo_bbo_def kPriceInvalid_def
        kQtyInvalid_def open_trade_def close_trade_def update_transaction_def transaction_def
        try_close_def put_trade_def CalculatePnl_trade_def CalculatePnl_def TransactionReport_new_def
        enter_def leave_def GetQtyDouble_def GetPriceDouble_def pow10_neg_def demo_info_def
        fsub_def fadd_def fmul_def double_of_u64_def SendArbitrageReportToBus_def
        Allocate_def MemoryPool_new_def)
qed

section \<open>The index of cycles\<close>

lemma set_add_step [simp]: "set (add_step env cycle s d) = insert (step_key env s, cycle) (set d)"
  by (auto simp: add_step_def Let_def list_ex_iff set_equal_range)

lemma distinct_add_step: "distinct d \<Longrightarrow> distinct (add_step env cycle s d)"
  by (auto simp: add_step_def Let_def list_ex_iff set_equal_range)

lemma fold_add_step:
  "distinct d \<Longrightarrow> distinct (fold (add_step env cycle) ss d) \<and>
     set (fold (add_step env cycle) ss d) = (\<lambda>s. (step_key env s, cycle)) ` set ss \<union> set d"
  by (induction ss arbitrary: d) (auto simp: distinct_add_step)

lemma distinct_equal_range: "distinct d \<Longrightarrow> distinct (equal_range key d)"
  by (auto simp: equal_range_def distinct_map inj_on_def prod_eq_iff)

lemma AddArbitrageCycle_dictionary:
  "asc_trade_dictionary (AddArbitrageCycle env cycle c) = fold (add_step env cycle) cycle (asc_trade_dictionary c)"
  by (simp add: AddArbitrageCycle_def Let_def put_trade_def split: option.split)

lemma AddArbitrageCycle_trades:
  "dom (asc_trades_state (AddArbitrageCycle env cycle c)) =
     insert (ArbitrageCycleHash (ae_hc env) (ae_sh env) cycle) (dom (asc_trades_state c))"
  by (auto simp: AddArbitrageCycle_def Let_def put_trade_def split: option.split)

text \<open>The index of the cycles.  After any cycles were added, in any order and with repetitions, a
  change of the best bid and offer of an instrument evaluates exactly the added cycles that have a
  step with the key of this instrument, each once, and every added cycle has a trade state.\<close>

theorem cycles_indexed:
  "let c = fold (AddArbitrageCycle env) cycles (ArbitrageStrategyComponent_new ch1 ch2 n)
   in distinct (equal_range key (asc_trade_dictionary c)) \<and>
      set (equal_range key (asc_trade_dictionary c)) = {cycle \<in> set cycles. key \<in> step_key env ` set cycle} \<and>
      dom (asc_trades_state c) = ArbitrageCycleHash (ae_hc env) (ae_sh env) ` set cycles"
proof -
  let ?c = "\<lambda>cs. fold (AddArbitrageCycle env) cs (ArbitrageStrategyComponent_new ch1 ch2 n)"
  have "distinct (asc_trade_dictionary (?c cs)) \<and>
     set (asc_trade_dictionary (?c cs)) = {(k, cycle). cycle \<in> set cs \<and> k \<in> step_key env ` set cycle} \<and>
     dom (asc_trades_state (?c cs)) = ArbitrageCycleHash (ae_hc env) (ae_sh env) ` set cs" for cs
  proof (induction cs rule: rev_induct)
    case Nil
    show ?case by (simp add: ArbitrageStrategyComponent_new_def)
  next
    case (snoc cycle cs)
    then have d: "distinct (asc_trade_dictionary (?c cs))" by blast
    show ?case
      using snoc fold_add_step [OF d, of env cycle cycle]
      by (auto simp: AddArbitrageCycle_dictionary AddArbitrageCycle_trades simp del: domIff)
  qed
  from this [of cycles] show ?thesis
    unfolding Let_def by (auto simp: distinct_equal_range set_equal_range simp del: domIff)
qed

end
