(* ===== verification/Cross_Arbitrage.thy ===== *)
theory Cross_Arbitrage
  imports Order_Manager Order_Book
begin

text \<open>
  \<open>Trading::BaseStrategy\<close> and \<open>strategy::cross_arbitrage::CrossArbitrage\<close>
  (aot/strategy/base_strategy.h, src/base_strategy.cpp), the parser of predictions
  (aot/launcher_predictor.h), the signals (aot/strategy/cross_arbitrage/signals.h) and the trade
  engine of the cross arbitrage (aot/strategy/cross_arbitrage/trade_engine.h).

  The order manager is part of the state of a strategy.  The predictor, written in Python, is an
  argument.  A signal is a pointer into one of the two pools of the order books; the queue of
  signals is the list of pointers that were dequeued.
\<close>

section \<open>Predictions\<close>

record Result =
  res_action :: string
  res_confidence :: int

definition Parse :: "Result \<Rightarrow> TradeAction" where
  "Parse result =
     (if res_action result = ''enter_long'' then kEnterLong
      else if res_action result = ''enter_short'' then kEnterShort
      else if res_action result = ''exit_long'' then kExitLong
      else if res_action result = ''exit_short'' then kExitShort
      else kNope)"

record OHLCV =
  k_open :: Price
  k_high :: Price
  k_low :: Price
  k_close :: Price
  k_volume :: Qty

record OHLCVExt =
  ke_ohlcv :: OHLCV
  ke_trading_pair :: TradingPair

section \<open>The base strategy\<close>

text \<open>\<open>bst_order_book\<close> is the pointer to a book; \<open>books\<close> gives the current best bid and offer of the
  book behind a pointer.\<close>

record BaseStrategy =
  bst_has_predictor :: bool
  bst_order_book :: "addr option"
  bst_ticker_cfg :: "TradingPair \<rightharpoonup> TradeEngineCfg"
  bst_order_manager :: OrderManager

definition BaseStrategy_OnOrderBookUpdate :: "addr option \<Rightarrow> BaseStrategy \<Rightarrow> BaseStrategy" where
  "BaseStrategy_OnOrderBookUpdate book s =
     (if bst_order_book s = None then s\<lparr>bst_order_book := book\<rparr> else s)"

definition BaseStrategy_BuySomeAsset ::
    "(addr \<Rightarrow> BBO) \<Rightarrow> ExchangeId \<Rightarrow> TradingPair \<Rightarrow> BaseStrategy \<Rightarrow> BaseStrategy" where
  "BaseStrategy_BuySomeAsset books ex pair s =
     (case bst_order_book s of
        None \<Rightarrow> s
      | Some book \<Rightarrow>
          (case bst_ticker_cfg s pair of
             None \<Rightarrow> s
           | Some cfg \<Rightarrow>
               let buy_price = ask_price (books book)
               in if buy_price = kPriceInvalid then s
                  else s\<lparr>bst_order_manager := NewOrder ex pair buy_price kAsk (clip cfg) (bst_order_manager s)\<rparr>))"

text \<open>The bodies of \<open>SellAllAsset\<close>, \<open>SellSomeAsset\<close> and \<open>BuyAllAsset\<close> are commented out.\<close>

definition run_action ::
    "(addr \<Rightarrow> BBO) \<Rightarrow> TradeAction \<Rightarrow> TradingPair \<Rightarrow> BaseStrategy \<Rightarrow> BaseStrategy" where
  "run_action books action pair s =
     (case action of
        kEnterLong \<Rightarrow> BaseStrategy_BuySomeAsset books kExchangeIdInvalid pair s
      | kEnterShort \<Rightarrow> s
      | kExitLong \<Rightarrow> s
      | kExitShort \<Rightarrow> s
      | kNope \<Rightarrow> s)"

definition BaseStrategy_OnNewKLine ::
    "(OHLCV \<Rightarrow> Result) \<Rightarrow> (addr \<Rightarrow> BBO) \<Rightarrow> OHLCVExt \<Rightarrow> BaseStrategy \<Rightarrow> BaseStrategy" where
  "BaseStrategy_OnNewKLine predict books kline s =
     (if \<not> bst_has_predictor s then s
      else run_action books (Parse (predict (ke_ohlcv kline))) (ke_trading_pair kline) s)"

section \<open>Signals\<close>

text \<open>\<open>BBidUpdated\<close> and \<open>BAskUpdated\<close> have the same fields; a null \<open>mem_pool\<close> is \<open>False\<close>.\<close>

record BBUpdated =
  bu_exchange :: ExchangeId
  bu_trading_pair :: TradingPair
  bu_price :: Price
  bu_qty :: Qty
  bu_has_pool :: bool

datatype signal = BBidSignal nat | BAskSignal nat | NoEventSignal

record signal_pools =
  sp_bids :: "BBUpdated MemPool"
  sp_asks :: "BBUpdated MemPool"

definition Signal_Deallocate :: "nat \<Rightarrow> BBUpdated MemPool \<Rightarrow> BBUpdated MemPool result" where
  "Signal_Deallocate i pool =
     (if \<not> bu_has_pool (ob_object (mp_store pool ! i)) then Inr pool else MemPool_deallocate (int i) pool)"

section \<open>Cross arbitrage\<close>

record CrossArbitrage =
  ca_prices :: "ExchangeId \<rightharpoonup> BBO"
  ca_working_pairs :: "ExchangeId \<rightharpoonup> TradingPair"
  ca_exch1 :: ExchangeId
  ca_exch2 :: ExchangeId
  ca_ticker_cfg :: "TradingPair \<rightharpoonup> TradeEngineCfg"
  ca_order_manager :: OrderManager

text \<open>\<open>*exchanges_.begin()\<close> and \<open>*exchanges_.rbegin()\<close> of an empty list are not modelled: \<open>None\<close>.\<close>

definition CrossArbitrage_new ::
    "(ExchangeId \<rightharpoonup> TradingPair) \<Rightarrow> ExchangeId list \<Rightarrow> (TradingPair \<rightharpoonup> TradeEngineCfg) \<Rightarrow> OrderManager \<Rightarrow>
     CrossArbitrage option" where
  "CrossArbitrage_new working exchanges cfg om =
     (if exchanges = [] then None
      else Some \<lparr>ca_prices = (\<lambda>ex. if working ex = None then None else Some BBO_default),
        ca_working_pairs = working, ca_exch1 = hd exchanges, ca_exch2 = last exchanges,
        ca_ticker_cfg = cfg, ca_order_manager = om\<rparr>)"

text \<open>\<open>prices_[ex]\<close> and \<open>working_pairs_[ex]\<close> insert a default value for a missing key.\<close>

definition touch_price :: "ExchangeId \<Rightarrow> CrossArbitrage \<Rightarrow> CrossArbitrage" where
  "touch_price ex s =
     (case ca_prices s ex of None \<Rightarrow> s\<lparr>ca_prices := (ca_prices s)(ex \<mapsto> BBO_default)\<rparr> | Some _ \<Rightarrow> s)"

definition price_of :: "CrossArbitrage \<Rightarrow> ExchangeId \<Rightarrow> BBO" where
  "price_of s ex = (case ca_prices s ex of None \<Rightarrow> BBO_default | Some b \<Rightarrow> b)"

definition touch_pair :: "ExchangeId \<Rightarrow> CrossArbitrage \<Rightarrow> CrossArbitrage" where
  "touch_pair ex s =
     (case ca_working_pairs s ex of
        None \<Rightarrow> s\<lparr>ca_working_pairs := (ca_working_pairs s)(ex \<mapsto> \<lparr>tp_first = 0, tp_second = 0\<rparr>)\<rparr>
      | Some _ \<Rightarrow> s)"

definition pair_of :: "CrossArbitrage \<Rightarrow> ExchangeId \<Rightarrow> TradingPair" where
  "pair_of s ex = (case ca_working_pairs s ex of None \<Rightarrow> \<lparr>tp_first = 0, tp_second = 0\<rparr> | Some p \<Rightarrow> p)"

definition BuySomeAsset :: "ExchangeId \<Rightarrow> TradingPair \<Rightarrow> CrossArbitrage \<Rightarrow> CrossArbitrage" where
  "BuySomeAsset ex pair s =
     (case ca_prices s ex of
        None \<Rightarrow> s
      | Some b \<Rightarrow>
          (case ca_ticker_cfg s pair of
             None \<Rightarrow> s
           | Some cfg \<Rightarrow>
               if ask_price b = kPriceInvalid then s
               else s\<lparr>ca_order_manager := NewOrder ex pair (ask_price b) kAsk (clip cfg) (ca_order_manager s)\<rparr>))"

definition SellSomeAsset :: "ExchangeId \<Rightarrow> TradingPair \<Rightarrow> CrossArbitrage \<Rightarrow> CrossArbitrage" where
  "SellSomeAsset ex pair s =
     (case ca_prices s ex of
        None \<Rightarrow> s
      | Some b \<Rightarrow>
          (case ca_ticker_cfg s pair of
             None \<Rightarrow> s
           | Some cfg \<Rightarrow>
               if bid_price b = kPriceInvalid then s
               else s\<lparr>ca_order_manager := NewOrder ex pair (bid_price b) kBid (clip cfg) (ca_order_manager s)\<rparr>))"

definition ProcessSignal ::
    "signal \<Rightarrow> signal_pools \<Rightarrow> CrossArbitrage \<Rightarrow> (signal_pools \<times> CrossArbitrage) result" where
  "ProcessSignal sig pools s =
     (case sig of
        BBidSignal i \<Rightarrow>
          if \<not> i < length (mp_store (sp_bids pools)) then Inl DanglingDeref
          else let event = ob_object (mp_store (sp_bids pools) ! i);
                   ex = bu_exchange event;
                   b = (price_of s ex)\<lparr>bid_price := bu_price event, bid_qty := bu_qty event\<rparr>
               in bind_result (Signal_Deallocate i (sp_bids pools)) (\<lambda>p.
                    Inr (pools\<lparr>sp_bids := p\<rparr>, s\<lparr>ca_prices := (ca_prices s)(ex \<mapsto> b)\<rparr>))
      | BAskSignal i \<Rightarrow>
          if \<not> i < length (mp_store (sp_asks pools)) then Inl DanglingDeref
          else let event = ob_object (mp_store (sp_asks pools) ! i);
                   ex = bu_exchange event;
                   b = (price_of s ex)\<lparr>ask_price := bu_price event, ask_qty := bu_qty event\<rparr>
               in bind_result (Signal_Deallocate i (sp_asks pools)) (\<lambda>p.
                    Inr (pools\<lparr>sp_asks := p\<rparr>, s\<lparr>ca_prices := (ca_prices s)(ex \<mapsto> b)\<rparr>))
      | NoEventSignal \<Rightarrow> Inr (pools, s))"

text \<open>One direction: buy on \<open>buy_ex\<close>, sell on \<open>sell_ex\<close>.  The difference of the prices is unsigned.\<close>

definition side_invalid :: "ExchangeId \<Rightarrow> ExchangeId \<Rightarrow> CrossArbitrage \<Rightarrow> bool \<times> CrossArbitrage" where
  "side_invalid sell_ex buy_ex s =
     (let s1 = touch_price sell_ex s
      in if bid_price (price_of s1 sell_ex) = kPriceInvalid then (True, s1)
         else let s2 = touch_price buy_ex s1 in (ask_price (price_of s2 buy_ex) = kPriceInvalid, s2))"

definition spread_positive :: "ExchangeId \<Rightarrow> ExchangeId \<Rightarrow> CrossArbitrage \<Rightarrow> bool" where
  "spread_positive sell_ex buy_ex s \<longleftrightarrow> bid_price (price_of s sell_ex) - ask_price (price_of s buy_ex) > 0"

definition buy_and_sell :: "ExchangeId \<Rightarrow> ExchangeId \<Rightarrow> CrossArbitrage \<Rightarrow> CrossArbitrage" where
  "buy_and_sell buy_ex sell_ex s =
     (let s1 = BuySomeAsset buy_ex (pair_of s buy_ex) (touch_pair buy_ex s)
      in SellSomeAsset sell_ex (pair_of s1 sell_ex) (touch_pair sell_ex s1))"

definition LaunchPayload :: "CrossArbitrage \<Rightarrow> CrossArbitrage" where
  "LaunchPayload s =
     (let (condition1, s1) = side_invalid (ca_exch2 s) (ca_exch1 s) s
      in if \<not> condition1 \<and> spread_positive (ca_exch2 s) (ca_exch1 s) s1
         then buy_and_sell (ca_exch1 s) (ca_exch2 s) s1
         else
           let (condition2, s2) = side_invalid (ca_exch1 s) (ca_exch2 s) s1
           in if \<not> condition2 \<and> spread_positive (ca_exch1 s) (ca_exch2 s) s2
              then buy_and_sell (ca_exch2 s) (ca_exch1 s) s2
              else s2)"

definition OnNewSignal ::
    "signal \<Rightarrow> signal_pools \<times> CrossArbitrage \<Rightarrow> (signal_pools \<times> CrossArbitrage) result" where
  "OnNewSignal sig ps =
     bind_result (ProcessSignal sig (fst ps) (snd ps)) (\<lambda>(pools, s). Inr (pools, LaunchPayload s))"

text \<open>\<open>TradeEngine::Run\<close>: the batches that \<open>try_dequeue_bulk\<close> gives while the engine runs.\<close>

definition CrossTradeEngine_Run ::
    "ExchangeId list \<Rightarrow> signal list list \<Rightarrow> signal_pools \<times> CrossArbitrage \<Rightarrow>
     (signal_pools \<times> CrossArbitrage) result" where
  "CrossTradeEngine_Run exchanges batches ps =
     (if length exchanges \<noteq> 2 then Inr ps
      else fold_result (fold_result OnNewSignal) batches ps)"

section \<open>What a signal sends\<close>

text \<open>The order requests of one side with the price of the exchange and the configured quantity.\<close>

definition order_request :: "CrossArbitrage \<Rightarrow> ExchangeId \<Rightarrow> TradingPair \<Rightarrow> Side \<Rightarrow> OrderId \<Rightarrow> RequestNewOrder" where
  "order_request s ex pair side oid =
     \<lparr>rn_exchange_id = ex, rn_type = NEW, rn_trading_pair = pair, rn_order_id = oid, rn_side = side,
      rn_price = (if side = kAsk then ask_price (price_of s ex) else bid_price (price_of s ex)),
      rn_qty = clip (the (ca_ticker_cfg s pair))\<rparr>"

definition tradable :: "CrossArbitrage \<Rightarrow> ExchangeId \<Rightarrow> TradingPair \<Rightarrow> Side \<Rightarrow> bool" where
  "tradable s ex pair side \<longleftrightarrow> ca_prices s ex \<noteq> None \<and> ca_ticker_cfg s pair \<noteq> None \<and>
     (if side = kAsk then ask_price (price_of s ex) else bid_price (price_of s ex)) \<noteq> kPriceInvalid"

lemma BuySomeAsset_om:
  "ca_order_manager (BuySomeAsset ex pair s) =
     (if tradable s ex pair kAsk
      then NewOrder ex pair (ask_price (price_of s ex)) kAsk (clip (the (ca_ticker_cfg s pair))) (ca_order_manager s)
      else ca_order_manager s)"
  by (auto simp: BuySomeAsset_def tradable_def price_of_def split: option.splits)

lemma SellSomeAsset_om:
  "ca_order_manager (SellSomeAsset ex pair s) =
     (if tradable s ex pair kBid
      then NewOrder ex pair (bid_price (price_of s ex)) kBid (clip (the (ca_ticker_cfg s pair))) (ca_order_manager s)
      else ca_order_manager s)"
  by (auto simp: SellSomeAsset_def tradable_def price_of_def split: option.splits)

lemma BuySomeAsset_frame [simp]:
  "ca_prices (BuySomeAsset ex pair s) = ca_prices s" "ca_working_pairs (BuySomeAsset ex pair s) = ca_working_pairs s"
  "ca_ticker_cfg (BuySomeAsset ex pair s) = ca_ticker_cfg s"
  by (auto simp: BuySomeAsset_def split: option.splits)

lemma touch_frame [simp]:
  "price_of (touch_price ex s) ex' = price_of s ex'" "ca_order_manager (touch_price ex s) = ca_order_manager s"
  "ca_ticker_cfg (touch_price ex s) = ca_ticker_cfg s" "pair_of (touch_price ex s) = pair_of s"
  "pair_of (touch_pair ex s) ex' = pair_of s ex'" "ca_order_manager (touch_pair ex s) = ca_order_manager s"
  "ca_ticker_cfg (touch_pair ex s) = ca_ticker_cfg s" "price_of (touch_pair ex s) = price_of s"
  "ca_prices (touch_pair ex s) = ca_prices s" "ca_prices (touch_price ex s) ex \<noteq> None"
  "ca_prices s ex' \<noteq> None \<Longrightarrow> ca_prices (touch_price ex s) ex' \<noteq> None"
  by (auto simp: touch_price_def touch_pair_def price_of_def pair_of_def fun_eq_iff split: option.splits)

lemma frame_of [simp]:
  "price_of (BuySomeAsset ex pair s) = price_of s" "pair_of (BuySomeAsset ex pair s) = pair_of s"
  "tradable (touch_pair ex s) ex' pair side = tradable s ex' pair side"
  "tradable (BuySomeAsset ex pair s) ex' pair' side = tradable s ex' pair' side"
  by (simp_all add: price_of_def [abs_def] pair_of_def [abs_def] tradable_def)

text \<open>Buying and selling is two calls of \<open>NewOrder\<close>, each only if the side can be traded.\<close>

lemma buy_and_sell_om:
  "ca_order_manager (buy_and_sell b sl s) =
     (let m1 = (if tradable s b (pair_of s b) kAsk
                then NewOrder b (pair_of s b) (ask_price (price_of s b)) kAsk
                       (clip (the (ca_ticker_cfg s (pair_of s b)))) (ca_order_manager s)
                else ca_order_manager s)
      in if tradable s sl (pair_of s sl) kBid
         then NewOrder sl (pair_of s sl) (bid_price (price_of s sl)) kBid
                (clip (the (ca_ticker_cfg s (pair_of s sl)))) m1
         else m1)"
  by (simp add: buy_and_sell_def Let_def BuySomeAsset_om SellSomeAsset_om)

lemma side_invalid_result:
  "fst (side_invalid sl b s) \<longleftrightarrow> bid_price (price_of s sl) = kPriceInvalid \<or> ask_price (price_of s b) = kPriceInvalid"
  "ca_order_manager (snd (side_invalid sl b s)) = ca_order_manager s"
  "price_of (snd (side_invalid sl b s)) = price_of s"
  "pair_of (snd (side_invalid sl b s)) = pair_of s"
  "ca_ticker_cfg (snd (side_invalid sl b s)) = ca_ticker_cfg s"
  "\<not> fst (side_invalid sl b s) \<Longrightarrow>
     ca_prices (snd (side_invalid sl b s)) sl \<noteq> None \<and> ca_prices (snd (side_invalid sl b s)) b \<noteq> None"
  by (auto simp: side_invalid_def Let_def fun_eq_iff simp del: not_None_eq)

text \<open>The unsigned difference is positive whenever the prices differ.\<close>

lemma spread_positive_iff: "spread_positive sl b s \<longleftrightarrow> bid_price (price_of s sl) \<noteq> ask_price (price_of s b)"
  by (simp add: spread_positive_def word_gt_0)

text \<open>cross arbitrage at any difference.  When both the ask of the first exchange and the bid of
  the second are known and differ (in either direction, since the spread is computed on unsigned
  prices), both pairs are configured and have no live order, a signal sends a buy order at the ask
  of the first exchange and a sell order at the bid of the second.\<close>

theorem cross_arbitrage_any_difference:
  assumes inv: "om_inv (ca_order_manager s)"
    and prices: "ask_price (price_of s (ca_exch1 s)) \<noteq> kPriceInvalid" "bid_price (price_of s (ca_exch2 s)) \<noteq> kPriceInvalid"
      "bid_price (price_of s (ca_exch2 s)) \<noteq> ask_price (price_of s (ca_exch1 s))"
    and cfg: "ca_ticker_cfg s (pair_of s (ca_exch1 s)) \<noteq> None" "ca_ticker_cfg s (pair_of s (ca_exch2 s)) \<noteq> None"
    and free: "\<not> OrderIsLive (slot (ca_order_manager s) (pair_of s (ca_exch1 s)) kAsk)"
      "\<not> OrderIsLive (slot (ca_order_manager s) (pair_of s (ca_exch2 s)) kBid)"
  shows "om_sent_new (ca_order_manager (LaunchPayload s)) = om_sent_new (ca_order_manager s) @
     [order_request s (ca_exch1 s) (pair_of s (ca_exch1 s)) kAsk (om_next_order_id (ca_order_manager s)),
      order_request s (ca_exch2 s) (pair_of s (ca_exch2 s)) kBid (om_next_order_id (ca_order_manager s) + 1)]"
proof -
  let ?s1 = "snd (side_invalid (ca_exch2 s) (ca_exch1 s) s)" and ?m = "ca_order_manager s"
  note r = side_invalid_result [of "ca_exch2 s" "ca_exch1 s" s]
  have c1: "\<not> fst (side_invalid (ca_exch2 s) (ca_exch1 s) s)" using prices r(1) by simp
  with r prices have "LaunchPayload s = buy_and_sell (ca_exch1 s) (ca_exch2 s) ?s1"
    by (simp add: LaunchPayload_def split_beta Let_def spread_positive_iff)
  moreover have "tradable ?s1 (ca_exch1 s) (pair_of s (ca_exch1 s)) kAsk" "tradable ?s1 (ca_exch2 s) (pair_of s (ca_exch2 s)) kBid"
    using r(6) [OF c1] cfg prices by (simp_all add: tradable_def r)
  ultimately show ?thesis
    using NewOrder_free [OF inv free(1)] NewOrder_free(2) [OF NewOrder_inv [OF inv], of _ _ _ _ _ "pair_of s (ca_exch2 s)" kBid] free(2)
    by (simp add: buy_and_sell_om Let_def r order_request_def)
qed

text \<open>The manager \<open>m'\<close> has sent at most \<open>n\<close> requests more than \<open>m\<close>, all with property \<open>P\<close>.\<close>

definition sends_more :: "nat \<Rightarrow> (RequestNewOrder \<Rightarrow> bool) \<Rightarrow> OrderManager \<Rightarrow> OrderManager \<Rightarrow> bool" where
  "sends_more n P m m' \<longleftrightarrow> om_inv m' \<and>
     (\<exists>new. om_sent_new m' = om_sent_new m @ new \<and> length new \<le> n \<and> (\<forall>r \<in> set new. P r))"

lemma sends_more_refl: "om_inv m \<Longrightarrow> sends_more n P m m"
  by (simp add: sends_more_def)

lemma sends_more_trans: "sends_more k P m m1 \<Longrightarrow> sends_more l P m1 m2 \<Longrightarrow> sends_more (k + l) P m m2"
  unfolding sends_more_def by fastforce

lemma NewOrder_sends_more:
  assumes "om_inv m"
    and "\<And>oid. P \<lparr>rn_exchange_id = ex, rn_type = NEW, rn_trading_pair = pair, rn_order_id = oid, rn_side = side,
        rn_price = p, rn_qty = q\<rparr>"
  shows "sends_more (Suc 0) P m (NewOrder ex pair p side q m)"
  using NewOrder_live(2) [of m pair side ex p q] NewOrder_free(2) [OF assms(1), of pair side ex p q] assms
  by (cases "OrderIsLive (slot m pair side)") (auto simp: sends_more_def NewOrder_inv)

definition fair_request :: "CrossArbitrage \<Rightarrow> RequestNewOrder \<Rightarrow> bool" where
  "fair_request s r \<longleftrightarrow> r = order_request s (rn_exchange_id r) (rn_trading_pair r) (rn_side r) (rn_order_id r) \<and>
     rn_price r \<noteq> kPriceInvalid \<and> rn_exchange_id r \<in> {ca_exch1 s, ca_exch2 s} \<and> rn_side r \<in> {kAsk, kBid}"

lemma buy_and_sell_sends:
  assumes "om_inv (ca_order_manager s)" and "b \<in> {ca_exch1 s, ca_exch2 s}" and "sl \<in> {ca_exch1 s, ca_exch2 s}"
    and "ca_order_manager t = ca_order_manager s" and "price_of t = price_of s" and "ca_ticker_cfg t = ca_ticker_cfg s"
  shows "sends_more 2 (fair_request s) (ca_order_manager s) (ca_order_manager (buy_and_sell b sl t))"
proof -
  let ?t1 = "BuySomeAsset b (pair_of t b) (touch_pair b t)"
  have 1: "sends_more (Suc 0) (fair_request s) (ca_order_manager s) (ca_order_manager ?t1)"
    using assms by (auto simp: BuySomeAsset_om sends_more_refl tradable_def fair_request_def order_request_def
        intro!: NewOrder_sends_more)
  then have inv: "om_inv (ca_order_manager ?t1)" by (simp add: sends_more_def)
  have "sends_more (Suc 0) (fair_request s) (ca_order_manager ?t1) (ca_order_manager (buy_and_sell b sl t))"
    using assms inv unfolding buy_and_sell_def Let_def SellSomeAsset_om
    by (auto simp: sends_more_refl tradable_def fair_request_def order_request_def intro!: NewOrder_sends_more)
  with 1 show ?thesis using sends_more_trans [of "Suc 0" _ _ _ "Suc 0"] by (simp add: numeral_2_eq_2)
qed

text \<open>What a signal can send.  Whatever the state, the decision after a signal adds at most two order
  requests; each has a valid price, the current ask for a buy and bid for a sell of its exchange,
  and the quantity that is configured for its pair.\<close>

theorem LaunchPayload_requests:
  assumes "om_inv (ca_order_manager s)"
  shows "\<exists>new. om_sent_new (ca_order_manager (LaunchPayload s)) = om_sent_new (ca_order_manager s) @ new \<and>
     length new \<le> 2 \<and>
     (\<forall>r \<in> set new. r = order_request s (rn_exchange_id r) (rn_trading_pair r) (rn_side r) (rn_order_id r) \<and>
        rn_price r \<noteq> kPriceInvalid \<and> rn_exchange_id r \<in> {ca_exch1 s, ca_exch2 s} \<and> rn_side r \<in> {kAsk, kBid})"
proof -
  have "sends_more 2 (fair_request s) (ca_order_manager s) (ca_order_manager (LaunchPayload s))"
    using assms unfolding LaunchPayload_def Let_def split_beta
    by (auto intro!: buy_and_sell_sends sends_more_refl simp: side_invalid_result)
  then show ?thesis by (simp add: sends_more_def fair_request_def)
qed

text \<open>An example: the bid of the second exchange is below the ask of the first.\<close>

definition demo_cross :: CrossArbitrage where
  "demo_cross =
     \<lparr>ca_prices = [kBinance \<mapsto> \<lparr>bid_price = 99, ask_price = 100, bid_qty = 1, ask_qty = 1\<rparr>,
                   kBybit \<mapsto> \<lparr>bid_price = 90, ask_price = 91, bid_qty = 1, ask_qty = 1\<rparr>],
      ca_working_pairs = [kBinance \<mapsto> \<lparr>tp_first = 1, tp_second = 2\<rparr>, kBybit \<mapsto> \<lparr>tp_first = 1, tp_second = 2\<rparr>],
      ca_exch1 = kBinance, ca_exch2 = kBybit,
      ca_ticker_cfg = [\<lparr>tp_first = 1, tp_second = 2\<rparr> \<mapsto>
        \<lparr>clip = 5, threshold = 0, risk_cfg = \<lparr>max_order_size = 0, max_position = 0, max_loss = 0\<rparr>\<rparr>],
      ca_order_manager = OrderManager_new\<rparr>"

lemma demo_cross_facts:
  "om_inv (ca_order_manager demo_cross)"
  "ca_exch1 demo_cross = kBinance" "ca_exch2 demo_cross = kBybit"
  "price_of demo_cross kBinance = \<lparr>bid_price = 99, ask_price = 100, bid_qty = 1, ask_qty = 1\<rparr>"
  "price_of demo_cross kBybit = \<lparr>bid_price = 90, ask_price = 91, bid_qty = 1, ask_qty = 1\<rparr>"
  "pair_of demo_cross kBinance = \<lparr>tp_first = 1, tp_second = 2\<rparr>" "pair_of demo_cross kBybit = \<lparr>tp_first = 1, tp_second = 2\<rparr>"
  "ca_ticker_cfg demo_cross \<lparr>tp_first = 1, tp_second = 2\<rparr> =
     Some \<lparr>clip = 5, threshold = 0, risk_cfg = \<lparr>max_order_size = 0, max_position = 0, max_loss = 0\<rparr>\<rparr>"
  "\<not> OrderIsLive (slot (ca_order_manager demo_cross) tp side)" "om_sent_new (ca_order_manager demo_cross) = []"
  "om_next_order_id (ca_order_manager demo_cross) = 1"
  using om_inv_new
  by (simp_all add: demo_cross_def price_of_def pair_of_def OrderIsLive_def slot_def OrderManager_new_def
      OMOrder_default_def)

theorem cross_arbitrage_any_difference_witness:
  "List.map (\<lambda>r. (rn_exchange_id r, rn_side r, rn_price r, rn_qty r))
     (om_sent_new (ca_order_manager (LaunchPayload demo_cross))) =
   [(kBinance, kAsk, 100, 5), (kBybit, kBid, 90, 5)]"
  using cross_arbitrage_any_difference [of demo_cross]
  by (simp add: demo_cross_facts kPriceInvalid_def order_request_def)

theorem LaunchPayload_requests_witness:
  "length (om_sent_new (ca_order_manager (LaunchPayload demo_cross))) \<le> 2"
  using LaunchPayload_requests [OF demo_cross_facts(1)] by (auto simp: demo_cross_facts)

end
