(* ===== verification/Position_Keeper.thy ===== *)
theory Position_Keeper
  imports Order_Manager Order_Book
begin

text \<open>
  Positions and profit and loss: \<open>PositionInfo\<close>, \<open>Trading::PositionKeeper\<close> and
  \<open>exchange::PositionKeeper\<close> of aot/strategy/position_keeper.h.

  Quantities and prices are \<open>uint64_t\<close>, the position is an \<open>int\<close>: the mixed expression
  \<open>position += exec_qty * side_value\<close> is unsigned and is cut to 32 bits when it is stored
  (\<open>to_int32\<close>), while \<open>position * old_position\<close> is a signed product whose overflow is undefined
  behaviour (\<open>SignedOverflow\<close>).  Doubles use the rounding \<open>rnd\<close>.
\<close>

section \<open>PositionInfo\<close>

record PositionInfo =
  pi_position :: int
  pi_real_pnl :: rat
  pi_unreal_pnl :: rat
  pi_total_pnl :: rat
  pi_open_vwap :: "rat list"
  pi_volume :: rat
  pi_bbo :: "BBO option"

text \<open>A new entry of the map is value-initialised, so \<open>open_vwap\<close> starts with zeros.\<close>

definition PositionInfo_default :: PositionInfo where
  "PositionInfo_default =
     \<lparr>pi_position = 0, pi_real_pnl = 0, pi_unreal_pnl = 0, pi_total_pnl = 0, pi_open_vwap = [0, 0, 0, 0],
      pi_volume = 0, pi_bbo = None\<rparr>"

definition mul_int32 :: "int \<Rightarrow> int \<Rightarrow> int result" where
  "mul_int32 a b = (if fits_int32 (a * b) then Inr (a * b) else Inl SignedOverflow)"

definition abs_int32 :: "int \<Rightarrow> int result" where
  "abs_int32 a = (if fits_int32 \<bar>a\<bar> then Inr \<bar>a\<bar> else Inl SignedOverflow)"

definition opp_side :: "Side \<Rightarrow> Side" where
  "opp_side side = (if side = kAsk then kBid else kAsk)"

text \<open>The branch for a fill that reduces the position: the averages of the opposite side, the realised
  profit, and the case of a position that changes its sign.\<close>

definition reduce_position :: "rounding \<Rightarrow> MEClientResponse \<Rightarrow> int \<Rightarrow> int \<Rightarrow> PositionInfo \<Rightarrow> PositionInfo result" where
  "reduce_position rnd r old_position position p =
     (let side = cr_side r; opp = sideToIndex (opp_side side); price = double_of_u64 rnd (cr_price r) in
      bind_result (abs_int32 old_position) (\<lambda>abs_old.
      bind_result (abs_int32 position) (\<lambda>abs_pos.
      bind_result (mul_int32 position old_position) (\<lambda>prod.
        let opp_side_vwap = fdiv rnd (pi_open_vwap p ! opp) (double_of_int rnd abs_old);
            vwap1 = (pi_open_vwap p)[opp := fmul rnd opp_side_vwap (double_of_int rnd abs_pos)];
            closed = double_of_int rnd (min (to_int32 (uint (cr_exec_qty r))) abs_old);
            gain = fmul rnd (fmul rnd closed (fsub rnd opp_side_vwap price)) (double_of_int rnd (sideToValue side));
            vwap2 = (if prod < 0
                     then (vwap1[sideToIndex side := double_of_u64 rnd (cr_price r * word_of_int abs_pos)])[opp := 0]
                     else vwap1)
        in Inr (p\<lparr>pi_open_vwap := vwap2, pi_real_pnl := fadd rnd (pi_real_pnl p) gain\<rparr>)))))"

text \<open>The profit of the open position at a price.\<close>

definition mark :: "rounding \<Rightarrow> rat \<Rightarrow> int \<Rightarrow> rat list \<Rightarrow> rat" where
  "mark rnd price position vwap =
     (let size = double_of_int rnd \<bar>position\<bar> in
      if position > 0
      then fmul rnd (fsub rnd price (fdiv rnd (vwap ! sideToIndex kAsk) size)) size
      else fmul rnd (fsub rnd (fdiv rnd (vwap ! sideToIndex kBid) size) price) size)"

definition addFill :: "rounding \<Rightarrow> MEClientResponse \<Rightarrow> PositionInfo \<Rightarrow> PositionInfo result" where
  "addFill rnd r p =
     (let side = cr_side r; old_position = pi_position p; side_value = sideToValue side;
          position = to_int32 (old_position + uint (cr_exec_qty r) * side_value);
          p1 = p\<lparr>pi_position := position, pi_volume := fadd rnd (pi_volume p) (double_of_u64 rnd (cr_exec_qty r))\<rparr> in
      bind_result (mul_int32 old_position side_value) (\<lambda>direction.
      bind_result
        (if direction \<ge> 0
         then Inr (p1\<lparr>pi_open_vwap := (pi_open_vwap p1)[sideToIndex side :=
                fadd rnd (pi_open_vwap p1 ! sideToIndex side) (double_of_u64 rnd (cr_price r * cr_exec_qty r))]\<rparr>)
         else reduce_position rnd r old_position position p1) (\<lambda>p2.
      bind_result (if position = 0 then Inr 0 else abs_int32 position) (\<lambda>_.
        let p3 = (if position = 0
                  then p2\<lparr>pi_open_vwap := (pi_open_vwap p2)[sideToIndex kBid := 0, sideToIndex kAsk := 0],
                          pi_unreal_pnl := 0\<rparr>
                  else p2\<lparr>pi_unreal_pnl := mark rnd (double_of_u64 rnd (cr_price r)) position (pi_open_vwap p2)\<rparr>)
        in Inr (p3\<lparr>pi_total_pnl := fadd rnd (pi_unreal_pnl p3) (pi_real_pnl p3)\<rparr>)))))"

text \<open>\<open>updateBBO\<close> reads the best bid and offer only with an open position.\<close>

definition updateBBO :: "rounding \<Rightarrow> BBO option \<Rightarrow> PositionInfo \<Rightarrow> PositionInfo result" where
  "updateBBO rnd bbo p =
     (let p1 = p\<lparr>pi_bbo := bbo\<rparr> in
      if pi_position p = 0 then Inr p1
      else case bbo of
        None \<Rightarrow> Inl NullDeref
      | Some b \<Rightarrow>
          if bid_price b \<noteq> kPriceInvalid \<and> ask_price b \<noteq> kPriceInvalid
          then bind_result (abs_int32 (pi_position p)) (\<lambda>_.
                 let mid_price = fmul rnd (double_of_u64 rnd (bid_price b + ask_price b)) (1 / 2);
                     p2 = p1\<lparr>pi_unreal_pnl := mark rnd mid_price (pi_position p) (pi_open_vwap p)\<rparr>
                 in Inr (p2\<lparr>pi_total_pnl := fadd rnd (pi_unreal_pnl p2) (pi_real_pnl p2)\<rparr>))
          else Inr p1)"

section \<open>Position keepers\<close>

type_synonym PositionKeeper = "TradingPair \<rightharpoonup> PositionInfo"

definition position_of :: "PositionKeeper \<Rightarrow> TradingPair \<Rightarrow> PositionInfo" where
  "position_of k tp = (case k tp of None \<Rightarrow> PositionInfo_default | Some p \<Rightarrow> p)"

definition PositionKeeper_AddFill :: "rounding \<Rightarrow> MEClientResponse \<Rightarrow> PositionKeeper \<Rightarrow> PositionKeeper result" where
  "PositionKeeper_AddFill rnd r k =
     bind_result (addFill rnd r (position_of k (cr_trading_pair r))) (\<lambda>p. Inr (k(cr_trading_pair r \<mapsto> p)))"

definition PositionKeeper_UpdateBBO :: "rounding \<Rightarrow> TradingPair \<Rightarrow> BBO option \<Rightarrow> PositionKeeper \<Rightarrow> PositionKeeper result" where
  "PositionKeeper_UpdateBBO rnd tp bbo k =
     bind_result (updateBBO rnd bbo (position_of k tp)) (\<lambda>p. Inr (k(tp \<mapsto> p)))"

definition PositionKeeper_GetPositionInfo :: "TradingPair \<Rightarrow> PositionKeeper \<Rightarrow> PositionInfo \<times> PositionKeeper" where
  "PositionKeeper_GetPositionInfo tp k = (position_of k tp, k(tp \<mapsto> position_of k tp))"

text \<open>The keepers of the exchanges: a map to pointers, \<open>Some None\<close> being a null pointer.\<close>

type_synonym ExchangePositionKeeper = "ExchangeId \<rightharpoonup> PositionKeeper option"

definition Exchange_AddFill ::
    "rounding \<Rightarrow> MEClientResponse option \<Rightarrow> ExchangePositionKeeper \<Rightarrow> ExchangePositionKeeper result" where
  "Exchange_AddFill rnd response ks =
     (case response of
        None \<Rightarrow> Inr ks
      | Some r \<Rightarrow>
          if cr_exchange_id r = kExchangeIdInvalid then Inr ks
          else case ks (cr_exchange_id r) of
            None \<Rightarrow> Inr ks
          | Some None \<Rightarrow> Inl NullDeref
          | Some (Some k) \<Rightarrow>
              bind_result (PositionKeeper_AddFill rnd r k) (\<lambda>k1. Inr (ks(cr_exchange_id r \<mapsto> Some k1))))"

definition Exchange_UpdateBBO ::
    "rounding \<Rightarrow> ExchangeId \<Rightarrow> TradingPair \<Rightarrow> BBO option \<Rightarrow> ExchangePositionKeeper \<Rightarrow> ExchangePositionKeeper result" where
  "Exchange_UpdateBBO rnd ex tp bbo ks =
     (if bbo = None then Inr ks
      else if ex = kExchangeIdInvalid then Inr ks
      else case ks ex of
        None \<Rightarrow> Inr ks
      | Some None \<Rightarrow> Inl NullDeref
      | Some (Some k) \<Rightarrow> bind_result (PositionKeeper_UpdateBBO rnd tp bbo k) (\<lambda>k1. Inr (ks(ex \<mapsto> Some k1))))"

text \<open>\<open>position_[exchange_id]\<close> inserts a null pointer for an unknown exchange and then uses it.\<close>

definition Exchange_GetPositionInfo ::
    "ExchangeId \<Rightarrow> TradingPair \<Rightarrow> ExchangePositionKeeper \<Rightarrow> (PositionInfo option \<times> ExchangePositionKeeper) result" where
  "Exchange_GetPositionInfo ex tp ks =
     (if ex = kExchangeIdInvalid then Inr (None, ks)
      else case ks ex of
        None \<Rightarrow> Inl NullDeref
      | Some None \<Rightarrow> Inl NullDeref
      | Some (Some k) \<Rightarrow>
          (let (p, k1) = PositionKeeper_GetPositionInfo tp k in Inr (Some p, ks(ex \<mapsto> Some k1))))"

section \<open>The accounting identity\<close>

text \<open>
  In exact arithmetic the books balance: the realised profit is the cash flow of all fills plus the
  cost of the open position, and the total profit after a fill is the cash flow plus the value of the
  position at the price of the fill.
\<close>

definition pnl_inv :: "rat \<Rightarrow> PositionInfo \<Rightarrow> bool" where
  "pnl_inv cash p \<longleftrightarrow>
     length (pi_open_vwap p) = 4 \<and>
     (pi_position p \<ge> 0 \<longrightarrow> pi_open_vwap p ! sideToIndex kBid = 0) \<and>
     (pi_position p \<le> 0 \<longrightarrow> pi_open_vwap p ! sideToIndex kAsk = 0) \<and>
     pi_real_pnl p = cash + pi_open_vwap p ! sideToIndex kAsk - pi_open_vwap p ! sideToIndex kBid"

text \<open>The range in which no integer operation wraps or overflows: positions up to 46340 (whose product
  fits in an \<open>int\<close>), and a price times quantity below \<open>2^64\<close>.\<close>

definition fill_safe :: "PositionInfo \<Rightarrow> MEClientResponse \<Rightarrow> bool" where
  "fill_safe p r \<longleftrightarrow>
     cr_side r \<in> {kAsk, kBid} \<and> \<bar>pi_position p\<bar> \<le> 46340 \<and>
     \<bar>pi_position p + uint (cr_exec_qty r) * sideToValue (cr_side r)\<bar> \<le> 46340 \<and>
     unat (cr_price r) * unat (cr_exec_qty r) < 2 ^ 64"

definition fill_cash :: "MEClientResponse \<Rightarrow> rat" where
  "fill_cash r = - of_int (sideToValue (cr_side r)) * of_nat (unat (cr_price r)) * of_nat (unat (cr_exec_qty r))"

lemma vwap_list:
  assumes "pnl_inv cash p"
  obtains a b x y where "pi_open_vwap p = [b, x, a, y]"
    "pi_position p \<ge> 0 \<longrightarrow> b = 0" "pi_position p \<le> 0 \<longrightarrow> a = 0" "pi_real_pnl p = cash + a - b"
proof -
  obtain b x a y where l: "pi_open_vwap p = [b, x, a, y]"
    using assms by (auto simp: pnl_inv_def length_Suc_conv numeral_eq_Suc)
  with assms that show ?thesis by (auto simp: pnl_inv_def)
qed

lemma small_products:
  fixes i j :: int
  assumes "\<bar>i\<bar> \<le> 46340" and "\<bar>j\<bar> \<le> 46340"
  shows "mul_int32 i j = Inr (i * j)" "abs_int32 i = Inr \<bar>i\<bar>" "to_int32 i = i"
proof -
  have "\<bar>i * j\<bar> \<le> 46340 * 46340" unfolding abs_mult using assms by (intro mult_mono) auto
  then show "mul_int32 i j = Inr (i * j)" by (simp add: mul_int32_def fits_int32_def abs_le_iff)
  show "abs_int32 i = Inr \<bar>i\<bar>" using assms(1) by (simp add: abs_int32_def fits_int32_def)
  show "to_int32 i = i" using assms(1) by (intro to_int32_id) (simp add: fits_int32_def abs_le_iff)
qed

lemma exact_product:
  fixes v w :: u64
  assumes "unat v * unat w < 2 ^ 64"
  shows "(of_nat (unat (v * w)) :: rat) = of_nat (unat v) * of_nat (unat w)"
proof -
  have "unat (v * w) = unat v * unat w" using assms by (simp add: unat_mult_lem [symmetric])
  then show ?thesis by (simp only: of_nat_mult)
qed

text \<open>Exact arithmetic, and the parts of a fill as plain rational numbers.\<close>

lemma mark_exact:
  "position \<noteq> 0 \<Longrightarrow> mark (\<lambda>x. x) price position vwap =
     (if position > 0 then price * of_int position - vwap ! sideToIndex kAsk
      else vwap ! sideToIndex kBid + price * of_int position)"
  by (simp add: mark_def fsub_def fmul_def fdiv_def double_of_int_def Let_def field_simps)

lemmas exact_defs = fadd_def fsub_def fmul_def fdiv_def double_of_u64_def double_of_int_def mark_exact Let_def

lemma addFill_open:
  assumes safe: "fill_safe p r" and inv: "pnl_inv cash p" and dir: "pi_position p * sideToValue (cr_side r) \<ge> 0"
  shows "\<exists>p'. addFill (\<lambda>x. x) r p = Inr p' \<and> pnl_inv (cash + fill_cash r) p' \<and>
     pi_position p' = pi_position p + uint (cr_exec_qty r) * sideToValue (cr_side r) \<and>
     pi_total_pnl p' = cash + fill_cash r + of_int (pi_position p') * of_nat (unat (cr_price r))"
proof -
  obtain a b x y where v: "pi_open_vwap p = [b, x, a, y]" "pi_position p \<ge> 0 \<longrightarrow> b = 0" "pi_position p \<le> 0 \<longrightarrow> a = 0"
    "pi_real_pnl p = cash + a - b"
    using vwap_list [OF inv] .
  define q where "q = uint (cr_exec_qty r)"
  define P :: rat where "P = of_nat (unat (cr_price r))"
  have q0: "0 \<le> q" and Q: "of_nat (unat (cr_exec_qty r)) = (of_int q :: rat)" by (simp_all add: q_def)
  have PQ: "of_nat (unat (cr_price r * cr_exec_qty r)) = P * of_int q"
    using exact_product [of "cr_price r" "cr_exec_qty r"] safe Q by (simp only: fill_safe_def P_def)
  have PQ': "of_nat (unat (cr_exec_qty r * cr_price r)) = P * of_int q"
    using PQ by (simp only: mult.commute)
  have small: "\<bar>pi_position p\<bar> \<le> 46340" "\<bar>pi_position p + q * sideToValue (cr_side r)\<bar> \<le> 46340"
    using safe by (simp_all add: fill_safe_def q_def)
  have s: "sideToValue (cr_side r) \<in> {1, -1}" "\<bar>sideToValue (cr_side r)\<bar> \<le> 46340"
    using safe by (auto simp: fill_safe_def)
  note simps = small_products [OF small(1) s(2)] small_products(2,3) [OF small(2) small(2)]
  show ?thesis
  proof (cases "cr_side r = kAsk")
    case True
    with dir have "0 \<le> pi_position p" by simp
    with True q0 v small show ?thesis
      using simps
      by (auto simp: addFill_def exact_defs PQ PQ' q_def [symmetric] P_def [symmetric] Q pnl_inv_def
          fill_cash_def field_simps simp del: of_nat_unat)
  next
    case False
    with safe have bid: "cr_side r = kBid" by (simp add: fill_safe_def)
    with dir have "pi_position p \<le> 0" by simp
    moreover have ints: "mul_int32 (pi_position p) (- 1) = Inr (- pi_position p)"
      "to_int32 (pi_position p - q) = pi_position p - q"
      "abs_int32 (pi_position p - q) = Inr \<bar>pi_position p - q\<bar>"
      using simps bid by simp_all
    ultimately show ?thesis
      using bid q0 v small
      by (auto simp: ints addFill_def exact_defs PQ PQ' q_def [symmetric] P_def [symmetric] Q pnl_inv_def
          fill_cash_def field_simps simp del: of_nat_unat)
  qed
qed

lemma exact_product_int:
  fixes v w :: u64
  assumes "unat v * unat w < 2 ^ 64" and "0 \<le> k" and "k \<le> uint w"
  shows "(of_nat (unat (v * word_of_int k)) :: rat) = of_nat (unat v) * of_int k"
proof -
  have "uint w < 2 ^ 64" using uint_lt2p [of w] by simp
  then have "0 \<le> k" "k < 2 ^ 64" using assms(2,3) by simp_all
  then have "uint (word_of_int k :: u64) = k"
    by (simp add: uint_word_of_int_eq take_bit_int_eq_self)
  then have k: "unat (word_of_int k :: u64) = nat k" by (simp only: unat_eq_nat_uint)
  have "nat k \<le> unat w" using assms(3) by (simp only: unat_eq_nat_uint nat_mono)
  then have "unat v * unat (word_of_int k :: u64) < 2 ^ 64"
    unfolding k by (rule le_less_trans [OF mult_le_mono2 assms(1)])
  from exact_product [OF this] k assms(2) show ?thesis by (simp add: of_nat_nat)
qed

lemma addFill_reduce:
  assumes safe: "fill_safe p r" and inv: "pnl_inv cash p" and dir: "pi_position p * sideToValue (cr_side r) < 0"
  shows "\<exists>p'. addFill (\<lambda>x. x) r p = Inr p' \<and> pnl_inv (cash + fill_cash r) p' \<and>
     pi_position p' = pi_position p + uint (cr_exec_qty r) * sideToValue (cr_side r) \<and>
     pi_total_pnl p' = cash + fill_cash r + of_int (pi_position p') * of_nat (unat (cr_price r))"
proof -
  obtain a b x y where v: "pi_open_vwap p = [b, x, a, y]" "pi_position p \<ge> 0 \<longrightarrow> b = 0" "pi_position p \<le> 0 \<longrightarrow> a = 0"
    "pi_real_pnl p = cash + a - b"
    using vwap_list [OF inv] .
  define pos where "pos = pi_position p"
  define q where "q = uint (cr_exec_qty r)"
  define P :: rat where "P = of_nat (unat (cr_price r))"
  have q0: "0 \<le> q" and Q: "of_nat (unat (cr_exec_qty r)) = (of_int q :: rat)" by (simp_all add: q_def)
  have prod: "of_nat (unat (cr_price r * word_of_int k)) = P * of_int k" if "0 \<le> k" "k \<le> q" for k
    using exact_product_int [of "cr_price r" "cr_exec_qty r" k] safe that by (simp only: fill_safe_def P_def q_def)
  have small: "\<bar>pos\<bar> \<le> 46340" "\<bar>pos + q * sideToValue (cr_side r)\<bar> \<le> 46340"
    using safe by (simp_all add: fill_safe_def q_def pos_def)
  have s: "\<bar>sideToValue (cr_side r)\<bar> \<le> 46340" using safe by (auto simp: fill_safe_def)
  have "q \<le> 92680" using small safe by (auto simp: fill_safe_def)
  then have tq: "to_int32 q = q" using q0 by (intro to_int32_id) (simp add: fits_int32_def)
  show ?thesis
  proof (cases "cr_side r = kAsk")
    case True
    with dir have neg: "pos < 0" by (simp add: pos_def)
    have ints: "mul_int32 pos 1 = Inr pos" "to_int32 (pos + q) = pos + q" "abs_int32 (pos + q) = Inr \<bar>pos + q\<bar>"
      "abs_int32 pos = Inr (- pos)" "mul_int32 (pos + q) pos = Inr ((pos + q) * pos)"
      using small_products [OF small(1) s] small_products [OF small(2) small(1)] True neg small(2)
      small_products(2) [OF small(2) small(2)] by simp_all
    show ?thesis
    proof (cases "pos + q > 0")
      case True2: True
      have "(pos + q) * pos < 0" using True2 neg by (simp add: mult_pos_neg)
      moreover have "of_nat (unat (cr_price r * word_of_int (pos + q))) = P * of_int (pos + q)"
        using prod [of "pos + q"] True2 neg by simp
      ultimately show ?thesis
        using True True2 neg v
        by (auto simp: ints addFill_def reduce_position_def opp_side_def exact_defs q_def [symmetric] P_def [symmetric]
            pos_def [symmetric] Q tq pnl_inv_def fill_cash_def min_def field_simps simp del: of_nat_unat)
    next
      case False
      then have nflip: "\<not> (pos + q) * pos < 0" using neg by (simp add: mult_less_0_iff)
      show ?thesis
      proof (cases "pos + q = 0")
        case flat: True
        then have "of_int q = (- of_int pos :: rat)" "min q (- pos) = q" by linarith+
        with True neg v flat show ?thesis
          by (simp add: ints addFill_def reduce_position_def opp_side_def exact_defs q_def [symmetric] P_def [symmetric]
            pos_def [symmetric] Q tq pnl_inv_def fill_cash_def del: of_nat_unat) (simp add: field_simps)
      next
        case short: False
        with \<open>\<not> pos + q > 0\<close> have "min q (- pos) = q" "pos + q < 0" by linarith+
        with True neg v nflip show ?thesis
          by (simp add: ints addFill_def reduce_position_def opp_side_def exact_defs q_def [symmetric] P_def [symmetric]
            pos_def [symmetric] Q tq pnl_inv_def fill_cash_def del: of_nat_unat) (simp add: field_simps)
      qed
    qed
  next
    case False
    with safe have bid: "cr_side r = kBid" by (simp add: fill_safe_def)
    with dir have pos0: "pos > 0" by (simp add: pos_def)
    have ints: "mul_int32 pos (- 1) = Inr (- pos)" "to_int32 (pos - q) = pos - q" "abs_int32 (pos - q) = Inr \<bar>pos - q\<bar>"
      "abs_int32 pos = Inr pos" "mul_int32 (pos - q) pos = Inr ((pos - q) * pos)"
      using small_products [OF small(1) s] small_products [OF small(2) small(1)] bid pos0 small(2)
      small_products(2) [OF small(2) small(2)] by simp_all
    show ?thesis
    proof (cases "pos - q < 0")
      case flip: True
      have "(pos - q) * pos < 0" using flip pos0 by (simp add: mult_neg_pos)
      moreover have "of_nat (unat (cr_price r * word_of_int (q - pos))) = P * of_int (q - pos)"
        using prod [of "q - pos"] flip pos0 by simp
      ultimately show ?thesis
        using bid flip pos0 v
        by (auto simp: ints addFill_def reduce_position_def opp_side_def exact_defs q_def [symmetric] P_def [symmetric]
            pos_def [symmetric] Q tq pnl_inv_def fill_cash_def min_def field_simps simp del: of_nat_unat)
    next
      case False
      then have nflip: "\<not> (pos - q) * pos < 0" using pos0 by (simp add: mult_less_0_iff)
      show ?thesis
      proof (cases "pos - q = 0")
        case flat: True
        then have "of_int q = (of_int pos :: rat)" "min q pos = q" by linarith+
        moreover have "to_int32 0 = 0" "abs_int32 0 = Inr 0" "mul_int32 0 pos = Inr 0"
          using ints(2,3,5) flat by simp_all
        moreover have "q = pos" "to_int32 pos = pos" using flat tq by simp_all
        ultimately show ?thesis
          using bid pos0 v
          by (simp add: ints addFill_def reduce_position_def opp_side_def exact_defs q_def [symmetric] P_def [symmetric]
            pos_def [symmetric] Q tq pnl_inv_def fill_cash_def del: of_nat_unat) (simp add: field_simps)
      next
        case long: False
        with \<open>\<not> pos - q < 0\<close> have "min q pos = q" "pos - q > 0" by linarith+
        with bid pos0 v nflip show ?thesis
          by (simp add: ints addFill_def reduce_position_def opp_side_def exact_defs q_def [symmetric] P_def [symmetric]
            pos_def [symmetric] Q tq pnl_inv_def fill_cash_def del: of_nat_unat) (simp add: field_simps)
      qed
    qed
  qed
qed

text \<open>A sequence of fills of one instrument that stays in the safe range.\<close>

fun fills_safe :: "MEClientResponse list \<Rightarrow> PositionInfo \<Rightarrow> bool" where
  "fills_safe [] p \<longleftrightarrow> True"
| "fills_safe (r # rs) p \<longleftrightarrow> fill_safe p r \<and> (case addFill (\<lambda>x. x) r p of Inl _ \<Rightarrow> False | Inr p' \<Rightarrow> fills_safe rs p')"

lemma addFill_step:
  assumes "fill_safe p r" and "pnl_inv cash p"
  shows "\<exists>p'. addFill (\<lambda>x. x) r p = Inr p' \<and> pnl_inv (cash + fill_cash r) p' \<and>
     pi_position p' = pi_position p + uint (cr_exec_qty r) * sideToValue (cr_side r) \<and>
     pi_total_pnl p' = cash + fill_cash r + of_int (pi_position p') * of_nat (unat (cr_price r))"
  using addFill_open [OF assms] addFill_reduce [OF assms]
  by (cases "pi_position p * sideToValue (cr_side r) \<ge> 0") (blast, simp only: not_le)

lemma fills_run:
  assumes "pnl_inv cash p" and "fills_safe rs p"
  shows "\<exists>p'. fold_result (addFill (\<lambda>x. x)) rs p = Inr p' \<and> pnl_inv (cash + sum_list (List.map fill_cash rs)) p' \<and>
     pi_position p' = pi_position p + sum_list (List.map (\<lambda>r. uint (cr_exec_qty r) * sideToValue (cr_side r)) rs) \<and>
     (rs \<noteq> [] \<longrightarrow> pi_total_pnl p' = cash + sum_list (List.map fill_cash rs) +
        of_int (pi_position p') * of_nat (unat (cr_price (last rs))))"
  using assms
proof (induction rs arbitrary: p cash)
  case (Cons r rs)
  then obtain p1 where p1: "addFill (\<lambda>x. x) r p = Inr p1" "pnl_inv (cash + fill_cash r) p1"
    "pi_position p1 = pi_position p + uint (cr_exec_qty r) * sideToValue (cr_side r)"
    "pi_total_pnl p1 = cash + fill_cash r + of_int (pi_position p1) * of_nat (unat (cr_price r))"
    using addFill_step [of p r cash] by auto
  from Cons.IH [OF p1(2)] Cons.prems(2) p1 show ?case
    by (cases "rs = []") (auto simp: algebra_simps)
qed simp


definition demo_fill :: "Side \<Rightarrow> Price \<Rightarrow> Qty \<Rightarrow> MEClientResponse" where
  "demo_fill side price qty =
     \<lparr>cr_exchange_id = kBinance, cr_type = FILLED, cr_trading_pair = \<lparr>tp_first = 1, tp_second = 2\<rparr>, cr_order_id = 1,
      cr_side = side, cr_price = price, cr_exec_qty = qty, cr_leaves_qty = 0\<rparr>"


text \<open>\<open>addFill\<close> multiplies the old and the new position as \<open>int\<close>s.  A long position of 50000 that is
  reduced by one unit overflows the product, which is undefined behaviour, although both positions
  are far inside the range of \<open>int\<close>.\<close>

theorem addFill_overflow:
  "addFill rnd (demo_fill kBid price 1) (PositionInfo_default\<lparr>pi_position := 50000\<rparr>) = Inl SignedOverflow"
  by (simp add: addFill_def demo_fill_def PositionInfo_default_def reduce_position_def mul_int32_def abs_int32_def
      fits_int32_def to_int32_def Let_def)

end
