(* ===== verification/Trading_Services.thy ===== *)
theory Trading_Services
  imports Cross_Arbitrage Position_Keeper
begin

text \<open>
  The services around the strategies: the queues of requests and the responses of
  \<open>Trading::TradeEngine\<close> (aot/strategy/trade_engine.h, src/trade_engine.cpp), the dispatch of
  requests to the exchanges by \<open>OrderGateway2\<close> (aot/order_gw/order_gw.h, src/order_gw.cpp), and
  the services for backtesting: the history of klines and its forwarding (aot/strategy/kline.h,
  src/kline.cpp) and the book that follows klines (aot/strategy/market_order_book.h).

  A thread's main loop is given by the body of one iteration; queues are lists, and
  \<open>try_dequeue_bulk(.., 50)\<close> takes at most 50 items from the front.
\<close>

section \<open>The trade engine\<close>

record TradeEngine =
  te_request_new_order :: "RequestNewOrder lf_queue"
  te_request_cancel_order :: "RequestCancelOrder lf_queue"
  te_position_keeper :: PositionKeeper
  te_trading_pair :: TradingPair
  te_config :: "TradingPair \<rightharpoonup> TradeEngineCfg"

text \<open>The constructor configures its pair with clip 1; the other fields of the configuration are
  their default \<open>cfg0\<close>.\<close>

definition TradeEngine_new ::
    "RequestNewOrder lf_queue \<Rightarrow> RequestCancelOrder lf_queue \<Rightarrow> TradingPair \<Rightarrow> TradeEngineCfg \<Rightarrow> TradeEngine" where
  "TradeEngine_new qn qc tp cfg0 =
     \<lparr>te_request_new_order = qn, te_request_cancel_order = qc, te_position_keeper = Map.empty,
      te_trading_pair = tp, te_config = [tp \<mapsto> cfg0\<lparr>clip := 1\<rparr>]\<rparr>"

text \<open>A full queue is only logged.\<close>

definition SendRequestNewOrder :: "RequestNewOrder \<Rightarrow> TradeEngine \<Rightarrow> TradeEngine" where
  "SendRequestNewOrder r e = e\<lparr>te_request_new_order := snd (try_enqueue r (te_request_new_order e))\<rparr>"

definition SendRequestCancelOrder :: "RequestCancelOrder \<Rightarrow> TradeEngine \<Rightarrow> TradeEngine" where
  "SendRequestCancelOrder r e = e\<lparr>te_request_cancel_order := snd (try_enqueue r (te_request_cancel_order e))\<rparr>"

definition TradeEngine_OnOrderBookUpdate :: "rounding \<Rightarrow> BBO \<Rightarrow> TradeEngine \<Rightarrow> TradeEngine result" where
  "TradeEngine_OnOrderBookUpdate rnd bbo e =
     bind_result (PositionKeeper_UpdateBBO rnd (te_trading_pair e) (Some bbo) (te_position_keeper e))
       (\<lambda>k. Inr (e\<lparr>te_position_keeper := k\<rparr>))"

text \<open>Only fills are processed; \<open>strategy_->OnOrderResponse\<close> has an empty body.\<close>

definition TradeEngine_OnOrderResponse :: "rounding \<Rightarrow> MEClientResponse \<Rightarrow> TradeEngine \<Rightarrow> TradeEngine result" where
  "TradeEngine_OnOrderResponse rnd r e =
     (if cr_type r = FILLED
      then bind_result (PositionKeeper_AddFill rnd r (te_position_keeper e)) (\<lambda>k. Inr (e\<lparr>te_position_keeper := k\<rparr>))
      else Inr e)"

definition TradeEngine_Run_iteration ::
    "rounding \<Rightarrow> MEClientResponse list \<times> TradeEngine \<Rightarrow> (MEClientResponse list \<times> TradeEngine) result" where
  "TradeEngine_Run_iteration rnd st =
     bind_result (fold_result (TradeEngine_OnOrderResponse rnd) (take 50 (fst st)) (snd st))
       (\<lambda>e. Inr (drop 50 (fst st), e))"

text \<open>The order manager on this engine: the requests it sends go through the queue.\<close>

definition engine_NewOrder ::
    "ExchangeId \<Rightarrow> TradingPair \<Rightarrow> Price \<Rightarrow> Side \<Rightarrow> Qty \<Rightarrow> OrderManager \<times> TradeEngine \<Rightarrow> OrderManager \<times> TradeEngine" where
  "engine_NewOrder ex tp price side qty me =
     (let m = NewOrder ex tp price side qty (fst me)
      in (m, fold SendRequestNewOrder (drop (length (om_sent_new (fst me))) (om_sent_new m)) (snd me)))"

section \<open>The order gateway\<close>

text \<open>\<open>og_new_calls\<close> and \<open>og_cancel_calls\<close> are the requests handed to \<open>Exec\<close> of the executor of their
  exchange.\<close>

record OrderGateway2 =
  og_requests_new_order :: "RequestNewOrder list"
  og_requests_cancel_order :: "RequestCancelOrder list"
  og_new_executors :: "ExchangeId set"
  og_cancel_executors :: "ExchangeId set"
  og_new_calls :: "RequestNewOrder list"
  og_cancel_calls :: "RequestCancelOrder list"

definition exec_new :: "RequestNewOrder \<Rightarrow> OrderGateway2 \<Rightarrow> OrderGateway2" where
  "exec_new r g = (if rn_exchange_id r \<notin> og_new_executors g then g else g\<lparr>og_new_calls := og_new_calls g @ [r]\<rparr>)"

definition exec_cancel :: "RequestCancelOrder \<Rightarrow> OrderGateway2 \<Rightarrow> OrderGateway2" where
  "exec_cancel r g = (if rc_exchange_id r \<notin> og_cancel_executors g then g else g\<lparr>og_cancel_calls := og_cancel_calls g @ [r]\<rparr>)"

definition OrderGateway2_Run_iteration :: "OrderGateway2 \<Rightarrow> OrderGateway2" where
  "OrderGateway2_Run_iteration g =
     (let g1 = fold exec_new (take 50 (og_requests_new_order g))
                 (g\<lparr>og_requests_new_order := drop 50 (og_requests_new_order g)\<rparr>)
      in fold exec_cancel (take 50 (og_requests_cancel_order g1))
           (g1\<lparr>og_requests_cancel_order := drop 50 (og_requests_cancel_order g1)\<rparr>))"

section \<open>Klines for backtesting\<close>

record OHLCVI =
  oh_history :: "OHLCVExt list"
  oh_iterator :: nat

definition ResetIterator :: "OHLCVI \<Rightarrow> OHLCVI" where
  "ResetIterator o1 = o1\<lparr>oh_iterator := 0\<rparr>"

text \<open>\<open>None\<close> is the null queue pointer.\<close>

definition LaunchOne ::
    "OHLCVI \<Rightarrow> OHLCVExt lf_queue option \<Rightarrow> bool \<times> OHLCVI \<times> OHLCVExt lf_queue option" where
  "LaunchOne o1 queue =
     (case queue of
        None \<Rightarrow> (False, o1, None)
      | Some q \<Rightarrow>
          if oh_iterator o1 = length (oh_history o1) then (False, o1, Some q)
          else let (status, q') = try_enqueue (oh_history o1 ! oh_iterator o1) q
               in (True, (if status then o1\<lparr>oh_iterator := oh_iterator o1 + 1\<rparr> else o1), Some q'))"

text \<open>The batch of klines taken from the inner queue is forwarded: the loop runs once per kline, and
  each time sends element 0 of the buffer until the outer queue accepts it.\<close>

fun forward_klines :: "OHLCVExt list \<Rightarrow> nat \<Rightarrow> OHLCVExt lf_queue \<Rightarrow> OHLCVExt lf_queue option" where
  "forward_klines buffer 0 q = Some q"
| "forward_klines buffer (Suc n) q = Option.bind (enqueue_until [buffer ! 0] q) (forward_klines buffer n)"

record KLineService =
  ks_getter :: OHLCVI
  ks_internal :: "OHLCVExt lf_queue"
  ks_external :: "OHLCVExt lf_queue option"
  ks_need_fetch_more :: bool

definition KLineService_Run_iteration :: "KLineService \<Rightarrow> KLineService option" where
  "KLineService_Run_iteration s =
     (let (more, getter, q) = (if ks_need_fetch_more s then LaunchOne (ks_getter s) (Some (ks_internal s))
                               else (False, ks_getter s, Some (ks_internal s)));
          q1 = the q;
          batch = take 50 (lq_items q1);
          s1 = s\<lparr>ks_getter := getter, ks_internal := q1\<lparr>lq_items := drop 50 (lq_items q1)\<rparr>, ks_need_fetch_more := more\<rparr>
      in case ks_external s of
           None \<Rightarrow> Some s1
         | Some ext \<Rightarrow> map_option (\<lambda>ext'. s1\<lparr>ks_external := Some ext'\<rparr>) (forward_klines batch (length batch) ext))"

text \<open>The book for backtesting follows the open price of the kline.\<close>

record backtesting_BBO =
  bb_price :: Price
  bb_qty :: Qty

definition backtesting_BBO_default :: backtesting_BBO where
  "backtesting_BBO_default = \<lparr>bb_price = kPriceInvalid, bb_qty = kQtyInvalid\<rparr>"

definition backtesting_OnNewKLine :: "OHLCVExt \<Rightarrow> backtesting_BBO \<Rightarrow> backtesting_BBO result" where
  "backtesting_OnNewKLine kline bbo =
     (let p = k_open (ke_ohlcv kline)
      in if p = 0 then Inl DivisionByZero else Inr (bbo\<lparr>bb_price := p, bb_qty := k_volume (ke_ohlcv kline) div p\<rparr>))"

definition backtesting_OnMarketUpdate :: "MEMarketUpdate \<Rightarrow> backtesting_BBO \<Rightarrow> backtesting_BBO" where
  "backtesting_OnMarketUpdate u bbo = bbo\<lparr>bb_price := mu_price u, bb_qty := mu_qty u\<rparr>"

definition backtesting_BBO_ToString :: "backtesting_BBO \<Rightarrow> string" where
  "backtesting_BBO_ToString bbo = ''BBO{'' @ qtyToString (bb_qty bbo) @ ''@'' @ priceToString (bb_price bbo) @ ''}''"

section \<open>The gateway executes everything\<close>

lemma fold_exec_new:
  "fold exec_new rs g = g\<lparr>og_new_calls := og_new_calls g @ filter (\<lambda>r. rn_exchange_id r \<in> og_new_executors g) rs\<rparr>"
  by (induction rs arbitrary: g) (auto simp: exec_new_def)

lemma fold_exec_cancel:
  "fold exec_cancel rs g = g\<lparr>og_cancel_calls := og_cancel_calls g @ filter (\<lambda>r. rc_exchange_id r \<in> og_cancel_executors g) rs\<rparr>"
  by (induction rs arbitrary: g) (auto simp: exec_cancel_def)

lemma take_batch: "take (50 * Suc n) xs = take (50 * n) xs @ take 50 (drop (50 * n) xs)"
  using take_add [of "50 * n" 50 xs] by (simp add: add.commute)

lemma OrderGateway2_iterations:
  "(OrderGateway2_Run_iteration ^^ n) g =
     g\<lparr>og_requests_new_order := drop (50 * n) (og_requests_new_order g),
       og_requests_cancel_order := drop (50 * n) (og_requests_cancel_order g),
       og_new_calls := og_new_calls g @
         filter (\<lambda>r. rn_exchange_id r \<in> og_new_executors g) (take (50 * n) (og_requests_new_order g)),
       og_cancel_calls := og_cancel_calls g @
         filter (\<lambda>r. rc_exchange_id r \<in> og_cancel_executors g) (take (50 * n) (og_requests_cancel_order g))\<rparr>"
proof (induction n)
  case (Suc n)
  show ?case
    unfolding funpow.simps comp_apply Suc take_batch
    by (simp add: OrderGateway2_Run_iteration_def Let_def fold_exec_new fold_exec_cancel add.commute)
qed simp

text \<open>C31: the gateway.  However many requests are queued and in whatever order, enough iterations of the
  loop hand every request for an exchange that has an executor to it, once and in order, and leave
  the queues empty; requests for other exchanges are dropped.\<close>

theorem gateway_executes_all:
  assumes "length (og_requests_new_order g) \<le> 50 * n" and "length (og_requests_cancel_order g) \<le> 50 * n"
  shows "let g' = (OrderGateway2_Run_iteration ^^ n) g
     in og_requests_new_order g' = [] \<and> og_requests_cancel_order g' = [] \<and>
        og_new_calls g' = og_new_calls g @ filter (\<lambda>r. rn_exchange_id r \<in> og_new_executors g) (og_requests_new_order g) \<and>
        og_cancel_calls g' =
          og_cancel_calls g @ filter (\<lambda>r. rc_exchange_id r \<in> og_cancel_executors g) (og_requests_cancel_order g)"
  using assms by (simp add: Let_def OrderGateway2_iterations)

definition demo_request :: "ExchangeId \<Rightarrow> OrderId \<Rightarrow> RequestNewOrder" where
  "demo_request ex oid = \<lparr>rn_exchange_id = ex, rn_type = NEW, rn_trading_pair = \<lparr>tp_first = 1, tp_second = 2\<rparr>,
     rn_order_id = oid, rn_side = kAsk, rn_price = 100, rn_qty = 1\<rparr>"

theorem gateway_executes_all_witness:
  "og_new_calls (OrderGateway2_Run_iteration
     \<lparr>og_requests_new_order = [demo_request kBinance 1, demo_request kMexc 2, demo_request kBybit 3],
      og_requests_cancel_order = [], og_new_executors = {kBinance, kBybit}, og_cancel_executors = {},
      og_new_calls = [], og_cancel_calls = []\<rparr>) = [demo_request kBinance 1, demo_request kBybit 3]"
  using gateway_executes_all [of "\<lparr>og_requests_new_order = [demo_request kBinance 1, demo_request kMexc 2, demo_request kBybit 3],
      og_requests_cancel_order = [], og_new_executors = {kBinance, kBybit}, og_cancel_executors = {},
      og_new_calls = [], og_cancel_calls = []\<rparr>" 1]
  by (simp add: demo_request_def Let_def)

section \<open>Predictions and their orders\<close>

lemma BaseStrategy_OnNewKLine_sends:
  assumes "om_inv (bst_order_manager s)"
  shows "sends_more 1 (\<lambda>r. rn_exchange_id r = kExchangeIdInvalid) (bst_order_manager s)
     (bst_order_manager (BaseStrategy_OnNewKLine predict books kline s))"
proof -
  have "sends_more 1 (\<lambda>r. rn_exchange_id r = kExchangeIdInvalid) (bst_order_manager s)
     (bst_order_manager (BaseStrategy_BuySomeAsset books kExchangeIdInvalid pair s))" for pair
    using assms by (auto simp: BaseStrategy_BuySomeAsset_def Let_def sends_more_refl NewOrder_sends_more split: option.split)
  then show ?thesis
    using assms by (auto simp: BaseStrategy_OnNewKLine_def run_action_def sends_more_refl split: TradeAction.split)
qed

definition only_invalid :: "BaseStrategy \<Rightarrow> bool" where
  "only_invalid s \<longleftrightarrow> om_inv (bst_order_manager s) \<and>
     (\<forall>r \<in> set (om_sent_new (bst_order_manager s)). rn_exchange_id r = kExchangeIdInvalid)"

lemma only_invalid_step: "only_invalid s \<Longrightarrow> only_invalid (BaseStrategy_OnNewKLine predict books kline s)"
  using BaseStrategy_OnNewKLine_sends [of s predict books kline] by (auto simp: only_invalid_def sends_more_def)

text \<open>the orders of predictions.  Whatever klines arrive and whatever the predictor answers, every
  order request of the base strategy names the invalid exchange, so that a gateway without an
  executor for it executes none of them.\<close>

theorem prediction_orders_not_executed:
  assumes "om_sent_new (bst_order_manager s) = []" and "om_inv (bst_order_manager s)"
    and "kExchangeIdInvalid \<notin> og_new_executors g"
    and "og_requests_new_order g =
      om_sent_new (bst_order_manager (fold (\<lambda>(books, kline). BaseStrategy_OnNewKLine predict books kline) klines s))"
  shows "og_new_calls ((OrderGateway2_Run_iteration ^^ n) g) = og_new_calls g"
proof -
  let ?run = "fold (\<lambda>(books, kline). BaseStrategy_OnNewKLine predict books kline) klines s"
  have "only_invalid ?run"
    by (rule fold_invariant [where Q = "\<lambda>_. True"])
      (use assms(1,2) in \<open>auto simp: only_invalid_def [of s] split: prod.split intro: only_invalid_step\<close>)
  with assms(3,4) have "filter (\<lambda>r. rn_exchange_id r \<in> og_new_executors g) (take (50 * n) (og_requests_new_order g)) = []"
    by (auto simp: only_invalid_def filter_empty_conv dest!: in_set_takeD)
  then show ?thesis by (simp add: OrderGateway2_iterations)
qed

theorem prediction_orders_not_executed_witness:
  "let s = \<lparr>bst_has_predictor = True, bst_order_book = Some 0,
           bst_ticker_cfg = [\<lparr>tp_first = 1, tp_second = 2\<rparr> \<mapsto>
             \<lparr>clip = 5, threshold = 0, risk_cfg = \<lparr>max_order_size = 0, max_position = 0, max_loss = 0\<rparr>\<rparr>],
           bst_order_manager = OrderManager_new\<rparr>;
       s' = BaseStrategy_OnNewKLine (\<lambda>_. \<lparr>res_action = ''enter_long'', res_confidence = 1\<rparr>)
           (\<lambda>_. \<lparr>bid_price = 99, ask_price = 100, bid_qty = 1, ask_qty = 1\<rparr>)
           \<lparr>ke_ohlcv = \<lparr>k_open = 1, k_high = 1, k_low = 1, k_close = 1, k_volume = 1\<rparr>,
            ke_trading_pair = \<lparr>tp_first = 1, tp_second = 2\<rparr>\<rparr> s
   in length (om_sent_new (bst_order_manager s')) = 1 \<and>
      og_new_calls (OrderGateway2_Run_iteration
        \<lparr>og_requests_new_order = om_sent_new (bst_order_manager s'), og_requests_cancel_order = [],
         og_new_executors = {kBinance}, og_cancel_executors = {}, og_new_calls = [], og_cancel_calls = []\<rparr>) = []"
proof -
  define s where "s = \<lparr>bst_has_predictor = True, bst_order_book = Some 0,
           bst_ticker_cfg = [\<lparr>tp_first = 1, tp_second = 2\<rparr> \<mapsto>
             \<lparr>clip = 5, threshold = 0, risk_cfg = \<lparr>max_order_size = 0, max_position = 0, max_loss = 0\<rparr>\<rparr>],
           bst_order_manager = OrderManager_new\<rparr>"
  define pr where "pr = (\<lambda>_ :: OHLCV. \<lparr>res_action = ''enter_long'', res_confidence = 1\<rparr>)"
  define bo where "bo = (\<lambda>_ :: addr. \<lparr>bid_price = 99 :: Price, ask_price = 100 :: Price, bid_qty = 1 :: Qty, ask_qty = 1 :: Qty\<rparr>)"
  define kl where "kl = \<lparr>ke_ohlcv = \<lparr>k_open = 1, k_high = 1, k_low = 1, k_close = 1, k_volume = 1\<rparr>,
            ke_trading_pair = \<lparr>tp_first = 1, tp_second = 2\<rparr>\<rparr>"
  define s' where "s' = BaseStrategy_OnNewKLine pr bo kl s"
  define g where "g = \<lparr>og_requests_new_order = om_sent_new (bst_order_manager s'), og_requests_cancel_order = [],
         og_new_executors = {kBinance}, og_cancel_executors = {}, og_new_calls = [], og_cancel_calls = []\<rparr>"
  have "length (om_sent_new (bst_order_manager s')) = 1"
    by (simp add: s'_def pr_def bo_def kl_def s_def BaseStrategy_OnNewKLine_def Parse_def run_action_def
        BaseStrategy_BuySomeAsset_def kPriceInvalid_def NewOrder_def GetOrder_def OrderManager_new_def
        OrderIsLive_def OMOrder_default_def put_order_def side_array_def)
  moreover have "og_new_calls ((OrderGateway2_Run_iteration ^^ 1) g) = og_new_calls g"
    by (rule prediction_orders_not_executed [of s g pr "[(bo, kl)]"])
      (use om_inv_new in \<open>simp_all add: s_def g_def s'_def OrderManager_new_def\<close>)
  ultimately show ?thesis
    unfolding Let_def s_def [symmetric] pr_def [symmetric] bo_def [symmetric] kl_def [symmetric] s'_def [symmetric]
      g_def [symmetric] by (simp add: g_def)
qed

text \<open>a lost request blocks its slot.  When the queue of requests is full, the request of a new
  order is lost, but the order manager has the order as pending: until a response changes it, no
  further order for this pair and side is sent.\<close>

theorem lost_request_blocks_slot:
  assumes "om_inv m" and "\<not> OrderIsLive (slot m tp side)"
    and "\<not> lq_accepts (te_request_new_order e) (lq_tries (te_request_new_order e))"
    and "engine_NewOrder ex tp price side qty (m, e) = (m', e')"
  shows "lq_items (te_request_new_order e') = lq_items (te_request_new_order e) \<and>
     o_state (slot m' tp side) = PENDING_NEW \<and>
     engine_NewOrder ex2 tp price2 side qty2 (m', e') = (NewOrder ex2 tp price2 side qty2 m', e') \<and>
     slot (NewOrder ex2 tp price2 side qty2 m') = slot m'"
proof -
  have m': "m' = NewOrder ex tp price side qty m" using assms(4) by (simp add: engine_NewOrder_def Let_def)
  note new = NewOrder_free [OF assms(1,2), of ex price qty]
  have st: "o_state (slot m' tp side) = PENDING_NEW" by (simp add: m' new(1))
  then have live: "OrderIsLive (slot m' tp side)" by (simp add: OrderIsLive_def)
  have "lq_items (te_request_new_order e') = lq_items (te_request_new_order e)"
    using assms(3,4) by (auto simp: engine_NewOrder_def Let_def new(2) SendRequestNewOrder_def try_enqueue_def
        try_enqueue_bulk_def)
  with st NewOrder_live [OF live, of ex2 price2 qty2] show ?thesis
    by (simp add: engine_NewOrder_def Let_def)
qed

theorem lost_request_blocks_slot_witness:
  "\<exists>m' e'. engine_NewOrder kBinance \<lparr>tp_first = 1, tp_second = 2\<rparr> 100 kAsk 1
       (OrderManager_new, TradeEngine_new \<lparr>lq_items = [], lq_accepts = (\<lambda>_. False), lq_tries = 0\<rparr>
          \<lparr>lq_items = [], lq_accepts = (\<lambda>_. True), lq_tries = 0\<rparr> \<lparr>tp_first = 1, tp_second = 2\<rparr>
          \<lparr>clip = 0, threshold = 0, risk_cfg = \<lparr>max_order_size = 0, max_position = 0, max_loss = 0\<rparr>\<rparr>) = (m', e') \<and>
     lq_items (te_request_new_order e') = [] \<and>
     o_state (slot m' \<lparr>tp_first = 1, tp_second = 2\<rparr> kAsk) = PENDING_NEW"
proof -
  let ?e = "TradeEngine_new \<lparr>lq_items = [], lq_accepts = (\<lambda>_. False), lq_tries = 0\<rparr>
          \<lparr>lq_items = [], lq_accepts = (\<lambda>_. True), lq_tries = 0\<rparr> \<lparr>tp_first = 1, tp_second = 2\<rparr>
          \<lparr>clip = 0, threshold = 0, risk_cfg = \<lparr>max_order_size = 0, max_position = 0, max_loss = 0\<rparr>\<rparr>"
  obtain m' e' where run: "engine_NewOrder kBinance \<lparr>tp_first = 1, tp_second = 2\<rparr> 100 kAsk 1 (OrderManager_new, ?e) = (m', e')"
    by force
  have "\<not> OrderIsLive (slot OrderManager_new \<lparr>tp_first = 1, tp_second = 2\<rparr> kAsk)"
    by (simp add: OrderIsLive_def slot_def OrderManager_new_def OMOrder_default_def)
  from lost_request_blocks_slot [OF om_inv_new this _ run] run show ?thesis
    by (simp add: TradeEngine_new_def)
qed

section \<open>Forwarding of klines\<close>

lemma forward_klines_result:
  assumes "\<forall>n. \<exists>k. lq_accepts q (n + k)"
  shows "\<exists>q'. forward_klines buffer n q = Some q' \<and> lq_items q' = lq_items q @ replicate n (buffer ! 0)"
  using assms
proof (induction n arbitrary: q)
  case (Suc n)
  obtain q1 k where q1: "enqueue_until [buffer ! 0] q = Some q1" "lq_items q1 = lq_items q @ [buffer ! 0]"
    "lq_accepts q1 = lq_accepts q" "lq_tries q1 = lq_tries q + Suc k"
    using enqueue_until_result Suc.prems by blast
  with Suc.IH [of q1] Suc.prems show ?case by auto
qed simp

text \<open>The forwarding of klines.  With a queue that keeps finding room, an iteration of the kline
  service for backtesting ends, and appends to the outer queue the first kline of the batch as
  often as the batch is long: the other klines of the batch are lost.\<close>

theorem kline_batch_repeats_first:
  assumes "\<forall>n. \<exists>k. lq_accepts ext (n + k)" and "ks_external s = Some ext" and "\<not> ks_need_fetch_more s"
  shows "\<exists>s' ext'. KLineService_Run_iteration s = Some s' \<and> ks_external s' = Some ext' \<and>
     lq_items ext' = lq_items ext @
       replicate (min 50 (length (lq_items (ks_internal s)))) (lq_items (ks_internal s) ! 0) \<and>
     lq_items (ks_internal s') = drop 50 (lq_items (ks_internal s))"
proof -
  let ?batch = "take 50 (lq_items (ks_internal s))"
  obtain q' where "forward_klines ?batch (length ?batch) ext = Some q'"
    "lq_items q' = lq_items ext @ replicate (length ?batch) (?batch ! 0)"
    using forward_klines_result [OF assms(1)] by blast
  then show ?thesis using assms(2,3)
    by (simp add: KLineService_Run_iteration_def Let_def min.commute)
qed

definition demo_kline :: "Price \<Rightarrow> OHLCVExt" where
  "demo_kline p = \<lparr>ke_ohlcv = \<lparr>k_open = p, k_high = p, k_low = p, k_close = p, k_volume = 1\<rparr>,
     ke_trading_pair = \<lparr>tp_first = 1, tp_second = 2\<rparr>\<rparr>"

theorem kline_batch_repeats_first_witness:
  "\<exists>s' ext'. KLineService_Run_iteration
       \<lparr>ks_getter = \<lparr>oh_history = [], oh_iterator = 0\<rparr>,
        ks_internal = \<lparr>lq_items = [demo_kline 1, demo_kline 2], lq_accepts = (\<lambda>_. True), lq_tries = 2\<rparr>,
        ks_external = Some \<lparr>lq_items = [], lq_accepts = (\<lambda>_. True), lq_tries = 0\<rparr>, ks_need_fetch_more = False\<rparr> = Some s' \<and>
     ks_external s' = Some ext' \<and> lq_items ext' = [demo_kline 1, demo_kline 1]"
  using kline_batch_repeats_first [of "\<lparr>lq_items = [], lq_accepts = (\<lambda>_. True), lq_tries = 0\<rparr>"
       "\<lparr>ks_getter = \<lparr>oh_history = [], oh_iterator = 0\<rparr>,
        ks_internal = \<lparr>lq_items = [demo_kline 1, demo_kline 2], lq_accepts = (\<lambda>_. True), lq_tries = 2\<rparr>,
        ks_external = Some \<lparr>lq_items = [], lq_accepts = (\<lambda>_. True), lq_tries = 0\<rparr>, ks_need_fetch_more = False\<rparr>"]
  by (auto simp: numeral_2_eq_2)

end
