(* ===== verification/Bid_Ask_Generator.thy ===== *)
theory Bid_Ask_Generator
  imports Order_Book_Component
begin

text \<open>
  The components that keep a local book in step with an exchange: \<open>BidAskGeneratorComponent\<close> of
  aot/Binance.h (with its two policies for lost packets) and of aot/Bybit.h, over \<open>BidAskState\<close> of
  aot/Exchange.h, and the callback handlers that pass what they emit to the bus.

  A handler is one step of the component, because all of them run on one strand.  A coroutine that a
  handler spawns is put into \<open>bag_spawned\<close> and runs in a step of its own.  \<open>bag_out\<close> records the
  calls of the registered callbacks, whose exceptions are caught; \<open>bag_bus_stops\<close> counts the calls of
  \<open>bus_.StopSubscribersForPublisher(this)\<close>.
\<close>

section \<open>State\<close>

record BidAskState =
  bas_need_make_snapshot :: bool
  bas_diff_packet_lost :: bool
  bas_need_process_current_snapshot :: bool
  bas_need_process_current_diff :: bool
  bas_snapshot_and_diff_now_sync :: bool
  bas_last_id :: u64
  bas_snapshot :: BookSnapshot

definition BidAskState_default :: BidAskState where
  "BidAskState_default =
     \<lparr>bas_need_make_snapshot = True, bas_diff_packet_lost = True, bas_need_process_current_snapshot = False,
      bas_need_process_current_diff = False, bas_snapshot_and_diff_now_sync = False, bas_last_id = 0,
      bas_snapshot = BookSnapshot_default \<lparr>tp_first = 0, tp_second = 0\<rparr>\<rparr>"

definition BidAskState_Reset :: "BidAskState \<Rightarrow> BidAskState" where
  "BidAskState_Reset s =
     s\<lparr>bas_need_make_snapshot := True, bas_diff_packet_lost := True, bas_need_process_current_snapshot := False,
       bas_need_process_current_diff := False, bas_snapshot_and_diff_now_sync := False, bas_last_id := 0\<rparr>"

record BusEventRequestBBOPrice =
  rb_exchange_id :: ExchangeId
  rb_trading_pair :: TradingPair
  rb_snapshot_depth :: u32
  rb_subscribe :: bool
  rb_id :: request_id

datatype emission = OutSnapshot BookSnapshot | OutDiff BookDiffSnapshot2

datatype spawned = SpawnRequestNewSnapshot TradingPair | SpawnSubscribeToDiff bool TradingPair

record BidAskGenerator =
  bag_state_map :: "TradingPair \<rightharpoonup> BidAskState"
  bag_request_bbo :: "TradingPair \<rightharpoonup> BusEventRequestBBOPrice"
  bag_has_snapshot_callback :: bool
  bag_has_diff_callback :: bool
  bag_spawned :: "spawned list"
  bag_request_snapshot_pool :: MemoryPool
  bag_bus_snapshot_pool :: MemoryPool
  bag_request_diff_pool :: MemoryPool
  bag_bus_diff_pool :: MemoryPool
  bag_sent_snapshot :: "RequestSnapshot option option list"
  bag_sent_diff :: "RequestDiffOrderBook option option list"
  bag_out :: "(TradingPair \<times> emission) list"
  bag_bus_stops :: nat

definition BidAskGenerator_new ::
    "(nat \<Rightarrow> addr option) \<Rightarrow> (nat \<Rightarrow> addr option) \<Rightarrow> (nat \<Rightarrow> addr option) \<Rightarrow> (nat \<Rightarrow> addr option) \<Rightarrow> nat \<Rightarrow> nat \<Rightarrow>
     bool \<Rightarrow> bool \<Rightarrow> BidAskGenerator" where
  "BidAskGenerator_new ch1 ch2 ch3 ch4 number_snapshots number_diff cbs cbd =
     \<lparr>bag_state_map = Map.empty, bag_request_bbo = Map.empty, bag_has_snapshot_callback = cbs,
      bag_has_diff_callback = cbd, bag_spawned = [],
      bag_request_snapshot_pool = MemoryPool_new ch1 number_snapshots,
      bag_bus_snapshot_pool = MemoryPool_new ch2 number_snapshots,
      bag_request_diff_pool = MemoryPool_new ch3 number_diff, bag_bus_diff_pool = MemoryPool_new ch4 number_diff,
      bag_sent_snapshot = [], bag_sent_diff = [], bag_out = [], bag_bus_stops = 0\<rparr>"

text \<open>\<open>state_map_[trading_pair]\<close>.\<close>

definition state_of :: "BidAskGenerator \<Rightarrow> TradingPair \<Rightarrow> BidAskState" where
  "state_of g tp = (case bag_state_map g tp of None \<Rightarrow> BidAskState_default | Some s \<Rightarrow> s)"

section \<open>Requests\<close>

text \<open>Allocate a message and the bus event that wraps it, and hand the event to the bus.\<close>

definition send_pooled :: "'a \<Rightarrow> MemoryPool \<Rightarrow> MemoryPool \<Rightarrow> 'a option option \<times> MemoryPool \<times> MemoryPool" where
  "send_pooled msg pool bus_pool =
     (let (ptr, p1) = Allocate pool; (bus_event, p2) = Allocate bus_pool
      in (map_option (\<lambda>_. map_option (\<lambda>_. msg) ptr) bus_event,
          (if bus_event = None then Deallocate ptr p1 else p1), p2))"

definition RequestNewSnapshot :: "TradingPair \<Rightarrow> BidAskGenerator \<Rightarrow> BidAskGenerator" where
  "RequestNewSnapshot tp g =
     (case bag_request_bbo g tp of
        None \<Rightarrow> g
      | Some info \<Rightarrow>
          let request = \<lparr>rs_exchange_id = rb_exchange_id info, rs_trading_pair = rb_trading_pair info,
                rs_depth = rb_snapshot_depth info\<rparr>;
              (sent, p1, p2) = send_pooled request (bag_request_snapshot_pool g) (bag_bus_snapshot_pool g)
          in g\<lparr>bag_request_snapshot_pool := p1, bag_bus_snapshot_pool := p2,
               bag_sent_snapshot := bag_sent_snapshot g @ [sent]\<rparr>)"

text \<open>The frequency of the request is \<open>kFrequencyMSInvalid\<close> for Binance and the snapshot depth for
  Bybit; the rest of the function is the same.\<close>

definition RequestSubscribeToDiff ::
    "(BusEventRequestBBOPrice \<Rightarrow> FrequencyMS) \<Rightarrow> bool \<Rightarrow> TradingPair \<Rightarrow> BidAskGenerator \<Rightarrow> BidAskGenerator" where
  "RequestSubscribeToDiff freq subscribe tp g =
     (case bag_request_bbo g tp of
        None \<Rightarrow> g
      | Some info \<Rightarrow>
          let request = \<lparr>rd_exchange_id = rb_exchange_id info, rd_trading_pair = rb_trading_pair info,
                rd_frequency = freq info, rd_subscribe = subscribe, rd_id = rb_id info\<rparr>;
              (sent, p1, p2) = send_pooled request (bag_request_diff_pool g) (bag_bus_diff_pool g)
          in g\<lparr>bag_request_diff_pool := p1, bag_bus_diff_pool := p2,
               bag_sent_diff := bag_sent_diff g @ [sent]\<rparr>)"

definition binance_frequency :: "BusEventRequestBBOPrice \<Rightarrow> FrequencyMS" where
  "binance_frequency info = kFrequencyMSInvalid"

definition bybit_frequency :: "BusEventRequestBBOPrice \<Rightarrow> FrequencyMS" where
  "bybit_frequency info = ucast (rb_snapshot_depth info)"

text \<open>The strand runs the next spawned coroutine.\<close>

definition run_spawned :: "(BusEventRequestBBOPrice \<Rightarrow> FrequencyMS) \<Rightarrow> BidAskGenerator \<Rightarrow> BidAskGenerator" where
  "run_spawned freq g =
     (case bag_spawned g of
        [] \<Rightarrow> g
      | SpawnRequestNewSnapshot tp # rest \<Rightarrow> RequestNewSnapshot tp (g\<lparr>bag_spawned := rest\<rparr>)
      | SpawnSubscribeToDiff sub tp # rest \<Rightarrow> RequestSubscribeToDiff freq sub tp (g\<lparr>bag_spawned := rest\<rparr>))"

section \<open>Binance\<close>

type_synonym loss_test = "BookDiffSnapshot2 \<Rightarrow> u64 \<Rightarrow> bool"

definition SpotPolicy_CheckPacketLoss :: loss_test where
  "SpotPolicy_CheckPacketLoss diff last_id \<longleftrightarrow> bd2_first_id diff \<noteq> last_id + 1"

definition FuturesPolicy_CheckPacketLoss :: loss_test where
  "FuturesPolicy_CheckPacketLoss diff last_id \<longleftrightarrow> bd2_prev_id diff \<noteq> last_id"

text \<open>Both policies have the same \<open>SetLastProcessedDiffId\<close>.\<close>

definition SetLastProcessedDiffId :: "BookDiffSnapshot2 \<Rightarrow> BidAskState \<Rightarrow> BidAskState" where
  "SetLastProcessedDiffId diff s = s\<lparr>bas_last_id := bd2_last_id diff\<rparr>"

definition binance_HandleTrackingNewTradingPair :: "BusEventRequestBBOPrice \<Rightarrow> BidAskGenerator \<Rightarrow> BidAskGenerator" where
  "binance_HandleTrackingNewTradingPair event g =
     (let tp = rb_trading_pair event
      in if bag_request_bbo g tp \<noteq> None then g
         else RequestSubscribeToDiff binance_frequency True tp
                (g\<lparr>bag_request_bbo := (bag_request_bbo g)(tp \<mapsto> event)\<rparr>))"

definition binance_HandleNewSnapshotEvent :: "BookSnapshot2 \<Rightarrow> BidAskGenerator \<Rightarrow> BidAskGenerator" where
  "binance_HandleNewSnapshotEvent event g =
     (if bs2_exchange_id event \<noteq> kBinance then g
      else let tp = bs2_trading_pair event
           in g\<lparr>bag_state_map := (bag_state_map g)(tp \<mapsto>
                (state_of g tp)\<lparr>bas_snapshot := fst (BookSnapshot_assign event)\<rparr>)\<rparr>)"

text \<open>The end of the diff handlers: pass the snapshot, then the diff, to the callbacks.\<close>

definition emit :: "bool \<Rightarrow> bool \<Rightarrow> BookDiffSnapshot2 \<Rightarrow> BidAskState \<Rightarrow> BidAskState \<times> emission list" where
  "emit cbs cbd diff s =
     (let d = (\<lambda>s. if \<not> bas_diff_packet_lost s \<and> bas_need_process_current_diff s \<and> cbd then [OutDiff diff] else [])
      in if bas_need_process_current_snapshot s
         then let s1 = s\<lparr>bas_need_process_current_snapshot := False, bas_need_process_current_diff := True\<rparr>
              in (s1, if \<not> cbs then [] else OutSnapshot (bas_snapshot s1) # d s1)
         else (s, d s))"

text \<open>The diff handler on the state of its pair: the new state, the outputs, and whether a new
  snapshot is requested.\<close>

definition binance_diff ::
    "loss_test \<Rightarrow> bool \<Rightarrow> bool \<Rightarrow> BookDiffSnapshot2 \<Rightarrow> BidAskState \<Rightarrow> BidAskState \<times> emission list \<times> bool" where
  "binance_diff lost cbs cbd diff s =
     (let s1 = SetLastProcessedDiffId diff (s\<lparr>bas_diff_packet_lost := lost diff (bas_last_id s)\<rparr>);
          u = bs_lastUpdateId (bas_snapshot s1);
          s2 = (if bas_need_make_snapshot s1 \<and> bd2_first_id diff \<le> u + 1 \<and> bd2_last_id diff \<ge> u + 1
                then s1\<lparr>bas_need_make_snapshot := False, bas_need_process_current_snapshot := True\<rparr> else s1)
      in if bas_need_make_snapshot s2 \<or> bas_diff_packet_lost s2
         then if bd2_last_id diff \<le> u then (s2, [], False)
              else (s2\<lparr>bas_need_make_snapshot := True\<rparr>, [], True)
         else let (s3, outs) = emit cbs cbd diff s2 in (s3, outs, False))"

definition binance_HandleBookDiffSnapshotEvent ::
    "loss_test \<Rightarrow> BookDiffSnapshot2 \<Rightarrow> BidAskGenerator \<Rightarrow> BidAskGenerator" where
  "binance_HandleBookDiffSnapshotEvent lost diff g =
     (if bd2_exchange_id diff \<noteq> kBinance then g
      else let tp = bd2_trading_pair diff;
               (s, outs, request) =
                 binance_diff lost (bag_has_snapshot_callback g) (bag_has_diff_callback g) diff (state_of g tp)
           in g\<lparr>bag_state_map := (bag_state_map g)(tp \<mapsto> s),
                bag_out := bag_out g @ List.map (Pair tp) outs,
                bag_spawned := bag_spawned g @ (if request then [SpawnRequestNewSnapshot tp] else [])\<rparr>)"

definition HandleCancellation :: "BidAskGenerator \<Rightarrow> BidAskGenerator" where
  "HandleCancellation g =
     g\<lparr>bag_bus_stops := Suc (bag_bus_stops g), bag_state_map := Map.empty, bag_request_bbo := Map.empty\<rparr>"

text \<open>\<open>AsyncStop\<close> emits the signal, whose slot is \<open>HandleCancellation\<close>; and the registration of the callbacks (null or not).\<close>

definition generator_AsyncStop :: "BidAskGenerator \<Rightarrow> BidAskGenerator" where
  "generator_AsyncStop g = HandleCancellation g"

definition RegisterSnapshotCallback :: "bool \<Rightarrow> BidAskGenerator \<Rightarrow> BidAskGenerator" where
  "RegisterSnapshotCallback callback g = g\<lparr>bag_has_snapshot_callback := callback\<rparr>"

definition RegisterDiffCallback :: "bool \<Rightarrow> BidAskGenerator \<Rightarrow> BidAskGenerator" where
  "RegisterDiffCallback callback g = g\<lparr>bag_has_diff_callback := callback\<rparr>"

section \<open>Bybit\<close>

definition bybit_RequestSubscribeToDiff :: "bool \<Rightarrow> TradingPair \<Rightarrow> BidAskGenerator \<Rightarrow> BidAskGenerator" where
  "bybit_RequestSubscribeToDiff subscribe tp g = RequestSubscribeToDiff bybit_frequency subscribe tp g"

definition bybit_HandleTrackingNewTradingPair :: "BusEventRequestBBOPrice \<Rightarrow> BidAskGenerator \<Rightarrow> BidAskGenerator" where
  "bybit_HandleTrackingNewTradingPair event g =
     (let tp = rb_trading_pair event;
          g1 = (if bag_request_bbo g tp = None then g\<lparr>bag_request_bbo := (bag_request_bbo g)(tp \<mapsto> event)\<rparr> else g)
      in bybit_RequestSubscribeToDiff (rb_subscribe event) tp g1)"

definition bybit_snapshot :: "BookSnapshot2 \<Rightarrow> BidAskState \<Rightarrow> BidAskState" where
  "bybit_snapshot event s =
     (let changed = bs_lastUpdateId (bas_snapshot s) \<noteq> bs2_lastUpdateId event;
          s1 = s\<lparr>bas_need_process_current_snapshot := changed\<rparr>
      in if changed
         then s1\<lparr>bas_snapshot := fst (BookSnapshot_assign event), bas_last_id := bs2_lastUpdateId event\<rparr>
         else s1)"

definition bybit_HandleNewSnapshotEvent :: "BookSnapshot2 \<Rightarrow> BidAskGenerator \<Rightarrow> BidAskGenerator" where
  "bybit_HandleNewSnapshotEvent event g =
     (if bs2_exchange_id event \<noteq> kBybit then g
      else let tp = bs2_trading_pair event
           in g\<lparr>bag_state_map := (bag_state_map g)(tp \<mapsto> bybit_snapshot event (state_of g tp))\<rparr>)"

definition bybit_diff ::
    "bool \<Rightarrow> bool \<Rightarrow> BookDiffSnapshot2 \<Rightarrow> BidAskState \<Rightarrow> BidAskState \<times> emission list \<times> bool" where
  "bybit_diff cbs cbd diff s =
     (let s1 = s\<lparr>bas_diff_packet_lost := (bd2_last_id diff \<noteq> bas_last_id s + 1), bas_last_id := bd2_last_id diff\<rparr>
      in if bas_diff_packet_lost s1 then (s1, [], True)
         else let s2 = (if bas_need_make_snapshot s1 \<and> bd2_last_id diff = bs_lastUpdateId (bas_snapshot s1) + 1
                        then s1\<lparr>bas_need_make_snapshot := False, bas_need_process_current_snapshot := True\<rparr> else s1);
                  (s3, outs) = emit cbs cbd diff s2
              in (s3, outs, False))"

definition bybit_HandleBookDiffSnapshotEvent :: "BookDiffSnapshot2 \<Rightarrow> BidAskGenerator \<Rightarrow> BidAskGenerator" where
  "bybit_HandleBookDiffSnapshotEvent diff g =
     (if bd2_exchange_id diff \<noteq> kBybit then g
      else let tp = bd2_trading_pair diff;
               (s, outs, lost) = bybit_diff (bag_has_snapshot_callback g) (bag_has_diff_callback g) diff (state_of g tp)
           in g\<lparr>bag_state_map := (bag_state_map g)(tp \<mapsto> s),
                bag_out := bag_out g @ List.map (Pair tp) outs,
                bag_spawned := bag_spawned g @
                  (if lost then [SpawnSubscribeToDiff False tp, SpawnSubscribeToDiff True tp] else [])\<rparr>)"

definition bybit_HandleCancellation :: "BidAskGenerator \<Rightarrow> BidAskGenerator" where
  "bybit_HandleCancellation g =
     g\<lparr>bag_bus_stops := Suc (bag_bus_stops g), bag_state_map := Map.empty, bag_request_bbo := Map.empty\<rparr>"

section \<open>Runs and what they emit\<close>

datatype gen_event =
    EvTrack BusEventRequestBBOPrice
  | EvSnapshot BookSnapshot2
  | EvDiff BookDiffSnapshot2
  | EvSpawned
  | EvStop

fun binance_step :: "loss_test \<Rightarrow> gen_event \<Rightarrow> BidAskGenerator \<Rightarrow> BidAskGenerator" where
  "binance_step lost (EvTrack r) g = binance_HandleTrackingNewTradingPair r g"
| "binance_step lost (EvSnapshot s) g = binance_HandleNewSnapshotEvent s g"
| "binance_step lost (EvDiff d) g = binance_HandleBookDiffSnapshotEvent lost d g"
| "binance_step lost EvSpawned g = run_spawned binance_frequency g"
| "binance_step lost EvStop g = HandleCancellation g"

fun bybit_step :: "gen_event \<Rightarrow> BidAskGenerator \<Rightarrow> BidAskGenerator" where
  "bybit_step (EvTrack r) g = bybit_HandleTrackingNewTradingPair r g"
| "bybit_step (EvSnapshot s) g = bybit_HandleNewSnapshotEvent s g"
| "bybit_step (EvDiff d) g = bybit_HandleBookDiffSnapshotEvent d g"
| "bybit_step EvSpawned g = run_spawned bybit_frequency g"
| "bybit_step EvStop g = bybit_HandleCancellation g"

definition outs_of :: "BidAskGenerator \<Rightarrow> TradingPair \<Rightarrow> emission list" where
  "outs_of g tp = List.map snd (filter (\<lambda>e. fst e = tp) (bag_out g))"

text \<open>
  A sequence of emissions is contiguous if it starts with a snapshot and every diff may join what was
  emitted before.  At Binance a diff after a snapshot with id \<open>u\<close> covers \<open>u + 1\<close>, and a diff after a
  diff links to the last id of that diff.  At Bybit the ids rise by one.
\<close>

datatype cursor = Start | AtSnapshot u64 | AtDiff u64

fun move :: "emission \<Rightarrow> cursor \<Rightarrow> cursor" where
  "move (OutSnapshot s) c = AtSnapshot (bs_lastUpdateId s)"
| "move (OutDiff d) c = AtDiff (bd2_last_id d)"

type_synonym join = "cursor \<Rightarrow> BookDiffSnapshot2 \<Rightarrow> bool"

fun binance_join :: "(BookDiffSnapshot2 \<Rightarrow> u64) \<Rightarrow> join" where
  "binance_join link Start d \<longleftrightarrow> False"
| "binance_join link (AtSnapshot u) d \<longleftrightarrow> bd2_first_id d \<le> u + 1 \<and> u + 1 \<le> bd2_last_id d"
| "binance_join link (AtDiff l) d \<longleftrightarrow> link d = l"

fun bybit_join :: join where
  "bybit_join Start d \<longleftrightarrow> False"
| "bybit_join (AtSnapshot u) d \<longleftrightarrow> bd2_last_id d = u + 1"
| "bybit_join (AtDiff l) d \<longleftrightarrow> bd2_last_id d = l + 1"

fun contiguous :: "join \<Rightarrow> cursor \<Rightarrow> emission list \<Rightarrow> bool" where
  "contiguous J c [] \<longleftrightarrow> True"
| "contiguous J c (OutSnapshot s # es) \<longleftrightarrow> contiguous J (AtSnapshot (bs_lastUpdateId s)) es"
| "contiguous J c (OutDiff d # es) \<longleftrightarrow> J c d \<and> contiguous J (AtDiff (bd2_last_id d)) es"

lemma contiguous_Cons: "contiguous J c (e # es) \<longleftrightarrow> contiguous J c [e] \<and> contiguous J (move e c) es"
  by (cases e) simp_all

lemma contiguous_append:
  "contiguous J c (xs @ ys) \<longleftrightarrow> contiguous J c xs \<and> contiguous J (fold move xs c) ys"
proof (induction xs arbitrary: c)
  case (Cons e xs)
  then show ?case by (cases e) auto
qed simp

lemma outs_of_append:
  "bag_out g' = bag_out g @ List.map (Pair tp) outs \<Longrightarrow> outs_of g' tp' = outs_of g tp' @ (if tp = tp' then outs else [])"
  by (simp add: outs_of_def filter_map comp_def)

lemma requests_frame [simp]:
  "bag_state_map (RequestNewSnapshot tp g) = bag_state_map g" "bag_out (RequestNewSnapshot tp g) = bag_out g"
  "bag_has_snapshot_callback (RequestNewSnapshot tp g) = bag_has_snapshot_callback g"
  "bag_has_diff_callback (RequestNewSnapshot tp g) = bag_has_diff_callback g"
  "bag_state_map (RequestSubscribeToDiff f sub tp g) = bag_state_map g" "bag_out (RequestSubscribeToDiff f sub tp g) = bag_out g"
  "bag_has_snapshot_callback (RequestSubscribeToDiff f sub tp g) = bag_has_snapshot_callback g"
  "bag_has_diff_callback (RequestSubscribeToDiff f sub tp g) = bag_has_diff_callback g"
  by (simp_all add: RequestNewSnapshot_def RequestSubscribeToDiff_def Let_def split_beta split: option.split)

lemma run_spawned_frame [simp]:
  "bag_state_map (run_spawned f g) = bag_state_map g" "bag_out (run_spawned f g) = bag_out g"
  "bag_has_snapshot_callback (run_spawned f g) = bag_has_snapshot_callback g"
  "bag_has_diff_callback (run_spawned f g) = bag_has_diff_callback g"
  by (simp_all add: run_spawned_def split: list.split spawned.split)

lemma less_of_succ: "(u :: u64) \<noteq> - 1 \<Longrightarrow> u + 1 \<le> v \<Longrightarrow> u < v"
proof -
  assume "u \<noteq> - 1" and le: "u + 1 \<le> v"
  then have "1 + u \<noteq> 0" by (simp add: add_eq_0_iff)
  then have "unat (1 + u) = Suc (unat u)" by (rule unatSuc)
  with le show ?thesis by (simp add: word_le_nat_alt word_less_nat_alt add.commute)
qed

section \<open>Contiguity for Binance\<close>

text \<open>
  When an event arrives in time: a snapshot comes while one is needed (and its id is not the largest
  number), and the last ids of the diffs grow.
\<close>

fun timely :: "gen_event \<Rightarrow> BidAskGenerator \<Rightarrow> bool" where
  "timely (EvSnapshot s) g \<longleftrightarrow> bs2_exchange_id s \<noteq> kBinance \<or>
     bs2_lastUpdateId s \<noteq> - 1 \<and> bas_need_make_snapshot (state_of g (bs2_trading_pair s))"
| "timely (EvDiff d) g \<longleftrightarrow> bd2_exchange_id d \<noteq> kBinance \<or> bas_last_id (state_of g (bd2_trading_pair d)) < bd2_last_id d"
| "timely _ g \<longleftrightarrow> True"

fun timely_run :: "loss_test \<Rightarrow> gen_event list \<Rightarrow> BidAskGenerator \<Rightarrow> bool" where
  "timely_run lost [] g \<longleftrightarrow> True"
| "timely_run lost (e # es) g \<longleftrightarrow> timely e g \<and> timely_run lost es (binance_step lost e g)"

text \<open>
  The interface between the diff handler and a policy: a test for a lost packet compares one id of
  the diff, its link, with the last id of the previous diff.
\<close>

locale loss_policy =
  fixes lost :: loss_test and link :: "BookDiffSnapshot2 \<Rightarrow> u64"
  assumes lost_iff: "lost d l \<longleftrightarrow> link d \<noteq> l"
begin

text \<open>The state of a pair and the cursor behind what was emitted for it.\<close>

definition in_step :: "BidAskState \<Rightarrow> cursor \<Rightarrow> bool" where
  "in_step s c \<longleftrightarrow> bs_lastUpdateId (bas_snapshot s) \<noteq> - 1 \<and>
     (bas_need_make_snapshot s \<or>
      bas_need_process_current_diff s \<and> \<not> bas_need_process_current_snapshot s \<and> c = AtDiff (bas_last_id s) \<and>
      bs_lastUpdateId (bas_snapshot s) < bas_last_id s)"

lemma in_step_default: "in_step BidAskState_default c"
  by (simp add: in_step_def BidAskState_default_def BookSnapshot_default_def)

lemma binance_diff_in_step:
  assumes inv: "in_step s c" and mono: "bas_last_id s < bd2_last_id d"
    and run: "binance_diff lost True True d s = (s', outs, r)"
  shows "contiguous (binance_join link) c outs \<and> in_step s' (fold move outs c)"
proof -
  let ?u = "bs_lastUpdateId (bas_snapshot s)"
  have u: "?u \<noteq> - 1" using inv by (simp add: in_step_def)
  show ?thesis
  proof (cases "bas_need_make_snapshot s")
    case True
    then show ?thesis
      using run u lost_iff [of d "bas_last_id s"] less_of_succ [OF u, of "bd2_last_id d"]
      by (auto simp: binance_diff_def emit_def Let_def SetLastProcessedDiffId_def in_step_def split: if_splits)
  next
    case False
    then have "?u < bd2_last_id d" using inv mono by (auto simp: in_step_def)
    with False show ?thesis
      using run inv lost_iff [of d "bas_last_id s"]
      by (auto simp: binance_diff_def emit_def Let_def SetLastProcessedDiffId_def in_step_def split: if_splits)
  qed
qed

definition gen_ok :: "BidAskGenerator \<Rightarrow> bool" where
  "gen_ok g \<longleftrightarrow> bag_has_snapshot_callback g \<and> bag_has_diff_callback g \<and>
     (\<forall>tp. contiguous (binance_join link) Start (outs_of g tp) \<and> in_step (state_of g tp) (fold move (outs_of g tp) Start))"

lemma gen_ok_diff:
  assumes ok: "gen_ok g" and mono: "timely (EvDiff d) g"
  shows "gen_ok (binance_HandleBookDiffSnapshotEvent lost d g)"
proof (cases "bd2_exchange_id d = kBinance")
  case True
  let ?tp = "bd2_trading_pair d"
  obtain s outs r where run: "binance_diff lost True True d (state_of g ?tp) = (s, outs, r)" by (metis prod_cases3)
  have cb: "bag_has_snapshot_callback g" "bag_has_diff_callback g" using ok by (simp_all add: gen_ok_def)
  define g' where "g' = binance_HandleBookDiffSnapshotEvent lost d g"
  have g': "bag_out g' = bag_out g @ List.map (Pair ?tp) outs" "bag_state_map g' = (bag_state_map g)(?tp \<mapsto> s)"
    "bag_has_snapshot_callback g'" "bag_has_diff_callback g'"
    using True run cb by (simp_all add: g'_def binance_HandleBookDiffSnapshotEvent_def Let_def)
  have step: "contiguous (binance_join link) (fold move (outs_of g ?tp) Start) outs \<and> in_step s (fold move outs (fold move (outs_of g ?tp) Start))"
    using binance_diff_in_step [OF _ _ run] ok mono True by (simp add: gen_ok_def)
  show ?thesis
    using ok step g'(2,3,4) unfolding g'_def [symmetric] gen_ok_def
    by (auto simp: outs_of_append [OF g'(1)] contiguous_append state_of_def)
qed (use ok in \<open>simp add: binance_HandleBookDiffSnapshotEvent_def\<close>)

lemma gen_ok_snapshot:
  assumes ok: "gen_ok g" and timely: "timely (EvSnapshot s) g"
  shows "gen_ok (binance_HandleNewSnapshotEvent s g)"
  using ok timely
  by (auto simp: gen_ok_def binance_HandleNewSnapshotEvent_def Let_def outs_of_def state_of_def in_step_def
      BookSnapshot_assign_def)

lemma gen_ok_step: "gen_ok g \<Longrightarrow> timely e g \<Longrightarrow> gen_ok (binance_step lost e g)"
proof (cases e)
  case EvStop
  assume "gen_ok g"
  then show ?thesis using EvStop in_step_default
    by (simp add: gen_ok_def HandleCancellation_def outs_of_def state_of_def)
qed (auto simp: gen_ok_diff gen_ok_snapshot gen_ok_def [of "run_spawned _ _"] outs_of_def state_of_def
    binance_HandleTrackingNewTradingPair_def Let_def, auto simp: gen_ok_def outs_of_def state_of_def)

lemma gen_ok_run: "gen_ok g \<Longrightarrow> timely_run lost es g \<Longrightarrow> gen_ok (fold (binance_step lost) es g)"
  by (induction es arbitrary: g) (simp_all add: gen_ok_step)

lemma gen_ok_new: "gen_ok (BidAskGenerator_new ch1 ch2 ch3 ch4 n m True True)"
  by (simp add: gen_ok_def BidAskGenerator_new_def outs_of_def state_of_def in_step_default)

end

text \<open>The two policies, with their links.\<close>

definition spot_link :: "BookDiffSnapshot2 \<Rightarrow> u64" where
  "spot_link d = bd2_first_id d - 1"

interpretation spot: loss_policy SpotPolicy_CheckPacketLoss spot_link
  by unfold_locales (auto simp: SpotPolicy_CheckPacketLoss_def spot_link_def)

interpretation futures: loss_policy FuturesPolicy_CheckPacketLoss bd2_prev_id
  by unfold_locales (simp add: FuturesPolicy_CheckPacketLoss_def)

text \<open>C10: the local book of Binance has no gaps.  For both policies: whatever requests, snapshots, diffs,
  spawned tasks and stops arrive, in any order and for any pairs, as long as the last ids of the
  diffs of a pair grow and a snapshot comes only while one is needed, the emissions for every pair
  are contiguous: a snapshot, a diff that covers the next id, then diffs without a gap, until the next
  snapshot.\<close>

theorem binance_contiguous:
  assumes "(lost, link) \<in> {(SpotPolicy_CheckPacketLoss, spot_link), (FuturesPolicy_CheckPacketLoss, bd2_prev_id)}"
    and "timely_run lost es (BidAskGenerator_new ch1 ch2 ch3 ch4 n m True True)"
  shows "contiguous (binance_join link) Start (outs_of (fold (binance_step lost) es (BidAskGenerator_new ch1 ch2 ch3 ch4 n m True True)) tp)"
  using assms spot.gen_ok_run [OF spot.gen_ok_new] futures.gen_ok_run [OF futures.gen_ok_new]
  by (auto simp: spot.gen_ok_def futures.gen_ok_def)

text \<open>An example: a diff before the snapshot, the snapshot, and two diffs that fit.\<close>

definition demo_tp :: TradingPair where
  "demo_tp = \<lparr>tp_first = 1, tp_second = 2\<rparr>"

definition demo_diff :: "ExchangeId \<Rightarrow> u64 \<Rightarrow> u64 \<Rightarrow> BookDiffSnapshot2" where
  "demo_diff ex i j = BookDiffSnapshot2_spot ex demo_tp [] [] i j"

definition demo_snapshot :: "ExchangeId \<Rightarrow> u64 \<Rightarrow> BookSnapshot2" where
  "demo_snapshot ex u = \<lparr>bs2_exchange_id = ex, bs2_trading_pair = demo_tp, bs2_bids = [], bs2_asks = [], bs2_lastUpdateId = u\<rparr>"

definition demo_generator :: BidAskGenerator where
  "demo_generator = BidAskGenerator_new Some Some Some Some 8 8 True True"

definition demo_sync :: "gen_event list" where
  "demo_sync = [EvDiff (demo_diff kBinance 95 99), EvSnapshot (demo_snapshot kBinance 100),
     EvDiff (demo_diff kBinance 100 102), EvDiff (demo_diff kBinance 103 104)]"

text \<open>The ids of an emission.\<close>

fun ids_of :: "emission \<Rightarrow> u64 \<times> u64" where
  "ids_of (OutSnapshot s) = (bs_lastUpdateId s, bs_lastUpdateId s)"
| "ids_of (OutDiff d) = (bd2_first_id d, bd2_last_id d)"

lemmas generator_defs =
  demo_diff_def demo_snapshot_def demo_generator_def demo_sync_def BookDiffSnapshot2_spot_def
  binance_HandleBookDiffSnapshotEvent_def binance_HandleNewSnapshotEvent_def binance_diff_def emit_def
  bybit_HandleBookDiffSnapshotEvent_def bybit_HandleNewSnapshotEvent_def bybit_diff_def bybit_snapshot_def
  SetLastProcessedDiffId_def state_of_def BidAskState_default_def BookSnapshot_assign_def BookSnapshot_default_def
  BidAskGenerator_new_def outs_of_def Let_def

lemma demo_sync_timely: "timely_run SpotPolicy_CheckPacketLoss demo_sync demo_generator"
  by (simp add: generator_defs SpotPolicy_CheckPacketLoss_def)

theorem binance_contiguous_witness:
  "contiguous (binance_join spot_link) Start (outs_of (fold (binance_step SpotPolicy_CheckPacketLoss) demo_sync demo_generator) demo_tp) \<and>
   List.map ids_of (outs_of (fold (binance_step SpotPolicy_CheckPacketLoss) demo_sync demo_generator) demo_tp) =
     [(100, 100), (100, 102), (103, 104)]"
proof
  show "contiguous (binance_join spot_link) Start (outs_of (fold (binance_step SpotPolicy_CheckPacketLoss) demo_sync demo_generator) demo_tp)"
    using binance_contiguous [of SpotPolicy_CheckPacketLoss spot_link demo_sync Some Some Some Some 8 8 demo_tp]
      demo_sync_timely by (simp add: demo_generator_def)
  show "List.map ids_of (outs_of (fold (binance_step SpotPolicy_CheckPacketLoss) demo_sync demo_generator) demo_tp) =
     [(100, 100), (100, 102), (103, 104)]"
    by code_simp
qed

text \<open>a late snapshot hides a gap.  After the example a second snapshot with a newer id arrives,
  which answers an earlier request; then the diffs 105 to 150 are lost.  The first diff behind the
  gap is older than the snapshot and is skipped without asking for a new snapshot, and the next
  one is applied to the book: the ids jump from 104 to 161.\<close>

theorem binance_gap_after_late_snapshot:
  "let g = fold (binance_step SpotPolicy_CheckPacketLoss)
         (demo_sync @ [EvSnapshot (demo_snapshot kBinance 200), EvDiff (demo_diff kBinance 151 160),
            EvDiff (demo_diff kBinance 161 170)]) demo_generator
   in List.map ids_of (outs_of g demo_tp) = [(100, 100), (100, 102), (103, 104), (161, 170)] \<and>
      \<not> contiguous (binance_join spot_link) Start (outs_of g demo_tp)"
  by code_simp

section \<open>Contiguity for Bybit\<close>

text \<open>
  When an event arrives in time: a snapshot does not repeat the id of one that still waits to be
  passed on; and a diff does not come between a loss and the snapshot that the new subscription
  delivers, unless no book was passed on yet.
\<close>

fun bybit_timely :: "gen_event \<Rightarrow> BidAskGenerator \<Rightarrow> bool" where
  "bybit_timely (EvSnapshot e) g \<longleftrightarrow> bs2_exchange_id e \<noteq> kBybit \<or>
     (let s = state_of g (bs2_trading_pair e)
      in bs2_lastUpdateId e \<noteq> bs_lastUpdateId (bas_snapshot s) \<or> \<not> bas_need_process_current_snapshot s)"
| "bybit_timely (EvDiff d) g \<longleftrightarrow> bd2_exchange_id d \<noteq> kBybit \<or>
     (let s = state_of g (bd2_trading_pair d)
      in \<not> bas_diff_packet_lost s \<or>
         (if bas_need_process_current_snapshot s then bas_last_id s = bs_lastUpdateId (bas_snapshot s)
          else \<not> bas_need_process_current_diff s))"
| "bybit_timely _ g \<longleftrightarrow> True"

fun bybit_timely_run :: "gen_event list \<Rightarrow> BidAskGenerator \<Rightarrow> bool" where
  "bybit_timely_run [] g \<longleftrightarrow> True"
| "bybit_timely_run (e # es) g \<longleftrightarrow> bybit_timely e g \<and> bybit_timely_run es (bybit_step e g)"

text \<open>The state of a pair and the cursor behind what was emitted for it.\<close>

definition bybit_in_step :: "BidAskState \<Rightarrow> cursor \<Rightarrow> bool" where
  "bybit_in_step s c \<longleftrightarrow> bas_diff_packet_lost s \<or>
     (if bas_need_process_current_snapshot s then bas_last_id s = bs_lastUpdateId (bas_snapshot s)
      else bas_need_process_current_diff s \<longrightarrow> c = AtDiff (bas_last_id s))"

definition bybit_ok :: "BidAskGenerator \<Rightarrow> bool" where
  "bybit_ok g \<longleftrightarrow> bag_has_snapshot_callback g \<and> bag_has_diff_callback g \<and>
     (\<forall>tp. contiguous bybit_join Start (outs_of g tp) \<and> bybit_in_step (state_of g tp) (fold move (outs_of g tp) Start))"

lemma bybit_diff_in_step:
  assumes "bybit_in_step s c" and "bybit_diff True True d s = (s', outs, r)"
    and "\<not> bas_diff_packet_lost s \<or>
         (if bas_need_process_current_snapshot s then bas_last_id s = bs_lastUpdateId (bas_snapshot s)
          else \<not> bas_need_process_current_diff s)"
  shows "contiguous bybit_join c outs \<and> bybit_in_step s' (fold move outs c)"
  using assms by (auto simp: bybit_diff_def emit_def Let_def bybit_in_step_def split: if_splits)

lemma bybit_ok_diff:
  assumes ok: "bybit_ok g" and timely: "bybit_timely (EvDiff d) g"
  shows "bybit_ok (bybit_HandleBookDiffSnapshotEvent d g)"
proof (cases "bd2_exchange_id d = kBybit")
  case True
  let ?tp = "bd2_trading_pair d"
  obtain s outs r where run: "bybit_diff True True d (state_of g ?tp) = (s, outs, r)" by (metis prod_cases3)
  have cb: "bag_has_snapshot_callback g" "bag_has_diff_callback g" using ok by (simp_all add: bybit_ok_def)
  define g' where "g' = bybit_HandleBookDiffSnapshotEvent d g"
  have g': "bag_out g' = bag_out g @ List.map (Pair ?tp) outs" "bag_state_map g' = (bag_state_map g)(?tp \<mapsto> s)"
    "bag_has_snapshot_callback g'" "bag_has_diff_callback g'"
    using True run cb by (simp_all add: g'_def bybit_HandleBookDiffSnapshotEvent_def Let_def)
  have "contiguous bybit_join (fold move (outs_of g ?tp) Start) outs \<and>
      bybit_in_step s (fold move outs (fold move (outs_of g ?tp) Start))"
    using bybit_diff_in_step [OF _ run] ok timely True by (simp add: bybit_ok_def Let_def)
  then show ?thesis
    using ok g'(2,3,4) unfolding g'_def [symmetric] bybit_ok_def
    by (auto simp: outs_of_append [OF g'(1)] contiguous_append state_of_def)
qed (use ok in \<open>simp add: bybit_HandleBookDiffSnapshotEvent_def\<close>)

lemma bybit_ok_snapshot:
  assumes "bybit_ok g" and "bybit_timely (EvSnapshot e) g"
  shows "bybit_ok (bybit_HandleNewSnapshotEvent e g)"
  using assms
  by (auto simp: bybit_ok_def bybit_HandleNewSnapshotEvent_def Let_def outs_of_def state_of_def bybit_in_step_def
      bybit_snapshot_def BookSnapshot_assign_def split: if_splits)

lemma bybit_ok_frame:
  "bybit_ok g \<Longrightarrow> bag_out g' = bag_out g \<Longrightarrow> bag_state_map g' = bag_state_map g \<Longrightarrow>
   bag_has_snapshot_callback g' = bag_has_snapshot_callback g \<Longrightarrow> bag_has_diff_callback g' = bag_has_diff_callback g \<Longrightarrow>
   bybit_ok g'"
  by (simp add: bybit_ok_def outs_of_def state_of_def)

lemma bybit_ok_step: "bybit_ok g \<Longrightarrow> bybit_timely e g \<Longrightarrow> bybit_ok (bybit_step e g)"
proof (cases e)
  case (EvTrack r)
  assume "bybit_ok g"
  then show ?thesis
    by (rule bybit_ok_frame) (simp_all add: EvTrack bybit_HandleTrackingNewTradingPair_def bybit_RequestSubscribeToDiff_def Let_def)
next
  case EvSpawned
  assume "bybit_ok g"
  then show ?thesis by (rule bybit_ok_frame) (simp_all add: EvSpawned)
next
  case EvStop
  assume "bybit_ok g"
  then show ?thesis
    by (simp add: EvStop bybit_ok_def bybit_HandleCancellation_def outs_of_def state_of_def bybit_in_step_def
        BidAskState_default_def)
qed (simp_all add: bybit_ok_diff bybit_ok_snapshot)

lemma bybit_ok_run: "bybit_ok g \<Longrightarrow> bybit_timely_run es g \<Longrightarrow> bybit_ok (fold bybit_step es g)"
  by (induction es arbitrary: g) (simp_all add: bybit_ok_step)

lemma bybit_ok_new: "bybit_ok (BidAskGenerator_new ch1 ch2 ch3 ch4 n m True True)"
  by (simp add: bybit_ok_def BidAskGenerator_new_def outs_of_def state_of_def bybit_in_step_def BidAskState_default_def)

section \<open>Losses at Bybit\<close>

text \<open>gaps at Bybit.  After a lost diff the handler asks for a new subscription, but keeps the
  state in which diffs are passed on: the diffs that follow the gap are applied to the book until
  the next snapshot arrives (the diff 11 to the book of id 6).  And when the exchange repeats a
  snapshot with the same id, as it does when nothing changes for a while, behind a loss and before
  the next diff, the snapshot that waits is dropped (the diff 21 is applied to the book of id 6).\<close>

theorem bybit_gaps:
  "let start = [EvSnapshot (demo_snapshot kBybit 5), EvDiff (demo_diff kBybit 6 6), EvDiff (demo_diff kBybit 10 10)];
       g = fold bybit_step (start @ [EvDiff (demo_diff kBybit 11 11)]) demo_generator;
       h = fold bybit_step (start @ [EvSnapshot (demo_snapshot kBybit 20), EvSnapshot (demo_snapshot kBybit 20),
             EvDiff (demo_diff kBybit 21 21)]) demo_generator
   in List.map ids_of (outs_of g demo_tp) = [(5, 5), (6, 6), (11, 11)] \<and>
      List.map ids_of (outs_of h demo_tp) = [(5, 5), (6, 6), (21, 21)] \<and>
      bag_spawned h = [SpawnSubscribeToDiff False demo_tp, SpawnSubscribeToDiff True demo_tp]"
  by code_simp

end
