(* ===== verification/Book_Sync.thy ===== *)
theory Book_Sync
  imports Bid_Ask_Generator
begin

text \<open>
  From the exchange to the local book: the callback handlers of aot/Binance.h and aot/Bybit.h that pass
  what a \<open>BidAskGeneratorComponent\<close> emits to the bus, and the composition of the generator with
  the \<open>OrderBookComponent\<close> that receives it.
\<close>

section \<open>The callback handlers\<close>

text \<open>What a handler hands to \<open>bus_.AsyncSend\<close>; \<open>None\<close> inside is a null pointer.\<close>

datatype bus_msg =
    MsgUpdate "MEMarketUpdate2 option option"
  | MsgSnapshot "BookSnapshot2 option option"
  | MsgDiff BookDiffSnapshot2

text \<open>The pools of the generator that the handlers use, and what was sent.\<close>

record callback_state =
  cs_out_diff_pool :: MemoryPool
  cs_out_bus_event_diff_pool :: MemoryPool
  cs_book_snapshot2_pool :: MemoryPool
  cs_bus_event_response_pool :: MemoryPool
  cs_sent :: "bus_msg list"

definition callback_state_new ::
    "(nat \<Rightarrow> addr option) \<Rightarrow> (nat \<Rightarrow> addr option) \<Rightarrow> (nat \<Rightarrow> addr option) \<Rightarrow> (nat \<Rightarrow> addr option) \<Rightarrow> nat \<Rightarrow>
     callback_state" where
  "callback_state_new ch1 ch2 ch3 ch4 max_number_event_per_tick =
     \<lparr>cs_out_diff_pool = MemoryPool_new ch1 max_number_event_per_tick,
      cs_out_bus_event_diff_pool = MemoryPool_new ch2 max_number_event_per_tick,
      cs_book_snapshot2_pool = MemoryPool_new ch3 max_number_event_per_tick,
      cs_bus_event_response_pool = MemoryPool_new ch4 max_number_event_per_tick, cs_sent = []\<rparr>"

definition ProcessBookEntry ::
    "ExchangeId \<Rightarrow> TradingPair \<Rightarrow> Side \<Rightarrow> BookSnapshotElem \<Rightarrow> callback_state \<Rightarrow> callback_state" where
  "ProcessBookEntry ex tp side bid c =
     (let u = \<lparr>mu2_exchange_id = ex, mu2_trading_pair = tp, mu2_type = DEFAULT, mu2_order_id = kOrderIdInvalid,
            mu2_side = side, mu2_price = bse_price bid, mu2_qty = bse_qty bid\<rparr>;
          (sent, p1, p2) = send_pooled u (cs_out_diff_pool c) (cs_out_bus_event_diff_pool c)
      in c\<lparr>cs_out_diff_pool := p1, cs_out_bus_event_diff_pool := p2, cs_sent := cs_sent c @ [MsgUpdate sent]\<rparr>)"

definition ProcessBookEntries ::
    "BookSnapshotElem list \<Rightarrow> ExchangeId \<Rightarrow> TradingPair \<Rightarrow> Side \<Rightarrow> callback_state \<Rightarrow> callback_state" where
  "ProcessBookEntries entries ex tp side c = fold (ProcessBookEntry ex tp side) entries c"

text \<open>\<open>BidAskGeneratorCallbackHandler\<close>: every level becomes an update of its own.\<close>

fun CallbackHandler :: "emission \<Rightarrow> callback_state \<Rightarrow> callback_state" where
  "CallbackHandler (OutSnapshot s) c =
     ProcessBookEntries (bs_asks s) (bs_exchange_id s) (bs_trading_pair s) kAsk
       (ProcessBookEntries (bs_bids s) (bs_exchange_id s) (bs_trading_pair s) kBid c)"
| "CallbackHandler (OutDiff d) c =
     ProcessBookEntries (bd2_asks d) (bd2_exchange_id d) (bd2_trading_pair d) kAsk
       (ProcessBookEntries (bd2_bids d) (bd2_exchange_id d) (bd2_trading_pair d) kBid c)"

text \<open>\<open>BidAskGeneratorCallbackBatchHandler\<close>: a diff is sent on as it is, a snapshot is copied.\<close>

definition snapshot_copy :: "BookSnapshot \<Rightarrow> BookSnapshot2" where
  "snapshot_copy s =
     \<lparr>bs2_exchange_id = bs_exchange_id s, bs2_trading_pair = bs_trading_pair s, bs2_bids = bs_bids s,
      bs2_asks = bs_asks s, bs2_lastUpdateId = 0\<rparr>"

fun CallbackBatchHandler :: "emission \<Rightarrow> callback_state \<Rightarrow> callback_state" where
  "CallbackBatchHandler (OutSnapshot s) c =
     (let (sent, p1, p2) = send_pooled (snapshot_copy s) (cs_book_snapshot2_pool c) (cs_bus_event_response_pool c)
      in c\<lparr>cs_book_snapshot2_pool := p1, cs_bus_event_response_pool := p2, cs_sent := cs_sent c @ [MsgSnapshot sent]\<rparr>)"
| "CallbackBatchHandler (OutDiff d) c = c\<lparr>cs_sent := cs_sent c @ [MsgDiff d]\<rparr>"

text \<open>The handler of Bybit is the batch handler.\<close>

definition bybit_CallbackHandler :: "emission \<Rightarrow> callback_state \<Rightarrow> callback_state" where
  "bybit_CallbackHandler o1 c = CallbackBatchHandler o1 c"

text \<open>The subscriber of the generator receives a message; the bus drops a null event.\<close>

fun receive :: "'t avl_ops \<Rightarrow> bus_msg \<Rightarrow> 't OrderBookComponent \<Rightarrow> 't OrderBookComponent result" where
  "receive av (MsgUpdate e) c = (case e of None \<Rightarrow> Inr c | Some u \<Rightarrow> HandleNewMEMarketUpdate av u c)"
| "receive av (MsgSnapshot e) c = (case e of None \<Rightarrow> Inr c | Some s \<Rightarrow> HandleResponseNewSnapshot av s c)"
| "receive av (MsgDiff d) c = HandleNewDiff av (Some d) c"

section \<open>The abstract book behind a list of emissions\<close>

type_synonym levels = "Price \<rightharpoonup> Qty"

fun apply_out :: "emission \<Rightarrow> levels \<times> levels \<Rightarrow> levels \<times> levels" where
  "apply_out (OutSnapshot s) _ = (set_levels (bs_bids s) Map.empty, set_levels (bs_asks s) Map.empty)"
| "apply_out (OutDiff d) (b, a) = (set_levels (bd2_bids d) b, set_levels (bd2_asks d) a)"

text \<open>An emission is addressed to a pair of an exchange, and a snapshot among them has levels on
  both sides.\<close>

fun addressed :: "ExchangeId \<Rightarrow> TradingPair \<Rightarrow> emission \<Rightarrow> bool" where
  "addressed ex tp (OutSnapshot s) \<longleftrightarrow> bs_exchange_id s = ex \<and> bs_trading_pair s = tp"
| "addressed ex tp (OutDiff d) \<longleftrightarrow> bd2_exchange_id d = ex \<and> bd2_trading_pair d = tp"

fun two_sided :: "emission \<Rightarrow> bool" where
  "two_sided (OutSnapshot s) \<longleftrightarrow> fills (bs_bids s) \<and> fills (bs_asks s)"
| "two_sided (OutDiff d) \<longleftrightarrow> True"

definition snapshot_pools_suffice :: "callback_state \<Rightarrow> bool" where
  "snapshot_pools_suffice c \<longleftrightarrow> memory_suffices (cs_book_snapshot2_pool c) \<and> memory_suffices (cs_bus_event_response_pool c)"

lemma send_pooled_suffices:
  assumes "memory_suffices p" and "memory_suffices q"
  obtains p' q' where "send_pooled msg p q = (Some (Some msg), p', q')" "memory_suffices p'" "memory_suffices q'"
proof -
  obtain a p' where p: "Allocate p = (Some a, p')" "memory_suffices p'" by (rule memory_suffices_Allocate [OF assms(1)])
  obtain b q' where "Allocate q = (Some b, q')" "memory_suffices q'" by (rule memory_suffices_Allocate [OF assms(2)])
  with p show ?thesis by (intro that [of p' q']) (simp_all add: send_pooled_def)
qed

text \<open>The batch handler sends one message per emission.\<close>

fun batch_msg :: "emission \<Rightarrow> bus_msg" where
  "batch_msg (OutSnapshot s) = MsgSnapshot (Some (Some (snapshot_copy s)))"
| "batch_msg (OutDiff d) = MsgDiff d"

lemma CallbackBatchHandler_sent:
  "snapshot_pools_suffice c \<Longrightarrow> snapshot_pools_suffice (CallbackBatchHandler o1 c) \<and>
   cs_sent (CallbackBatchHandler o1 c) = cs_sent c @ [batch_msg o1]"
proof (cases o1)
  case (OutSnapshot s)
  assume "snapshot_pools_suffice c"
  then obtain p q where "send_pooled (snapshot_copy s) (cs_book_snapshot2_pool c) (cs_bus_event_response_pool c) =
      (Some (Some (snapshot_copy s)), p, q)" "memory_suffices p" "memory_suffices q"
    unfolding snapshot_pools_suffice_def by (metis send_pooled_suffices)
  then show ?thesis by (simp add: OutSnapshot snapshot_pools_suffice_def)
qed (simp add: snapshot_pools_suffice_def)

lemma fold_CallbackBatchHandler_sent:
  "snapshot_pools_suffice c \<Longrightarrow> cs_sent (fold CallbackBatchHandler outs c) = cs_sent c @ List.map batch_msg outs"
  by (induction outs arbitrary: c) (simp_all add: CallbackBatchHandler_sent)

section \<open>The order books behind a list of emissions\<close>

text \<open>One emission: the addressed book follows the abstract book, the others stay; a changed best bid and offer goes to the bus.\<close>

lemma receive_batch_msg:
  assumes spec: "avltree_spec av" and inv: "obc_inv av c" and book: "find_book ex tp c = Some b"
    and out: "addressed ex tp o1" "two_sided o1"
  shows "\<exists>c' b'. receive av (batch_msg o1) c = Inr c' \<and> obc_inv av c' \<and> find_book ex tp c' = Some b' \<and>
     (bids_of b', asks_of b') = apply_out o1 (bids_of b, asks_of b) \<and>
     (\<forall>ex' tp'. (ex', tp') \<noteq> (ex, tp) \<longrightarrow> find_book ex' tp' c' = find_book ex' tp' c) \<and>
     (\<exists>m. c' = SendBBOToBus ex tp (ob_bbo b') (c\<lparr>obc_order_books := m\<rparr>) \<or>
        c' = c\<lparr>obc_order_books := m\<rparr> \<and> ob_bbo b' = ob_bbo b)"
proof -
  have b: "book_ok av b" "book_memory b" "bid_exact b" "ask_exact b" "ob_subscribers b = [Some 0]"
    using inv book by (auto simp: obc_inv_def)
  obtain oper where oper: "receive av (batch_msg o1) c = on_book oper ex tp c"
    and "\<exists>b'. oper b = Inr b' \<and> book_ok av b' \<and> book_memory b' \<and> bid_exact b' \<and> ask_exact b' \<and>
      ob_subscribers b' = [Some 0] \<and> (bids_of b', asks_of b') = apply_out o1 (bids_of b, asks_of b) \<and> signals_kept b b'"
  proof (cases o1)
    case (OutSnapshot s)
    show ?thesis
    proof (rule that)
      show "receive av (batch_msg o1) c = on_book (OnMarketSnapshot av (Some (snapshot_copy s))) ex tp c"
        using out OutSnapshot by (simp add: HandleResponseNewSnapshot_def snapshot_copy_def)
    qed (use snapshot_refines_aux [OF spec b(1,2) refl refl, of "snapshot_copy s"] out b(5) OutSnapshot in
        \<open>auto simp: snapshot_copy_def signals_kept_def\<close>)
  next
    case (OutDiff d)
    show ?thesis
    proof (rule that)
      show "receive av (batch_msg o1) c = on_book (OnMarketDiff av (Some d)) ex tp c"
        using out OutDiff by (simp add: HandleNewDiff_def)
    qed (use diff_refines_aux [OF spec b(1-4), of d] b(5) OnMarketDiff_subscribers [of av d b] OutDiff in force)
  qed
  then obtain b' where b': "oper b = Inr b'" and good: "book_ok av b' \<and> book_memory b' \<and> bid_exact b' \<and>
      ask_exact b' \<and> ob_subscribers b' = [Some 0]" "(bids_of b', asks_of b') = apply_out o1 (bids_of b, asks_of b)" "signals_kept b b'"
    by blast
  obtain c' m where c': "on_book oper ex tp c = Inr c'" "find_book ex tp c' = Some b'"
    "\<forall>ex' tp'. (ex', tp') \<noteq> (ex, tp) \<longrightarrow> find_book ex' tp' c' = find_book ex' tp' c"
    "c' = fold (\<lambda>call. SendBBOToBus ex tp (snd call)) (drop (length (ob_signals b)) (ob_signals b')) (c\<lparr>obc_order_books := m\<rparr>)"
    using on_book_known [of ex tp c b oper b', OF book b'] by blast
  have "obc_inv av c'" by (rule obc_inv_replace [OF inv c'(3,2) good(1)])
  moreover have "c' = SendBBOToBus ex tp (ob_bbo b') (c\<lparr>obc_order_books := m\<rparr>) \<or> c' = c\<lparr>obc_order_books := m\<rparr> \<and> ob_bbo b' = ob_bbo b"
    using one_subscriber_calls [OF b(5) good(3)] c'(4) by auto
  ultimately show ?thesis
    unfolding oper by (intro exI [of _ c'] exI [of _ b'] conjI c'(1-3) good(2) exI [of _ m])
qed

lemma receive_unregistered:
  "find_book ex tp c = None \<Longrightarrow> addressed ex tp o1 \<Longrightarrow> receive av (batch_msg o1) c = Inr c"
  by (cases o1) (auto simp: HandleResponseNewSnapshot_def HandleNewDiff_def snapshot_copy_def on_book_unknown)

text \<open>All emissions of an exchange, for any mixture of pairs.\<close>

lemma receive_all:
  assumes spec: "avltree_spec av" and "obc_inv av c" and "\<forall>(tp, o1) \<in> set outs. addressed ex tp o1 \<and> two_sided o1"
  shows "\<exists>c'. fold_result (receive av) (List.map (batch_msg \<circ> snd) outs) c = Inr c' \<and> obc_inv av c' \<and>
     (\<forall>tp b. find_book ex tp c = Some b \<longrightarrow> (\<exists>b'. find_book ex tp c' = Some b' \<and>
        (bids_of b', asks_of b') =
          fold apply_out (List.map snd (filter (\<lambda>e. fst e = tp) outs)) (bids_of b, asks_of b)))"
  using assms(2,3)
proof (induction outs arbitrary: c)
  case (Cons e outs)
  obtain tp o1 where e: "e = (tp, o1)" by (cases e)
  then have o1: "addressed ex tp o1" "two_sided o1" and rest: "\<forall>(tp, o1) \<in> set outs. addressed ex tp o1 \<and> two_sided o1"
    using Cons.prems(2) by auto
  show ?case
  proof (cases "find_book ex tp c")
    case None
    with Cons.IH [OF Cons.prems(1) rest] receive_unregistered [OF None o1(1), of av] e show ?thesis by fastforce
  next
    case (Some b)
    obtain c1 b1 where 1: "receive av (batch_msg o1) c = Inr c1" "obc_inv av c1" "find_book ex tp c1 = Some b1"
      "(bids_of b1, asks_of b1) = apply_out o1 (bids_of b, asks_of b)"
      "\<forall>ex' tp'. (ex', tp') \<noteq> (ex, tp) \<longrightarrow> find_book ex' tp' c1 = find_book ex' tp' c"
      using receive_batch_msg [OF spec Cons.prems(1) Some o1] by blast
    obtain c' where c': "fold_result (receive av) (List.map (batch_msg \<circ> snd) outs) c1 = Inr c'" "obc_inv av c'"
      "\<And>tp b. find_book ex tp c1 = Some b \<Longrightarrow> \<exists>b'. find_book ex tp c' = Some b' \<and>
        (bids_of b', asks_of b') =
          fold apply_out (List.map snd (filter (\<lambda>e. fst e = tp) outs)) (bids_of b, asks_of b)"
      using Cons.IH [OF 1(2) rest] by blast
    have "\<exists>b'. find_book ex tp' c' = Some b' \<and> (bids_of b', asks_of b') =
        fold apply_out (List.map snd (filter (\<lambda>e. fst e = tp') ((tp, o1) # outs))) (bids_of b2, asks_of b2)"
      if "find_book ex tp' c = Some b2" for tp' b2
    proof (cases "tp' = tp")
      case True
      with that Some 1(4) c'(3) [OF 1(3)] show ?thesis by simp
    next
      case False
      with that 1(5) c'(3) [of tp' b2] show ?thesis by simp
    qed
    then show ?thesis
      unfolding e using 1(1) c'(1,2) by (intro exI [of _ c'] conjI allI impI) (simp_all add: comp_def)
  qed
qed simp

section \<open>The exchange's book\<close>

text \<open>
  What the exchanges document: \<open>books i\<close> are the bid and ask levels behind the update with id \<open>i\<close>.  A
  snapshot with id \<open>u\<close> lists the levels of \<open>books u\<close>.  A diff holds the new quantity of every level
  that changed, so applied to any book its update range may join it gives the book of its last id.
\<close>

type_synonym exchange_books = "u64 \<Rightarrow> levels \<times> levels"

fun cursor_id :: "cursor \<Rightarrow> u64" where
  "cursor_id Start = 0"
| "cursor_id (AtSnapshot u) = u"
| "cursor_id (AtDiff l) = l"

fun faithful :: "join \<Rightarrow> exchange_books \<Rightarrow> emission \<Rightarrow> bool" where
  "faithful J books (OutSnapshot s) \<longleftrightarrow> apply_out (OutSnapshot s) (Map.empty, Map.empty) = books (bs_lastUpdateId s)"
| "faithful J books (OutDiff d) \<longleftrightarrow> (\<forall>c. J c d \<longrightarrow> apply_out (OutDiff d) (books (cursor_id c)) = books (bd2_last_id d))"

lemma contiguous_books:
  assumes "contiguous J c outs" and "\<forall>o1 \<in> set outs. faithful J books o1"
    and "c = Start \<or> ba = books (cursor_id c)" and "\<And>d. \<not> J Start d"
    and "c \<noteq> Start \<or> outs \<noteq> []"
  shows "fold apply_out outs ba = books (cursor_id (fold move outs c))"
  using assms
proof (induction outs arbitrary: c ba)
  case (Cons o1 outs)
  have "move o1 c \<noteq> Start" by (cases o1) simp_all
  moreover have "apply_out o1 ba = books (cursor_id (move o1 c))"
    using Cons.prems by (cases o1) auto
  ultimately show ?case
    using Cons.IH [of "move o1 c" "apply_out o1 ba"] Cons.prems contiguous_Cons [of J c o1 outs] by simp
qed simp

section \<open>The generators as a source of books\<close>

text \<open>An event of an exchange: its snapshots and diffs satisfy \<open>R\<close>, and its diffs do not join the
  empty book that a generator starts with (the ids of an exchange do not start with 1).\<close>

fun event_ok :: "join \<Rightarrow> ExchangeId \<Rightarrow> (TradingPair \<Rightarrow> emission \<Rightarrow> bool) \<Rightarrow> gen_event \<Rightarrow> bool" where
  "event_ok J ex R (EvSnapshot s) \<longleftrightarrow> bs2_exchange_id s = ex \<longrightarrow> R (bs2_trading_pair s) (OutSnapshot (fst (BookSnapshot_assign s)))"
| "event_ok J ex R (EvDiff d) \<longleftrightarrow> bd2_exchange_id d = ex \<longrightarrow> R (bd2_trading_pair d) (OutDiff d) \<and> \<not> J (AtSnapshot 0) d"
| "event_ok J ex R _ \<longleftrightarrow> True"

definition exchange_event :: "join \<Rightarrow> ExchangeId \<Rightarrow> (TradingPair \<Rightarrow> exchange_books) \<Rightarrow> gen_event \<Rightarrow> bool" where
  "exchange_event J ex books =
     event_ok J ex (\<lambda>tp o1. addressed ex tp o1 \<and> two_sided o1 \<and> faithful J (books tp) o1)"

definition fresh_generator :: "BidAskGenerator \<Rightarrow> bool" where
  "fresh_generator g \<longleftrightarrow> (\<exists>ch1 ch2 ch3 ch4 n m. g = BidAskGenerator_new ch1 ch2 ch3 ch4 n m True True)"

text \<open>What the order books need of a generator: its timely runs are contiguous, and it emits only what
  it received.\<close>

locale book_source =
  fixes step :: "gen_event \<Rightarrow> BidAskGenerator \<Rightarrow> BidAskGenerator"
    and timely_events :: "gen_event list \<Rightarrow> BidAskGenerator \<Rightarrow> bool"
    and ex :: ExchangeId and J :: join
  assumes no_start: "\<not> J Start d"
    and run_contiguous: "fresh_generator g \<Longrightarrow> timely_events es g \<Longrightarrow> contiguous J Start (outs_of (fold step es g) tp)"
    and run_emits: "fresh_generator g \<Longrightarrow> \<forall>e \<in> set es. event_ok J ex R e \<Longrightarrow>
      (tp, o1) \<in> set (bag_out (fold step es g)) \<Longrightarrow> R tp o1"
begin

lemma books_follow:
  assumes "avltree_spec av" and "obc_inv av c" and "find_book ex tp c = Some b"
    and "snapshot_pools_suffice cs" and "cs_sent cs = []"
    and g: "fresh_generator g" and es: "timely_events es g" "\<forall>e \<in> set es. exchange_event J ex books e"
    and some: "outs_of (fold step es g) tp \<noteq> []"
  shows "\<exists>c' b'. fold_result (receive av) (cs_sent (fold CallbackBatchHandler (List.map snd (bag_out (fold step es g))) cs)) c =
      Inr c' \<and> obc_inv av c' \<and> find_book ex tp c' = Some b' \<and> bid_exact b' \<and> ask_exact b' \<and>
      (bids_of b', asks_of b') = books tp (cursor_id (fold move (outs_of (fold step es g) tp) Start))"
proof -
  let ?outs = "bag_out (fold step es g)"
  have R: "addressed ex tp o1 \<and> two_sided o1 \<and> faithful J (books tp) o1" if "(tp, o1) \<in> set ?outs" for tp o1
    using run_emits [OF g _ that] es(2) unfolding exchange_event_def by blast
  then have "\<forall>(tp, o1) \<in> set ?outs. addressed ex tp o1 \<and> two_sided o1" by auto
  then obtain c' b' where c': "fold_result (receive av) (List.map (batch_msg \<circ> snd) ?outs) c = Inr c'" "obc_inv av c'"
    "find_book ex tp c' = Some b'" "(bids_of b', asks_of b') = fold apply_out (outs_of (fold step es g) tp) (bids_of b, asks_of b)"
    using receive_all [OF assms(1,2), of ?outs ex] assms(3) unfolding outs_of_def by blast
  have "\<forall>o1 \<in> set (outs_of (fold step es g) tp). faithful J (books tp) o1"
    using R by (auto simp: outs_of_def)
  then have "fold apply_out (outs_of (fold step es g) tp) (bids_of b, asks_of b) =
      books tp (cursor_id (fold move (outs_of (fold step es g) tp) Start))"
    using contiguous_books [OF run_contiguous [OF g es(1)]] no_start some by simp
  moreover have "bid_exact b' \<and> ask_exact b'" using c'(2,3) by (auto simp: obc_inv_def)
  ultimately show ?thesis
    using c' fold_CallbackBatchHandler_sent [OF assms(4)] assms(5) by (intro exI [of _ c'] exI [of _ b']) simp
qed

end

section \<open>What the generators emit\<close>

text \<open>The snapshot a generator has stored came from the exchange, or nothing was stored yet.\<close>

definition stored_ok :: "(emission \<Rightarrow> bool) \<Rightarrow> BidAskState \<Rightarrow> bool" where
  "stored_ok P s \<longleftrightarrow> P (OutSnapshot (bas_snapshot s)) \<or>
     bs_lastUpdateId (bas_snapshot s) = 0 \<and> \<not> bas_need_process_current_snapshot s"

definition emits_ok :: "(TradingPair \<Rightarrow> emission \<Rightarrow> bool) \<Rightarrow> BidAskGenerator \<Rightarrow> bool" where
  "emits_ok R g \<longleftrightarrow> (\<forall>tp. stored_ok (R tp) (state_of g tp)) \<and> (\<forall>(tp, o1) \<in> set (bag_out g). R tp o1)"

lemma stored_ok_default: "stored_ok P BidAskState_default"
  by (simp add: stored_ok_def BidAskState_default_def BookSnapshot_default_def)

lemma emits_ok_frame:
  "emits_ok R g \<Longrightarrow> bag_state_map g' = bag_state_map g \<Longrightarrow> bag_out g' = bag_out g \<Longrightarrow> emits_ok R g'"
  by (simp add: emits_ok_def state_of_def)

lemma emits_ok_fresh: "fresh_generator g \<Longrightarrow> emits_ok R g"
  by (auto simp: fresh_generator_def emits_ok_def state_of_def BidAskGenerator_new_def stored_ok_default)

lemma emits_ok_stop:
  "emits_ok R g \<Longrightarrow> emits_ok R (HandleCancellation g)" "emits_ok R g \<Longrightarrow> emits_ok R (bybit_HandleCancellation g)"
  by (simp_all add: emits_ok_def HandleCancellation_def bybit_HandleCancellation_def state_of_def stored_ok_default)

lemma binance_diff_emits:
  assumes "binance_diff lost cbs cbd d s = (s', outs, r)" and "stored_ok P s" and "P (OutDiff d)"
    and "\<not> binance_join link (AtSnapshot 0) d"
  shows "stored_ok P s' \<and> (\<forall>o1 \<in> set outs. P o1)"
  using assms
  by (auto simp: binance_diff_def emit_def Let_def SetLastProcessedDiffId_def stored_ok_def split: if_splits)

lemma bybit_diff_emits:
  assumes "bybit_diff cbs cbd d s = (s', outs, r)" and "stored_ok P s" and "P (OutDiff d)"
    and "\<not> bybit_join (AtSnapshot 0) d"
  shows "stored_ok P s' \<and> (\<forall>o1 \<in> set outs. P o1)"
  using assms by (auto simp: bybit_diff_def emit_def Let_def stored_ok_def split: if_splits)

lemma emits_ok_outs:
  assumes "emits_ok R g" and "stored_ok (R tp) s" and "\<forall>o1 \<in> set outs. R tp o1"
    and "bag_state_map g' = (bag_state_map g)(tp \<mapsto> s)" and "bag_out g' = bag_out g @ List.map (Pair tp) outs"
  shows "emits_ok R g'"
  using assms by (auto simp: emits_ok_def state_of_def)

lemma binance_step_emits:
  assumes ok: "emits_ok R g" and ev: "event_ok (binance_join link) kBinance R e"
  shows "emits_ok R (binance_step lost e g)"
proof (cases e)
  case (EvTrack r)
  show ?thesis
    by (rule emits_ok_frame [OF ok]) (simp_all add: EvTrack binance_HandleTrackingNewTradingPair_def Let_def)
next
  case (EvSnapshot s)
  show ?thesis
  proof (cases "bs2_exchange_id s = kBinance")
    case True
    then show ?thesis
      by (intro emits_ok_outs [OF ok, where tp = "bs2_trading_pair s" and outs = "[]"])
        (use ev EvSnapshot in \<open>simp_all add: binance_HandleNewSnapshotEvent_def Let_def stored_ok_def\<close>)
  qed (use ok EvSnapshot in \<open>simp add: binance_HandleNewSnapshotEvent_def\<close>)
next
  case (EvDiff d)
  let ?tp = "bd2_trading_pair d"
  show ?thesis
  proof (cases "bd2_exchange_id d = kBinance")
    case True
    obtain s outs r where run: "binance_diff lost (bag_has_snapshot_callback g) (bag_has_diff_callback g) d
        (state_of g ?tp) = (s, outs, r)" by (metis prod_cases3)
    have st: "stored_ok (R ?tp) (state_of g ?tp)" using ok unfolding emits_ok_def by blast
    have d: "R ?tp (OutDiff d)" "\<not> binance_join link (AtSnapshot 0) d" using ev True EvDiff by simp_all
    note so = conjunct1 [OF binance_diff_emits [OF run st d]] conjunct2 [OF binance_diff_emits [OF run st d]]
    show ?thesis
      by (rule emits_ok_outs [OF ok so]) (simp_all add: EvDiff True run binance_HandleBookDiffSnapshotEvent_def Let_def)
  qed (use ok EvDiff in \<open>simp add: binance_HandleBookDiffSnapshotEvent_def\<close>)
qed (use ok in \<open>simp_all add: emits_ok_stop emits_ok_frame [OF ok]\<close>)

lemma bybit_step_emits:
  assumes ok: "emits_ok R g" and ev: "event_ok bybit_join kBybit R e"
  shows "emits_ok R (bybit_step e g)"
proof (cases e)
  case (EvTrack r)
  show ?thesis
    by (rule emits_ok_frame [OF ok]) (simp_all add: EvTrack bybit_HandleTrackingNewTradingPair_def bybit_RequestSubscribeToDiff_def Let_def)
next
  case (EvSnapshot s)
  show ?thesis
  proof (cases "bs2_exchange_id s = kBybit")
    case True
    have "stored_ok (R (bs2_trading_pair s)) (state_of g (bs2_trading_pair s))" using ok by (simp add: emits_ok_def)
    with True show ?thesis
      by (intro emits_ok_outs [OF ok, where tp = "bs2_trading_pair s" and outs = "[]"])
        (use ev EvSnapshot in \<open>auto simp: bybit_HandleNewSnapshotEvent_def bybit_snapshot_def Let_def stored_ok_def\<close>)
  qed (use ok EvSnapshot in \<open>simp add: bybit_HandleNewSnapshotEvent_def\<close>)
next
  case (EvDiff d)
  let ?tp = "bd2_trading_pair d"
  show ?thesis
  proof (cases "bd2_exchange_id d = kBybit")
    case True
    obtain s outs r where run: "bybit_diff (bag_has_snapshot_callback g) (bag_has_diff_callback g) d
        (state_of g ?tp) = (s, outs, r)" by (metis prod_cases3)
    have st: "stored_ok (R ?tp) (state_of g ?tp)" using ok unfolding emits_ok_def by blast
    have d: "R ?tp (OutDiff d)" "\<not> bybit_join (AtSnapshot 0) d" using ev True EvDiff by simp_all
    note so = conjunct1 [OF bybit_diff_emits [OF run st d]] conjunct2 [OF bybit_diff_emits [OF run st d]]
    show ?thesis
      by (rule emits_ok_outs [OF ok so]) (simp_all add: EvDiff True run bybit_HandleBookDiffSnapshotEvent_def Let_def)
  qed (use ok EvDiff in \<open>simp add: bybit_HandleBookDiffSnapshotEvent_def\<close>)
qed (use ok in \<open>simp_all add: emits_ok_stop emits_ok_frame [OF ok]\<close>)

lemma fold_emits:
  assumes "\<And>e g. emits_ok R g \<Longrightarrow> P e \<Longrightarrow> emits_ok R (step e g)" and "fresh_generator g" and "\<forall>e \<in> set es. P e"
    and "(tp, o1) \<in> set (bag_out (fold step es g))"
  shows "R tp o1"
proof -
  have "emits_ok R g \<Longrightarrow> \<forall>e \<in> set es. P e \<Longrightarrow> emits_ok R (fold step es g)" for g
    using assms(1) by (induction es arbitrary: g) simp_all
  from this [OF emits_ok_fresh [OF assms(2)] assms(3)] assms(4) show ?thesis by (auto simp: emits_ok_def)
qed

interpretation spot_books: book_source "binance_step SpotPolicy_CheckPacketLoss" "timely_run SpotPolicy_CheckPacketLoss"
  kBinance "binance_join spot_link"
proof unfold_locales
  show "contiguous (binance_join spot_link) Start (outs_of (fold (binance_step SpotPolicy_CheckPacketLoss) es g) tp)"
    if "fresh_generator g" "timely_run SpotPolicy_CheckPacketLoss es g" for g es tp
    using that spot.gen_ok_run [OF spot.gen_ok_new] by (auto simp: fresh_generator_def spot.gen_ok_def)
qed (auto intro: fold_emits [OF binance_step_emits])

interpretation futures_books: book_source "binance_step FuturesPolicy_CheckPacketLoss"
  "timely_run FuturesPolicy_CheckPacketLoss" kBinance "binance_join bd2_prev_id"
proof unfold_locales
  show "contiguous (binance_join bd2_prev_id) Start (outs_of (fold (binance_step FuturesPolicy_CheckPacketLoss) es g) tp)"
    if "fresh_generator g" "timely_run FuturesPolicy_CheckPacketLoss es g" for g es tp
    using that futures.gen_ok_run [OF futures.gen_ok_new] by (auto simp: fresh_generator_def futures.gen_ok_def)
qed (auto intro: fold_emits [OF binance_step_emits])

interpretation bybit_books: book_source bybit_step bybit_timely_run kBybit bybit_join
proof unfold_locales
  show "contiguous bybit_join Start (outs_of (fold bybit_step es g) tp)"
    if "fresh_generator g" "bybit_timely_run es g" for g es tp
    using that bybit_ok_run [OF bybit_ok_new] by (auto simp: fresh_generator_def bybit_ok_def)
qed (auto intro: fold_emits [OF bybit_step_emits])

section \<open>The local books follow the exchange\<close>

text \<open>C1: the local book of a pair equals the book of Binance.  The events of the exchange reach a
  new generator, its emissions go through the batch handler and the bus to an order book component.
  If the exchange keeps what it documents (\<open>exchange_event\<close>) and the events come in time
  (\<open>timely_run\<close>), then for spot and futures every handler returns, and as soon as something was
  emitted for a registered pair, its book holds on both sides exactly the levels of the exchange
  behind the last emitted update, and its best bid and offer is exact.  Events of other pairs and
  other exchanges may be mixed in at will.\<close>

theorem binance_book_follows:
  assumes "(lost, link) \<in> {(SpotPolicy_CheckPacketLoss, spot_link), (FuturesPolicy_CheckPacketLoss, bd2_prev_id)}"
    and "avltree_spec av" and "obc_inv av c" and "find_book kBinance tp c = Some b"
    and "snapshot_pools_suffice cs" and "cs_sent cs = []"
    and "fresh_generator g" and "timely_run lost es g" and "\<forall>e \<in> set es. exchange_event (binance_join link) kBinance books e"
    and "outs_of (fold (binance_step lost) es g) tp \<noteq> []"
  shows "\<exists>c' b'. fold_result (receive av)
        (cs_sent (fold CallbackBatchHandler (List.map snd (bag_out (fold (binance_step lost) es g))) cs)) c = Inr c' \<and>
      obc_inv av c' \<and> find_book kBinance tp c' = Some b' \<and> bid_exact b' \<and> ask_exact b' \<and>
      (bids_of b', asks_of b') = books tp (cursor_id (fold move (outs_of (fold (binance_step lost) es g) tp) Start))"
proof -
  consider "lost = SpotPolicy_CheckPacketLoss" "link = spot_link" | "lost = FuturesPolicy_CheckPacketLoss" "link = bd2_prev_id"
    using assms(1) by blast
  then show ?thesis
  proof cases
    case 1
    show ?thesis unfolding 1 by (rule spot_books.books_follow) (use assms 1 in simp_all)
  next
    case 2
    show ?thesis unfolding 2 by (rule futures_books.books_follow) (use assms 2 in simp_all)
  qed
qed

text \<open>An example: the exchange adds the bid level 11 between the ids 100 and 102.\<close>

definition demo_books :: "TradingPair \<Rightarrow> exchange_books" where
  "demo_books tp i = (if i \<le> 100 then [10 \<mapsto> 1] else [10 \<mapsto> 1, 11 \<mapsto> 2], [12 \<mapsto> 1])"

definition demo_level_diff :: "ExchangeId \<Rightarrow> u64 \<Rightarrow> u64 \<Rightarrow> Qty \<Rightarrow> BookDiffSnapshot2" where
  "demo_level_diff ex i j qty = BookDiffSnapshot2_spot ex demo_tp [\<lparr>bse_price = 11, bse_qty = qty\<rparr>] [] i j"

definition demo_level_snapshot :: "ExchangeId \<Rightarrow> BookSnapshot2" where
  "demo_level_snapshot ex =
     (demo_snapshot ex 100)\<lparr>bs2_bids := [\<lparr>bse_price = 10, bse_qty = 1\<rparr>], bs2_asks := [\<lparr>bse_price = 12, bse_qty = 1\<rparr>]\<rparr>"

definition demo_follow :: "gen_event list" where
  "demo_follow = [EvDiff (demo_level_diff kBinance 95 99 0), EvSnapshot (demo_level_snapshot kBinance),
     EvDiff (demo_level_diff kBinance 100 102 2)]"

definition demo_callbacks :: callback_state where
  "demo_callbacks = callback_state_new Some Some Some Some 8"

lemma demo_pools: "snapshot_pools_suffice demo_callbacks" "cs_sent demo_callbacks = []" "fresh_generator demo_generator"
  unfolding fresh_generator_def demo_generator_def
  by (simp_all add: demo_callbacks_def callback_state_new_def snapshot_pools_suffice_def memory_suffices_def
      MemoryPool_new_def) blast

lemma demo_follow_timely: "timely_run SpotPolicy_CheckPacketLoss demo_follow demo_generator"
  by code_simp

lemma demo_follow_outs:
  "outs_of (fold (binance_step SpotPolicy_CheckPacketLoss) demo_follow demo_generator) demo_tp =
   [OutSnapshot (fst (BookSnapshot_assign (demo_level_snapshot kBinance))), OutDiff (demo_level_diff kBinance 100 102 2)]"
  by code_simp

lemma demo_follow_exchange: "\<forall>e \<in> set demo_follow. exchange_event (binance_join spot_link) kBinance demo_books e"
  by (simp add: demo_follow_def exchange_event_def demo_level_diff_def demo_level_snapshot_def demo_snapshot_def
      BookDiffSnapshot2_spot_def BookSnapshot_assign_def fills_def demo_books_def set_level_def fun_upd_twist
      fun_eq_iff word_le_nat_alt [of _ 1])

theorem binance_book_follows_witness:
  "\<exists>c' b'. fold_result (receive list_avl)
        (cs_sent (fold CallbackBatchHandler
          (List.map snd (bag_out (fold (binance_step SpotPolicy_CheckPacketLoss) demo_follow demo_generator))) demo_callbacks))
        demo_component = Inr c' \<and>
      find_book kBinance demo_tp c' = Some b' \<and> bids_of b' = [10 \<mapsto> 1, 11 \<mapsto> 2] \<and> asks_of b' = [12 \<mapsto> 1]"
proof -
  have "find_book kBinance demo_tp demo_component = Some demo_book"
    by (simp add: demo_tp_def demo_component_book)
  moreover have "(102 :: u64) \<le> 100 \<longleftrightarrow> False" by simp
  ultimately show ?thesis
    using binance_book_follows [OF _ avltree_spec_list_avl demo_component_ok(1) _ demo_pools demo_follow_timely demo_follow_exchange,
        of demo_tp demo_book]
    by (fastforce simp: demo_follow_outs demo_books_def demo_level_diff_def BookDiffSnapshot2_spot_def)
qed

text \<open>C2: the local book of a pair equals the book of Bybit, under the corresponding assumptions: a
  diff carries the next id, no diff is handled between a loss and the snapshot that follows the new
  subscription, and no snapshot is repeated while it waits (\<open>bybit_timely_run\<close>).\<close>

theorem bybit_book_follows:
  assumes "avltree_spec av" and "obc_inv av c" and "find_book kBybit tp c = Some b"
    and "snapshot_pools_suffice cs" and "cs_sent cs = []"
    and "fresh_generator g" and "bybit_timely_run es g" and "\<forall>e \<in> set es. exchange_event bybit_join kBybit books e"
    and "outs_of (fold bybit_step es g) tp \<noteq> []"
  shows "\<exists>c' b'. fold_result (receive av)
        (cs_sent (fold bybit_CallbackHandler (List.map snd (bag_out (fold bybit_step es g))) cs)) c = Inr c' \<and>
      obc_inv av c' \<and> find_book kBybit tp c' = Some b' \<and> bid_exact b' \<and> ask_exact b' \<and>
      (bids_of b', asks_of b') = books tp (cursor_id (fold move (outs_of (fold bybit_step es g) tp) Start))"
  unfolding bybit_CallbackHandler_def [abs_def] by (rule bybit_books.books_follow [OF assms])

definition demo_bybit_component :: "addr list OrderBookComponent" where
  "demo_bybit_component = AddOrderBook list_avl Some Some kBybit demo_tp (OrderBookComponent_new Some Some 8 kSpot)"

definition demo_bybit_book :: "addr list MarketOrderBook2" where
  "demo_bybit_book = SubscribeToBBO (Some 0) (MarketOrderBook2_new list_avl Some Some kBybit demo_tp)"

definition demo_bybit_follow :: "gen_event list" where
  "demo_bybit_follow = [EvSnapshot (demo_level_snapshot kBybit), EvDiff (demo_level_diff kBybit 0 101 2)]"

lemma demo_bybit_component_ok:
  "find_book kBybit demo_tp demo_bybit_component = Some demo_bybit_book" "obc_inv list_avl demo_bybit_component"
proof -
  have chunks: "chunks_distinct Some" by (simp add: chunks_distinct_def)
  have "find_book ex tp demo_bybit_component = (if (ex, tp) = (kBybit, demo_tp) then Some demo_bybit_book else None)"
    for ex tp
    by (simp add: demo_bybit_component_def demo_bybit_book_def AddOrderBook_def OrderBookComponent_new_def find_book_def)
  moreover have "ob_subscribers demo_bybit_book = [Some 0]" "book_memory demo_bybit_book"
    by (simp_all add: demo_bybit_book_def SubscribeToBBO_def MarketOrderBook2_new_def empty_side_def book_memory_def
        memory_suffices_def MemoryPool_new_def kMaxOrdersAtPrice_def)
  ultimately show "find_book kBybit demo_tp demo_bybit_component = Some demo_bybit_book"
    "obc_inv list_avl demo_bybit_component"
    using new_book [OF avltree_spec_list_avl chunks chunks refl, of kBybit demo_tp]
    by (auto simp: obc_inv_def demo_bybit_book_def split: if_splits)
qed

lemma demo_bybit_timely: "bybit_timely_run demo_bybit_follow demo_generator"
  by code_simp

lemma demo_bybit_outs:
  "outs_of (fold bybit_step demo_bybit_follow demo_generator) demo_tp =
   [OutSnapshot (fst (BookSnapshot_assign (demo_level_snapshot kBybit))), OutDiff (demo_level_diff kBybit 0 101 2)]"
  by code_simp

lemma bybit_join_cases: "bybit_join c d \<Longrightarrow> bd2_last_id d = cursor_id c + 1"
  by (cases c) simp_all

lemma demo_bybit_exchange: "\<forall>e \<in> set demo_bybit_follow. exchange_event bybit_join kBybit demo_books e"
  by (auto simp: demo_bybit_follow_def exchange_event_def demo_level_diff_def demo_level_snapshot_def demo_snapshot_def
      BookDiffSnapshot2_spot_def BookSnapshot_assign_def fills_def demo_books_def set_level_def
      fun_eq_iff dest!: bybit_join_cases)

theorem bybit_book_follows_witness:
  "\<exists>c' b'. fold_result (receive list_avl)
        (cs_sent (fold bybit_CallbackHandler (List.map snd (bag_out (fold bybit_step demo_bybit_follow demo_generator)))
          demo_callbacks)) demo_bybit_component = Inr c' \<and>
      find_book kBybit demo_tp c' = Some b' \<and> bids_of b' = [10 \<mapsto> 1, 11 \<mapsto> 2] \<and> asks_of b' = [12 \<mapsto> 1]"
  using bybit_book_follows [OF avltree_spec_list_avl demo_bybit_component_ok(2,1) demo_pools demo_bybit_timely demo_bybit_exchange]
  by (fastforce simp: demo_bybit_outs demo_books_def demo_level_diff_def BookDiffSnapshot2_spot_def)

section \<open>The handler without batches\<close>

definition update_pools_suffice :: "callback_state \<Rightarrow> bool" where
  "update_pools_suffice c \<longleftrightarrow> memory_suffices (cs_out_diff_pool c) \<and> memory_suffices (cs_out_bus_event_diff_pool c)"

definition entry_update :: "ExchangeId \<Rightarrow> TradingPair \<Rightarrow> Side \<Rightarrow> BookSnapshotElem \<Rightarrow> MEMarketUpdate2" where
  "entry_update ex tp side e =
     \<lparr>mu2_exchange_id = ex, mu2_trading_pair = tp, mu2_type = DEFAULT, mu2_order_id = kOrderIdInvalid,
      mu2_side = side, mu2_price = bse_price e, mu2_qty = bse_qty e\<rparr>"

lemma ProcessBookEntry_sent:
  assumes "update_pools_suffice c"
  shows "update_pools_suffice (ProcessBookEntry ex tp side e c) \<and>
     cs_sent (ProcessBookEntry ex tp side e c) = cs_sent c @ [MsgUpdate (Some (Some (entry_update ex tp side e)))]"
proof -
  obtain p q where "send_pooled (entry_update ex tp side e) (cs_out_diff_pool c) (cs_out_bus_event_diff_pool c) =
      (Some (Some (entry_update ex tp side e)), p, q)" "memory_suffices p" "memory_suffices q"
    using assms unfolding update_pools_suffice_def by (metis send_pooled_suffices)
  then show ?thesis by (simp add: ProcessBookEntry_def update_pools_suffice_def entry_update_def)
qed

lemma ProcessBookEntries_sent:
  "update_pools_suffice c \<Longrightarrow> update_pools_suffice (ProcessBookEntries es ex tp side c) \<and>
   cs_sent (ProcessBookEntries es ex tp side c) =
     cs_sent c @ List.map (\<lambda>e. MsgUpdate (Some (Some (entry_update ex tp side e)))) es"
  unfolding ProcessBookEntries_def
proof (induction es arbitrary: c)
  case (Cons e es)
  then show ?case using ProcessBookEntry_sent [OF Cons.prems, of ex tp side e] by simp
qed simp

text \<open>The updates of one side, received one after the other.\<close>

lemma receive_entries:
  assumes spec: "avltree_spec av" and side: "side \<in> {kBid, kAsk}"
    and "obc_inv av c" and "find_book ex tp c = Some b"
  shows "\<exists>c' b'. fold_result (receive av) (List.map (\<lambda>e. MsgUpdate (Some (Some (entry_update ex tp side e)))) es) c = Inr c' \<and>
     obc_inv av c' \<and> find_book ex tp c' = Some b' \<and>
     bids_of b' = (if side = kBid then set_levels es (bids_of b) else bids_of b) \<and>
     asks_of b' = (if side = kAsk then set_levels es (asks_of b) else asks_of b)"
  using assms(3,4)
proof (induction es arbitrary: c b)
  case (Cons e es)
  let ?u = "entry_update ex tp side e"
  have u: "mu2_type ?u = DEFAULT" "mu2_side ?u = side" "mu2_price ?u = bse_price e" "mu2_qty ?u = bse_qty e"
    by (simp_all add: entry_update_def)
  have b: "book_ok av b" "book_memory b" "bid_exact b" "ask_exact b" "ob_subscribers b = [Some 0]"
    using Cons.prems by (auto simp: obc_inv_def)
  obtain b1 where b1: "OnMarketUpdate av ?u b = Inr b1" "book_ok av b1" "book_memory b1" "bid_exact b1" "ask_exact b1"
    "bids_of b1 = (if side = kBid then set_level (bse_price e) (bse_qty e) (bids_of b) else bids_of b)"
    "asks_of b1 = (if side = kAsk then set_level (bse_price e) (bse_qty e) (asks_of b) else asks_of b)"
    using update_refines_aux [OF spec b(1-4) u(1)] side unfolding u by blast
  obtain c1 m where c1: "on_book (OnMarketUpdate av ?u) ex tp c = Inr c1" "find_book ex tp c1 = Some b1"
    "\<forall>ex' tp'. (ex', tp') \<noteq> (ex, tp) \<longrightarrow> find_book ex' tp' c1 = find_book ex' tp' c"
    using on_book_known [OF Cons.prems(2), of "OnMarketUpdate av ?u", OF b1(1)] by blast
  have "receive av (MsgUpdate (Some (Some ?u))) c = Inr c1"
    using c1(1) by (simp add: HandleNewMEMarketUpdate_def entry_update_def)
  moreover have "obc_inv av c1"
    using obc_inv_replace [OF Cons.prems(1) c1(3,2)] b1 b(5) OnMarketUpdate_subscribers [OF u(1) b1(1)] by simp
  ultimately show ?case
    using Cons.IH [OF _ c1(2)] b1(6,7) side by auto
qed simp

text \<open>a snapshot through \<open>BidAskGeneratorCallbackHandler\<close>.  It is sent as single updates and
  nothing clears the book before them, so the levels of the snapshot are set, but levels that the
  exchange no longer has stay in the book.\<close>

theorem CallbackHandler_keeps_levels:
  assumes spec: "avltree_spec av" and inv: "obc_inv av c"
    and book: "find_book (bs_exchange_id s) (bs_trading_pair s) c = Some b"
    and cs: "update_pools_suffice cs" "cs_sent cs = []"
  shows "\<exists>c' b'. fold_result (receive av) (cs_sent (CallbackHandler (OutSnapshot s) cs)) c = Inr c' \<and> obc_inv av c' \<and>
     find_book (bs_exchange_id s) (bs_trading_pair s) c' = Some b' \<and>
     bids_of b' = set_levels (bs_bids s) (bids_of b) \<and> asks_of b' = set_levels (bs_asks s) (asks_of b)"
proof -
  let ?ex = "bs_exchange_id s" and ?tp = "bs_trading_pair s"
  let ?msgs = "\<lambda>side es. List.map (\<lambda>e. MsgUpdate (Some (Some (entry_update ?ex ?tp side e)))) es"
  note bids = ProcessBookEntries_sent [OF cs(1), of "bs_bids s" ?ex ?tp kBid]
  have sent: "cs_sent (CallbackHandler (OutSnapshot s) cs) = ?msgs kBid (bs_bids s) @ ?msgs kAsk (bs_asks s)"
    using ProcessBookEntries_sent [OF conjunct1 [OF bids], of "bs_asks s" ?ex ?tp kAsk] bids cs(2) by simp
  obtain c1 b1 where 1: "fold_result (receive av) (?msgs kBid (bs_bids s)) c = Inr c1" "obc_inv av c1"
    "find_book ?ex ?tp c1 = Some b1" "bids_of b1 = set_levels (bs_bids s) (bids_of b)" "asks_of b1 = asks_of b"
    using receive_entries [OF spec _ inv book, of kBid "bs_bids s"] by auto
  obtain c2 b2 where 2: "fold_result (receive av) (?msgs kAsk (bs_asks s)) c1 = Inr c2" "obc_inv av c2"
    "find_book ?ex ?tp c2 = Some b2" "asks_of b2 = set_levels (bs_asks s) (asks_of b1)" "bids_of b2 = bids_of b1"
    using receive_entries [OF spec _ 1(2,3), of kAsk "bs_asks s"] by auto
  show ?thesis
    unfolding sent using 1 2 by (intro exI [of _ c2] exI [of _ b2]) (simp add: fold_result_append)
qed

definition demo_one_level :: "Price \<Rightarrow> BookSnapshot" where
  "demo_one_level p =
     \<lparr>bs_exchange_id = kBinance, bs_trading_pair = demo_tp, bs_bids = [\<lparr>bse_price = p, bse_qty = 1\<rparr>], bs_asks = [],
      bs_lastUpdateId = 7\<rparr>"

theorem CallbackHandler_keeps_levels_witness:
  "\<exists>c1 c2 b2. fold_result (receive list_avl) (cs_sent (CallbackHandler (OutSnapshot (demo_one_level 9)) demo_callbacks))
        demo_component = Inr c1 \<and>
     fold_result (receive list_avl) (cs_sent (CallbackHandler (OutSnapshot (demo_one_level 10)) demo_callbacks)) c1 = Inr c2 \<and>
     find_book kBinance demo_tp c2 = Some b2 \<and> bids_of b2 = [9 \<mapsto> 1, 10 \<mapsto> 1]"
proof -
  have book: "find_book (bs_exchange_id (demo_one_level 9)) (bs_trading_pair (demo_one_level 9)) demo_component = Some demo_book"
    by (simp add: demo_one_level_def demo_tp_def demo_component_book)
  have cs: "update_pools_suffice demo_callbacks" "cs_sent demo_callbacks = []"
    by (simp_all add: demo_callbacks_def callback_state_new_def update_pools_suffice_def memory_suffices_def MemoryPool_new_def)
  obtain c1 b1 where 1: "fold_result (receive list_avl) (cs_sent (CallbackHandler (OutSnapshot (demo_one_level 9)) demo_callbacks))
        demo_component = Inr c1" "obc_inv list_avl c1" "find_book kBinance demo_tp c1 = Some b1" "bids_of b1 = [9 \<mapsto> 1]"
    using CallbackHandler_keeps_levels [OF avltree_spec_list_avl demo_component_ok(1) book cs] demo_book_ok(5)
    by (auto simp: demo_one_level_def set_level_def)
  show ?thesis
    using CallbackHandler_keeps_levels [OF avltree_spec_list_avl 1(2), of "demo_one_level 10" b1, OF _ cs] 1
    by (fastforce simp: demo_one_level_def set_level_def)
qed

end
