(* ===== verification/Doubles.thy ===== *)
theory Doubles
  imports Prelude "HOL-Library.Log_Nat"
begin

text \<open>
  The rounding of the \<open>double\<close> type as IEEE 754 defines it: a double has a significand of at most 53
  bits, and an operation rounds to a nearest double (the default mode breaks ties towards the
  even significand).  The range of the exponent is not bounded, so overflow and subnormal numbers
  are not modelled.  \<open>nearest_double\<close> is an executable instance.
\<close>

section \<open>Doubles and rounding to the nearest one\<close>

definition is_double :: "rat \<Rightarrow> bool" where
  "is_double x \<longleftrightarrow> (\<exists>m e. \<bar>m\<bar> \<le> 2 ^ 53 \<and> x = of_int m * 2 powi e)"

definition nearest_rounding :: "rounding \<Rightarrow> bool" where
  "nearest_rounding rnd \<longleftrightarrow>
     (\<forall>x. is_double (rnd x) \<and> (\<forall>y. is_double y \<longrightarrow> \<bar>rnd x - x\<bar> \<le> \<bar>y - x\<bar>))"

lemma nearest_is_double: "nearest_rounding rnd \<Longrightarrow> is_double (rnd x)"
  by (simp add: nearest_rounding_def)

lemma nearest_le: "nearest_rounding rnd \<Longrightarrow> is_double y \<Longrightarrow> \<bar>rnd x - x\<bar> \<le> \<bar>y - x\<bar>"
  by (simp add: nearest_rounding_def)

lemma nearest_fix: "nearest_rounding rnd \<Longrightarrow> is_double x \<Longrightarrow> rnd x = x"
  using nearest_le [of rnd x x] by simp

lemma nearest_mono:
  assumes rnd: "nearest_rounding rnd" and "x \<le> y"
  shows "rnd x \<le> rnd y"
proof (rule ccontr)
  assume less: "\<not> rnd x \<le> rnd y"
  have "\<bar>rnd x - x\<bar> \<le> \<bar>rnd y - x\<bar>" "\<bar>rnd y - y\<bar> \<le> \<bar>rnd x - y\<bar>"
    by (intro nearest_le [OF rnd] nearest_is_double [OF rnd])+
  with less assms(2) have "x = y" by linarith
  with less show False by simp
qed

lemma is_double_int: "\<bar>i\<bar> \<le> 2 ^ 53 \<Longrightarrow> is_double (of_int i)"
  unfolding is_double_def by (intro exI [of _ i] exI [of _ 0]) simp

lemma is_double_pow2: "is_double (1 / 2 ^ k)"
  unfolding is_double_def
  by (intro exI [of _ 1] exI [of _ "- int k"]) (simp add: power_int_minus field_simps)

text \<open>Rounding to nearest is one of the roundings the rest of the development allows.\<close>

lemma nearest_ieee: "nearest_rounding rnd \<Longrightarrow> ieee_rounding rnd"
  unfolding ieee_rounding_def
  using nearest_mono [of rnd] nearest_fix [of rnd] is_double_int is_double_pow2 by blast

section \<open>The instance\<close>

definition round_even :: "rat \<Rightarrow> int" where
  "round_even z =
     (let f = \<lfloor>z\<rfloor>; r = z - of_int f
      in if r < 1 / 2 then f else if r > 1 / 2 then f + 1 else if even f then f else f + 1)"

text \<open>The exponent that scales a number into the range from \<open>2^52\<close> to \<open>2^53\<close>.\<close>

definition scale :: "rat \<Rightarrow> int" where
  "scale x =
     (let (n, d) = quotient_of \<bar>x\<bar>;
          k = 52 - (int (floorlog 2 (nat n)) - int (floorlog 2 (nat d)))
      in if \<bar>x\<bar> * 2 powi k < 2 ^ 52 then k + 1 else k)"

definition nearest_double :: rounding where
  "nearest_double x = (if x = 0 then 0 else of_int (round_even (x * 2 powi scale x)) * 2 powi (- scale x))"

lemma round_even_cases:
  obtains "round_even z = \<lfloor>z\<rfloor>" "0 \<le> z - of_int \<lfloor>z\<rfloor>" "z - of_int \<lfloor>z\<rfloor> \<le> 1 / 2"
    | "round_even z = \<lfloor>z\<rfloor> + 1" "1 / 2 \<le> z - of_int \<lfloor>z\<rfloor>" "z - of_int \<lfloor>z\<rfloor> < 1"
proof -
  have "0 \<le> z - of_int \<lfloor>z\<rfloor>" "z - of_int \<lfloor>z\<rfloor> < 1" using floor_correct [of z] by linarith+
  then show ?thesis
    using that unfolding round_even_def Let_def by (metis linorder_not_less order_less_imp_le order_refl)
qed

lemma round_even_half: "\<bar>of_int (round_even z) - z\<bar> \<le> 1 / 2"
proof (cases z rule: round_even_cases)
  case 1
  then show ?thesis by linarith
next
  case 2
  then have "of_int (round_even z) = of_int \<lfloor>z\<rfloor> + (1 :: rat)" by simp
  with 2 show ?thesis by linarith
qed

lemma round_even_nearest: "\<bar>of_int (round_even z) - z\<bar> \<le> \<bar>of_int m - z\<bar>"
proof -
  have m: "(of_int m :: rat) \<le> of_int \<lfloor>z\<rfloor> \<or> of_int \<lfloor>z\<rfloor> + 1 \<le> (of_int m :: rat)"
  proof (cases "m \<le> \<lfloor>z\<rfloor>")
    case False
    then have "(of_int (\<lfloor>z\<rfloor> + 1) :: rat) \<le> of_int m" unfolding of_int_le_iff by linarith
    then show ?thesis by simp
  qed simp
  show ?thesis
  proof (cases z rule: round_even_cases)
    case 1
    with m show ?thesis by linarith
  next
    case 2
    then have "of_int (round_even z) = of_int \<lfloor>z\<rfloor> + (1 :: rat)" by simp
    with 2 m show ?thesis by linarith
  qed
qed

lemma round_even_bound:
  assumes "\<bar>z\<bar> < 2 ^ 53"
  shows "\<bar>round_even z\<bar> \<le> 2 ^ 53"
proof -
  have f: "\<lfloor>z\<rfloor> < 2 ^ 53" "- (2 ^ 53) \<le> \<lfloor>z\<rfloor>"
    using assms unfolding floor_less_iff le_floor_iff by simp_all
  show ?thesis by (cases z rule: round_even_cases) (use f in linarith)+
qed

lemma floorlog_rat:
  assumes "0 < n"
  shows "2 powi (int (floorlog 2 (nat n)) - 1) \<le> (of_int n :: rat)" "(of_int n :: rat) < 2 powi int (floorlog 2 (nat n))"
proof -
  let ?l = "floorlog 2 (nat n)"
  have b: "2 ^ (?l - 1) \<le> nat n \<and> nat n < 2 ^ ?l" using floorlog_bounds [of "nat n" 2] assms by simp
  then have l: "0 < ?l" using assms by (cases "?l = 0") auto
  have n: "(of_nat (nat n) :: rat) = of_int n" using assms by simp
  have "(of_nat (2 ^ (?l - 1)) :: rat) \<le> of_nat (nat n)" "(of_nat (nat n) :: rat) < of_nat (2 ^ ?l)"
    using b unfolding of_nat_le_iff of_nat_less_iff by simp_all
  moreover have "int ?l - 1 = int (?l - 1)" using l by linarith
  ultimately show "2 powi (int ?l - 1) \<le> (of_int n :: rat)" "(of_int n :: rat) < 2 powi int ?l"
    unfolding n by (simp_all add: power_int_of_nat del: of_nat_diff)
qed

lemma abs_scale: "0 < p \<Longrightarrow> \<bar>a * p - b * p\<bar> = \<bar>a - b\<bar> * p" for a b p :: rat
  by (simp add: abs_mult flip: left_diff_distrib)

lemma scale_range:
  assumes "x \<noteq> 0"
  shows "2 ^ 52 \<le> \<bar>x\<bar> * 2 powi scale x" "\<bar>x\<bar> * 2 powi scale x < 2 ^ 53"
proof -
  obtain n d where nd: "quotient_of \<bar>x\<bar> = (n, d)" by (cases "quotient_of \<bar>x\<bar>")
  then have d: "0 < d" and x: "\<bar>x\<bar> = of_int n / of_int d"
    using quotient_of_denom_pos quotient_of_div by blast+
  have "0 < of_int n / (of_int d :: rat)" unfolding x [symmetric] using assms by simp
  then have n: "0 < n" using d by (simp add: zero_less_divide_iff)
  define a b where "a = int (floorlog 2 (nat n))" and "b = int (floorlog 2 (nat d))"
  define k where "k = 52 - (a - b)"
  note an = floorlog_rat [OF n, folded a_def] and bd = floorlog_rat [OF d, folded b_def]
  have p: "2 powi i * 2 powi j = (2 powi (i + j) :: rat)" for i j by (simp add: power_int_add)
  have "\<bar>x\<bar> * 2 powi k = of_int n * 2 powi k / of_int d" by (simp add: x)
  also have "\<dots> < 2 powi a * 2 powi k / 2 powi (b - 1)"
    using an bd n d by (intro frac_less mult_strict_right_mono) (simp_all add: zero_less_power_int)
  also have "\<dots> = 2 powi (a + k - (b - 1))" by (simp add: p power_int_diff)
  also have "a + k - (b - 1) = int 53" by (simp add: k_def)
  finally have hi: "\<bar>x\<bar> * 2 powi k < 2 ^ 53" by (simp only: power_int_of_nat)
  have "(2 :: rat) ^ 51 = 2 powi (a - 1 + k - b)" by (simp add: k_def)
  also have "\<dots> = 2 powi (a - 1) * 2 powi k / 2 powi b" unfolding p by (rule power_int_diff) simp
  also have "\<dots> \<le> of_int n * 2 powi k / of_int d"
    using an bd n d by (intro frac_le mult_right_mono) (simp_all add: zero_less_power_int less_imp_le)
  also have "\<dots> = \<bar>x\<bar> * 2 powi k" by (simp add: x)
  finally have lo: "2 ^ 51 \<le> \<bar>x\<bar> * 2 powi k" .
  have s: "scale x = (if \<bar>x\<bar> * 2 powi k < 2 ^ 52 then k + 1 else k)"
    by (simp add: scale_def nd k_def a_def b_def)
  show "2 ^ 52 \<le> \<bar>x\<bar> * 2 powi scale x" "\<bar>x\<bar> * 2 powi scale x < 2 ^ 53"
    using hi lo unfolding s by (auto simp: power_int_add)
qed

text \<open>The doubles around a number: multiples of \<open>2^-k\<close>, or not larger than \<open>2^(52-k)\<close>.\<close>

lemma double_cases:
  assumes "is_double y"
  obtains m where "y * 2 powi k = of_int m" | "\<bar>y * 2 powi k\<bar> \<le> 2 ^ 52"
proof -
  obtain m e where m: "\<bar>m\<bar> \<le> 2 ^ 53" and y: "y = of_int m * 2 powi e" using assms by (auto simp: is_double_def)
  have yk: "y * 2 powi k = of_int m * 2 powi (e + k)" by (simp add: y power_int_add)
  show ?thesis
  proof (cases "0 \<le> e + k")
    case True
    then have "2 powi (e + k) = (of_int (2 ^ nat (e + k)) :: rat)" by (simp add: power_int_def)
    then show ?thesis using that(1) [of "m * 2 ^ nat (e + k)"] yk by simp
  next
    case False
    have "\<bar>(of_int m :: rat)\<bar> \<le> 2 ^ 53"
      using m by (metis of_int_abs of_int_le_iff of_int_numeral of_int_power)
    moreover have "(2 :: rat) powi (e + k) \<le> 2 powi (- 1)" using False by (intro power_int_increasing) simp_all
    ultimately have "\<bar>(of_int m :: rat)\<bar> * 2 powi (e + k) \<le> 2 ^ 53 * 2 powi (- 1)"
      by (intro mult_mono) (simp_all add: zero_le_power_int)
    then have "\<bar>y * 2 powi k\<bar> \<le> 2 ^ 52"
      unfolding yk abs_mult by (simp add: power_int_minus zero_le_power_int)
    then show ?thesis by (rule that(2))
  qed
qed

lemma nearest_double_nearest: "nearest_rounding nearest_double"
  unfolding nearest_rounding_def
proof (intro allI conjI impI)
  fix x y
  show "is_double (nearest_double x)"
  proof (cases "x = 0")
    case True
    then show ?thesis using is_double_int [of 0] by (simp add: nearest_double_def)
  next
    case False
    then have "\<bar>x * 2 powi scale x\<bar> < 2 ^ 53"
      using scale_range(2) [OF False] by (simp add: abs_mult zero_le_power_int)
    then show ?thesis
      unfolding is_double_def nearest_double_def using False round_even_bound by auto
  qed
  assume y: "is_double y"
  show "\<bar>nearest_double x - x\<bar> \<le> \<bar>y - x\<bar>"
  proof (cases "x = 0")
    case True
    then show ?thesis by (simp add: nearest_double_def)
  next
    case False
    let ?p = "2 powi scale x :: rat"
    have p: "0 < ?p" by (simp add: zero_less_power_int)
    let ?z = "x * ?p"
    have z: "2 ^ 52 \<le> \<bar>?z\<bar>" using scale_range(1) [OF False] p by (simp add: abs_mult)
    have r: "nearest_double x * ?p = of_int (round_even ?z)"
      using False p by (simp add: nearest_double_def power_int_minus field_simps)
    have "\<bar>of_int (round_even ?z) - ?z\<bar> \<le> \<bar>y * ?p - ?z\<bar>"
      using y
    proof (cases rule: double_cases [where k = "scale x"])
      case (1 m)
      then show ?thesis using round_even_nearest by metis
    next
      case 2
      have "\<bar>of_int (round_even ?z) - ?z\<bar> \<le> \<bar>of_int (2 ^ 52) - ?z\<bar>" "\<bar>of_int (round_even ?z) - ?z\<bar> \<le> \<bar>of_int (- (2 ^ 52)) - ?z\<bar>"
        by (rule round_even_nearest)+
      then have "\<bar>of_int (round_even ?z) - ?z\<bar> \<le> \<bar>2 ^ 52 - ?z\<bar>" "\<bar>of_int (round_even ?z) - ?z\<bar> \<le> \<bar>- (2 ^ 52) - ?z\<bar>"
        by simp_all
      then show ?thesis using 2 z by linarith
    qed
    then show ?thesis unfolding r [symmetric] abs_scale [OF p] using p by simp
  qed
qed

text \<open>The relative error of a rounding to nearest.\<close>

lemma nearest_error:
  assumes rnd: "nearest_rounding rnd"
  shows "\<bar>rnd x - x\<bar> \<le> \<bar>x\<bar> / 2 ^ 53"
proof (cases "x = 0")
  case True
  then show ?thesis using nearest_fix [OF rnd is_double_int [of 0]] by simp
next
  case False
  let ?p = "2 powi scale x :: rat"
  have p: "0 < ?p" by (simp add: zero_less_power_int)
  have "\<bar>rnd x - x\<bar> \<le> \<bar>nearest_double x - x\<bar>"
    by (rule nearest_le [OF rnd nearest_is_double [OF nearest_double_nearest]])
  then have "\<bar>rnd x - x\<bar> * ?p \<le> \<bar>nearest_double x - x\<bar> * ?p" using p by simp
  also have "\<dots> = \<bar>nearest_double x * ?p - x * ?p\<bar>" using p by (simp only: abs_scale)
  also have "nearest_double x * ?p = of_int (round_even (x * ?p))"
    using False p by (simp add: nearest_double_def power_int_minus field_simps)
  also have "\<bar>of_int (round_even (x * ?p)) - x * ?p\<bar> \<le> 1 / 2" by (rule round_even_half)
  also have "1 / 2 \<le> \<bar>x\<bar> / 2 ^ 53 * ?p" using scale_range(1) [OF False] by simp
  finally have "\<bar>rnd x - x\<bar> * ?p \<le> \<bar>x\<bar> / 2 ^ 53 * ?p" .
  then show ?thesis using p by simp
qed

text \<open>The rounded value, when it is not half way between two doubles.\<close>

lemma nearest_value:
  assumes rnd: "nearest_rounding rnd" and x: "2 ^ 52 \<le> \<bar>x * 2 powi k\<bar>" and m: "\<bar>x * 2 powi k - of_int m\<bar> < 1 / 2"
    and m53: "\<bar>m\<bar> \<le> 2 ^ 53"
  shows "rnd x = of_int m * 2 powi (- k)"
proof -
  let ?p = "2 powi k :: rat"
  have p: "0 < ?p" by (simp add: zero_less_power_int)
  have c: "of_int m * 2 powi (- k) * ?p = (of_int m :: rat)" by (simp add: power_int_minus)
  have "is_double (of_int m * 2 powi (- k))" using m53 unfolding is_double_def by blast
  then have "\<bar>rnd x - x\<bar> * ?p \<le> \<bar>of_int m * 2 powi (- k) - x\<bar> * ?p"
    using nearest_le [OF rnd] p by (intro mult_right_mono) simp_all
  then have le: "\<bar>rnd x * ?p - x * ?p\<bar> \<le> \<bar>of_int m - x * ?p\<bar>"
    unfolding abs_scale [OF p, symmetric] c .
  have "rnd x * ?p = of_int m"
    using nearest_is_double [OF rnd, of x]
  proof (cases rule: double_cases [where k = k])
    case (1 j)
    with le m have "\<bar>(of_int j :: rat) - of_int m\<bar> < 1" by linarith
    then have "\<bar>(of_int (j - m) :: rat)\<bar> < 1" by simp
    then have "\<bar>j - m\<bar> < 1" by (metis of_int_abs of_int_less_1_iff)
    then show ?thesis using 1 by simp
  next
    case 2
    show ?thesis
    proof (cases "0 \<le> x * ?p")
      case True
      then have w: "2 ^ 52 \<le> x * ?p" "x * ?p < 2 ^ 52 + 1 / 2" using x 2 le m by linarith+
      then have "(2 ^ 52 - 1 :: rat) < of_int m" "(of_int m :: rat) < 2 ^ 52 + 1" using m by linarith+
      then have "m = 2 ^ 52" using of_int_less_iff [of "2 ^ 52 - 1" m, where 'a = rat]
          of_int_less_iff [of m "2 ^ 52 + 1", where 'a = rat] by simp
      then have "(of_int m :: rat) = 2 ^ 52" by simp
      with 2 le w show ?thesis by linarith
    next
      case False
      then have w: "x * ?p \<le> - (2 ^ 52)" "- (2 ^ 52) - 1 / 2 < x * ?p" using x 2 le m by linarith+
      then have "(- (2 ^ 52) - 1 :: rat) < of_int m" "(of_int m :: rat) < - (2 ^ 52) + 1" using m by linarith+
      then have "m = - (2 ^ 52)" using of_int_less_iff [of "- (2 ^ 52) - 1" m, where 'a = rat]
          of_int_less_iff [of m "- (2 ^ 52) + 1", where 'a = rat] by simp
      then have "(of_int m :: rat) = - (2 ^ 52)" by simp
      with 2 le w show ?thesis by linarith
    qed
  qed
  then show ?thesis using p by (simp add: power_int_minus field_simps)
qed

section \<open>Casts, and ticks from decimal strings\<close>

text \<open>\<open>static_cast\<close> of a double to \<open>int\<close> and to \<open>uint64_t\<close> truncates; a value out of range is undefined
  behaviour.\<close>

definition truncate_rat :: "rat \<Rightarrow> int" where
  "truncate_rat x = (if 0 \<le> x then \<lfloor>x\<rfloor> else - \<lfloor>- x\<rfloor>)"

definition cast_int :: "rat \<Rightarrow> int result" where
  "cast_int x = (if fits_int32 (truncate_rat x) then Inr (truncate_rat x) else Inl Undefined)"

definition cast_u64 :: "rat \<Rightarrow> u64 result" where
  "cast_u64 x =
     (let t = truncate_rat x in if 0 \<le> t \<and> t < 2 ^ 64 then Inr (word_of_int t) else Inl Undefined)"

text \<open>
  A decimal with \<open>p\<close> digits behind the point, read as the nearest double, multiplied by \<open>10^p\<close> and
  truncated, gives its number of ticks or one less.
\<close>

lemma ticks_error:
  assumes rnd: "nearest_rounding rnd" and n: "n \<le> 2 ^ 50"
  shows "\<bar>fmul rnd (rnd (of_nat n / 10 ^ p)) (10 ^ p) - of_nat n\<bar> < 1 / 2"
proof -
  define t :: rat where "t = 10 ^ p"
  define x where "x = of_nat n / t"
  have t: "0 < t" by (simp add: t_def)
  have xt: "x * t = of_nat n" using t by (simp add: x_def)
  have n': "(of_nat n :: rat) \<le> 2 ^ 50" using n by (metis of_nat_le_iff of_nat_numeral of_nat_power)
  have "\<bar>rnd x * t - x * t\<bar> \<le> x * t / 2 ^ 53"
  proof -
    have "\<bar>rnd x - x\<bar> * t \<le> \<bar>x\<bar> / 2 ^ 53 * t" using nearest_error [OF rnd, of x] t by simp
    then show ?thesis unfolding abs_scale [OF t] using t by (simp add: x_def)
  qed
  then have d: "\<bar>rnd x * t - of_nat n\<bar> \<le> 1 / 8" using n' unfolding xt by simp
  moreover have "\<bar>rnd (rnd x * t) - rnd x * t\<bar> \<le> \<bar>rnd x * t\<bar> / 2 ^ 53" by (rule nearest_error [OF rnd])
  moreover have "\<bar>rnd x * t\<bar> / 2 ^ 53 \<le> 1 / 4"
  proof -
    have "0 \<le> (of_nat n :: rat)" "(2 :: rat) ^ 51 = 2 * 2 ^ 50" "(1 :: rat) \<le> 2 ^ 50" by simp_all
    with d n' have "\<bar>rnd x * t\<bar> \<le> 2 ^ 51" by linarith
    then show ?thesis by simp
  qed
  ultimately have "\<bar>rnd (rnd x * t) - of_nat n\<bar> < 1 / 2" by linarith
  then show ?thesis by (simp add: fmul_def x_def t_def)
qed

lemma ticks_truncated:
  assumes "nearest_rounding rnd" and "n \<le> 2 ^ 50"
  shows "truncate_rat (fmul rnd (rnd (of_nat n / 10 ^ p)) (10 ^ p)) \<in> {int n - 1, int n} \<and>
     0 \<le> truncate_rat (fmul rnd (rnd (of_nat n / 10 ^ p)) (10 ^ p))"
proof -
  let ?y = "fmul rnd (rnd (of_nat n / 10 ^ p)) (10 ^ p)"
  have "0 \<le> rnd (of_nat n / 10 ^ p)" by (rule ieee_nonneg [OF nearest_ieee [OF assms(1)]]) simp
  then have pos: "0 \<le> ?y" unfolding fmul_def by (intro ieee_nonneg [OF nearest_ieee [OF assms(1)]]) simp
  have "\<bar>?y - of_nat n\<bar> < 1 / 2" by (rule ticks_error [OF assms])
  then have "of_int (int n - 1) \<le> ?y" "?y < of_int (int n + 1)"
    unfolding of_int_diff of_int_add of_int_1 of_int_of_nat_eq by linarith+
  then have "int n - 1 \<le> \<lfloor>?y\<rfloor>" "\<lfloor>?y\<rfloor> < int n + 1" by (simp_all only: le_floor_iff floor_less_iff)
  with pos show ?thesis by (auto simp: truncate_rat_def)
qed

end
