(* ===== verification/Parsers.thy ===== *)
theory Parsers
  imports Bid_Ask_Generator Order_Manager Doubles
begin

text \<open>
  The parsers of the messages of the exchanges: src/Binance.cpp, src/Bybit.cpp, and \<open>ParserManager\<close>,
  \<open>ApiResponseParser\<close> and the handlers of the responses in aot/Binance.h and aot/Bybit.h.

  \<^item> \<open>simdjson\<close> is the argument \<open>sj\<close>: the operations the parsers call on a value \<open>'d\<close> of a document,
    with \<open>None\<close> for an error code.  \<open>json_ops\<close> is an instance.
  \<^item> An error code that is converted to a value throws \<open>simdjson_error\<close>.  The parsers catch it and
    return what was filled in so far; \<open>Threw\<close> carries that.
  \<^item> Prices and quantities are read as doubles, scaled by a power of ten and cast to \<open>int\<close>.
\<close>

section \<open>Simdjson\<close>

datatype json_type = TArray | TObject | TNumber | TString | TBoolean | TNull

datatype json_number = NSigned int | NUnsigned u64 | NFloating | NBig

record 'd simdjson =
  sj_iterate :: "string \<Rightarrow> 'd option"
  sj_field :: "'d \<Rightarrow> string \<Rightarrow> 'd option"              \<comment> \<open>\<open>doc[key]\<close>\<close>
  sj_type :: "'d \<Rightarrow> json_type"
  sj_uint64 :: "'d \<Rightarrow> u64 option"
  sj_uint64_in_string :: "'d \<Rightarrow> u64 option"
  sj_double_in_string :: "'d \<Rightarrow> rat option"
  sj_string :: "'d \<Rightarrow> string option"
  sj_bool :: "'d \<Rightarrow> bool option"
  sj_number :: "'d \<Rightarrow> json_number option"
  sj_array :: "'d \<Rightarrow> 'd option list option"           \<comment> \<open>the elements, each a result of its own\<close>

datatype 'a outcome = Done 'a | Threw 'a

fun kept :: "'a outcome \<Rightarrow> 'a" where
  "kept (Done x) = x"
| "kept (Threw x) = x"

definition field_string :: "'d simdjson \<Rightarrow> 'd \<Rightarrow> string \<Rightarrow> string option" where
  "field_string sj doc key = Option.bind (sj_field sj doc key) (sj_string sj)"

definition field_double :: "'d simdjson \<Rightarrow> 'd \<Rightarrow> string \<Rightarrow> rat option" where
  "field_double sj doc key = Option.bind (sj_field sj doc key) (sj_double_in_string sj)"

definition field_uint64 :: "'d simdjson \<Rightarrow> 'd \<Rightarrow> string \<Rightarrow> u64 option" where
  "field_uint64 sj doc key = Option.bind (sj_field sj doc key) (sj_uint64 sj)"

section \<open>The trading pairs\<close>

text \<open>\<open>pairs_[trading_pair]\<close> adds an entry of zeros for an unknown pair.\<close>

type_synonym pair_infos = "TradingPair \<rightharpoonup> TradingPairInfo"

definition TradingPairInfo_zero :: TradingPairInfo where
  "TradingPairInfo_zero =
     \<lparr>price_precission = 0, qty_precission = 0, https_json_request = '''', https_query_request = '''',
      ws_query_request = '''', https_query_response = ''''\<rparr>"

definition info_of :: "pair_infos \<Rightarrow> TradingPair \<Rightarrow> TradingPairInfo" where
  "info_of pairs tp = (case pairs tp of None \<Rightarrow> TradingPairInfo_zero | Some i \<Rightarrow> i)"

definition touch_info :: "TradingPair \<Rightarrow> pair_infos \<Rightarrow> pair_infos" where
  "touch_info tp pairs = (case pairs tp of None \<Rightarrow> pairs(tp \<mapsto> TradingPairInfo_zero) | Some _ \<Rightarrow> pairs)"

section \<open>Levels\<close>

text \<open>A level from the two doubles.\<close>

definition make_level :: "rounding \<Rightarrow> rat \<Rightarrow> rat \<Rightarrow> rat \<Rightarrow> rat \<Rightarrow> BookSnapshotElem result" where
  "make_level rnd price_prec qty_prec price qty =
     bind_result (cast_int (fmul rnd price price_prec)) (\<lambda>p.
     bind_result (cast_int (fmul rnd qty qty_prec)) (\<lambda>q.
     Inr \<lparr>bse_price = word_of_int p, bse_qty = word_of_int q\<rparr>))"

text \<open>Binance: the numbers of a level go to \<open>pair[i]\<close> without a check of \<open>i\<close>, and both entries of \<open>pair\<close>
  are read afterwards, whether they were set or not.\<close>

fun fill_pair :: "'d simdjson \<Rightarrow> 'd option list \<Rightarrow> rat list \<Rightarrow> rat list outcome result" where
  "fill_pair sj [] pair = Inr (Done pair)"
| "fill_pair sj (number # rest) pair =
     (case Option.bind number (sj_double_in_string sj) of
        None \<Rightarrow> Inr (Threw pair)
      | Some x \<Rightarrow> if length pair < 2 then fill_pair sj rest (pair @ [x]) else Inl Undefined)"

fun parse_levels ::
    "'d simdjson \<Rightarrow> rounding \<Rightarrow> rat \<Rightarrow> rat \<Rightarrow> 'd option list \<Rightarrow> BookSnapshotElem list \<Rightarrow>
     BookSnapshotElem list outcome result" where
  "parse_levels sj rnd pp qp [] acc = Inr (Done acc)"
| "parse_levels sj rnd pp qp (level # levels) acc =
     (case Option.bind level (sj_array sj) of
        None \<Rightarrow> Inr (Threw acc)
      | Some numbers \<Rightarrow>
          bind_result (fill_pair sj numbers []) (\<lambda>r.
            case r of
              Threw _ \<Rightarrow> Inr (Threw acc)
            | Done [price, qty] \<Rightarrow>
                bind_result (make_level rnd pp qp price qty)
                  (\<lambda>l. parse_levels sj rnd pp qp levels (acc @ [l]))
            | Done _ \<Rightarrow> Inl Undefined))"

text \<open>The loop over \<open>doc[key]\<close>.\<close>

definition parse_side ::
    "'d simdjson \<Rightarrow> rounding \<Rightarrow> rat \<Rightarrow> rat \<Rightarrow> 'd \<Rightarrow> string \<Rightarrow> BookSnapshotElem list outcome result" where
  "parse_side sj rnd pp qp doc key =
     (case Option.bind (sj_field sj doc key) (sj_array sj) of
        None \<Rightarrow> Inr (Threw [])
      | Some levels \<Rightarrow> parse_levels sj rnd pp qp levels [])"

text \<open>Both sides: after a throw in the first loop the second does not run.\<close>

definition parse_sides ::
    "'d simdjson \<Rightarrow> rounding \<Rightarrow> TradingPairInfo \<Rightarrow> 'd \<Rightarrow> string \<Rightarrow> string \<Rightarrow>
     (BookSnapshotElem list \<times> BookSnapshotElem list) result" where
  "parse_sides sj rnd info doc bids asks =
     (let pp = pow10 rnd (price_precission info); qp = pow10 rnd (qty_precission info)
      in bind_result (parse_side sj rnd pp qp doc bids) (\<lambda>b.
           case b of
             Threw bs \<Rightarrow> Inr (bs, [])
           | Done bs \<Rightarrow> bind_result (parse_side sj rnd pp qp doc asks) (\<lambda>a. Inr (bs, kept a))))"

section \<open>Binance\<close>

text \<open>\<open>FamilyBookSnapshot::ParserResponse::Parse\<close>.\<close>

definition binance_snapshot_Parse ::
    "'d simdjson \<Rightarrow> rounding \<Rightarrow> pair_infos \<Rightarrow> string \<Rightarrow> TradingPair \<Rightarrow> BookSnapshot result" where
  "binance_snapshot_Parse sj rnd pairs response tp =
     (let empty = BookSnapshot_default \<lparr>tp_first = 0, tp_second = 0\<rparr>
      in case pairs tp of
           None \<Rightarrow> Inr empty
         | Some info \<Rightarrow>
             (case sj_iterate sj response of
                None \<Rightarrow> Inl Uncaught
              | Some doc \<Rightarrow>
                  bind_result
                    (case field_uint64 sj doc ''lastUpdateId'' of
                       None \<Rightarrow> Inr empty
                     | Some u \<Rightarrow>
                         bind_result (parse_sides sj rnd info doc ''bids'' ''asks'')
                           (\<lambda>(bids, asks). Inr (empty\<lparr>bs_lastUpdateId := u, bs_bids := bids, bs_asks := asks\<rparr>)))
                    (\<lambda>s. Inr (s\<lparr>bs_exchange_id := kBinance, bs_trading_pair := tp\<rparr>))))"

text \<open>No constructor sets the trading pair of a default diff or response; the model takes zeros for it.\<close>

definition BookDiffSnapshot_default :: BookDiffSnapshot where
  "BookDiffSnapshot_default =
     \<lparr>bd_exchange_id = kExchangeIdInvalid, bd_trading_pair = \<lparr>tp_first = 0, tp_second = 0\<rparr>, bd_bids = [], bd_asks = [],
      bd_first_id = - 1, bd_last_id = - 1, bd_prev_id = - 1\<rparr>"

text \<open>\<open>FamilyBookEventGetter::ParserResponse::Parse\<close> on a document.  The result of the \<open>try\<close> block:
  \<open>None\<close> for an early return of an empty diff.\<close>

definition binance_diff_try ::
    "'d simdjson \<Rightarrow> rounding \<Rightarrow> pair_infos \<Rightarrow> (string \<rightharpoonup> TradingPair) \<Rightarrow> 'd \<Rightarrow>
     (BookDiffSnapshot option \<times> pair_infos) result" where
  "binance_diff_try sj rnd pairs pairs_reverse doc =
     (let d0 = BookDiffSnapshot_default
      in case field_uint64 sj doc ''U'' of
           None \<Rightarrow> Inr (Some d0, pairs)
         | Some first_id \<Rightarrow>
             let d1 = d0\<lparr>bd_first_id := first_id\<rparr>
             in case field_uint64 sj doc ''u'' of
                  None \<Rightarrow> Inr (Some d1, pairs)
                | Some last_id \<Rightarrow>
                    let d2 = d1\<lparr>bd_last_id := last_id\<rparr>
                    in case (case sj_field sj doc ''pu'' of
                               None \<Rightarrow> Some d2
                             | Some v \<Rightarrow> map_option (\<lambda>prev. d2\<lparr>bd_prev_id := prev\<rparr>) (sj_uint64 sj v)) of
                         None \<Rightarrow> Inr (Some d2, pairs)
                       | Some d3 \<Rightarrow>
                           (case Option.bind (field_string sj doc ''s'') pairs_reverse of
                              None \<Rightarrow> Inr (None, pairs)
                            | Some tp \<Rightarrow>
                                bind_result (parse_sides sj rnd (info_of pairs tp) doc ''b'' ''a'')
                                  (\<lambda>(bids, asks).
                                    Inr (Some (d3\<lparr>bd_trading_pair := tp, bd_bids := bids, bd_asks := asks\<rparr>),
                                         touch_info tp pairs))))"

definition binance_diff_Parse ::
    "'d simdjson \<Rightarrow> rounding \<Rightarrow> pair_infos \<Rightarrow> (string \<rightharpoonup> TradingPair) \<Rightarrow> 'd \<Rightarrow> (BookDiffSnapshot \<times> pair_infos) result" where
  "binance_diff_Parse sj rnd pairs pairs_reverse doc =
     bind_result (binance_diff_try sj rnd pairs pairs_reverse doc) (\<lambda>(d, pairs').
       Inr (case d of None \<Rightarrow> BookDiffSnapshot_default | Some x \<Rightarrow> x\<lparr>bd_exchange_id := kBinance\<rparr>, pairs'))"

text \<open>The overload for a text has the same body behind \<open>iterate\<close>.\<close>

definition binance_diff_Parse_text ::
    "'d simdjson \<Rightarrow> rounding \<Rightarrow> pair_infos \<Rightarrow> (string \<rightharpoonup> TradingPair) \<Rightarrow> string \<Rightarrow> (BookDiffSnapshot \<times> pair_infos) result" where
  "binance_diff_Parse_text sj rnd pairs pairs_reverse response =
     (case sj_iterate sj response of
        None \<Rightarrow> Inl Uncaught
      | Some doc \<Rightarrow> binance_diff_Parse sj rnd pairs pairs_reverse doc)"

definition MEClientResponse_default :: MEClientResponse where
  "MEClientResponse_default =
     \<lparr>cr_exchange_id = kExchangeIdInvalid, cr_type = RESP_INVALID, cr_trading_pair = \<lparr>tp_first = 0, tp_second = 0\<rparr>,
      cr_order_id = kOrderIdInvalid, cr_side = kSideInvalid, cr_price = kPriceInvalid, cr_exec_qty = kQtyInvalid,
      cr_leaves_qty = kQtyInvalid\<rparr>"

text \<open>\<open>FamilyLimitOrder::ParserResponse::Parse\<close>.  For a filled order the price is taken from
  \<open>cummulativeQuoteQty\<close>.\<close>

definition binance_limit_quantities ::
    "'d simdjson \<Rightarrow> rounding \<Rightarrow> rat \<Rightarrow> 'd \<Rightarrow> MEClientResponse \<Rightarrow> MEClientResponse result" where
  "binance_limit_quantities sj rnd qp doc out =
     (case field_double sj doc ''executedQty'' of
        None \<Rightarrow> Inr MEClientResponse_default
      | Some executed \<Rightarrow>
          bind_result (cast_u64 (fmul rnd executed qp)) (\<lambda>exec_qty.
            let out1 = out\<lparr>cr_exec_qty := exec_qty\<rparr>
            in case field_double sj doc ''origQty'' of
                 None \<Rightarrow> Inr (out1\<lparr>cr_exchange_id := kBinance\<rparr>)
               | Some orig \<Rightarrow>
                   bind_result (cast_u64 (fmul rnd (fsub rnd orig executed) qp)) (\<lambda>leaves.
                     Inr (out1\<lparr>cr_leaves_qty := leaves, cr_exchange_id := kBinance\<rparr>))))"

definition side_of_string :: "string option \<Rightarrow> Side \<Rightarrow> Side" where
  "side_of_string side old =
     (case side of
        None \<Rightarrow> old
      | Some s \<Rightarrow> if s = ''BUY'' then kAsk else if s = ''SELL'' then kBid else old)"

definition binance_limit_Parse ::
    "'d simdjson \<Rightarrow> rounding \<Rightarrow> pair_infos \<Rightarrow> (string \<rightharpoonup> TradingPair) \<Rightarrow> string \<Rightarrow> (MEClientResponse \<times> pair_infos) result" where
  "binance_limit_Parse sj rnd pairs pairs_reverse response =
     (case sj_iterate sj response of
        None \<Rightarrow> Inl Uncaught
      | Some doc \<Rightarrow>
          (case Option.bind (field_string sj doc ''symbol'') pairs_reverse of
             None \<Rightarrow> Inr (MEClientResponse_default, pairs)
           | Some tp \<Rightarrow>
               let out = MEClientResponse_default\<lparr>cr_trading_pair := tp\<rparr>; info = info_of pairs tp
               in case Option.bind (sj_field sj doc ''clientOrderId'') (sj_uint64_in_string sj) of
                    None \<Rightarrow> Inr (out\<lparr>cr_exchange_id := kBinance\<rparr>, pairs)
                  | Some order_id \<Rightarrow>
                      (case field_string sj doc ''status'' of
                         None \<Rightarrow> Inr (MEClientResponse_default, pairs)
                       | Some status \<Rightarrow>
                           if status \<notin> {''NEW'', ''PARTIALLY_FILLED'', ''FILLED''}
                           then Inr (MEClientResponse_default, pairs)
                           else case field_double sj doc (if status = ''NEW'' then ''price'' else ''cummulativeQuoteQty'') of
                                  None \<Rightarrow> Inr (MEClientResponse_default, pairs)
                                | Some price \<Rightarrow>
                                    bind_result (cast_u64 (fmul rnd price (pow10 rnd (price_precission info)))) (\<lambda>p.
                                    bind_result (binance_limit_quantities sj rnd (pow10 rnd (qty_precission info)) doc
                                      (out\<lparr>cr_order_id := order_id,
                                           cr_type := (if status = ''NEW'' then ACCEPTED else FILLED), cr_price := p,
                                           cr_side := side_of_string (field_string sj doc ''side'') (cr_side out)\<rparr>)) (\<lambda>r.
                                    Inr (r, touch_info tp pairs))))))"

text \<open>\<open>FamilyCancelOrder::ParserResponse::Parse\<close>.\<close>

definition binance_cancel_Parse ::
    "'d simdjson \<Rightarrow> (string \<rightharpoonup> TradingPair) \<Rightarrow> string \<Rightarrow> MEClientResponse result" where
  "binance_cancel_Parse sj pairs_reverse response =
     (case sj_iterate sj response of
        None \<Rightarrow> Inl Uncaught
      | Some doc \<Rightarrow>
          (case Option.bind (sj_field sj doc ''origClientOrderId'') (sj_uint64_in_string sj) of
             None \<Rightarrow> Inr (MEClientResponse_default\<lparr>cr_exchange_id := kBinance\<rparr>)
           | Some order_id \<Rightarrow>
               if field_string sj doc ''status'' \<noteq> Some ''CANCELED'' then Inr MEClientResponse_default
               else case Option.bind (field_string sj doc ''symbol'') pairs_reverse of
                      None \<Rightarrow> Inr MEClientResponse_default
                    | Some tp \<Rightarrow>
                        Inr (MEClientResponse_default\<lparr>cr_order_id := order_id, cr_type := CANCELED,
                               cr_trading_pair := tp, cr_exchange_id := kBinance\<rparr>)))"

section \<open>Answers to requests\<close>

datatype ResponseType =
  kSnapshot | kDepthUpdate | kApiResponse | kErrorResponse | kNonQueryResponse | kUnknown

datatype ApiResponseStatus = kSuccess | kError

record ApiResponseData =
  ar_status :: ApiResponseStatus
  ar_id :: request_id

definition ApiResponseData_default :: ApiResponseData where
  "ApiResponseData_default = \<lparr>ar_status = kError, ar_id = IdInt 0\<rparr>"

text \<open>The id of an answer: a string or an integer; other numbers are only logged.\<close>

definition parse_id :: "'d simdjson \<Rightarrow> 'd option \<Rightarrow> ApiResponseData \<Rightarrow> ApiResponseData result" where
  "parse_id sj field data =
     (case field of
        None \<Rightarrow> Inr data
      | Some v \<Rightarrow>
          if sj_type sj v = TString
          then Inr (case sj_string sj v of None \<Rightarrow> data | Some s \<Rightarrow> data\<lparr>ar_id := IdString s\<rparr>)
          else if sj_type sj v = TNumber
          then (case sj_number sj v of
                  None \<Rightarrow> Inl Uncaught
                | Some (NSigned i) \<Rightarrow> Inr (data\<lparr>ar_id := IdInt i\<rparr>)
                | Some (NUnsigned n) \<Rightarrow> Inr (data\<lparr>ar_id := IdNat n\<rparr>)
                | Some _ \<Rightarrow> Inr data)
          else Inr data)"

definition binance_ApiResponse_Parse :: "'d simdjson \<Rightarrow> 'd \<Rightarrow> ApiResponseData result" where
  "binance_ApiResponse_Parse sj doc =
     (case sj_field sj doc ''result'' of
        None \<Rightarrow> Inr ApiResponseData_default
      | Some r \<Rightarrow>
          parse_id sj (sj_field sj doc ''id'')
            (if sj_type sj r = TNull then ApiResponseData_default\<lparr>ar_status := kSuccess\<rparr> else ApiResponseData_default))"

definition bybit_ApiResponse_Parse :: "'d simdjson \<Rightarrow> 'd \<Rightarrow> ApiResponseData result" where
  "bybit_ApiResponse_Parse sj doc =
     parse_id sj (sj_field sj doc ''req_id'')
       (case sj_field sj doc ''success'' of
          None \<Rightarrow> ApiResponseData_default
        | Some v \<Rightarrow>
            if sj_type sj v = TBoolean
            then (case sj_bool sj v of
                    None \<Rightarrow> ApiResponseData_default
                  | Some b \<Rightarrow> ApiResponseData_default\<lparr>ar_status := (if b then kSuccess else kError)\<rparr>)
            else ApiResponseData_default)"

section \<open>Parser managers\<close>

datatype ParsedData = PDiff BookDiffSnapshot | PSnapshot BookSnapshot | PApi ApiResponseData

text \<open>A default constructed \<open>ParsedData\<close> holds the first alternative.\<close>

definition ParsedData_default :: ParsedData where
  "ParsedData_default = PDiff BookDiffSnapshot_default"

type_synonym 'd parse_handler = "pair_infos \<Rightarrow> 'd \<Rightarrow> (ParsedData \<times> pair_infos) result"

type_synonym 'd ParserManager = "ResponseType \<rightharpoonup> 'd parse_handler"

definition RegisterHandler :: "ResponseType \<Rightarrow> 'd parse_handler \<Rightarrow> 'd ParserManager \<Rightarrow> 'd ParserManager" where
  "RegisterHandler type handler handlers = handlers(type \<mapsto> handler)"

definition is_text :: "'d simdjson \<Rightarrow> 'd \<Rightarrow> string \<Rightarrow> string \<Rightarrow> bool" where
  "is_text sj doc key text \<longleftrightarrow>
     (case sj_field sj doc key of None \<Rightarrow> False | Some v \<Rightarrow> sj_type sj v = TString \<and> sj_string sj v = Some text)"

definition has_type :: "'d simdjson \<Rightarrow> 'd \<Rightarrow> string \<Rightarrow> json_type \<Rightarrow> bool" where
  "has_type sj doc key t \<longleftrightarrow> (case sj_field sj doc key of None \<Rightarrow> False | Some v \<Rightarrow> sj_type sj v = t)"

definition binance_DetermineType :: "'d simdjson \<Rightarrow> 'd \<Rightarrow> ResponseType" where
  "binance_DetermineType sj doc =
     (if is_text sj doc ''e'' ''depthUpdate'' then kDepthUpdate
      else if has_type sj doc ''code'' TNumber \<and> has_type sj doc ''msg'' TString then kErrorResponse
      else if sj_field sj doc ''result'' \<noteq> None then kNonQueryResponse
      else kUnknown)"

definition bybit_DetermineType :: "'d simdjson \<Rightarrow> 'd \<Rightarrow> ResponseType" where
  "bybit_DetermineType sj doc =
     (if is_text sj doc ''type'' ''delta'' then kDepthUpdate
      else if is_text sj doc ''type'' ''snapshot'' then kSnapshot
      else if sj_field sj doc ''success'' \<noteq> None then kNonQueryResponse
      else kUnknown)"

text \<open>\<open>ParserManager::Parse\<close>, for the \<open>DetermineType\<close> of the exchange.\<close>

definition ParserManager_Parse ::
    "'d simdjson \<Rightarrow> ('d \<Rightarrow> ResponseType) \<Rightarrow> 'd ParserManager \<Rightarrow> pair_infos \<Rightarrow> string \<Rightarrow> (ParsedData \<times> pair_infos) result" where
  "ParserManager_Parse sj determine handlers pairs response =
     (case sj_iterate sj response of
        None \<Rightarrow> Inl Uncaught
      | Some doc \<Rightarrow>
          (case handlers (determine doc) of
             None \<Rightarrow> Inr (ParsedData_default, pairs)
           | Some handler \<Rightarrow> handler pairs doc))"

definition binance_InitParserManager ::
    "'d simdjson \<Rightarrow> rounding \<Rightarrow> (string \<rightharpoonup> TradingPair) \<Rightarrow> 'd ParserManager" where
  "binance_InitParserManager sj rnd pairs_reverse =
     RegisterHandler kDepthUpdate
       (\<lambda>pairs doc. bind_result (binance_diff_Parse sj rnd pairs pairs_reverse doc) (\<lambda>(d, ps). Inr (PDiff d, ps)))
     (RegisterHandler kNonQueryResponse
       (\<lambda>pairs doc. bind_result (binance_ApiResponse_Parse sj doc) (\<lambda>r. Inr (PApi r, pairs)))
      Map.empty)"

section \<open>Bybit\<close>

definition IsSnapshot :: "string \<Rightarrow> bool" where
  "IsSnapshot type \<longleftrightarrow> type = ''snapshot''"

definition IsDelta :: "string \<Rightarrow> bool" where
  "IsDelta type \<longleftrightarrow> type = ''delta''"

definition IsValidType :: "string \<Rightarrow> bool" where
  "IsValidType type \<longleftrightarrow> type = ''snapshot'' \<or> type = ''delta''"

definition bybit_snapshot_Parse ::
    "'d simdjson \<Rightarrow> rounding \<Rightarrow> TradingPairInfo \<Rightarrow> string \<Rightarrow> BookSnapshot result" where
  "bybit_snapshot_Parse sj rnd info response =
     (let empty = BookSnapshot_default \<lparr>tp_first = 0, tp_second = 0\<rparr>
      in case sj_iterate sj response of
           None \<Rightarrow> Inl Uncaught
         | Some doc \<Rightarrow>
             bind_result
               (case field_uint64 sj doc ''lastUpdateId'' of
                  None \<Rightarrow> Inr empty
                | Some u \<Rightarrow>
                    bind_result (parse_sides sj rnd info doc ''bids'' ''asks'')
                      (\<lambda>(bids, asks). Inr (empty\<lparr>bs_lastUpdateId := u, bs_bids := bids, bs_asks := asks\<rparr>)))
               (\<lambda>s. Inr (s\<lparr>bs_exchange_id := kBybit\<rparr>)))"

text \<open>The numbers of a level: at most two are read, and the loop ends at the first that is not a number.\<close>

fun two_numbers :: "'d simdjson \<Rightarrow> 'd option list \<Rightarrow> rat list \<Rightarrow> rat list" where
  "two_numbers sj [] pair = pair"
| "two_numbers sj (number # rest) pair =
     (if length pair \<ge> 2 then pair
      else case Option.bind number (sj_double_in_string sj) of
             None \<Rightarrow> pair
           | Some x \<Rightarrow> two_numbers sj rest (pair @ [x]))"

text \<open>The two loops; \<open>strict\<close> says that a level that is no array throws (the bids) and is not skipped
  (the asks).  A level with fewer than two numbers is skipped.\<close>

fun bybit_levels ::
    "'d simdjson \<Rightarrow> rounding \<Rightarrow> rat \<Rightarrow> rat \<Rightarrow> bool \<Rightarrow> 'd option list \<Rightarrow> BookSnapshotElem list \<Rightarrow>
     BookSnapshotElem list option result" where
  "bybit_levels sj rnd pp qp strict [] acc = Inr (Some acc)"
| "bybit_levels sj rnd pp qp strict (level # levels) acc =
     (case Option.bind level (sj_array sj) of
        None \<Rightarrow> if strict then Inr None else bybit_levels sj rnd pp qp strict levels acc
      | Some numbers \<Rightarrow>
          (case two_numbers sj numbers [] of
             [price, qty] \<Rightarrow>
               bind_result (make_level rnd pp qp price qty)
                 (\<lambda>l. bybit_levels sj rnd pp qp strict levels (acc @ [l]))
           | _ \<Rightarrow> bybit_levels sj rnd pp qp strict levels acc))"

text \<open>One side; \<open>None\<close> when a \<open>simdjson_error\<close> leaves it.\<close>

definition bybit_side ::
    "'d simdjson \<Rightarrow> rounding \<Rightarrow> rat \<Rightarrow> rat \<Rightarrow> bool \<Rightarrow> 'd \<Rightarrow> string \<Rightarrow> BookSnapshotElem list option result" where
  "bybit_side sj rnd pp qp strict data key =
     (case sj_field sj data key of
        None \<Rightarrow> Inr (Some [])
      | Some v \<Rightarrow>
          (case sj_array sj v of
             None \<Rightarrow> Inr None
           | Some levels \<Rightarrow> bybit_levels sj rnd pp qp strict levels []))"

datatype ResponseVariant = VSnapshot BookSnapshot | VDiff BookDiffSnapshot

definition ResponseVariant_default :: ResponseVariant where
  "ResponseVariant_default = VSnapshot (BookSnapshot_default \<lparr>tp_first = 0, tp_second = 0\<rparr>)"

definition bybit_build ::
    "string \<Rightarrow> TradingPair \<Rightarrow> u64 \<Rightarrow> BookSnapshotElem list \<Rightarrow> BookSnapshotElem list \<Rightarrow> ResponseVariant" where
  "bybit_build type tp u bids asks =
     (if IsSnapshot type
      then VSnapshot \<lparr>bs_exchange_id = kBybit, bs_trading_pair = tp, bs_bids = bids, bs_asks = asks, bs_lastUpdateId = u\<rparr>
      else VDiff (BookDiffSnapshot_default\<lparr>bd_exchange_id := kBybit, bd_trading_pair := tp, bd_bids := bids,
                    bd_asks := asks, bd_last_id := u\<rparr>))"

definition bybit_book_Parse ::
    "'d simdjson \<Rightarrow> rounding \<Rightarrow> pair_infos \<Rightarrow> (string \<rightharpoonup> TradingPair) \<Rightarrow> 'd \<Rightarrow> (ResponseVariant \<times> pair_infos) result" where
  "bybit_book_Parse sj rnd pairs pairs_reverse doc =
     (case sj_field sj doc ''data'' of
        None \<Rightarrow> Inr (ResponseVariant_default, pairs)
      | Some data \<Rightarrow>
          (case field_string sj doc ''type'' of
             None \<Rightarrow> Inr (ResponseVariant_default, pairs)
           | Some type \<Rightarrow>
               if \<not> IsValidType type then Inr (ResponseVariant_default, pairs)
               else case Option.bind (field_string sj data ''s'') pairs_reverse of
                      None \<Rightarrow> Inr (ResponseVariant_default, pairs)
                    | Some tp \<Rightarrow>
                        let info = info_of pairs tp; pairs' = touch_info tp pairs;
                            pp = pow10 rnd (price_precission info); qp = pow10 rnd (qty_precission info)
                        in bind_result (bybit_side sj rnd pp qp True data ''b'') (\<lambda>b.
                             case b of
                               None \<Rightarrow> Inr (ResponseVariant_default, pairs')
                             | Some bids \<Rightarrow>
                                 bind_result (bybit_side sj rnd pp qp False data ''a'') (\<lambda>a.
                                   case a of
                                     None \<Rightarrow> Inr (ResponseVariant_default, pairs')
                                   | Some asks \<Rightarrow>
                                       Inr (case field_uint64 sj data ''u'' of
                                              None \<Rightarrow> ResponseVariant_default
                                            | Some u \<Rightarrow> bybit_build type tp u bids asks, pairs')))))"

definition bybit_book_Parse_text ::
    "'d simdjson \<Rightarrow> rounding \<Rightarrow> pair_infos \<Rightarrow> (string \<rightharpoonup> TradingPair) \<Rightarrow> string \<Rightarrow> (ResponseVariant \<times> pair_infos) result" where
  "bybit_book_Parse_text sj rnd pairs pairs_reverse response =
     (case sj_iterate sj response of
        None \<Rightarrow> Inl Uncaught
      | Some doc \<Rightarrow> bybit_book_Parse sj rnd pairs pairs_reverse doc)"

text \<open>\<open>std::get\<close> throws when the variant holds the other alternative.\<close>

fun get_diff :: "ResponseVariant \<Rightarrow> ParsedData result" where
  "get_diff (VDiff d) = Inr (PDiff d)"
| "get_diff (VSnapshot s) = Inl Uncaught"

fun get_snapshot :: "ResponseVariant \<Rightarrow> ParsedData result" where
  "get_snapshot (VSnapshot s) = Inr (PSnapshot s)"
| "get_snapshot (VDiff d) = Inl Uncaught"

definition bybit_InitParserManager ::
    "'d simdjson \<Rightarrow> rounding \<Rightarrow> (string \<rightharpoonup> TradingPair) \<Rightarrow> 'd ParserManager" where
  "bybit_InitParserManager sj rnd pairs_reverse =
     (let book = (\<lambda>get pairs doc. bind_result (bybit_book_Parse sj rnd pairs pairs_reverse doc) (\<lambda>(v, ps).
            bind_result (get v) (\<lambda>d. Inr (d, ps))))
      in RegisterHandler kSnapshot (book get_snapshot)
        (RegisterHandler kDepthUpdate (book get_diff)
        (RegisterHandler kNonQueryResponse
           (\<lambda>pairs doc. bind_result (bybit_ApiResponse_Parse sj doc) (\<lambda>r. Inr (PApi r, pairs)))
         Map.empty)))"

section \<open>Handlers of the responses\<close>

text \<open>The pools of a \<open>BookEventGetterComponent\<close> and what was sent from it.\<close>

record event_getter =
  eg_book_diff_pool :: MemoryPool
  eg_bus_event_diff_pool :: MemoryPool
  eg_snapshot_pool :: MemoryPool
  eg_bus_event_snapshot_pool :: MemoryPool
  eg_sent_diff :: "BookDiffSnapshot2 option option list"
  eg_sent_snapshot :: "BookSnapshot2 option option list"

definition send_diff :: "BookDiffSnapshot2 \<Rightarrow> event_getter \<Rightarrow> event_getter" where
  "send_diff d g =
     (let (sent, p1, p2) = send_pooled d (eg_book_diff_pool g) (eg_bus_event_diff_pool g)
      in g\<lparr>eg_book_diff_pool := p1, eg_bus_event_diff_pool := p2, eg_sent_diff := eg_sent_diff g @ [sent]\<rparr>)"

definition ProcessBookDiffSnapshot :: "BookDiffSnapshot \<Rightarrow> event_getter \<Rightarrow> event_getter" where
  "ProcessBookDiffSnapshot d g =
     send_diff \<lparr>bd2_exchange_id = bd_exchange_id d, bd2_trading_pair = bd_trading_pair d, bd2_bids = bd_bids d,
       bd2_asks = bd_asks d, bd2_first_id = bd_first_id d, bd2_last_id = bd_last_id d, bd2_prev_id = bd_prev_id d\<rparr> g"

definition bybit_ProcessBookDiffSnapshot :: "BookDiffSnapshot \<Rightarrow> event_getter \<Rightarrow> event_getter" where
  "bybit_ProcessBookDiffSnapshot d g =
     send_diff (BookDiffSnapshot2_spot (bd_exchange_id d) (bd_trading_pair d) (bd_bids d) (bd_asks d)
       (bd_first_id d) (bd_last_id d)) g"

definition snapshot2_of :: "BookSnapshot \<Rightarrow> BookSnapshot2" where
  "snapshot2_of s =
     \<lparr>bs2_exchange_id = bs_exchange_id s, bs2_trading_pair = bs_trading_pair s, bs2_bids = bs_bids s,
      bs2_asks = bs_asks s, bs2_lastUpdateId = bs_lastUpdateId s\<rparr>"

definition ProcessBookSnapshot :: "BookSnapshot \<Rightarrow> event_getter \<Rightarrow> event_getter" where
  "ProcessBookSnapshot s g =
     (let (sent, p1, p2) = send_pooled (snapshot2_of s) (eg_snapshot_pool g) (eg_bus_event_snapshot_pool g)
      in g\<lparr>eg_snapshot_pool := p1, eg_bus_event_snapshot_pool := p2, eg_sent_snapshot := eg_sent_snapshot g @ [sent]\<rparr>)"

text \<open>\<open>BookEventGetterComponentCallbackHandler::HandleResponse\<close> of Binance: its \<open>ParsedData\<close> has no snapshot.\<close>

definition binance_HandleResponse ::
    "'d simdjson \<Rightarrow> 'd ParserManager \<Rightarrow> string \<Rightarrow> pair_infos \<times> event_getter \<Rightarrow> (pair_infos \<times> event_getter) result" where
  "binance_HandleResponse sj handlers response st =
     bind_result (ParserManager_Parse sj (binance_DetermineType sj) handlers (fst st) response) (\<lambda>(answer, pairs).
       Inr (pairs, case answer of PDiff d \<Rightarrow> ProcessBookDiffSnapshot d (snd st) | _ \<Rightarrow> snd st))"

text \<open>\<open>OrderBookWebSocketResponseHandler::HandleResponse\<close> of Bybit.\<close>

definition bybit_HandleResponse ::
    "'d simdjson \<Rightarrow> 'd ParserManager \<Rightarrow> string \<Rightarrow> pair_infos \<times> event_getter \<Rightarrow> (pair_infos \<times> event_getter) result" where
  "bybit_HandleResponse sj handlers response st =
     bind_result (ParserManager_Parse sj (bybit_DetermineType sj) handlers (fst st) response) (\<lambda>(answer, pairs).
       Inr (pairs, case answer of
                     PDiff d \<Rightarrow> bybit_ProcessBookDiffSnapshot d (snd st)
                   | PSnapshot s \<Rightarrow> ProcessBookSnapshot s (snd st)
                   | PApi _ \<Rightarrow> snd st))"

text \<open>\<open>BookSnapsotCallbackHandler::HandleResponse\<close> of Binance, on the pools of the snapshot component.\<close>

definition binance_snapshot_HandleResponse ::
    "'d simdjson \<Rightarrow> rounding \<Rightarrow> pair_infos \<Rightarrow> string \<Rightarrow> TradingPair \<Rightarrow> event_getter \<Rightarrow> event_getter result" where
  "binance_snapshot_HandleResponse sj rnd pairs result tp g =
     bind_result (binance_snapshot_Parse sj rnd pairs result tp) (\<lambda>s. Inr (ProcessBookSnapshot s g))"

end
