(* ===== verification/Parsers_Props.thy ===== *)
theory Parsers_Props
  imports Parsers
begin

text \<open>
  What the parsers make of messages: levels within a tick, the values that are lost or undefined, and
  what happens to messages with errors.
\<close>

section \<open>An instance of the JSON operations\<close>

text \<open>Documents as trees; \<open>JDecimal\<close> is a string that holds a decimal number.\<close>

datatype json =
    JObject "(string \<times> json) list"
  | JArray "json list"
  | JString string
  | JDecimal rat
  | JUInt u64
  | JBool bool
  | JNull

fun json_type_of :: "json \<Rightarrow> json_type" where
  "json_type_of (JObject _) = TObject"
| "json_type_of (JArray _) = TArray"
| "json_type_of (JString _) = TString"
| "json_type_of (JDecimal _) = TString"
| "json_type_of (JUInt _) = TNumber"
| "json_type_of (JBool _) = TBoolean"
| "json_type_of JNull = TNull"

definition json_ops :: "rounding \<Rightarrow> (string \<rightharpoonup> json) \<Rightarrow> json simdjson" where
  "json_ops rnd texts =
     \<lparr>sj_iterate = texts,
      sj_field = (\<lambda>d k. case d of JObject fs \<Rightarrow> map_of fs k | _ \<Rightarrow> None),
      sj_type = json_type_of,
      sj_uint64 = (\<lambda>d. case d of JUInt n \<Rightarrow> Some n | _ \<Rightarrow> None),
      sj_uint64_in_string = (\<lambda>d. case d of JDecimal x \<Rightarrow> Some (word_of_int \<lfloor>x\<rfloor>) | _ \<Rightarrow> None),
      sj_double_in_string = (\<lambda>d. case d of JDecimal x \<Rightarrow> Some (rnd x) | _ \<Rightarrow> None),
      sj_string = (\<lambda>d. case d of JString s \<Rightarrow> Some s | _ \<Rightarrow> None),
      sj_bool = (\<lambda>d. case d of JBool b \<Rightarrow> Some b | _ \<Rightarrow> None),
      sj_number = (\<lambda>d. case d of JUInt n \<Rightarrow> Some (NUnsigned n) | _ \<Rightarrow> None),
      sj_array = (\<lambda>d. case d of JArray xs \<Rightarrow> Some (List.map Some xs) | _ \<Rightarrow> None)\<rparr>"

section \<open>Levels within a tick\<close>

text \<open>A number of ticks read from a decimal string: the number, or one less.\<close>

definition near_tick :: "nat \<Rightarrow> u64 \<Rightarrow> bool" where
  "near_tick n w \<longleftrightarrow> unat w = n \<or> Suc (unat w) = n"

text \<open>A level of a message: two strings that hold \<open>n\<close> price ticks and \<open>m\<close> quantity ticks.\<close>

definition level_doc :: "'d simdjson \<Rightarrow> rounding \<Rightarrow> TradingPairInfo \<Rightarrow> 'd \<Rightarrow> nat \<times> nat \<Rightarrow> bool" where
  "level_doc sj rnd info v nm \<longleftrightarrow>
     fst nm < 2 ^ 31 \<and> snd nm < 2 ^ 31 \<and>
     (\<exists>a b. sj_array sj v = Some [Some a, Some b] \<and>
        sj_double_in_string sj a = Some (rnd (of_nat (fst nm) / 10 ^ unat (price_precission info))) \<and>
        sj_double_in_string sj b = Some (rnd (of_nat (snd nm) / 10 ^ unat (qty_precission info))))"

definition side_doc :: "'d simdjson \<Rightarrow> rounding \<Rightarrow> TradingPairInfo \<Rightarrow> 'd \<Rightarrow> string \<Rightarrow> (nat \<times> nat) list \<Rightarrow> bool" where
  "side_doc sj rnd info doc key nms \<longleftrightarrow>
     (\<exists>v vs. sj_field sj doc key = Some v \<and> sj_array sj v = Some (List.map Some vs) \<and>
        list_all2 (level_doc sj rnd info) vs nms)"

definition near_level :: "BookSnapshotElem \<Rightarrow> nat \<times> nat \<Rightarrow> bool" where
  "near_level l nm \<longleftrightarrow> near_tick (fst nm) (bse_price l) \<and> near_tick (snd nm) (bse_qty l)"

definition precisions_ok :: "TradingPairInfo \<Rightarrow> bool" where
  "precisions_ok info \<longleftrightarrow> price_precission info \<le> 15 \<and> qty_precission info \<le> 15"

lemma pow10_exact:
  assumes "nearest_rounding rnd" and "p \<le> 15"
  shows "pow10 rnd p = 10 ^ unat p"
proof -
  have "unat p \<le> 15" using assms(2) by (simp add: word_le_nat_alt)
  then have "(10 :: int) ^ unat p \<le> 10 ^ 15" by (intro power_increasing) simp_all
  then have "\<bar>(10 :: int) ^ unat p\<bar> \<le> 2 ^ 53" by simp
  from ieee_int [OF nearest_ieee [OF assms(1)] this] show ?thesis by (simp add: pow10_def)
qed

lemma unat_word_of_int: "0 \<le> t \<Longrightarrow> t < 2 ^ 64 \<Longrightarrow> unat (word_of_int t :: u64) = nat t"
  by (simp add: unat_eq_nat_uint uint_word_of_int)

lemma cast_int_tick:
  assumes "nearest_rounding rnd" and "n < 2 ^ 31"
  shows "\<exists>t. cast_int (fmul rnd (rnd (of_nat n / 10 ^ p)) (10 ^ p)) = Inr t \<and> near_tick n (word_of_int t)"
proof -
  let ?t = "truncate_rat (fmul rnd (rnd (of_nat n / 10 ^ p)) (10 ^ p))"
  have t: "?t \<in> {int n - 1, int n}" "0 \<le> ?t"
    using ticks_truncated [OF assms(1), of n p] assms(2) by simp_all
  then have "fits_int32 ?t" using assms(2) by (auto simp: fits_int32_def)
  moreover have "unat (word_of_int ?t :: u64) = nat ?t"
    using t assms(2) by (intro unat_word_of_int) auto
  then have "near_tick n (word_of_int ?t)" using t by (auto simp: near_tick_def)
  ultimately show ?thesis by (simp add: cast_int_def)
qed

lemma make_level_near:
  assumes "nearest_rounding rnd" and "precisions_ok info" and "n < 2 ^ 31" "m < 2 ^ 31"
  shows "\<exists>l. make_level rnd (pow10 rnd (price_precission info)) (pow10 rnd (qty_precission info))
       (rnd (of_nat n / 10 ^ unat (price_precission info))) (rnd (of_nat m / 10 ^ unat (qty_precission info))) = Inr l \<and>
     near_level l (n, m)"
  using cast_int_tick [OF assms(1,3), of "unat (price_precission info)"]
    cast_int_tick [OF assms(1,4), of "unat (qty_precission info)"] assms(2)
  by (auto simp: make_level_def near_level_def precisions_ok_def pow10_exact [OF assms(1)])

lemma parse_levels_near:
  assumes "nearest_rounding rnd" and "precisions_ok info" and "list_all2 (level_doc sj rnd info) vs nms"
  shows "\<exists>ls. parse_levels sj rnd (pow10 rnd (price_precission info)) (pow10 rnd (qty_precission info))
       (List.map Some vs) acc = Inr (Done (acc @ ls)) \<and> list_all2 near_level ls nms"
  using assms(3)
proof (induction vs nms arbitrary: acc rule: list_all2_induct)
  case Nil
  then show ?case by simp
next
  case (Cons v vs nm nms)
  obtain n m where nm: "nm = (n, m)" by (cases nm)
  obtain a b where v: "sj_array sj v = Some [Some a, Some b]" "n < 2 ^ 31" "m < 2 ^ 31"
    "sj_double_in_string sj a = Some (rnd (of_nat n / 10 ^ unat (price_precission info)))"
    "sj_double_in_string sj b = Some (rnd (of_nat m / 10 ^ unat (qty_precission info)))"
    using Cons.hyps(1) by (auto simp: level_doc_def nm)
  obtain l where l: "make_level rnd (pow10 rnd (price_precission info)) (pow10 rnd (qty_precission info))
       (rnd (of_nat n / 10 ^ unat (price_precission info))) (rnd (of_nat m / 10 ^ unat (qty_precission info))) = Inr l"
    "near_level l (n, m)"
    using make_level_near [OF assms(1,2) v(2,3)] by blast
  obtain ls where "parse_levels sj rnd (pow10 rnd (price_precission info)) (pow10 rnd (qty_precission info))
       (List.map Some vs) (acc @ [l]) = Inr (Done ((acc @ [l]) @ ls))" "list_all2 near_level ls nms"
    using Cons.IH by blast
  then show ?case
    using v l by (intro exI [of _ "l # ls"]) (simp add: nm)
qed

lemma parse_side_near:
  assumes "nearest_rounding rnd" and "precisions_ok info" and "side_doc sj rnd info doc key nms"
  shows "\<exists>ls. parse_side sj rnd (pow10 rnd (price_precission info)) (pow10 rnd (qty_precission info)) doc key =
       Inr (Done ls) \<and> list_all2 near_level ls nms"
  using assms(3) parse_levels_near [OF assms(1,2), of sj _ nms "[]"] by (fastforce simp: side_doc_def parse_side_def)

lemma parse_sides_near:
  assumes "nearest_rounding rnd" and "precisions_ok info"
    and "side_doc sj rnd info doc bkey bns" and "side_doc sj rnd info doc akey ans"
  shows "\<exists>bids asks. parse_sides sj rnd info doc bkey akey = Inr (bids, asks) \<and>
     list_all2 near_level bids bns \<and> list_all2 near_level asks ans"
  using parse_side_near [OF assms(1,2,3)] parse_side_near [OF assms(1,2,4)] by (auto simp: parse_sides_def Let_def)


text \<open>An example: one bid of 10.29 (two digits) with quantity 3, and one ask.\<close>

definition demo_info :: TradingPairInfo where
  "demo_info = TradingPairInfo_zero\<lparr>price_precission := 2, qty_precission := 0\<rparr>"

definition demo_level :: "rat \<Rightarrow> rat \<Rightarrow> json" where
  "demo_level price qty = JArray [JDecimal price, JDecimal qty]"

definition demo_update :: "json list \<Rightarrow> json list \<Rightarrow> json" where
  "demo_update bids asks = JObject [(''e'', JString ''depthUpdate''), (''s'', JString ''BTCUSDT''), (''U'', JUInt 5), (''u'', JUInt 7),
     (''b'', JArray bids), (''a'', JArray asks)]"

definition demo_getter :: event_getter where
  "demo_getter = \<lparr>eg_book_diff_pool = MemoryPool_new Some 4, eg_bus_event_diff_pool = MemoryPool_new Some 4,
     eg_snapshot_pool = MemoryPool_new Some 4, eg_bus_event_snapshot_pool = MemoryPool_new Some 4,
     eg_sent_diff = [], eg_sent_snapshot = []\<rparr>"

lemma demo_getter_pools:
  "memory_suffices (eg_book_diff_pool demo_getter)" "memory_suffices (eg_bus_event_diff_pool demo_getter)"
  by (simp_all add: demo_getter_def memory_suffices_def MemoryPool_new_def)


section \<open>Values that are lost or undefined\<close>

text \<open>C35: a price can lose a tick.  With rounding to nearest the price string 0.29 with two digits
  becomes 28 ticks, because the product with 100 is just below 29 and the cast truncates.\<close>

theorem price_loses_tick:
  assumes rnd: "nearest_rounding rnd"
  shows "make_level rnd (pow10 rnd 2) (pow10 rnd 0) (rnd (29 / 100)) (rnd 1) = Inr \<lparr>bse_price = 28, bse_qty = 1\<rparr>"
proof -
  have r1: "rnd (29 / 100) = 5224175567749775 / 2 ^ 54"
    using nearest_value [OF rnd, of "29 / 100" 54 5224175567749775] by (simp add: power_int_minus divide_simps)
  have r2: "rnd (5224175567749775 / 2 ^ 54 * 100) = 8162774324609023 / 2 ^ 48"
    using nearest_value [OF rnd, of "5224175567749775 / 2 ^ 54 * 100" 48 8162774324609023]
    by (simp add: power_int_minus divide_simps)
  have p: "pow10 rnd 2 = 100" "pow10 rnd 0 = 1" using pow10_exact [OF rnd, of 2] pow10_exact [OF rnd, of 0] by simp_all
  have one: "rnd 1 = 1" using nearest_fix [OF rnd is_double_int [of 1]] by simp
  have "truncate_rat (8162774324609023 / 2 ^ 48) = 28" by (simp add: truncate_rat_def floor_eq_iff)
  then have "cast_int (fmul rnd (rnd (29 / 100)) 100) = Inr 28"
    by (simp only: cast_int_def fmul_def r1 r2) (simp add: fits_int32_def)
  moreover have "cast_int (fmul rnd 1 1) = Inr 1"
    by (simp add: cast_int_def fmul_def one truncate_rat_def fits_int32_def)
  ultimately show ?thesis by (simp add: make_level_def p one)
qed

theorem price_loses_tick_witness:
  "make_level nearest_double (pow10 nearest_double 2) (pow10 nearest_double 0) (nearest_double (29 / 100)) (nearest_double 1) =
     Inr \<lparr>bse_price = 28, bse_qty = 1\<rparr>"
  by (rule price_loses_tick [OF nearest_double_nearest])

text \<open>A quantity of more than \<open>2^31\<close> ticks is cast to \<open>int\<close> although it does not fit, which is
  undefined behaviour; with the eight digits of a bitcoin amount this is every quantity from 21.5 on.\<close>

theorem large_quantity_undefined:
  assumes rnd: "nearest_rounding rnd" and p: "precisions_ok info" and m: "2 ^ 31 < m" "m \<le> 2 ^ 50" and n: "n < 2 ^ 31"
  shows "make_level rnd (pow10 rnd (price_precission info)) (pow10 rnd (qty_precission info))
       (rnd (of_nat n / 10 ^ unat (price_precission info))) (rnd (of_nat m / 10 ^ unat (qty_precission info))) = Inl Undefined"
proof -
  let ?p = "unat (price_precission info)" and ?q = "unat (qty_precission info)"
  obtain t where t: "cast_int (fmul rnd (rnd (of_nat n / 10 ^ ?p)) (10 ^ ?p)) = Inr t"
    using cast_int_tick [OF rnd n] by blast
  have "int m - 1 \<le> truncate_rat (fmul rnd (rnd (of_nat m / 10 ^ ?q)) (10 ^ ?q))"
    using ticks_truncated [OF rnd m(2), of ?q] by auto
  then have "cast_int (fmul rnd (rnd (of_nat m / 10 ^ ?q)) (10 ^ ?q)) = Inl Undefined"
    using m(1) by (simp add: cast_int_def fits_int32_def)
  with t p show ?thesis by (simp add: make_level_def precisions_ok_def pow10_exact [OF rnd])
qed

theorem large_quantity_undefined_witness:
  "let info = TradingPairInfo_zero\<lparr>price_precission := 2, qty_precission := 8\<rparr>
   in make_level nearest_double (pow10 nearest_double (price_precission info)) (pow10 nearest_double (qty_precission info))
       (nearest_double (of_nat 10000 / 10 ^ unat (price_precission info)))
       (nearest_double (of_nat 2200000000 / 10 ^ unat (qty_precission info))) = Inl Undefined"
  unfolding Let_def by (rule large_quantity_undefined [OF nearest_double_nearest])
    (simp_all add: precisions_ok_def TradingPairInfo_zero_def)

text \<open>the price of a filled order.  For the statuses \<open>FILLED\<close> and \<open>PARTIALLY_FILLED\<close> the parser puts the
  total amount \<open>cummulativeQuoteQty\<close> into the price of the response, whatever quantity was executed:
  the response depends on \<open>price\<close> nowhere.\<close>

theorem filled_price_is_total:
  assumes "sj_iterate sj response = Some doc" and "field_string sj doc ''symbol'' = Some name" and "reverse name = Some tp"
    and "Option.bind (sj_field sj doc ''clientOrderId'') (sj_uint64_in_string sj) = Some oid"
    and "field_string sj doc ''status'' = Some status" and "status \<in> {''PARTIALLY_FILLED'', ''FILLED''}"
    and "field_double sj doc ''cummulativeQuoteQty'' = Some amount"
    and "cast_u64 (fmul rnd amount (pow10 rnd (price_precission (info_of pairs tp)))) = Inr w"
    and "field_double sj doc ''executedQty'' = Some executed"
    and "binance_limit_Parse sj rnd pairs reverse response = Inr (r, pairs')"
  shows "cr_type r = FILLED \<and> cr_price r = w \<and> cr_order_id r = oid \<and> cr_trading_pair r = tp \<and> cr_exchange_id r = kBinance"
proof -
  have "status \<noteq> ''NEW''" using assms(6) by auto
  then show ?thesis
    using assms
    by (auto simp: binance_limit_Parse_def binance_limit_quantities_def Let_def MEClientResponse_default_def
        bind_result_Inr_iff split: option.splits)
qed

text \<open>An example: two units bought at 100 each.\<close>

definition demo_fill :: json where
  "demo_fill = JObject [(''symbol'', JString ''BTCUSDT''), (''clientOrderId'', JDecimal 42), (''status'', JString ''FILLED''),
     (''price'', JDecimal 100), (''cummulativeQuoteQty'', JDecimal 200), (''executedQty'', JDecimal 2),
     (''origQty'', JDecimal 2), (''side'', JString ''BUY'')]"

theorem filled_price_is_total_witness:
  "let sj = json_ops (\<lambda>x. x) [''m'' \<mapsto> demo_fill];
       r = binance_limit_Parse sj (\<lambda>x. x) [demo_tp \<mapsto> demo_info] [''BTCUSDT'' \<mapsto> demo_tp] ''m''
   in \<exists>out. r = Inr (out, [demo_tp \<mapsto> demo_info]) \<and> cr_price out = 20000 \<and> cr_exec_qty out = 2 \<and> cr_leaves_qty out = 0"
proof -
  let ?sj = "json_ops (\<lambda>x. x) [''m'' \<mapsto> demo_fill]"
  have cast: "cast_u64 20000 = Inr 20000" "cast_u64 2 = Inr 2" "cast_u64 0 = Inr 0"
    by (simp_all add: cast_u64_def truncate_rat_def)
  have sj: "sj_iterate ?sj ''m'' = Some demo_fill" "field_string ?sj demo_fill ''symbol'' = Some ''BTCUSDT''"
    "Option.bind (sj_field ?sj demo_fill ''clientOrderId'') (sj_uint64_in_string ?sj) = Some 42"
    "field_string ?sj demo_fill ''status'' = Some ''FILLED''" "field_double ?sj demo_fill ''cummulativeQuoteQty'' = Some 200"
    "field_double ?sj demo_fill ''executedQty'' = Some 2" "field_double ?sj demo_fill ''origQty'' = Some 2"
    by (simp_all add: json_ops_def demo_fill_def field_string_def field_double_def)
  have info: "info_of [demo_tp \<mapsto> demo_info] demo_tp = demo_info" "price_precission demo_info = 2" "qty_precission demo_info = 0"
    by (simp_all add: info_of_def demo_info_def TradingPairInfo_zero_def)
  obtain out where out: "binance_limit_Parse ?sj (\<lambda>x. x) [demo_tp \<mapsto> demo_info] [''BTCUSDT'' \<mapsto> demo_tp] ''m'' =
      Inr (out, [demo_tp \<mapsto> demo_info])" "cr_exec_qty out = 2" "cr_leaves_qty out = 0"
    using sj cast by (simp add: binance_limit_Parse_def binance_limit_quantities_def info fmul_def fsub_def pow10_def touch_info_def)
  moreover have "cr_price out = 20000"
    using filled_price_is_total [OF sj(1,2) _ sj(3,4) _ sj(5) _ sj(6) out(1), of demo_tp 20000] cast
    by (simp add: info fmul_def pow10_def)
  ultimately show ?thesis by (simp add: Let_def)
qed

section \<open>Messages with errors\<close>

text \<open>The levels before a malformed one.\<close>

lemma parse_levels_threw:
  assumes "nearest_rounding rnd" and "precisions_ok info" and "list_all2 (level_doc sj rnd info) vs nms"
    and "Option.bind bad (sj_array sj) = None"
  shows "\<exists>ls. parse_levels sj rnd (pow10 rnd (price_precission info)) (pow10 rnd (qty_precission info))
       (List.map Some vs @ bad # rest) acc = Inr (Threw (acc @ ls)) \<and> list_all2 near_level ls nms"
  using assms(3)
proof (induction vs nms arbitrary: acc rule: list_all2_induct)
  case Nil
  then show ?case using assms(4) by simp
next
  case (Cons v vs nm nms)
  obtain n m where nm: "nm = (n, m)" by (cases nm)
  obtain a b where v: "sj_array sj v = Some [Some a, Some b]" "n < 2 ^ 31" "m < 2 ^ 31"
    "sj_double_in_string sj a = Some (rnd (of_nat n / 10 ^ unat (price_precission info)))"
    "sj_double_in_string sj b = Some (rnd (of_nat m / 10 ^ unat (qty_precission info)))"
    using Cons.hyps(1) by (auto simp: level_doc_def nm)
  obtain l where l: "make_level rnd (pow10 rnd (price_precission info)) (pow10 rnd (qty_precission info))
       (rnd (of_nat n / 10 ^ unat (price_precission info))) (rnd (of_nat m / 10 ^ unat (qty_precission info))) = Inr l"
    "near_level l (n, m)"
    using make_level_near [OF assms(1,2) v(2,3)] by blast
  obtain ls where "parse_levels sj rnd (pow10 rnd (price_precission info)) (pow10 rnd (qty_precission info))
       (List.map Some vs @ bad # rest) (acc @ [l]) = Inr (Threw ((acc @ [l]) @ ls))" "list_all2 near_level ls nms"
    using Cons.IH by blast
  then show ?case
    using v l by (intro exI [of _ "l # ls"]) (simp add: nm)
qed

text \<open>a malformed level cuts a depth update short.  When a bid of the message is no array, the
  error is caught and logged, and a diff with the full range of ids, but only with the bids before it
  and with no asks at all, is returned for the exchange as if it were complete.\<close>

theorem malformed_level_truncates:
  assumes rnd: "nearest_rounding rnd" and info: "precisions_ok info"
    and ids: "field_uint64 sj doc ''U'' = Some first_id" "field_uint64 sj doc ''u'' = Some last_id"
      "sj_field sj doc ''pu'' = None"
    and pair: "field_string sj doc ''s'' = Some name" "reverse name = Some tp" "pairs tp = Some info"
    and bids: "sj_field sj doc ''b'' = Some v" "sj_array sj v = Some (List.map Some vs @ bad # rest)"
      "list_all2 (level_doc sj rnd info) vs nms" "Option.bind bad (sj_array sj) = None"
  shows "\<exists>ls. binance_diff_Parse sj rnd pairs reverse doc =
       Inr (\<lparr>bd_exchange_id = kBinance, bd_trading_pair = tp, bd_bids = ls, bd_asks = [], bd_first_id = first_id,
             bd_last_id = last_id, bd_prev_id = - 1\<rparr>, pairs) \<and> list_all2 near_level ls nms"
proof -
  obtain ls where "parse_side sj rnd (pow10 rnd (price_precission info)) (pow10 rnd (qty_precission info)) doc ''b'' =
      Inr (Threw ls)" "list_all2 near_level ls nms"
    using parse_levels_threw [OF rnd info bids(3,4), of rest "[]"] bids(1,2) by (auto simp: parse_side_def)
  then show ?thesis
    using ids pair
    by (simp add: binance_diff_Parse_def binance_diff_try_def Let_def parse_sides_def info_of_def touch_info_def
        BookDiffSnapshot_default_def)
qed

theorem malformed_level_truncates_witness:
  "let sj = json_ops nearest_double Map.empty; doc = demo_update [demo_level (1029 / 100) 3, JNull] [demo_level (1031 / 100) 4]
   in \<exists>ls. binance_diff_Parse sj nearest_double [demo_tp \<mapsto> demo_info] [''BTCUSDT'' \<mapsto> demo_tp] doc =
       Inr (\<lparr>bd_exchange_id = kBinance, bd_trading_pair = demo_tp, bd_bids = ls, bd_asks = [], bd_first_id = 5,
             bd_last_id = 7, bd_prev_id = - 1\<rparr>, [demo_tp \<mapsto> demo_info]) \<and> list_all2 near_level ls [(1029, 3)]"
  unfolding Let_def
  by (rule malformed_level_truncates [OF nearest_double_nearest, where info = demo_info and name = "''BTCUSDT''" and
        vs = "[demo_level (1029 / 100) 3]" and bad = "Some JNull" and rest = "[]" and
        v = "JArray [demo_level (1029 / 100) 3, JNull]"])
    (simp_all add: precisions_ok_def demo_info_def TradingPairInfo_zero_def field_uint64_def field_string_def json_ops_def
      demo_update_def level_doc_def demo_level_def)

text \<open>a Bybit message for an unknown symbol.  The parser answers a default variant, which holds a
  snapshot; for the type \<open>delta\<close> the handler asks it for a diff and the exception leaves
  \<open>HandleResponse\<close>.  For the type \<open>snapshot\<close> an empty snapshot of the invalid exchange is sent.\<close>

theorem bybit_unknown_symbol:
  assumes "sj_iterate sj response = Some doc" and "sj_field sj doc ''type'' = Some t" and "sj_type sj t = TString"
    and "sj_string sj t = Some type" and "type \<in> {''delta'', ''snapshot''}"
    and "sj_field sj doc ''data'' = Some data" and "field_string sj data ''s'' = Some name" and "reverse name = None"
  shows "bybit_HandleResponse sj (bybit_InitParserManager sj rnd reverse) response (pairs, g) =
     (if type = ''delta'' then Inl Uncaught
      else Inr (pairs, ProcessBookSnapshot (BookSnapshot_default \<lparr>tp_first = 0, tp_second = 0\<rparr>) g))"
proof -
  have type: "field_string sj doc ''type'' = Some type" using assms(2,4) by (simp add: field_string_def)
  have "bybit_DetermineType sj doc = (if type = ''delta'' then kDepthUpdate else kSnapshot)"
    using assms by (auto simp: bybit_DetermineType_def is_text_def)
  moreover have "bybit_book_Parse sj rnd pairs reverse doc = Inr (ResponseVariant_default, pairs)"
    using assms type by (auto simp: bybit_book_Parse_def IsValidType_def)
  ultimately show ?thesis
    using assms(1) by (simp add: bybit_HandleResponse_def ParserManager_Parse_def bybit_InitParserManager_def
        RegisterHandler_def ResponseVariant_default_def Let_def)
qed

theorem bybit_unknown_symbol_witness:
  "let doc = JObject [(''type'', JString ''delta''), (''data'', JObject [(''s'', JString ''XYZ''), (''u'', JUInt 3)])];
       sj = json_ops nearest_double [''m'' \<mapsto> doc]
   in bybit_HandleResponse sj (bybit_InitParserManager sj nearest_double Map.empty) ''m'' (Map.empty, demo_getter) = Inl Uncaught"
  unfolding Let_def
  by (subst bybit_unknown_symbol [where type = "''delta''" and name = "''XYZ''" and t = "JString ''delta''" and
        data = "JObject [(''s'', JString ''XYZ''), (''u'', JUInt 3)]" and
        doc = "JObject [(''type'', JString ''delta''), (''data'', JObject [(''s'', JString ''XYZ''), (''u'', JUInt 3)])]"])
    (simp_all add: json_ops_def field_string_def)

text \<open>An answer with an error code makes Binance's handler send an empty diff, which the generator ignores.\<close>

lemma error_response_ignored:
  assumes "sj_iterate sj response = Some doc" and "binance_DetermineType sj doc \<in> {kErrorResponse, kUnknown}"
  shows "binance_HandleResponse sj (binance_InitParserManager sj rnd reverse) response (pairs, g) =
       Inr (pairs, ProcessBookDiffSnapshot BookDiffSnapshot_default g)"
    and "binance_HandleBookDiffSnapshotEvent lost
       (BookDiffSnapshot2_spot kExchangeIdInvalid \<lparr>tp_first = 0, tp_second = 0\<rparr> [] [] (- 1) (- 1)) h = h"
  using assms
  by (auto simp: binance_HandleResponse_def ParserManager_Parse_def binance_InitParserManager_def RegisterHandler_def
      ParsedData_default_def binance_HandleBookDiffSnapshotEvent_def BookDiffSnapshot2_spot_def)

end
