(* ===== verification/Parser_Types.thy ===== *)
theory Parser_Types
  imports Parsers_Props
begin

text \<open>
  What every parsed message has, whatever the exchange sends: prices and quantities in the range of \<open>int\<close>, from which
  the parsers make them.
\<close>

section \<open>Levels are numbers of ticks\<close>

text \<open>Prices and quantities come from \<open>int\<close>s that are widened to 64 bits.\<close>

definition level_int :: "BookSnapshotElem \<Rightarrow> bool" where
  "level_int e \<longleftrightarrow> fits_int32 (sint (bse_price e)) \<and> fits_int32 (sint (bse_qty e))"

lemma sint_of_int32: "fits_int32 i \<Longrightarrow> sint (word_of_int i :: u64) = i"
  by (simp add: fits_int32_def signed_of_int signed_take_bit_int_eq_self)

lemma make_level_int: "make_level rnd pp qp x y = Inr l \<Longrightarrow> level_int l"
  by (auto simp: make_level_def cast_int_def level_int_def sint_of_int32 split: if_splits)

lemma parse_levels_int:
  "parse_levels sj rnd pp qp ls acc = Inr r \<Longrightarrow> list_all level_int acc \<Longrightarrow> list_all level_int (kept r)"
  by (induction sj rnd pp qp ls acc rule: parse_levels.induct)
    (auto simp: make_level_int split: option.splits outcome.splits list.splits elim!: bind_result_InrE)

lemma parse_side_int: "parse_side sj rnd pp qp doc key = Inr r \<Longrightarrow> list_all level_int (kept r)"
  by (auto simp: parse_side_def intro: parse_levels_int split: option.splits)

lemma parse_sides_int:
  "parse_sides sj rnd info doc b a = Inr (bids, asks) \<Longrightarrow> list_all level_int bids \<and> list_all level_int asks"
  using parse_side_int
  by (fastforce simp: parse_sides_def Let_def split: outcome.splits elim!: bind_result_InrE)

lemma bybit_levels_int:
  "bybit_levels sj rnd pp qp strict ls acc = Inr (Some r) \<Longrightarrow> list_all level_int acc \<Longrightarrow> list_all level_int r"
  by (induction sj rnd pp qp strict ls acc rule: bybit_levels.induct)
    (auto simp: make_level_int split: option.splits list.splits if_splits elim!: bind_result_InrE)

lemma bybit_side_int: "bybit_side sj rnd pp qp strict doc key = Inr (Some r) \<Longrightarrow> list_all level_int r"
  by (auto simp: bybit_side_def intro: bybit_levels_int split: option.splits)

fun levels_of :: "ParsedData \<Rightarrow> BookSnapshotElem list" where
  "levels_of (PDiff d) = bd_bids d @ bd_asks d"
| "levels_of (PSnapshot s) = bs_bids s @ bs_asks s"
| "levels_of (PApi d) = []"

fun levels_of_variant :: "ResponseVariant \<Rightarrow> BookSnapshotElem list" where
  "levels_of_variant (VDiff d) = bd_bids d @ bd_asks d"
| "levels_of_variant (VSnapshot s) = bs_bids s @ bs_asks s"

lemma binance_diff_int:
  assumes "binance_diff_Parse sj rnd pairs names doc = Inr (d, pairs')"
  shows "list_all level_int (bd_bids d @ bd_asks d)"
proof -
  obtain d' where "binance_diff_try sj rnd pairs names doc = Inr (d', pairs')"
    and d: "d = (case d' of None \<Rightarrow> BookDiffSnapshot_default | Some x \<Rightarrow> x\<lparr>bd_exchange_id := kBinance\<rparr>)"
    using assms by (auto simp: binance_diff_Parse_def elim!: bind_result_InrE)
  then have "case d' of None \<Rightarrow> True | Some x \<Rightarrow> list_all level_int (bd_bids x @ bd_asks x)"
    by (auto simp: binance_diff_try_def BookDiffSnapshot_default_def Let_def split: option.splits
        elim!: bind_result_InrE dest: parse_sides_int)
  with d show ?thesis by (auto simp: BookDiffSnapshot_default_def split: option.splits)
qed

lemma bybit_book_int:
  assumes "bybit_book_Parse sj rnd pairs names doc = Inr (v, pairs')"
  shows "list_all level_int (levels_of_variant v)"
  using assms
  by (auto simp: bybit_book_Parse_def ResponseVariant_default_def BookSnapshot_default_def bybit_build_def Let_def
      split: option.splits if_splits elim!: bind_result_InrE dest!: bybit_side_int)

lemma binance_manager_int:
  assumes "binance_InitParserManager sj rnd names t = Some h" and "h pairs doc = Inr (p, pairs')"
  shows "list_all level_int (levels_of p)"
  using assms binance_diff_int
  by (fastforce simp: binance_InitParserManager_def RegisterHandler_def split: if_splits elim!: bind_result_InrE)

lemma get_int:
  "get_diff v = Inr p \<Longrightarrow> levels_of p = levels_of_variant v"
  "get_snapshot v = Inr p \<Longrightarrow> levels_of p = levels_of_variant v"
  by (cases v; auto)+

lemma bybit_manager_int:
  assumes "bybit_InitParserManager sj rnd names t = Some h" and "h pairs doc = Inr (p, pairs')"
  shows "list_all level_int (levels_of p)"
  using assms bybit_book_int get_int
  by (fastforce simp: bybit_InitParserManager_def RegisterHandler_def Let_def split: if_splits elim!: bind_result_InrE)




end
