(* ===== verification/Exchange_Api.thy ===== *)
theory Exchange_Api
  imports Parsers
begin

text \<open>
  The requests to the exchanges: endpoints, signatures, symbols, stream names, arguments, bodies and the
  factories of HTTP requests, of aot/Exchange.h, aot/Binance.h, aot/Bybit.h, src/Binance.cpp and
  src/Bybit.cpp.

  \<^item> HMAC-SHA256 (OpenSSL), the text of a JSON value (\<open>nlohmann::json::dump\<close>), the clock and Beast's version
    string are arguments.  An \<open>http_request\<close> records what is given to Beast.
  \<^item> \<open>std::unordered_map\<close> is the hash table of libstdc++: a node carries the hash of its key, a new node goes to
    the front of its bucket, or to the front of the list when the bucket is empty.  The first insertion
    allocates 13 buckets, which is enough for the at most ten arguments of a request.
\<close>

section \<open>Endpoints\<close>

datatype Network = kMainnet | kTestnet

datatype Protocol = kHTTPS | kWS

fun network_code :: "Network \<Rightarrow> nat" where
  "network_code kMainnet = 0"
| "network_code kTestnet = 1"

fun protocol_code :: "Protocol \<Rightarrow> nat" where
  "protocol_code kHTTPS = 0"
| "protocol_code kWS = 1"

record Endpoint =
  ep_host :: string
  ep_port :: int
  ep_port_as_string :: string
  ep_recv_window :: int
  ep_threashold :: int

definition to_string_int :: "int \<Rightarrow> string" where
  "to_string_int i = (if i < 0 then ''-'' @ to_string_nat (nat (- i)) else to_string_nat (nat i))"

definition Endpoint_new :: "string \<Rightarrow> int \<Rightarrow> int \<Rightarrow> int \<Rightarrow> Endpoint" where
  "Endpoint_new host port recv_window threashold =
     \<lparr>ep_host = host, ep_port = port, ep_port_as_string = to_string_int port,
      ep_recv_window = (if recv_window > threashold then threashold else recv_window),
      ep_threashold = threashold\<rparr>"

record EndpointKey =
  ek_exchange :: ExchangeId
  ek_network :: Network
  ek_market_type :: MarketType
  ek_protocol :: Protocol

definition endpoint_key :: "ExchangeId \<Rightarrow> Network \<Rightarrow> MarketType \<Rightarrow> Protocol \<Rightarrow> EndpointKey" where
  "endpoint_key ex n m p = \<lparr>ek_exchange = ex, ek_network = n, ek_market_type = m, ek_protocol = p\<rparr>"

text \<open>The comma operator discards its left operand: the result is the comparison of the protocols.\<close>

definition comma :: "bool \<Rightarrow> bool \<Rightarrow> bool" where
  "comma l r = r"

definition EndpointKey_eq :: "EndpointKey \<Rightarrow> EndpointKey \<Rightarrow> bool" where
  "EndpointKey_eq k other =
     comma (ek_exchange k = ek_exchange other \<and> ek_network k = ek_network other \<and>
            ek_market_type k = ek_market_type other)
       (ek_protocol k = ek_protocol other)"

text \<open>\<open>std::hash<int>\<close> of a non-negative number is the number.\<close>

definition EndpointKeyHash :: "EndpointKey \<Rightarrow> u64" where
  "EndpointKeyHash k =
     (let e = of_nat (exchange_code (ek_exchange k)); n = of_nat (network_code (ek_network k));
          m = of_nat (market_code (ek_market_type k)); p = of_nat (protocol_code (ek_protocol k))
      in xor (xor (xor e (push_bit 1 n)) (push_bit 2 m)) (push_bit 3 p))"

text \<open>A node matches a key when the hashes are equal and \<open>operator==\<close> holds.\<close>

definition node_matches :: "EndpointKey \<Rightarrow> EndpointKey \<Rightarrow> bool" where
  "node_matches k node \<longleftrightarrow> EndpointKeyHash k = EndpointKeyHash node \<and> EndpointKey_eq k node"

type_synonym endpoint_table = "(EndpointKey \<times> Endpoint) list"

definition endpoint_find :: "endpoint_table \<Rightarrow> EndpointKey \<Rightarrow> Endpoint option" where
  "endpoint_find t k = map_option snd (find (\<lambda>e. node_matches k (fst e)) t)"

definition endpoint_insert :: "EndpointKey \<times> Endpoint \<Rightarrow> endpoint_table \<Rightarrow> endpoint_table" where
  "endpoint_insert e t = (if endpoint_find t (fst e) = None then t @ [e] else t)"

definition endpoints_init :: "(EndpointKey \<times> Endpoint) list" where
  "endpoints_init =
    [(endpoint_key kBinance kMainnet kSpot kHTTPS, Endpoint_new ''api.binance.com'' 443 5000 60000),
     (endpoint_key kBinance kMainnet kSpot kWS, Endpoint_new ''stream.binance.com'' 9443 5000 60000),
     (endpoint_key kBinance kMainnet kFutures kHTTPS, Endpoint_new ''fapi.binance.com'' 443 5000 60000),
     (endpoint_key kBinance kMainnet kFutures kWS, Endpoint_new ''fstream.binance.com'' 443 5000 60000),
     (endpoint_key kBinance kTestnet kSpot kHTTPS, Endpoint_new ''testnet.binance.vision'' 443 5000 60000),
     (endpoint_key kBinance kTestnet kSpot kWS, Endpoint_new ''testnet.binance.vision'' 9443 5000 60000),
     (endpoint_key kBinance kTestnet kFutures kHTTPS, Endpoint_new ''testnet.binancefuture.com'' 443 5000 60000),
     (endpoint_key kBinance kTestnet kFutures kWS, Endpoint_new ''testnet.binancefuture.com'' 9443 5000 60000),
     (endpoint_key kBybit kMainnet kSpot kHTTPS, Endpoint_new ''api.bybit.com'' 443 5000 100),
     (endpoint_key kBybit kMainnet kSpot kWS, Endpoint_new ''stream.bybit.com'' 9443 5000 100),
     (endpoint_key kBybit kMainnet kFutures kHTTPS, Endpoint_new ''api.bybit.com'' 443 5000 100),
     (endpoint_key kBybit kMainnet kFutures kWS, Endpoint_new ''stream.bybit.com'' 9443 5000 100),
     (endpoint_key kBybit kTestnet kSpot kHTTPS, Endpoint_new ''api-testnet.bybit.com'' 443 5000 60000),
     (endpoint_key kBybit kTestnet kSpot kWS, Endpoint_new ''stream-testnet.bybit.com'' 9443 5000 60000),
     (endpoint_key kBybit kTestnet kFutures kHTTPS, Endpoint_new ''api-testnet.bybit.com'' 443 5000 60000),
     (endpoint_key kBybit kTestnet kFutures kWS, Endpoint_new ''stream-testnet.bybit.com'' 9443 5000 60000)]"

definition EndpointManager_endpoints :: endpoint_table where
  "EndpointManager_endpoints = fold endpoint_insert endpoints_init []"

definition GetEndpoint :: "ExchangeId \<Rightarrow> Network \<Rightarrow> MarketType \<Rightarrow> Protocol \<Rightarrow> Endpoint option" where
  "GetEndpoint ex n m p = endpoint_find EndpointManager_endpoints (endpoint_key ex n m p)"

section \<open>The older exchange classes\<close>

record HttpsExchange =
  hx_host :: string
  hx_port :: string
  hx_recv_window :: u64

definition binance_testnet_HttpsExchange :: "u64 \<Rightarrow> HttpsExchange" where
  "binance_testnet_HttpsExchange w =
     \<lparr>hx_host = ''testnet.binance.vision'', hx_port = ''443'',
      hx_recv_window = (if w > 60000 then 60000 else w)\<rparr>"

definition binance_sp_HttpsExchange :: "u64 \<Rightarrow> u64 \<Rightarrow> HttpsExchange" where
  "binance_sp_HttpsExchange MaxRecvWindow w =
     \<lparr>hx_host = ''testnet.binance.vision'', hx_port = ''443'',
      hx_recv_window = (if w > MaxRecvWindow then MaxRecvWindow else w)\<rparr>"

definition binance_mainnet_HttpsExchange :: "u64 \<Rightarrow> HttpsExchange" where
  "binance_mainnet_HttpsExchange w =
     \<lparr>hx_host = ''stream.binance.com'', hx_port = ''9443'',
      hx_recv_window = (if w > 60000 then 60000 else w)\<rparr>"

definition bybit_testnet_HttpsExchange :: "u64 \<Rightarrow> HttpsExchange" where
  "bybit_testnet_HttpsExchange w =
     \<lparr>hx_host = ''api-testnet.bybit.com'', hx_port = ''443'',
      hx_recv_window = (if w > 5000 then 5000 else w)\<rparr>"

definition bybit_mainnet_HttpsExchange :: "u64 \<Rightarrow> HttpsExchange" where
  "bybit_mainnet_HttpsExchange w =
     \<lparr>hx_host = ''api.bybit.com'', hx_port = ''443'',
      hx_recv_window = (if w > 5000 then 5000 else w)\<rparr>"

datatype TypeExchange = TESTNET | MAINNET

fun binance_ExchangeChooser_Get :: "TypeExchange \<Rightarrow> HttpsExchange" where
  "binance_ExchangeChooser_Get MAINNET = binance_mainnet_HttpsExchange 5000"
| "binance_ExchangeChooser_Get TESTNET = binance_testnet_HttpsExchange 5000"

fun bybit_ExchangeChooser_Get :: "TypeExchange \<Rightarrow> HttpsExchange" where
  "bybit_ExchangeChooser_Get MAINNET = bybit_mainnet_HttpsExchange 5000"
| "bybit_ExchangeChooser_Get TESTNET = bybit_testnet_HttpsExchange 5000"

section \<open>Signatures\<close>

text \<open>The digest of HMAC-SHA256, from the key and the data.\<close>

type_synonym hmac = "string \<Rightarrow> string \<Rightarrow> u8 list"

record Signer =
  sg_secret_key :: string
  sg_api_key :: string

definition Signer_of_secret :: "string \<Rightarrow> Signer" where
  "Signer_of_secret k = \<lparr>sg_secret_key = k, sg_api_key = ''''\<rparr>"

definition hex_char :: "u8 \<Rightarrow> char" where
  "hex_char v = ''0123456789abcdef'' ! unat v"

fun B2aHex :: "u8 list \<Rightarrow> string" where
  "B2aHex [] = ''''"
| "B2aHex (v # vs) = hex_char (and (drop_bit 4 v) 0x0F) # hex_char (and v 0x0F) # B2aHex vs"

definition Sign :: "hmac \<Rightarrow> Signer \<Rightarrow> string \<Rightarrow> string" where
  "Sign H s data = B2aHex (H (sg_secret_key s) data)"

definition to_lower_char :: "char \<Rightarrow> char" where
  "to_lower_char c = (if of_char c \<in> {65..90::nat} then char_of (of_char c + 32 :: nat) else c)"

definition to_upper_char :: "char \<Rightarrow> char" where
  "to_upper_char c = (if of_char c \<in> {97..122::nat} then char_of (of_char c - 32 :: nat) else c)"

definition SignByLowerCase :: "hmac \<Rightarrow> Signer \<Rightarrow> string \<Rightarrow> string" where
  "SignByLowerCase H s data = map to_lower_char (Sign H s data)"

section \<open>Symbols, chart intervals and stream names\<close>

record Symbol =
  sy_first :: string
  sy_second :: string
  sy_ticker :: string

definition SymbolUpperCase :: "string \<Rightarrow> string \<Rightarrow> Symbol" where
  "SymbolUpperCase a b = \<lparr>sy_first = a, sy_second = b, sy_ticker = map to_upper_char (a @ b)\<rparr>"

definition SymbolLowerCase :: "string \<Rightarrow> string \<Rightarrow> Symbol" where
  "SymbolLowerCase a b = \<lparr>sy_first = a, sy_second = b, sy_ticker = map to_lower_char (a @ b)\<rparr>"

text \<open>The constructor with one name leaves the ticker empty.\<close>

definition SymbolLowerCase1 :: "string \<Rightarrow> Symbol" where
  "SymbolLowerCase1 a = \<lparr>sy_first = a, sy_second = '''', sy_ticker = ''''\<rparr>"

datatype binance_interval =
  Bin_s1 | Bin_m1 | Bin_m3 | Bin_m5 | Bin_m15 | Bin_m30 | Bin_h1 | Bin_h2 | Bin_h4 | Bin_h6 | Bin_h8
  | Bin_h12 | Bin_d1 | Bin_d3 | Bin_w1 | Bin_M1

fun binance_interval_ToString :: "binance_interval \<Rightarrow> string" where
  "binance_interval_ToString Bin_s1 = ''1s''"
| "binance_interval_ToString Bin_m1 = ''1m''"
| "binance_interval_ToString Bin_m3 = ''3m''"
| "binance_interval_ToString Bin_m5 = ''5m''"
| "binance_interval_ToString Bin_m15 = ''15m''"
| "binance_interval_ToString Bin_m30 = ''30m''"
| "binance_interval_ToString Bin_h1 = ''1h''"
| "binance_interval_ToString Bin_h2 = ''2h''"
| "binance_interval_ToString Bin_h4 = ''4h''"
| "binance_interval_ToString Bin_h6 = ''6h''"
| "binance_interval_ToString Bin_h8 = ''8h''"
| "binance_interval_ToString Bin_h12 = ''12h''"
| "binance_interval_ToString Bin_d1 = ''1d''"
| "binance_interval_ToString Bin_d3 = ''3d''"
| "binance_interval_ToString Bin_w1 = ''1w''"
| "binance_interval_ToString Bin_M1 = ''1M''"

fun binance_interval_Seconds :: "binance_interval \<Rightarrow> u32" where
  "binance_interval_Seconds Bin_s1 = 1"
| "binance_interval_Seconds Bin_m1 = 60"
| "binance_interval_Seconds Bin_m3 = 180"
| "binance_interval_Seconds Bin_m5 = 300"
| "binance_interval_Seconds Bin_m15 = 900"
| "binance_interval_Seconds Bin_m30 = 1800"
| "binance_interval_Seconds Bin_h1 = 3600"
| "binance_interval_Seconds Bin_h2 = 7200"
| "binance_interval_Seconds Bin_h4 = 14400"
| "binance_interval_Seconds Bin_h6 = 21600"
| "binance_interval_Seconds Bin_h8 = 28800"
| "binance_interval_Seconds Bin_h12 = 43200"
| "binance_interval_Seconds Bin_d1 = 86400"
| "binance_interval_Seconds Bin_d3 = 259200"
| "binance_interval_Seconds Bin_w1 = 604800"
| "binance_interval_Seconds Bin_M1 = 2628000"

datatype bybit_interval =
  By_m1 | By_m3 | By_m5 | By_m15 | By_m60 | By_m120 | By_m240 | By_m360 | By_m720 | By_D1 | By_W1 | By_M1

fun bybit_interval_ToString :: "bybit_interval \<Rightarrow> string" where
  "bybit_interval_ToString By_m1 = ''1''"
| "bybit_interval_ToString By_m3 = ''3''"
| "bybit_interval_ToString By_m5 = ''5''"
| "bybit_interval_ToString By_m15 = ''15''"
| "bybit_interval_ToString By_m60 = ''30''"
| "bybit_interval_ToString By_m120 = ''120''"
| "bybit_interval_ToString By_m240 = ''240''"
| "bybit_interval_ToString By_m360 = ''360''"
| "bybit_interval_ToString By_m720 = ''720''"
| "bybit_interval_ToString By_D1 = ''D''"
| "bybit_interval_ToString By_W1 = ''W''"
| "bybit_interval_ToString By_M1 = ''M''"

fun bybit_interval_Seconds :: "bybit_interval \<Rightarrow> u32" where
  "bybit_interval_Seconds By_m1 = 60"
| "bybit_interval_Seconds By_m3 = 180"
| "bybit_interval_Seconds By_m5 = 300"
| "bybit_interval_Seconds By_m15 = 900"
| "bybit_interval_Seconds By_m60 = 3600"
| "bybit_interval_Seconds By_m120 = 7200"
| "bybit_interval_Seconds By_m240 = 14400"
| "bybit_interval_Seconds By_m360 = 21600"
| "bybit_interval_Seconds By_m720 = 43200"
| "bybit_interval_Seconds By_D1 = 86400"
| "bybit_interval_Seconds By_W1 = 604800"
| "bybit_interval_Seconds By_M1 = 2628000"

definition binance_KLineStream_ToString :: "string \<Rightarrow> binance_interval \<Rightarrow> string" where
  "binance_KLineStream_ToString trading_pair i = trading_pair @ ''@kline_'' @ binance_interval_ToString i"

definition bybit_KLineStream_ToString :: "string \<Rightarrow> bybit_interval \<Rightarrow> string" where
  "bybit_KLineStream_ToString trading_pair i = ''kline.'' @ trading_pair @ ''.'' @ bybit_interval_ToString i"

datatype StreamInterval = ms1000 | ms100

fun StreamInterval_ToString :: "StreamInterval \<Rightarrow> string" where
  "StreamInterval_ToString ms1000 = ''1000ms''"
| "StreamInterval_ToString ms100 = ''100ms''"

definition DiffDepthStream_ToString :: "TradingPairInfo \<Rightarrow> StreamInterval \<Rightarrow> string" where
  "DiffDepthStream_ToString s i = ws_query_request s @ ''@depth@'' @ StreamInterval_ToString i"

section \<open>Arguments\<close>

text \<open>The hash of a key is its length (\<open>StringHash\<close>).\<close>

type_synonym Args = "(string \<times> string) list"

definition StringHash :: "string \<Rightarrow> nat" where
  "StringHash s = length s"

definition arg_buckets :: nat where
  "arg_buckets = 13"

definition same_bucket :: "string \<Rightarrow> string \<times> string \<Rightarrow> bool" where
  "same_bucket k e \<longleftrightarrow> StringHash (fst e) mod arg_buckets = StringHash k mod arg_buckets"

text \<open>\<open>storage[key] = value\<close>.\<close>

definition args_put :: "string \<Rightarrow> string \<Rightarrow> Args \<Rightarrow> Args" where
  "args_put k v args =
     (if k \<in> fst ` set args then map (\<lambda>e. if fst e = k then (k, v) else e) args
      else if \<exists>e \<in> set args. same_bucket k e
      then takeWhile (\<lambda>e. \<not> same_bucket k e) args @ (k, v) # dropWhile (\<lambda>e. \<not> same_bucket k e) args
      else (k, v) # args)"

fun join_with :: "string list \<Rightarrow> string \<Rightarrow> string" where
  "join_with [] sep = ''''"
| "join_with [x] sep = x"
| "join_with (x # y # xs) sep = x @ sep @ join_with (y # xs) sep"

definition QueryString :: "Args \<Rightarrow> string" where
  "QueryString args = join_with (map (\<lambda>e. fst e @ ''='' @ snd e) args) ''&''"

definition FinalQueryString :: "Args \<Rightarrow> string" where
  "FinalQueryString args = (let out = QueryString args in if out \<noteq> '''' then CHR ''?'' # out else out)"

text \<open>\<open>fmt::format("{:.{}f}", x, p)\<close>: the exact value of the double, rounded to \<open>p\<close> digits.\<close>

definition pad_zeros :: "nat \<Rightarrow> string \<Rightarrow> string" where
  "pad_zeros n s = replicate (n - length s) CHR ''0'' @ s"

definition fmt_fixed :: "u8 \<Rightarrow> rat \<Rightarrow> string" where
  "fmt_fixed p x =
     (let t = nat (round_even (\<bar>x\<bar> * 10 ^ unat p))
      in (if x < 0 then ''-'' else '''') @ to_string_nat (t div 10 ^ unat p) @
         (if p = 0 then '''' else ''.'' @ pad_zeros (unat p) (to_string_nat (t mod 10 ^ unat p))))"

subsection \<open>A new limit order\<close>

datatype OrderType =
  LIMIT | MARKET | STOP_LOSS | STOP_LOSS_LIMIT | TAKE_PROFIT | TAKE_PROFIT_LIMIT | LIMIT_MAKER

datatype TimeInForce = GTC | IOC | FOK

fun limit_SetSide :: "Side \<Rightarrow> Args \<Rightarrow> Args" where
  "limit_SetSide kAsk args = args_put ''side'' ''BUY'' args"
| "limit_SetSide kBid args = args_put ''side'' ''SELL'' args"
| "limit_SetSide kSideInvalid args = args"
| "limit_SetSide kSideMax args = args"

fun limit_SetType :: "OrderType \<Rightarrow> Args \<Rightarrow> Args" where
  "limit_SetType LIMIT args = args_put ''type'' ''LIMIT'' args"
| "limit_SetType MARKET args = args_put ''type'' ''MARKET'' args"
| "limit_SetType STOP_LOSS args = args_put ''type'' ''STOP_LOSS'' args"
| "limit_SetType STOP_LOSS_LIMIT args = args_put ''type'' ''STOP_LOSS_LIMIT'' args"
| "limit_SetType TAKE_PROFIT args = args_put ''type'' ''TAKE_PROFIT'' args"
| "limit_SetType TAKE_PROFIT_LIMIT args = args_put ''type'' ''TAKE_PROFIT_LIMIT'' args"
| "limit_SetType LIMIT_MAKER args = args_put ''type'' ''LIMIT_MAKER'' args"

definition limit_SetQuantity :: "rat \<Rightarrow> u8 \<Rightarrow> Args \<Rightarrow> Args" where
  "limit_SetQuantity quantity qty_prec = args_put ''quantity'' (fmt_fixed qty_prec quantity)"

definition limit_SetPrice :: "rat \<Rightarrow> u8 \<Rightarrow> Args \<Rightarrow> Args" where
  "limit_SetPrice price price_prec = args_put ''price'' (fmt_fixed price_prec price)"

fun limit_SetTimeInForce :: "TimeInForce \<Rightarrow> Args \<Rightarrow> Args" where
  "limit_SetTimeInForce FOK args = args_put ''timeInForce'' ''FOK'' args"
| "limit_SetTimeInForce GTC args = args_put ''timeInForce'' ''GTC'' args"
| "limit_SetTimeInForce IOC args = args_put ''timeInForce'' ''IOC'' args"

definition limit_SetOrderId :: "OrderId \<Rightarrow> Args \<Rightarrow> Args" where
  "limit_SetOrderId i args =
     (if i \<noteq> kOrderIdInvalid then args_put ''newClientOrderId'' (orderIdToString i) args else args)"

definition LimitOrder_ArgsOrder :: "rounding \<Rightarrow> RequestNewOrder \<Rightarrow> pair_infos \<Rightarrow> Args \<times> pair_infos" where
  "LimitOrder_ArgsOrder rnd new_order pairs =
     (let info = info_of pairs (rn_trading_pair new_order);
          a1 = args_put ''symbol'' (https_query_request info) [];
          a2 = limit_SetSide (rn_side new_order) a1;
          a3 = limit_SetType LIMIT a2;
          qty_prec = pow10_neg rnd (qty_precission info);
          a4 = limit_SetQuantity (fmul rnd (double_of_u64 rnd (rn_qty new_order)) qty_prec) (qty_precission info) a3;
          price_prec = pow10_neg rnd (price_precission info);
          a5 = limit_SetPrice (fmul rnd (double_of_u64 rnd (rn_price new_order)) price_prec) (price_precission info) a4;
          a6 = limit_SetTimeInForce GTC a5
      in (limit_SetOrderId (rn_order_id new_order) a6, touch_info (rn_trading_pair new_order) pairs))"

subsection \<open>Cancels and snapshots\<close>

definition cancel_SetOrderId :: "OrderId \<Rightarrow> Args \<Rightarrow> Args" where
  "cancel_SetOrderId i args =
     (if i \<noteq> kOrderIdInvalid then args_put ''origClientOrderId'' (orderIdToString i) args else args)"

definition CancelOrder_ArgsOrder1 :: "string \<Rightarrow> OrderId \<Rightarrow> Args" where
  "CancelOrder_ArgsOrder1 ticker i = cancel_SetOrderId i (args_put ''symbol'' ticker [])"

definition CancelOrder_ArgsOrder :: "RequestCancelOrder \<Rightarrow> pair_infos \<Rightarrow> Args \<times> pair_infos" where
  "CancelOrder_ArgsOrder r pairs =
     (cancel_SetOrderId (rc_order_id r)
        (args_put ''symbol'' (https_query_request (info_of pairs (rc_trading_pair r))) []),
      touch_info (rc_trading_pair r) pairs)"

text \<open>The limit of the book event getter is a \<open>uint16_t\<close>, the limit of the snapshot a \<open>uint64_t\<close>.\<close>

definition events_SetLimit :: "u16 \<Rightarrow> Args \<Rightarrow> Args" where
  "events_SetLimit depth args =
     (let depth' = (if depth > 5000 then 5000 else depth) in args_put ''limit'' (to_string_nat (unat depth')) args)"

definition BookEventGetter_ArgsOrder2 :: "string \<Rightarrow> string \<Rightarrow> u16 \<Rightarrow> Args" where
  "BookEventGetter_ArgsOrder2 ticker1 ticker2 depth =
     events_SetLimit depth (args_put ''symbol'' (sy_ticker (SymbolUpperCase ticker1 ticker2)) [])"

definition BookEventGetter_ArgsOrder :: "RequestSnapshot \<Rightarrow> pair_infos \<Rightarrow> Args \<times> pair_infos" where
  "BookEventGetter_ArgsOrder r pairs =
     (events_SetLimit (ucast (rs_depth r))
        (args_put ''symbol'' (https_query_request (info_of pairs (rs_trading_pair r))) []),
      touch_info (rs_trading_pair r) pairs)"

definition snapshot_SetLimit :: "u64 \<Rightarrow> Args \<Rightarrow> Args" where
  "snapshot_SetLimit depth args =
     (let depth' = (if depth > 5000 then 5000 else depth) in args_put ''limit'' (to_string_nat (unat depth')) args)"

definition BookSnapshot_ArgsOrder2 :: "string \<Rightarrow> string \<Rightarrow> u64 \<Rightarrow> Args" where
  "BookSnapshot_ArgsOrder2 ticker1 ticker2 depth =
     snapshot_SetLimit depth (args_put ''symbol'' (sy_ticker (SymbolUpperCase ticker1 ticker2)) [])"

definition BookSnapshot_ArgsOrder :: "RequestSnapshot \<Rightarrow> pair_infos \<Rightarrow> Args \<times> pair_infos" where
  "BookSnapshot_ArgsOrder r pairs =
     (snapshot_SetLimit (ucast (rs_depth r))
        (args_put ''symbol'' (https_query_request (info_of pairs (rs_trading_pair r))) []),
      touch_info (rs_trading_pair r) pairs)"

definition BookSnapshot_ArgsBody :: "RequestSnapshot \<Rightarrow> pair_infos \<Rightarrow> Args \<times> pair_infos" where
  "BookSnapshot_ArgsBody r pairs =
     (args_put ''symbol'' (https_query_request (info_of pairs (rs_trading_pair r))) [],
      touch_info (rs_trading_pair r) pairs)"

definition bybit_BookSnapshot_ArgsOrder :: "RequestSnapshot \<Rightarrow> pair_infos \<Rightarrow> Args \<times> pair_infos" where
  "bybit_BookSnapshot_ArgsOrder r pairs =
     (args_put ''symbol'' (https_query_request (info_of pairs (rs_trading_pair r))) [],
      touch_info (rs_trading_pair r) pairs)"

fun GetEndPoint :: "MarketType \<Rightarrow> string" where
  "GetEndPoint kSpot = ''/api/v3/depth''"
| "GetEndPoint kFutures = ''/fapi/v1/depth''"
| "GetEndPoint kOptions = ''''"
| "GetEndPoint kMarketInvalid = ''''"

section \<open>JSON bodies\<close>

text \<open>
  A value of \<open>nlohmann::json\<close>; a default one is \<open>NNull\<close>.  \<open>operator[]\<close> with a key turns null into an object and
  adds the key; its text \<open>dump\<close> is an argument.
\<close>

datatype njson =
    NNull
  | NString string
  | NInt int
  | NNat u64
  | NArray "njson list"
  | NObject "string \<rightharpoonup> njson"

definition json_put :: "string \<Rightarrow> njson \<Rightarrow> njson \<Rightarrow> njson result" where
  "json_put key v j =
     (case j of NNull \<Rightarrow> Inr (NObject [key \<mapsto> v]) | NObject m \<Rightarrow> Inr (NObject (m(key \<mapsto> v))) | _ \<Rightarrow> Inl Uncaught)"

definition quoted :: "string \<Rightarrow> bool" where
  "quoted v \<longleftrightarrow> hd v = CHR 0x22 \<and> List.last v = CHR 0x22"

text \<open>\<open>substr(1, size - 2)\<close>; of a single quote the length wraps around and the rest is empty.\<close>

definition unquote :: "string \<Rightarrow> string" where
  "unquote v = (if length v = 1 then [] else take (length v - 2) (drop 1 v))"

definition binance_body_entry :: "string \<times> string \<Rightarrow> njson \<Rightarrow> njson result" where
  "binance_body_entry e j =
     (case e of (key, v) \<Rightarrow>
       if key = ''params'' then json_put key (NArray [NString v]) j
       else if v \<noteq> '''' \<and> quoted v then json_put key (NString (unquote v)) j
       else json_put key (NString v) j)"

definition binance_Body :: "(njson \<Rightarrow> string) \<Rightarrow> Args \<Rightarrow> string result" where
  "binance_Body dump args = bind_result (fold_result binance_body_entry args NNull) (\<lambda>j. Inr (dump j))"

text \<open>For Bybit \<open>front\<close> of an empty value is undefined, and a value without quotes is left out.\<close>

definition bybit_body_entry :: "string \<times> string \<Rightarrow> njson \<Rightarrow> njson result" where
  "bybit_body_entry e j =
     (case e of (key, v) \<Rightarrow>
       if key = ''args'' then json_put key (NArray [NString v]) j
       else if v = '''' then Inl Undefined
       else if quoted v then json_put key (NString (unquote v)) j
       else Inr j)"

definition bybit_Body :: "(njson \<Rightarrow> string) \<Rightarrow> Args \<Rightarrow> string result" where
  "bybit_Body dump args = bind_result (fold_result bybit_body_entry args NNull) (\<lambda>j. Inr (dump j))"

subsection \<open>Subscriptions\<close>

fun request_id_json :: "request_id \<Rightarrow> njson option" where
  "request_id_json (IdString s) = (if s = '''' then None else Some (NString s))"
| "request_id_json (IdInt i) = Some (NInt i)"
| "request_id_json (IdNat n) = Some (NNat n)"

definition SetId :: "string \<Rightarrow> request_id \<Rightarrow> njson \<Rightarrow> njson result" where
  "SetId key i j = (case request_id_json i of None \<Rightarrow> Inr j | Some v \<Rightarrow> json_put key v j)"

text \<open>\<open>pairs_.at\<close> throws for an unknown pair.\<close>

definition binance_SetParams :: "RequestDiffOrderBook \<Rightarrow> pair_infos \<Rightarrow> njson \<Rightarrow> njson result" where
  "binance_SetParams r pairs j =
     (if rd_frequency r = kFrequencyMSInvalid
      then (case pairs (rd_trading_pair r) of None \<Rightarrow> Inl OutOfRange
            | Some info \<Rightarrow> json_put ''params'' (NArray [NString (ws_query_request info @ ''@depth'')]) j)
      else Inr j)"

definition binance_SetMethod :: "bool \<Rightarrow> njson \<Rightarrow> njson result" where
  "binance_SetMethod subscribe = json_put ''method'' (NString (if subscribe then ''SUBSCRIBE'' else ''UNSUBSCRIBE''))"

definition binance_ArgsBody :: "RequestDiffOrderBook \<Rightarrow> pair_infos \<Rightarrow> njson result" where
  "binance_ArgsBody r pairs =
     bind_result (binance_SetParams r pairs NNull) (\<lambda>j1.
     bind_result (binance_SetMethod (rd_subscribe r) j1) (\<lambda>j2. SetId ''id'' (rd_id r) j2))"

definition bybit_SetMethod :: "bool \<Rightarrow> njson \<Rightarrow> njson result" where
  "bybit_SetMethod subscribe = json_put ''op'' (NString (if subscribe then ''subscribe'' else ''unsubscribe''))"

definition bybit_SetParams :: "RequestDiffOrderBook \<Rightarrow> pair_infos \<Rightarrow> njson \<Rightarrow> (njson \<times> pair_infos) result" where
  "bybit_SetParams r pairs j =
     (if rd_frequency r = kFrequencyMSInvalid then Inr (j, pairs)
      else bind_result
        (json_put ''args''
          (NArray [NString (''orderbook.'' @ to_string_nat (unat (rd_frequency r)) @ ''.'' @
             https_json_request (info_of pairs (rd_trading_pair r)))]) j)
        (\<lambda>j'. Inr (j', touch_info (rd_trading_pair r) pairs)))"

definition bybit_ArgsBody :: "RequestDiffOrderBook option \<Rightarrow> pair_infos \<Rightarrow> (njson \<times> pair_infos) result" where
  "bybit_ArgsBody request pairs =
     (case request of None \<Rightarrow> Inr (NNull, pairs)
      | Some r \<Rightarrow>
         bind_result (bybit_SetParams r pairs NNull) (\<lambda>(j1, pairs').
         bind_result (bybit_SetMethod (rd_subscribe r) j1) (\<lambda>j2.
         bind_result (SetId ''req_id'' (rd_id r) j2) (\<lambda>j3. Inr (j3, pairs')))))"

section \<open>HTTP requests\<close>

datatype verb = get_verb | post_verb | put_verb | delete_verb

record http_request =
  hr_version :: nat
  hr_method :: verb
  hr_target :: string
  hr_fields :: "(string \<times> string) list"
  hr_body :: string

definition http_request_empty :: http_request where
  "http_request_empty = \<lparr>hr_version = 11, hr_method = get_verb, hr_target = '''', hr_fields = [], hr_body = ''''\<rparr>"

definition insert_field :: "string \<Rightarrow> string \<Rightarrow> http_request \<Rightarrow> http_request" where
  "insert_field name v r = r\<lparr>hr_fields := hr_fields r @ [(name, v)]\<rparr>"

definition set_field :: "string \<Rightarrow> string \<Rightarrow> http_request \<Rightarrow> http_request" where
  "set_field name v r = r\<lparr>hr_fields := filter (\<lambda>e. fst e \<noteq> name) (hr_fields r) @ [(name, v)]\<rparr>"

subsection \<open>Binance: the query string\<close>

record FactoryRequest =
  fr_host :: string
  fr_end_point :: string
  fr_args :: Args
  fr_action :: verb
  fr_signer :: "Signer option"
  fr_need_sign :: bool

definition AddSignParams :: "Endpoint \<Rightarrow> u64 \<Rightarrow> Args \<Rightarrow> Args" where
  "AddSignParams ep now args =
     args_put ''timestamp'' (to_string_nat (unat now))
       (args_put ''recvWindow'' (to_string_int (ep_recv_window ep)) args)"

definition AddSignature :: "string \<Rightarrow> Args \<Rightarrow> Args" where
  "AddSignature signature = args_put ''signature'' signature"

definition FactoryRequest_new ::
    "hmac \<Rightarrow> u64 \<Rightarrow> Endpoint \<Rightarrow> string \<Rightarrow> Args \<Rightarrow> verb \<Rightarrow> Signer option \<Rightarrow> bool \<Rightarrow> FactoryRequest result" where
  "FactoryRequest_new H now ep end_point args action signer need_sign =
     (let build = (\<lambda>a. \<lparr>fr_host = ep_host ep, fr_end_point = end_point @ FinalQueryString a, fr_args = a,
                        fr_action = action, fr_signer = signer, fr_need_sign = need_sign\<rparr>)
      in if need_sign then
           (case signer of None \<Rightarrow> Inl NullDeref
            | Some s \<Rightarrow>
                let a1 = AddSignParams ep now args; request_args = QueryString a1
                in Inr (build (AddSignature (Sign H s request_args) a1)))
         else Inr (build args))"

definition FactoryRequest_call :: "string \<Rightarrow> FactoryRequest \<Rightarrow> http_request result" where
  "FactoryRequest_call beast fr =
     (let r0 = http_request_empty\<lparr>hr_version := 11, hr_method := fr_action fr, hr_target := fr_end_point fr\<rparr>;
          finish = (\<lambda>r. set_field ''Content-Type'' ''application/x-www-form-urlencoded''
                         (set_field ''User-Agent'' beast (set_field ''Host'' (fr_host fr) r)))
      in if fr_need_sign fr
         then (case fr_signer fr of None \<Rightarrow> Inl NullDeref
               | Some s \<Rightarrow> Inr (finish (insert_field ''X-MBX-APIKEY'' (sg_api_key s) r0)))
         else Inr (finish r0))"

subsection \<open>Binance: the body\<close>

text \<open>The factory keeps a reference to the arguments, and signing changes them.\<close>

record FactoryRequestJson =
  fj_exchange :: HttpsExchange
  fj_end_point :: string
  fj_args :: Args
  fj_action :: verb
  fj_signer :: "Signer option"
  fj_need_sign :: bool

definition FactoryRequestJson_new ::
    "hmac \<Rightarrow> u64 \<Rightarrow> HttpsExchange \<Rightarrow> string \<Rightarrow> Args \<Rightarrow> verb \<Rightarrow> Signer option \<Rightarrow> bool \<Rightarrow> FactoryRequestJson result" where
  "FactoryRequestJson_new H now ex end_point args action signer need_sign =
     (let build = (\<lambda>a. \<lparr>fj_exchange = ex, fj_end_point = end_point, fj_args = a, fj_action = action,
                        fj_signer = signer, fj_need_sign = need_sign\<rparr>)
      in if need_sign then
           (case signer of None \<Rightarrow> Inl NullDeref
            | Some s \<Rightarrow>
                let a1 = args_put ''recvWindow'' (to_string_nat (unat (hx_recv_window ex)))
                           (args_put ''timestamp'' (to_string_nat (unat now)) args);
                    request_args = QueryString a1
                in Inr (build (AddSignature (Sign H s request_args) a1)))
         else Inr (build args))"

definition FactoryRequestJson_call :: "string \<Rightarrow> FactoryRequestJson \<Rightarrow> http_request result" where
  "FactoryRequestJson_call beast fj =
     (let r0 = http_request_empty\<lparr>hr_version := 11, hr_method := fj_action fj, hr_target := fj_end_point fj\<rparr>;
          finish = (\<lambda>r.
            let r1 = set_field ''User-Agent'' beast (set_field ''Host'' (hx_host (fj_exchange fj)) r)
            in if fj_action fj = get_verb then Inl AssertFailed
               else let r2 = (if fj_action fj \<in> {post_verb, put_verb, delete_verb}
                              then set_field ''Content-Type'' ''application/x-www-form-urlencoded'' r1 else r1)
                    in Inr (r2\<lparr>hr_body := QueryString (fj_args fj)\<rparr>))
      in if fj_need_sign fj
         then (case fj_signer fj of None \<Rightarrow> Inl NullDeref
               | Some s \<Rightarrow> finish (insert_field ''X-MBX-APIKEY'' (sg_api_key s) r0))
         else finish r0)"

subsection \<open>Bybit: the JSON body\<close>

definition bybit_FactoryRequestJson_new ::
    "HttpsExchange \<Rightarrow> string \<Rightarrow> Args \<Rightarrow> verb \<Rightarrow> Signer option \<Rightarrow> bool \<Rightarrow> FactoryRequestJson" where
  "bybit_FactoryRequestJson_new ex end_point args action signer need_sign =
     \<lparr>fj_exchange = ex, fj_end_point = end_point, fj_args = args, fj_action = action,
      fj_signer = signer, fj_need_sign = need_sign\<rparr>"

definition bybit_AddSignParams :: "HttpsExchange \<Rightarrow> u64 \<Rightarrow> http_request \<Rightarrow> string \<times> http_request" where
  "bybit_AddSignParams ex now r =
     (let time = to_string_nat (unat now)
      in (time, insert_field ''X-BAPI-RECV-WINDOW'' (to_string_nat (unat (hx_recv_window ex)))
                  (insert_field ''X-BAPI-TIMESTAMP'' time r)))"

definition bybit_AddSignature :: "string \<Rightarrow> http_request \<Rightarrow> http_request" where
  "bybit_AddSignature signature r =
     insert_field ''X-BAPI-SIGN-TYPE'' ''2'' (insert_field ''X-BAPI-SIGN'' signature r)"

definition bybit_FactoryRequestJson_call ::
    "hmac \<Rightarrow> (njson \<Rightarrow> string) \<Rightarrow> string \<Rightarrow> u64 \<Rightarrow> FactoryRequestJson \<Rightarrow> http_request result" where
  "bybit_FactoryRequestJson_call H dump beast now fj =
     bind_result
       (if fj_need_sign fj then
          (let (current_time, r1) = bybit_AddSignParams (fj_exchange fj) now http_request_empty
           in case fj_signer fj of None \<Rightarrow> Inl NullDeref
              | Some s \<Rightarrow>
                 bind_result (bybit_Body dump (fj_args fj)) (\<lambda>body.
                   let request_body_args = current_time @ sg_api_key s @
                         to_string_nat (unat (hx_recv_window (fj_exchange fj))) @ body
                   in Inr (bybit_AddSignature (Sign H s request_body_args) r1)))
        else Inr http_request_empty)
       (\<lambda>r.
         case fj_signer fj of None \<Rightarrow> Inl NullDeref
         | Some s \<Rightarrow>
            let r2 = insert_field ''X-BAPI-API-KEY'' (sg_api_key s)
                       (r\<lparr>hr_version := 11, hr_method := fj_action fj, hr_target := fj_end_point fj\<rparr>);
                r3 = set_field ''Content-Type'' ''application/json''
                       (set_field ''User-Agent'' beast (set_field ''Host'' (hx_host (fj_exchange fj)) r2))
            in bind_result (bybit_Body dump (fj_args fj)) (\<lambda>body. Inr (r3\<lparr>hr_body := body\<rparr>)))"

end
