(* ===== verification/Exchange_Api_Props.thy ===== *)
theory Exchange_Api_Props
  imports Exchange_Api
begin

text \<open>
  Properties of the requests: endpoints are found by their keys, signatures verify from what is sent, a new
  order carries exactly its price and quantity, and what the Bybit snapshot request lacks.
\<close>

section \<open>Tables of named values\<close>

text \<open>What the argument tables and the header fields of a request have in common.\<close>

locale named_values =
  fixes put :: "string \<Rightarrow> string \<Rightarrow> 't \<Rightarrow> 't" and get :: "'t \<Rightarrow> string \<Rightarrow> string option"
  assumes get_put_same: "get (put k v t) k = Some v"
    and get_put_other: "k' \<noteq> k \<Longrightarrow> get (put k v t) k' = get t k'"
begin

lemma get_put: "get (put k v t) k' = (if k' = k then Some v else get t k')"
  by (simp add: get_put_same get_put_other)

definition put_all :: "(string \<times> string) list \<Rightarrow> 't \<Rightarrow> 't" where
  "put_all kvs t = fold (\<lambda>(k, v). put k v) kvs t"

lemma put_all_simps [simp]:
  "put_all [] t = t"
  "put_all ((k, v) # kvs) t = put_all kvs (put k v t)"
  by (simp_all add: put_all_def)

lemma get_put_all: "get (put_all kvs t) k = (case map_of (rev kvs) k of None \<Rightarrow> get t k | Some v \<Rightarrow> Some v)"
proof (induction kvs arbitrary: t)
  case (Cons e kvs)
  then show ?case by (cases e) (auto simp: get_put map_add_def split: option.splits)
qed simp

end

lemma args_put_absent:
  assumes "k \<notin> fst ` set args"
  obtains xs ys where "args = xs @ ys" and "args_put k v args = xs @ (k, v) # ys"
proof (cases "\<exists>e \<in> set args. same_bucket k e")
  case True
  show thesis
    by (rule that [of "takeWhile (\<lambda>e. \<not> same_bucket k e) args" "dropWhile (\<lambda>e. \<not> same_bucket k e) args"])
      (use assms True in \<open>simp_all add: args_put_def\<close>)
next
  case False
  show thesis by (rule that [of "[]" args]) (use assms False in \<open>auto simp: args_put_def\<close>)
qed

lemma map_of_replace:
  "map_of (map (\<lambda>e. if fst e = k then (k, v) else e) l) k' =
     (if k' = k \<and> k \<in> fst ` set l then Some v else map_of l k')"
proof (induction l)
  case (Cons e l)
  then show ?case by (cases e; cases "k' = k"; cases "fst e = k") simp_all
qed simp

lemma map_fst_replace: "map fst (map (\<lambda>e. if fst e = k then (k, v) else e) l) = map fst l"
  by (induction l) simp_all

lemma map_of_args_put: "map_of (args_put k v args) k' = (if k' = k then Some v else map_of args k')"
proof (cases "k \<in> fst ` set args")
  case True
  then show ?thesis by (simp add: args_put_def map_of_replace)
next
  case False
  then obtain xs ys where e: "args = xs @ ys" "args_put k v args = xs @ (k, v) # ys"
    by (rule args_put_absent [where v = v])
  with False have "map_of xs k = None" by (auto simp: map_of_eq_None_iff)
  with e show ?thesis by (auto simp: map_add_def split: option.splits)
qed

interpretation args: named_values args_put map_of
  by unfold_locales (simp_all add: map_of_args_put)

lemma keys_args_put: "fst ` set (args_put k v args) = insert k (fst ` set args)"
proof (cases "k \<in> fst ` set args")
  case True
  then have "map fst (args_put k v args) = map fst args"
    unfolding args_put_def by (simp only: if_True map_fst_replace)
  then have "set (map fst (args_put k v args)) = set (map fst args)" by (rule arg_cong)
  then show ?thesis using True by (simp add: insert_absorb)
next
  case False
  then show ?thesis by (rule args_put_absent [where v = v]) auto
qed

lemma args_put_distinct: "distinct (map fst args) \<Longrightarrow> distinct (map fst (args_put k v args))"
proof (cases "k \<in> fst ` set args")
  case True
  show "distinct (map fst args) \<Longrightarrow> distinct (map fst (args_put k v args))"
    using True unfolding args_put_def by (simp only: if_True map_fst_replace)
next
  case False
  then obtain xs ys where e: "args = xs @ ys" "args_put k v args = xs @ (k, v) # ys"
    by (rule args_put_absent [where v = v])
  show "distinct (map fst args) \<Longrightarrow> distinct (map fst (args_put k v args))" using False unfolding e(2) by (auto simp: e(1))
qed

lemma filter_args_put:
  assumes "k \<notin> fst ` set args"
  shows "filter (\<lambda>e. fst e \<noteq> k) (args_put k v args) = args"
  using assms
proof (rule args_put_absent [where v = v])
  fix xs ys assume e: "args = xs @ ys" "args_put k v args = xs @ (k, v) # ys"
  with assms have "filter (\<lambda>e. fst e \<noteq> k) xs = xs" "filter (\<lambda>e. fst e \<noteq> k) ys = ys"
    by (auto simp: filter_id_conv)
  with e show ?thesis by simp
qed

lemma length_args_put: "length (args_put k v args) \<le> Suc (length args)"
proof (cases "k \<in> fst ` set args")
  case True
  then show ?thesis by (simp add: args_put_def)
next
  case False
  then show ?thesis by (rule args_put_absent [where v = v]) simp
qed

text \<open>Header fields that are set replace the ones of that name; inserted ones are added behind.\<close>

definition fields_get :: "http_request \<Rightarrow> string \<Rightarrow> string option" where
  "fields_get r = map_of (rev (hr_fields r))"

lemma map_of_rev_filter: "map_of (rev (filter (\<lambda>e. fst e \<noteq> k) l)) k' = (if k' = k then None else map_of (rev l) k')"
  by (simp add: rev_filter map_of_filter_key)

interpretation set_fields: named_values set_field fields_get
  by unfold_locales (simp_all add: set_field_def fields_get_def map_of_rev_filter)

interpretation insert_fields: named_values insert_field fields_get
  by unfold_locales (simp_all add: insert_field_def fields_get_def)

lemmas fields_simps = set_fields.get_put insert_fields.get_put

lemma fields_get_update [simp]:
  "fields_get (r\<lparr>hr_version := n\<rparr>) = fields_get r"
  "fields_get (r\<lparr>hr_method := m\<rparr>) = fields_get r"
  "fields_get (r\<lparr>hr_target := t\<rparr>) = fields_get r"
  "fields_get (r\<lparr>hr_body := b\<rparr>) = fields_get r"
  by (simp_all add: fields_get_def)

section \<open>Endpoints\<close>

definition configured :: "EndpointKey \<Rightarrow> bool" where
  "configured k \<longleftrightarrow> ek_exchange k \<in> {kBinance, kBybit} \<and> ek_market_type k \<in> {kSpot, kFutures}"

lemma configured_hash:
  "configured k \<Longrightarrow> unat (EndpointKeyHash k) =
     exchange_code (ek_exchange k) + 2 * network_code (ek_network k) + 4 * market_code (ek_market_type k) +
     8 * protocol_code (ek_protocol k)"
  by (cases "ek_network k"; cases "ek_protocol k") (auto simp: configured_def EndpointKeyHash_def)

lemma node_matches_iff: "configured k \<Longrightarrow> configured k' \<Longrightarrow> node_matches k k' \<longleftrightarrow> k = k'"
proof
  assume k: "configured k" "configured k'" and "node_matches k k'"
  then have "unat (EndpointKeyHash k) = unat (EndpointKeyHash k')" by (simp add: node_matches_def)
  then show "k = k'" using k unfolding configured_hash [OF k(1)] configured_hash [OF k(2)]
    by (cases k; cases k'; cases "ek_network k"; cases "ek_network k'"; cases "ek_protocol k"; cases "ek_protocol k'")
      (auto simp: configured_def)
qed (simp add: node_matches_def EndpointKey_eq_def comma_def)

lemma endpoint_find_map_of:
  "configured k \<Longrightarrow> \<forall>e \<in> set t. configured (fst e) \<Longrightarrow> endpoint_find t k = map_of t k"
  by (induction t) (auto simp: endpoint_find_def node_matches_iff)

lemma fold_endpoint_insert:
  "\<forall>e \<in> set (t @ es). configured (fst e) \<Longrightarrow> distinct (map fst (t @ es)) \<Longrightarrow> fold endpoint_insert es t = t @ es"
proof (induction es arbitrary: t)
  case (Cons e es)
  have "endpoint_find t (fst e) = map_of t (fst e)" by (rule endpoint_find_map_of) (use Cons.prems in auto)
  also have "\<dots> = None" using Cons.prems by (auto simp: map_of_eq_None_iff)
  finally have "endpoint_insert e t = t @ [e]" by (simp add: endpoint_insert_def)
  with Cons show ?case by simp
qed simp

lemma init_configured: "\<forall>e \<in> set endpoints_init. configured (fst e)"
  by (simp add: endpoints_init_def endpoint_key_def configured_def)

lemma endpoints_eq: "EndpointManager_endpoints = endpoints_init"
  unfolding EndpointManager_endpoints_def
  by (rule fold_endpoint_insert [of "[]", simplified])
    (use init_configured in \<open>auto simp: endpoints_init_def endpoint_key_def\<close>)

lemma GetEndpoint_map_of:
  "ex \<in> {kBinance, kBybit} \<Longrightarrow> m \<in> {kSpot, kFutures} \<Longrightarrow>
     GetEndpoint ex n m p = map_of endpoints_init (endpoint_key ex n m p)"
  unfolding GetEndpoint_def endpoints_eq
  by (rule endpoint_find_map_of [OF _ init_configured]) (simp add: configured_def endpoint_key_def)

text \<open>\<^bold>\<open>Every configured endpoint is found by its key.\<close>  For Binance and Bybit, spot and futures, the table gives the
  endpoint it was configured with, although \<open>operator==\<close> of the key compares the protocols only.
\<close>

theorem GetEndpoint_configured:
  assumes "ex \<in> {kBinance, kBybit}" and "m \<in> {kSpot, kFutures}"
  shows "\<exists>ep. GetEndpoint ex n m p = Some ep \<and> map_of endpoints_init (endpoint_key ex n m p) = Some ep \<and>
     ep_recv_window ep \<le> ep_threashold ep"
  using assms unfolding GetEndpoint_map_of [OF assms]
  by (cases n; cases p) (auto simp: endpoints_init_def endpoint_key_def Endpoint_new_def)

theorem GetEndpoint_configured_witness:
  "\<exists>ep. GetEndpoint kBybit kMainnet kSpot kWS = Some ep \<and>
     map_of endpoints_init (endpoint_key kBybit kMainnet kSpot kWS) = Some ep \<and> ep_recv_window ep \<le> ep_threashold ep"
  by (rule GetEndpoint_configured) simp_all

text \<open>\<^bold>\<open>A missing exchange gets the endpoint of another one.\<close>  The equality of keys compares the protocols only and the
  hash of Mexc on the main net is the hash of Binance on the test net: asking for a Mexc spot endpoint, which is not
  configured, gives the Binance test net instead of nothing.
\<close>

theorem GetEndpoint_wrong_exchange:
  "(\<forall>n m p. map_of endpoints_init (endpoint_key kMexc n m p) = None) \<and>
   GetEndpoint kMexc kMainnet kSpot p = GetEndpoint kBinance kTestnet kSpot p \<and>
   GetEndpoint kMexc kMainnet kSpot p \<noteq> None"
proof -
  have "map_of endpoints_init (endpoint_key kMexc n m p) = None" for n m p
    by (simp add: endpoints_init_def endpoint_key_def)
  moreover have "node_matches (endpoint_key kMexc kMainnet kSpot p) k \<longleftrightarrow> node_matches (endpoint_key kBinance kTestnet kSpot p) k" for k
    by (cases p) (simp_all add: node_matches_def EndpointKeyHash_def EndpointKey_eq_def comma_def endpoint_key_def)
  then have "GetEndpoint kMexc kMainnet kSpot p = GetEndpoint kBinance kTestnet kSpot p"
    by (simp add: GetEndpoint_def endpoint_find_def)
  moreover have "GetEndpoint kBinance kTestnet kSpot p \<noteq> None"
    unfolding GetEndpoint_map_of [of kBinance kSpot, simplified]
    by (cases p) (simp_all add: endpoints_init_def endpoint_key_def)
  ultimately show ?thesis by simp
qed

section \<open>Signatures\<close>

text \<open>The hexadecimal text determines the digest.\<close>

definition hex_value :: "char \<Rightarrow> nat" where
  "hex_value c = (let n = of_char c in if n < 58 then n - 48 else n - 87)"

lemma hex_char_value: "unat v < 16 \<Longrightarrow> hex_value (hex_char v) = unat v"
proof -
  have "\<forall>n \<in> set [0..<16]. hex_value (''0123456789abcdef'' ! n) = n" by code_simp
  then show "unat v < 16 \<Longrightarrow> hex_value (hex_char v) = unat v" by (simp add: hex_char_def del: upt_rec_numeral)
qed

lemma low_nibble: "and v 0x0F = take_bit 4 (v :: u8)"
  by (simp add: take_bit_eq_mask mask_eq_exp_minus_1)

lemma nibble_bound: "unat (and (v :: u8) 0x0F) < 16"
  unfolding low_nibble unsigned_take_bit_eq by (simp add: take_bit_eq_mod)

lemma nibbles: "v = (w :: u8)" if "and (drop_bit 4 v) 0x0F = and (drop_bit 4 w) 0x0F" "and v 0x0F = and w 0x0F"
proof -
  have d: "take_bit 4 (drop_bit 4 x) = drop_bit 4 x" for x :: u8
  proof (rule bit_word_eqI)
    fix n
    show "bit (take_bit 4 (drop_bit 4 x)) n \<longleftrightarrow> bit (drop_bit 4 x) n"
      using bit_imp_le_length [of x "4 + n"] by (auto simp: bit_take_bit_iff bit_drop_bit_eq)
  qed
  have "x = push_bit 4 (drop_bit 4 x) + take_bit 4 x" for x :: u8 by (simp add: bits_ident)
  then show ?thesis using that unfolding low_nibble d by metis
qed

lemma hex_char_inj: "unat v < 16 \<Longrightarrow> unat w < 16 \<Longrightarrow> hex_char v = hex_char w \<Longrightarrow> v = w"
  by (metis hex_char_value word_unat_eq_iff)

theorem B2aHex_inj: "B2aHex d = B2aHex e \<Longrightarrow> d = e"
proof (induction d arbitrary: e)
  case Nil
  then show ?case by (cases e) simp_all
next
  case (Cons v d)
  then obtain w e' where e: "e = w # e'" by (cases e) simp_all
  have "hex_char (and (drop_bit 4 v) 0x0F) = hex_char (and (drop_bit 4 w) 0x0F)"
    "hex_char (and v 0x0F) = hex_char (and w 0x0F)" "B2aHex d = B2aHex e'"
    using Cons.prems unfolding e by (simp_all only: B2aHex.simps list.inject)
  then have "v = w" "B2aHex d = B2aHex e'" by (auto intro: nibbles hex_char_inj nibble_bound)
  with Cons e show ?case by simp
qed

text \<open>Orders carry the seven arguments of \<open>ArgsOrder\<close>; signing adds three.\<close>

definition limit_args :: "rounding \<Rightarrow> RequestNewOrder \<Rightarrow> pair_infos \<Rightarrow> (string \<times> string) list" where
  "limit_args rnd ord pairs =
     (let info = info_of pairs (rn_trading_pair ord) in
      [(''symbol'', https_query_request info)] @
      (if rn_side ord = kAsk then [(''side'', ''BUY'')] else if rn_side ord = kBid then [(''side'', ''SELL'')] else []) @
      [(''type'', ''LIMIT''),
       (''quantity'', fmt_fixed (qty_precission info) (GetQtyDouble rnd info (rn_qty ord))),
       (''price'', fmt_fixed (price_precission info) (GetPriceDouble rnd info (rn_price ord))),
       (''timeInForce'', ''GTC'')] @
      (if rn_order_id ord = kOrderIdInvalid then [] else [(''newClientOrderId'', orderIdToString (rn_order_id ord))]))"

lemma LimitOrder_put_all: "fst (LimitOrder_ArgsOrder rnd ord pairs) = args.put_all (limit_args rnd ord pairs) []"
  by (cases "rn_side ord")
    (simp_all add: LimitOrder_ArgsOrder_def limit_args_def Let_def limit_SetQuantity_def limit_SetPrice_def
      limit_SetOrderId_def GetQtyDouble_def GetPriceDouble_def)

lemma keys_put_all: "fst ` set (args.put_all kvs args) = fst ` set args \<union> fst ` set kvs"
proof (induction kvs arbitrary: args)
  case (Cons e kvs)
  then show ?case by (cases e) (simp add: keys_args_put)
qed simp

lemma length_put_all: "length (args.put_all kvs args) \<le> length kvs + length args"
proof (induction kvs arbitrary: args)
  case (Cons e kvs)
  obtain k v where e: "e = (k, v)" by (cases e)
  have "length (args.put_all kvs (args_put k v args)) \<le> length kvs + length (args_put k v args)" by (rule Cons.IH)
  with length_args_put [of k v args] show ?case unfolding e args.put_all_simps by simp
qed simp

lemma QueryString_nonempty: "args \<noteq> [] \<Longrightarrow> QueryString args \<noteq> ''''"
proof -
  have "xs \<noteq> [] \<Longrightarrow> hd xs \<noteq> '''' \<Longrightarrow> join_with xs sep \<noteq> ''''" for xs sep by (cases "(xs, sep)" rule: join_with.cases) auto
  then show "args \<noteq> [] \<Longrightarrow> QueryString args \<noteq> ''''" by (simp add: QueryString_def hd_map)
qed

lemma args_put_nonempty [simp]: "args_put k v args \<noteq> []"
  using map_of_args_put [of k v args k] by (metis map_of.simps(1) option.distinct(1))

lemma length_signed: "length (AddSignature sig (AddSignParams ep now args)) \<le> length args + 3"
proof -
  let ?a = "args_put ''recvWindow'' (to_string_int (ep_recv_window ep)) args"
  let ?b = "args_put ''timestamp'' (to_string_nat (unat now)) ?a"
  have "length ?a \<le> Suc (length args)" "length ?b \<le> Suc (length ?a)"
    "length (args_put ''signature'' sig ?b) \<le> Suc (length ?b)" by (rule length_args_put)+
  then show ?thesis unfolding AddSignature_def AddSignParams_def by linarith
qed

text \<open>What the server checks: the signature is that of the query without the signature.\<close>

definition query_verifies :: "hmac \<Rightarrow> string \<Rightarrow> Args \<Rightarrow> bool" where
  "query_verifies H secret sent \<longleftrightarrow>
     map_of sent ''signature'' =
       Some (B2aHex (H secret (QueryString (filter (\<lambda>e. fst e \<noteq> ''signature'') sent))))"

lemma signed_query_verifies:
  assumes "''signature'' \<notin> fst ` set args"
  shows "query_verifies H (sg_secret_key s) (AddSignature (Sign H s (QueryString args)) args)"
  using assms by (simp add: query_verifies_def AddSignature_def Sign_def map_of_args_put filter_args_put)

text \<open>C23: \<^bold>\<open>The signature of an order request verifies.\<close>  The query string that is sent for a new limit order is signed with the
  secret key over exactly its other parameters, in the order they are sent; the API key is in the header, and the
  arguments fit the buckets of their table, so that adding the signature moves no other argument.
\<close>

theorem limit_order_request_signed:
  "\<exists>r sent. bind_result
      (FactoryRequest_new H now ep ''/api/v3/order'' (fst (LimitOrder_ArgsOrder rnd ord pairs)) post_verb (Some s) True)
      (FactoryRequest_call beast) = Inr r \<and>
     hr_method r = post_verb \<and> hr_target r = ''/api/v3/order?'' @ QueryString sent \<and>
     fields_get r ''X-MBX-APIKEY'' = Some (sg_api_key s) \<and> fields_get r ''Host'' = Some (ep_host ep) \<and>
     map_of sent ''timestamp'' = Some (to_string_nat (unat now)) \<and>
     query_verifies H (sg_secret_key s) sent \<and> length sent \<le> arg_buckets"
proof -
  define a where "a = AddSignParams ep now (fst (LimitOrder_ArgsOrder rnd ord pairs))"
  define sent where "sent = AddSignature (Sign H s (QueryString a)) a"
  have keys: "fst ` set (fst (LimitOrder_ArgsOrder rnd ord pairs)) = fst ` set (limit_args rnd ord pairs)"
    by (simp add: LimitOrder_put_all keys_put_all)
  have "''signature'' \<notin> fst ` set a"
    unfolding a_def AddSignParams_def keys_args_put keys by (auto simp: limit_args_def Let_def)
  then have v: "query_verifies H (sg_secret_key s) sent" unfolding sent_def by (rule signed_query_verifies)
  have "length (limit_args rnd ord pairs) \<le> 7" by (simp add: limit_args_def Let_def)
  then have "length (fst (LimitOrder_ArgsOrder rnd ord pairs)) \<le> 7"
    unfolding LimitOrder_put_all using length_put_all [of "limit_args rnd ord pairs" "[]"] by simp
  then have "length sent \<le> 10"
    using length_signed [of "Sign H s (QueryString a)" ep now "fst (LimitOrder_ArgsOrder rnd ord pairs)"]
    unfolding sent_def a_def by linarith
  then have l: "length sent \<le> arg_buckets" by (simp add: arg_buckets_def)
  have t: "map_of sent ''timestamp'' = Some (to_string_nat (unat now))"
    by (simp add: sent_def a_def AddSignature_def AddSignParams_def map_of_args_put)
  have q: "QueryString sent \<noteq> ''''" unfolding sent_def AddSignature_def by (rule QueryString_nonempty) simp
  have run: "bind_result
      (FactoryRequest_new H now ep ''/api/v3/order'' (fst (LimitOrder_ArgsOrder rnd ord pairs)) post_verb (Some s) True)
      (FactoryRequest_call beast) =
      Inr \<lparr>hr_version = 11, hr_method = post_verb, hr_target = ''/api/v3/order?'' @ QueryString sent,
        hr_fields = [(''X-MBX-APIKEY'', sg_api_key s), (''Host'', ep_host ep), (''User-Agent'', beast),
          (''Content-Type'', ''application/x-www-form-urlencoded'')], hr_body = ''''\<rparr>"
    using q by (simp add: FactoryRequest_new_def FactoryRequest_call_def Let_def FinalQueryString_def
        http_request_empty_def set_field_def insert_field_def flip: a_def sent_def)
  show ?thesis unfolding run
    by (rule exI, rule exI [of _ sent], intro conjI, rule refl) (use v l t in \<open>simp_all add: fields_get_def\<close>)
qed

text \<open>\<^bold>\<open>The signature of a Bybit request verifies.\<close>  The header of a signed Bybit request carries the signature of timestamp,
  API key, receive window and body, each as it is sent.
\<close>

theorem bybit_request_signed:
  assumes "bybit_FactoryRequestJson_call H dump beast now
    (bybit_FactoryRequestJson_new ex end_point args action (Some s) True) = Inr r"
  shows "\<exists>ts window. fields_get r ''X-BAPI-TIMESTAMP'' = Some ts \<and>
     fields_get r ''X-BAPI-RECV-WINDOW'' = Some window \<and> fields_get r ''X-BAPI-API-KEY'' = Some (sg_api_key s) \<and>
     fields_get r ''X-BAPI-SIGN'' =
       Some (B2aHex (H (sg_secret_key s) (ts @ sg_api_key s @ window @ hr_body r))) \<and>
     bybit_Body dump args = Inr (hr_body r)"
proof (cases "bybit_Body dump args")
  case (Inl f)
  with assms show ?thesis
    by (simp add: bybit_FactoryRequestJson_call_def bybit_FactoryRequestJson_new_def split: prod.splits)
next
  case (Inr body)
  have "hr_body r = body" using assms Inr
    by (auto simp: bybit_FactoryRequestJson_call_def bybit_FactoryRequestJson_new_def Let_def split: prod.splits)
  with assms Inr show ?thesis
    by (auto simp: bybit_FactoryRequestJson_call_def bybit_FactoryRequestJson_new_def bybit_AddSignParams_def
        bybit_AddSignature_def Let_def fields_simps Sign_def)
qed

definition demo_hmac :: hmac where
  "demo_hmac key data = [of_nat (length key), of_nat (length data)]"

definition demo_dump :: "njson \<Rightarrow> string" where
  "demo_dump j = (case j of NNull \<Rightarrow> ''null'' | _ \<Rightarrow> ''{}'')"

definition demo_signer :: Signer where
  "demo_signer = \<lparr>sg_secret_key = ''secret'', sg_api_key = ''key''\<rparr>"

theorem bybit_request_signed_witness:
  "\<exists>r ts window. bybit_FactoryRequestJson_call demo_hmac demo_dump ''Beast'' 7
      (bybit_FactoryRequestJson_new (bybit_ExchangeChooser_Get MAINNET) ''/v5/order/create'' [] post_verb (Some demo_signer) True) =
      Inr r \<and>
     fields_get r ''X-BAPI-TIMESTAMP'' = Some ts \<and> fields_get r ''X-BAPI-RECV-WINDOW'' = Some window \<and>
     fields_get r ''X-BAPI-API-KEY'' = Some (sg_api_key demo_signer) \<and>
     fields_get r ''X-BAPI-SIGN'' =
       Some (B2aHex (demo_hmac (sg_secret_key demo_signer) (ts @ sg_api_key demo_signer @ window @ hr_body r))) \<and>
     bybit_Body demo_dump [] = Inr (hr_body r)"
proof -
  let ?call = "bybit_FactoryRequestJson_call demo_hmac demo_dump ''Beast'' 7
      (bybit_FactoryRequestJson_new (bybit_ExchangeChooser_Get MAINNET) ''/v5/order/create'' [] post_verb (Some demo_signer) True)"
  obtain r where "?call = Inr r"
    by (cases "bybit_AddSignParams (bybit_mainnet_HttpsExchange 5000) 7 http_request_empty")
      (simp add: bybit_FactoryRequestJson_call_def bybit_FactoryRequestJson_new_def Let_def bybit_Body_def)
  then show ?thesis using bybit_request_signed [of demo_hmac demo_dump "''Beast''" 7 _ _ "[]"] by blast
qed

text \<open>\<^bold>\<open>The snapshot request of Bybit carries no symbol.\<close>  The body keeps only values in quotes and the symbol has none, so
  the body is the text of null; and without a signer the request dereferences a null pointer, although it is not
  signed.
\<close>

theorem bybit_snapshot_request_empty:
  assumes "https_query_request (info_of pairs (rs_trading_pair req)) = ticker"
    and "ticker \<noteq> ''''" and "\<not> quoted ticker"
  shows "bybit_FactoryRequestJson_call H dump beast now (bybit_FactoryRequestJson_new ex ''/api/v3/depth''
       (fst (bybit_BookSnapshot_ArgsOrder req pairs)) get_verb None False) = Inl NullDeref \<and>
     (\<exists>r. bybit_FactoryRequestJson_call H dump beast now (bybit_FactoryRequestJson_new ex ''/api/v3/depth''
       (fst (bybit_BookSnapshot_ArgsOrder req pairs)) get_verb (Some s) False) = Inr r \<and>
       hr_target r = ''/api/v3/depth'' \<and> hr_body r = dump NNull)"
  using assms
  by (simp add: bybit_FactoryRequestJson_call_def bybit_FactoryRequestJson_new_def bybit_BookSnapshot_ArgsOrder_def
      args_put_def bybit_Body_def bybit_body_entry_def Let_def http_request_empty_def insert_field_def set_field_def)

section \<open>A new order carries its price and quantity\<close>

text \<open>The number a decimal text denotes.\<close>

definition decimal_value :: "string \<Rightarrow> rat" where
  "decimal_value s =
     (let i = takeWhile (\<lambda>c. c \<noteq> CHR ''.'') s; f = drop (Suc (length i)) s
      in of_nat (of_decimal 0 (i @ f)) / 10 ^ length f)"

lemma of_decimal_append: "of_decimal a (xs @ ys) = of_decimal (of_decimal a xs) ys"
  by (induction xs arbitrary: a) simp_all

lemma of_decimal_shift: "of_decimal a xs = a * 10 ^ length xs + of_decimal 0 xs"
proof (induction xs rule: rev_induct)
  case (snoc c xs)
  then show ?case by (simp add: of_decimal_snoc algebra_simps)
qed simp

lemma of_decimal_pad: "of_decimal 0 (pad_zeros n s) = of_decimal 0 s"
proof -
  have "of_decimal 0 (replicate k CHR ''0'') = 0" for k by (induction k) simp_all
  then show ?thesis by (simp add: pad_zeros_def of_decimal_append)
qed

lemma length_pad: "b < 10 ^ n \<Longrightarrow> 0 < n \<Longrightarrow> length (pad_zeros n (to_string_nat b)) = n"
  by (simp add: pad_zeros_def length_to_string_le)

lemma no_point: "CHR ''.'' \<notin> set (to_string_nat n)"
proof
  assume "CHR ''.'' \<in> set (to_string_nat n)"
  then obtain d where d: "d < 10" "CHR ''.'' = digit_char d" using to_string_nat_digits by blast
  then have "of_char CHR ''.'' = (48 + d :: nat)" using digit_char_code by simp
  then show False by simp
qed

lemma decimal_value_point:
  assumes "CHR ''.'' \<notin> set i"
  shows "decimal_value (i @ CHR ''.'' # f) = of_nat (of_decimal 0 (i @ f)) / 10 ^ length f"
proof -
  have "takeWhile (\<lambda>c. c \<noteq> CHR ''.'') (i @ CHR ''.'' # f) = i" using assms by (subst takeWhile_append2) auto
  then show ?thesis by (simp add: decimal_value_def)
qed

lemma decimal_value_no_point: "CHR ''.'' \<notin> set s \<Longrightarrow> decimal_value s = of_nat (of_decimal 0 s)"
proof -
  assume "CHR ''.'' \<notin> set s"
  then have t: "takeWhile (\<lambda>c. c \<noteq> CHR ''.'') s = s" by (auto simp: takeWhile_eq_all_conv)
  show ?thesis unfolding decimal_value_def t Let_def by simp
qed

lemma decimal_value_fmt_fixed:
  assumes "0 \<le> x"
  shows "decimal_value (fmt_fixed p x) = of_nat (nat (round_even (x * 10 ^ unat p))) / 10 ^ unat p"
proof (cases "p = 0")
  case True
  then show ?thesis using assms
    by (simp add: fmt_fixed_def Let_def decimal_value_no_point no_point of_decimal_to_string)
next
  case False
  define t where "t = nat (round_even (x * 10 ^ unat p))"
  define q where "q = unat p"
  have q: "0 < q" using False by (simp add: q_def unat_gt_0)
  let ?f = "pad_zeros q (to_string_nat (t mod 10 ^ q))"
  have l: "length ?f = q" by (rule length_pad [OF _ q]) simp
  have "fmt_fixed p x = to_string_nat (t div 10 ^ q) @ CHR ''.'' # ?f"
    using False assms by (simp add: fmt_fixed_def Let_def t_def q_def)
  then have "decimal_value (fmt_fixed p x) = of_nat (of_decimal 0 (to_string_nat (t div 10 ^ q) @ ?f)) / 10 ^ q"
    using decimal_value_point [OF no_point] l by metis
  also have "of_decimal 0 (to_string_nat (t div 10 ^ q) @ ?f) = t div 10 ^ q * 10 ^ q + t mod 10 ^ q"
    unfolding of_decimal_append of_decimal_to_string
    by (subst of_decimal_shift) (simp only: l of_decimal_pad of_decimal_to_string)
  also have "\<dots> = t" by (rule div_mult_mod_eq)
  finally show ?thesis by (simp only: t_def q_def)
qed

lemma round_even_near: "\<bar>z - of_int n\<bar> < 1 / 2 \<Longrightarrow> round_even z = n"
proof -
  assume z: "\<bar>z - of_int n\<bar> < 1 / 2"
  have "\<bar>of_int (round_even z) - z\<bar> \<le> \<bar>of_int n - z\<bar>" by (rule round_even_nearest)
  with z have "\<bar>(of_int (round_even z - n) :: rat)\<bar> < 1" unfolding of_int_diff by linarith
  then have "\<bar>round_even z - n\<bar> < 1" by (metis of_int_abs of_int_less_1_iff)
  then show ?thesis by linarith
qed

text \<open>The product of the ticks and the rounded power of ten is less than half a tick off.\<close>

lemma scaled_ticks:
  assumes rnd: "nearest_rounding rnd" and n: "unat n \<le> 2 ^ 50"
  shows "\<bar>fmul rnd (double_of_u64 rnd n) (pow10_neg rnd p) * 10 ^ unat p - of_nat (unat n)\<bar> < 1 / 2"
proof -
  define t :: rat where "t = 10 ^ unat p"
  define x :: rat where "x = of_nat (unat n)"
  have t: "0 < t" by (simp add: t_def)
  have "x \<le> of_nat (2 ^ 50)" using n unfolding x_def by (simp only: of_nat_le_iff)
  then have x: "0 \<le> x" "x \<le> 2 ^ 50" by (simp_all add: x_def del: of_nat_unat)
  have d: "double_of_u64 rnd n = x" unfolding x_def
    by (rule double_of_u64_exact [OF nearest_ieee [OF rnd]]) (use n in simp)
  define u where "u = rnd (1 / t) * t"
  have "\<bar>rnd (1 / t) - 1 / t\<bar> * t \<le> \<bar>1 / t\<bar> / 2 ^ 53 * t"
    by (rule mult_right_mono [OF nearest_error [OF rnd]]) (use t in simp)
  then have u: "\<bar>u - 1\<bar> \<le> 1 / 2 ^ 53" unfolding abs_scale [OF t, symmetric] using t by (simp add: u_def)
  have "\<bar>x * u - x\<bar> = x * \<bar>u - 1\<bar>" using x by (simp add: abs_mult flip: right_diff_distrib [of x u 1, simplified])
  also have "\<dots> \<le> 2 ^ 50 * (1 / 2 ^ 53)" by (rule mult_mono [OF x(2) u]) simp_all
  finally have xu: "\<bar>x * u - x\<bar> \<le> 1 / 8" by simp
  let ?y = "x * rnd (1 / t)"
  have yt: "?y * t = x * u" by (simp add: u_def)
  have "\<bar>rnd ?y - ?y\<bar> * t \<le> \<bar>?y\<bar> / 2 ^ 53 * t"
    by (rule mult_right_mono [OF nearest_error [OF rnd]]) (use t in simp)
  also have "\<dots> = \<bar>x * u\<bar> / 2 ^ 53" using t by (simp add: u_def abs_mult)
  also have "\<dots> \<le> 1 / 4"
  proof -
    have "(2 :: rat) ^ 51 = 2 * 2 ^ 50" "(1 :: rat) \<le> 2 ^ 50" by simp_all
    moreover define w where "w = x * u"
    ultimately have "\<bar>w\<bar> \<le> 2 ^ 51" using xu x unfolding w_def [symmetric] by linarith
    then show ?thesis by (simp add: w_def)
  qed
  finally have "\<bar>rnd ?y * t - x * u\<bar> \<le> 1 / 4" unfolding abs_scale [OF t, symmetric] yt .
  with xu have "\<bar>rnd ?y * t - x\<bar> < 1 / 2" by linarith
  then show ?thesis by (simp add: fmul_def d pow10_neg_def flip: t_def x_def del: of_nat_unat)
qed

lemma printed_ticks:
  assumes "nearest_rounding rnd" and "unat n \<le> 2 ^ 50"
  shows "decimal_value (fmt_fixed p (fmul rnd (double_of_u64 rnd n) (pow10_neg rnd p))) = of_nat (unat n) / 10 ^ unat p"
proof -
  let ?x = "fmul rnd (double_of_u64 rnd n) (pow10_neg rnd p)"
  note i = nearest_ieee [OF assms(1)]
  have "0 \<le> pow10_neg rnd p" unfolding pow10_neg_def by (rule ieee_nonneg [OF i]) simp
  then have "0 \<le> ?x" unfolding fmul_def using double_of_u64_nonneg [OF i] by (intro ieee_nonneg [OF i]) simp
  moreover have "round_even (?x * 10 ^ unat p) = int (unat n)"
    by (rule round_even_near) (use scaled_ticks [OF assms] in \<open>simp del: of_nat_unat\<close>)
  ultimately show ?thesis by (simp add: decimal_value_fmt_fixed del: of_nat_unat)
qed

text \<open>C22: \<^bold>\<open>A new order is sent with exactly its price, quantity, side and id.\<close>  With rounding to nearest the printed price and
  quantity denote the numbers of ticks of the order, for up to \<open>2^50\<close> ticks; the parser of the answers reads the side
  back, and the id is the printed order id.
\<close>

theorem new_order_roundtrip:
  assumes "nearest_rounding rnd" and "unat (rn_price ord) \<le> 2 ^ 50" and "unat (rn_qty ord) \<le> 2 ^ 50"
    and "rn_side ord \<in> {kAsk, kBid}" and "rn_order_id ord \<noteq> kOrderIdInvalid"
    and "pairs (rn_trading_pair ord) = Some info"
  shows "\<exists>args price quantity side. LimitOrder_ArgsOrder rnd ord pairs = (args, pairs) \<and>
     map_of args ''symbol'' = Some (https_query_request info) \<and>
     map_of args ''price'' = Some price \<and> decimal_value price = of_nat (unat (rn_price ord)) / 10 ^ unat (price_precission info) \<and>
     map_of args ''quantity'' = Some quantity \<and> decimal_value quantity = of_nat (unat (rn_qty ord)) / 10 ^ unat (qty_precission info) \<and>
     map_of args ''side'' = Some side \<and> side_of_string (Some side) kSideInvalid = rn_side ord \<and>
     map_of args ''newClientOrderId'' = Some (orderIdToString (rn_order_id ord))"
proof -
  let ?args = "fst (LimitOrder_ArgsOrder rnd ord pairs)"
  have i: "info_of pairs (rn_trading_pair ord) = info" using assms(6) by (simp add: info_of_def)
  have a: "LimitOrder_ArgsOrder rnd ord pairs = (?args, pairs)"
    using assms(6) by (simp add: LimitOrder_ArgsOrder_def Let_def touch_info_def)
  have g: "map_of ?args k = map_of (rev (limit_args rnd ord pairs)) k" for k
    unfolding LimitOrder_put_all args.get_put_all by (simp split: option.split)
  let ?price = "fmt_fixed (price_precission info) (GetPriceDouble rnd info (rn_price ord))"
  let ?qty = "fmt_fixed (qty_precission info) (GetQtyDouble rnd info (rn_qty ord))"
  let ?side = "if rn_side ord = kAsk then ''BUY'' else ''SELL''"
  have p: "decimal_value ?price = of_nat (unat (rn_price ord)) / 10 ^ unat (price_precission info)"
    unfolding GetPriceDouble_def by (rule printed_ticks [OF assms(1,2)])
  have q: "decimal_value ?qty = of_nat (unat (rn_qty ord)) / 10 ^ unat (qty_precission info)"
    unfolding GetQtyDouble_def by (rule printed_ticks [OF assms(1,3)])
  have "side_of_string (Some ?side) kSideInvalid = rn_side ord" "map_of ?args ''side'' = Some ?side"
    using assms(4) by (auto simp: g limit_args_def Let_def side_of_string_def)
  moreover have "map_of ?args ''symbol'' = Some (https_query_request info)" "map_of ?args ''price'' = Some ?price"
    "map_of ?args ''quantity'' = Some ?qty" "map_of ?args ''newClientOrderId'' = Some (orderIdToString (rn_order_id ord))"
    using assms(4,5) by (auto simp: g limit_args_def Let_def i)
  ultimately show ?thesis using a p q by blast
qed

definition demo_order :: RequestNewOrder where
  "demo_order = \<lparr>rn_exchange_id = kBinance, rn_type = NEW, rn_trading_pair = \<lparr>tp_first = 1, tp_second = 2\<rparr>,
     rn_order_id = 5, rn_side = kAsk, rn_price = 29, rn_qty = 7\<rparr>"

definition demo_pairs :: pair_infos where
  "demo_pairs = [\<lparr>tp_first = 1, tp_second = 2\<rparr> \<mapsto>
     TradingPairInfo_zero\<lparr>price_precission := 2, qty_precission := 5, https_query_request := ''BTCUSDT''\<rparr>]"

theorem new_order_roundtrip_witness:
  "\<exists>args price quantity side. LimitOrder_ArgsOrder nearest_double demo_order demo_pairs = (args, demo_pairs) \<and>
     map_of args ''symbol'' = Some ''BTCUSDT'' \<and> map_of args ''price'' = Some price \<and> decimal_value price = 29 / 10 ^ 2 \<and>
     map_of args ''quantity'' = Some quantity \<and> decimal_value quantity = 7 / 10 ^ 5 \<and>
     map_of args ''side'' = Some side \<and> side_of_string (Some side) kSideInvalid = kAsk \<and>
     map_of args ''newClientOrderId'' = Some (orderIdToString 5)"
  using new_order_roundtrip [OF nearest_double_nearest, of demo_order demo_pairs
      "TradingPairInfo_zero\<lparr>price_precission := 2, qty_precission := 5, https_query_request := ''BTCUSDT''\<rparr>"]
  by (simp add: demo_order_def demo_pairs_def kOrderIdInvalid_def)

theorem bybit_snapshot_request_empty_witness:
  "bybit_FactoryRequestJson_call demo_hmac demo_dump ''Beast'' 7 (bybit_FactoryRequestJson_new
       (bybit_ExchangeChooser_Get MAINNET) ''/api/v3/depth''
       (fst (bybit_BookSnapshot_ArgsOrder \<lparr>rs_exchange_id = kBybit, rs_trading_pair = \<lparr>tp_first = 1, tp_second = 2\<rparr>,
          rs_depth = 50\<rparr> demo_pairs)) get_verb None False) = Inl NullDeref"
  by (rule bybit_snapshot_request_empty [where ticker = "''BTCUSDT''", THEN conjunct1])
    (simp_all add: demo_pairs_def info_of_def quoted_def)

text \<open>
  Two texts that do not say what they stand for: the 60 minute interval of Bybit is printed as 30 minutes, and the
  one-argument constructor of \<open>SymbolLowerCase\<close> prints nothing.
\<close>

lemma bybit_interval_minutes:
  "i \<notin> {By_D1, By_W1, By_M1} \<Longrightarrow>
     60 * of_decimal 0 (bybit_interval_ToString i) = unat (bybit_interval_Seconds i) \<longleftrightarrow> i \<noteq> By_m60"
  by (cases i) simp_all

lemma SymbolLowerCase1_empty: "sy_ticker (SymbolLowerCase1 s) = ''''"
  by (simp add: SymbolLowerCase1_def)

text \<open>A Binance subscription with a frequency has no stream in it.\<close>

lemma binance_subscription_without_stream:
  "rd_frequency r \<noteq> kFrequencyMSInvalid \<Longrightarrow> binance_ArgsBody r pairs = Inr (NObject m) \<Longrightarrow> m ''params'' = None"
  by (cases "request_id_json (rd_id r)")
    (auto simp: binance_ArgsBody_def binance_SetParams_def binance_SetMethod_def SetId_def json_put_def)

text \<open>The depth of the book event getter is cut to 16 bits before it is limited to 5000.\<close>

lemma depth_wraps:
  "map_of (fst (BookEventGetter_ArgsOrder (r\<lparr>rs_depth := 65536\<rparr>) pairs)) ''limit'' = Some ''0''"
proof -
  have "to_string_nat 0 = ''0''" by code_simp
  then show ?thesis by (simp add: BookEventGetter_ArgsOrder_def events_SetLimit_def Let_def map_of_args_put)
qed

end
