(* ===== verification/Sessions.thy ===== *)
theory Sessions
  imports Exchange_Api Mem_Pool
begin

text \<open>
  The connections to the exchanges: the callback lists of aot/cb_manager.h, the HTTPS session and the connection
  pool of aot/Https.h and the web socket session of aot/WS.h.

  \<^item> Boost.Asio and Beast are the environment.  A coroutine runs from one \<open>co_await\<close> to the next; each such piece is
    an operation here, and the outcome of an awaited operation is its argument.
  \<^item> Calls of registered callbacks are the events an operation gives, in order.  In the pool the events of a
    session run the pool's own callbacks.
  \<^item> A session object lives at an address; \<open>Deallocate\<close> destroys it, and a later access is \<open>DanglingDeref\<close>.
\<close>

section \<open>Callback lists\<close>

record 'c cb_node =
  cn_callback :: 'c
  cn_id :: u64
  cn_active :: bool

record 'c cb_manager =
  cm_next_id :: u64
  cm_head :: "'c cb_node list"
  cm_registration_allowed :: bool

definition cb_manager_new :: "'c cb_manager" where
  "cb_manager_new = \<lparr>cm_next_id = 0, cm_head = [], cm_registration_allowed = True\<rparr>"

definition RegisterCallback :: "'c \<Rightarrow> 'c cb_manager \<Rightarrow> u64 \<times> 'c cb_manager" where
  "RegisterCallback cb m =
     (if \<not> cm_registration_allowed m then (- 1, m)
      else let i = cm_next_id m in
        (i, m\<lparr>cm_next_id := i + 1, cm_registration_allowed := False,
              cm_head := \<lparr>cn_callback = cb, cn_id = i, cn_active = True\<rparr> # cm_head m\<rparr>))"

fun deactivate :: "u64 \<Rightarrow> 'c cb_node list \<Rightarrow> bool \<times> 'c cb_node list" where
  "deactivate i [] = (False, [])"
| "deactivate i (current # rest) =
     (if cn_id current = i then (True, current\<lparr>cn_active := False\<rparr> # rest)
      else let (found, rest') = deactivate i rest in (found, current # rest'))"

definition UnregisterCallback :: "u64 \<Rightarrow> 'c cb_manager \<Rightarrow> bool \<times> 'c cb_manager" where
  "UnregisterCallback i m = (let (found, ns) = deactivate i (cm_head m) in (found, m\<lparr>cm_head := ns\<rparr>))"

text \<open>The callbacks that are called, in order.\<close>

definition InvokeAll :: "'c cb_manager \<Rightarrow> 'c list" where
  "InvokeAll m = map cn_callback (filter cn_active (cm_head m))"

section \<open>The HTTPS session\<close>

datatype StatusSession =
  Resolving | Connecting | Handshaking | Ready | kInProcess | Expired | Closing | Cancelling

text \<open>\<open>Responded c r\<close> is a call of the response callback \<open>c\<close> with the response \<open>r\<close>.\<close>

datatype ('c, 'p) session_event =
  OnReady | OnExpired | OnClosedSystem | OnClosedUser | Responded 'c 'p

text \<open>Where the coroutine \<open>Run\<close> waits.\<close>

datatype run_point = RunSpawned | RunResolving | RunConnecting | RunHandshaking | RunDone

record ('c, 'q, 'p) https_session =
  hs_status :: StatusSession
  hs_need_execute_on_closed_system :: bool
  hs_request_queue :: "'q lf_queue"
  hs_res :: 'p
  hs_on_response :: "'c option"
  hs_on_ready :: bool
  hs_on_expired :: bool
  hs_on_closed_system :: bool
  hs_on_closed_user :: bool
  hs_is_processing :: bool
  hs_run :: run_point
  hs_timer :: bool                 \<comment> \<open>the timer of \<open>start_timer\<close> is waiting\<close>
  hs_loops :: nat                  \<comment> \<open>request loops that are spawned and not started\<close>
  hs_in_flight :: "'q option"      \<comment> \<open>the request a loop waits for\<close>

definition HttpsSession3_new :: "'q lf_queue \<Rightarrow> 'p \<Rightarrow> ('c, 'q, 'p) https_session" where
  "HttpsSession3_new q r =
     \<lparr>hs_status = Resolving, hs_need_execute_on_closed_system = True, hs_request_queue = q, hs_res = r,
      hs_on_response = None, hs_on_ready = False, hs_on_expired = False, hs_on_closed_system = False,
      hs_on_closed_user = False, hs_is_processing = False, hs_run = RunSpawned, hs_timer = False, hs_loops = 0,
      hs_in_flight = None\<rparr>"

definition TransitionTo ::
    "StatusSession \<Rightarrow> ('c, 'q, 'p) https_session \<Rightarrow> ('c, 'q, 'p) https_session \<times> ('c, 'p) session_event list" where
  "TransitionTo new_state s =
     (if hs_status s = new_state then (s, [])
      else let s1 = s\<lparr>hs_status := new_state\<rparr> in
        case new_state of
          Ready \<Rightarrow> (s1, if hs_on_ready s then [OnReady] else [])
        | Expired \<Rightarrow>
            if hs_need_execute_on_closed_system s
            then (s1\<lparr>hs_need_execute_on_closed_system := False\<rparr>, if hs_on_expired s then [OnExpired] else [])
            else (s1, [])
        | Closing \<Rightarrow>
            if hs_need_execute_on_closed_system s
            then (s1\<lparr>hs_need_execute_on_closed_system := False\<rparr>, if hs_on_closed_system s then [OnClosedSystem] else [])
            else (s1, [])
        | _ \<Rightarrow> (s1, []))"

definition CloseSessionFast ::
    "('c, 'q, 'p) https_session \<Rightarrow> ('c, 'q, 'p) https_session \<times> ('c, 'p) session_event list" where
  "CloseSessionFast s = (s, if hs_on_closed_user s then [OnClosedUser] else [])"

definition close_and_transition ::
    "StatusSession \<Rightarrow> ('c, 'q, 'p) https_session \<Rightarrow> ('c, 'q, 'p) https_session \<times> ('c, 'p) session_event list" where
  "close_and_transition st s =
     (let (s1, e1) = CloseSessionFast s; (s2, e2) = TransitionTo st s1 in (s2, e1 @ e2))"

definition HandleCancellation_https ::
    "('c, 'q, 'p) https_session \<Rightarrow> ('c, 'q, 'p) https_session \<times> ('c, 'p) session_event list" where
  "HandleCancellation_https s =
     (let (s1, e) = TransitionTo Cancelling s in (s1\<lparr>hs_need_execute_on_closed_system := False\<rparr>, e))"

text \<open>\<open>AsyncCloseSessionGracefully\<close> emits the signal, whose slot is \<open>HandleCancellation\<close>.\<close>

definition https_AsyncCloseSessionGracefully ::
    "('c, 'q, 'p) https_session \<Rightarrow> ('c, 'q, 'p) https_session \<times> ('c, 'p) session_event list" where
  "https_AsyncCloseSessionGracefully s = HandleCancellation_https s"

text \<open>The callbacks of a session.\<close>

definition RegisterOnResponse :: "'c \<Rightarrow> ('c, 'q, 'p) https_session \<Rightarrow> ('c, 'q, 'p) https_session" where
  "RegisterOnResponse callback s = s\<lparr>hs_on_response := Some callback\<rparr>"

definition UnregisterOnResponse :: "('c, 'q, 'p) https_session \<Rightarrow> ('c, 'q, 'p) https_session" where
  "UnregisterOnResponse s = s\<lparr>hs_on_response := None\<rparr>"

definition RegisterOnReady :: "bool \<Rightarrow> ('c, 'q, 'p) https_session \<Rightarrow> ('c, 'q, 'p) https_session" where
  "RegisterOnReady callback s = s\<lparr>hs_on_ready := callback\<rparr>"

definition UnregisterOnReady :: "('c, 'q, 'p) https_session \<Rightarrow> ('c, 'q, 'p) https_session" where
  "UnregisterOnReady s = s\<lparr>hs_on_ready := False\<rparr>"

definition RegisterOnExpired :: "bool \<Rightarrow> ('c, 'q, 'p) https_session \<Rightarrow> ('c, 'q, 'p) https_session" where
  "RegisterOnExpired callback s = s\<lparr>hs_on_expired := callback\<rparr>"

definition UnregisterOnExpired :: "('c, 'q, 'p) https_session \<Rightarrow> ('c, 'q, 'p) https_session" where
  "UnregisterOnExpired s = s\<lparr>hs_on_expired := False\<rparr>"

definition RegisterOnSystemClosed :: "bool \<Rightarrow> ('c, 'q, 'p) https_session \<Rightarrow> ('c, 'q, 'p) https_session" where
  "RegisterOnSystemClosed callback s = s\<lparr>hs_on_closed_system := callback\<rparr>"

definition UnregisterOnSystemClosed :: "('c, 'q, 'p) https_session \<Rightarrow> ('c, 'q, 'p) https_session" where
  "UnregisterOnSystemClosed s = s\<lparr>hs_on_closed_system := False\<rparr>"

definition RegisterOnUserClosed :: "bool \<Rightarrow> ('c, 'q, 'p) https_session \<Rightarrow> ('c, 'q, 'p) https_session" where
  "RegisterOnUserClosed callback s = s\<lparr>hs_on_closed_user := callback\<rparr>"

definition UnRegisterOnUserClosed :: "('c, 'q, 'p) https_session \<Rightarrow> ('c, 'q, 'p) https_session" where
  "UnRegisterOnUserClosed s = s\<lparr>hs_on_closed_user := False\<rparr>"

text \<open>\<open>AsyncRequest\<close> on the strand; whether \<open>try_enqueue\<close> succeeded is not looked at.\<close>

definition StartProcessing :: "('c, 'q, 'p) https_session \<Rightarrow> ('c, 'q, 'p) https_session" where
  "StartProcessing s = s\<lparr>hs_loops := Suc (hs_loops s)\<rparr>"

definition AsyncRequest :: "'q \<Rightarrow> ('c, 'q, 'p) https_session \<Rightarrow> ('c, 'q, 'p) https_session" where
  "AsyncRequest req s =
     (let s1 = s\<lparr>hs_request_queue := snd (try_enqueue req (hs_request_queue s))\<rparr>
      in if \<not> hs_is_processing s1 then StartProcessing (s1\<lparr>hs_is_processing := True\<rparr>) else s1)"

text \<open>\<open>RequestLoop\<close> up to the write; the loop ends when there is no request.\<close>

definition RequestLoop_start ::
    "('c, 'q, 'p) https_session \<Rightarrow> ('c, 'q, 'p) https_session \<times> ('c, 'p) session_event list" where
  "RequestLoop_start s0 =
     (let s = s0\<lparr>hs_loops := hs_loops s0 - 1\<rparr>; (s1, e1) = TransitionTo Ready s in
      case lq_items (hs_request_queue s1) of
        [] \<Rightarrow> (s1, e1)
      | req # rest \<Rightarrow>
          let (s2, e2) = TransitionTo kInProcess s1
          in (s2\<lparr>hs_request_queue := (hs_request_queue s2)\<lparr>lq_items := rest\<rparr>, hs_in_flight := Some req\<rparr>, e1 @ e2))"

text \<open>After the read, or after the exception that ended the write or the read (\<open>None\<close>).\<close>

definition RequestLoop_response ::
    "'p option \<Rightarrow> ('c, 'q, 'p) https_session \<Rightarrow> ('c, 'q, 'p) https_session \<times> ('c, 'p) session_event list" where
  "RequestLoop_response io s =
     (let s1 = s\<lparr>hs_res := (case io of None \<Rightarrow> hs_res s | Some r \<Rightarrow> r), hs_in_flight := None\<rparr>;
          e1 = (case hs_on_response s1 of None \<Rightarrow> [] | Some cb \<Rightarrow> [Responded cb (hs_res s1)]);
          (s2, e2) = close_and_transition Closing s1
      in (s2, e1 @ e2))"

definition RequestLoop_finish ::
    "'p option \<Rightarrow> ('c, 'q, 'p) https_session \<Rightarrow> ('c, 'q, 'p) https_session \<times> ('c, 'p) session_event list" where
  "RequestLoop_finish io s = (let (s1, e) = RequestLoop_response io s in (s1\<lparr>hs_is_processing := False\<rparr>, e))"

text \<open>The pieces of \<open>Run\<close>.  An error of the resolver or of the connect throws and leaves the event loop.\<close>

definition Run_start :: "bool \<Rightarrow> ('c, 'q, 'p) https_session \<Rightarrow> ('c, 'q, 'p) https_session \<times> ('c, 'p) session_event list" where
  "Run_start sni_ok s =
     (if \<not> sni_ok then close_and_transition Expired (s\<lparr>hs_run := RunDone\<rparr>)
      else (s\<lparr>hs_timer := True, hs_status := Resolving, hs_run := RunResolving\<rparr>, []))"

definition Run_resolved :: "bool \<Rightarrow> ('c, 'q, 'p) https_session \<Rightarrow> ('c, 'q, 'p) https_session result" where
  "Run_resolved ok s = (if ok then Inr (s\<lparr>hs_status := Connecting, hs_run := RunConnecting\<rparr>) else Inl Uncaught)"

definition Run_connected :: "bool \<Rightarrow> ('c, 'q, 'p) https_session \<Rightarrow> ('c, 'q, 'p) https_session result" where
  "Run_connected ok s = (if ok then Inr (s\<lparr>hs_status := Handshaking, hs_run := RunHandshaking\<rparr>) else Inl Uncaught)"

definition Run_handshaken ::
    "bool \<Rightarrow> ('c, 'q, 'p) https_session \<Rightarrow> ('c, 'q, 'p) https_session \<times> ('c, 'p) session_event list" where
  "Run_handshaken ok s =
     (let s1 = s\<lparr>hs_run := RunDone\<rparr>
      in if ok then (StartProcessing (s1\<lparr>hs_timer := False\<rparr>), []) else close_and_transition Expired s1)"

definition timer_expired ::
    "('c, 'q, 'p) https_session \<Rightarrow> ('c, 'q, 'p) https_session \<times> ('c, 'p) session_event list" where
  "timer_expired s = close_and_transition Expired (s\<lparr>hs_timer := False\<rparr>)"

text \<open>The steps of a session: calls of its owner and completions of what it waits for.\<close>

inductive https_step ::
    "('c, 'q, 'p) https_session \<Rightarrow> ('c, 'p) session_event list \<Rightarrow> ('c, 'q, 'p) https_session \<Rightarrow> bool" where
  step_request: "https_step s [] (AsyncRequest req s)"
| step_register: "https_step s [] (s\<lparr>hs_on_response := cb\<rparr>)"
| step_cancel: "HandleCancellation_https s = (s', e) \<Longrightarrow> https_step s e s'"
| step_run: "hs_run s = RunSpawned \<Longrightarrow> Run_start ok s = (s', e) \<Longrightarrow> https_step s e s'"
| step_resolved: "hs_run s = RunResolving \<Longrightarrow> Run_resolved ok s = Inr s' \<Longrightarrow> https_step s [] s'"
| step_connected: "hs_run s = RunConnecting \<Longrightarrow> Run_connected ok s = Inr s' \<Longrightarrow> https_step s [] s'"
| step_handshaken: "hs_run s = RunHandshaking \<Longrightarrow> Run_handshaken ok s = (s', e) \<Longrightarrow> https_step s e s'"
| step_timer: "hs_timer s \<Longrightarrow> timer_expired s = (s', e) \<Longrightarrow> https_step s e s'"
| step_loop: "0 < hs_loops s \<Longrightarrow> RequestLoop_start s = (s', e) \<Longrightarrow> https_step s e s'"
| step_finish: "hs_in_flight s \<noteq> None \<Longrightarrow> RequestLoop_finish io s = (s', e) \<Longrightarrow> https_step s e s'"

inductive https_run ::
    "('c, 'q, 'p) https_session \<Rightarrow> ('c, 'p) session_event list \<Rightarrow> ('c, 'q, 'p) https_session \<Rightarrow> bool" where
  run_refl: "https_run s [] s"
| run_step: "https_run s es s' \<Longrightarrow> https_step s' e s'' \<Longrightarrow> https_run s (es @ e) s''"

inductive_cases https_stepE: "https_step s e s'"

section \<open>The connection pool\<close>

text \<open>\<open>'s\<close> is the session class, the template argument of the pool.\<close>

record 's conn_pool =
  cp_awaiable :: "addr lf_queue"
  cp_useless :: "addr list"
  cp_copy_ready :: "addr list"
  cp_handling :: bool                     \<comment> \<open>the flag \<open>is_handling_session\<close>\<close>
  cp_mem :: MemoryPool
  cp_objects :: "addr \<rightharpoonup> 's"            \<comment> \<open>the sessions that are alive\<close>

text \<open>\<open>fresh\<close> is a new session with the callbacks of the pool.\<close>

definition TryCreateNewSession :: "'s \<Rightarrow> 's conn_pool \<Rightarrow> 's conn_pool result" where
  "TryCreateNewSession fresh p =
     (case Allocate (cp_mem p) of
        (None, m) \<Rightarrow> Inl NullDeref
      | (Some a, m) \<Rightarrow> Inr (p\<lparr>cp_mem := m, cp_objects := (cp_objects p)(a \<mapsto> fresh)\<rparr>))"

fun ConnectionPool_fill :: "nat \<Rightarrow> 's \<Rightarrow> 's conn_pool \<Rightarrow> 's conn_pool result" where
  "ConnectionPool_fill 0 fresh p = Inr p"
| "ConnectionPool_fill (Suc n) fresh p = bind_result (TryCreateNewSession fresh p) (ConnectionPool_fill n fresh)"

definition ConnectionPool_new ::
    "(nat \<Rightarrow> addr option) \<Rightarrow> addr lf_queue \<Rightarrow> nat \<Rightarrow> 's \<Rightarrow> 's conn_pool result" where
  "ConnectionPool_new chunks aq pool_size fresh =
     ConnectionPool_fill pool_size fresh
       \<lparr>cp_awaiable = aq, cp_useless = [], cp_copy_ready = [], cp_handling = False,
        cp_mem = MemoryPool_new chunks pool_size, cp_objects = Map.empty\<rparr>"

text \<open>The callbacks of the pool for the session at \<open>a\<close>.  The object is destroyed before its replacement is made.\<close>

datatype pool_callback = CbReady | CbSystemClosed | CbExpired

definition pool_recreate :: "'s \<Rightarrow> addr \<Rightarrow> 's conn_pool \<Rightarrow> 's conn_pool result" where
  "pool_recreate fresh a p =
     (if cp_handling p then Inr p
      else bind_result
        (TryCreateNewSession fresh
          (p\<lparr>cp_handling := True, cp_mem := Deallocate (Some a) (cp_mem p), cp_objects := (cp_objects p)(a := None)\<rparr>))
        (\<lambda>p'. Inr (p'\<lparr>cp_handling := False\<rparr>)))"

fun run_callback :: "'s \<Rightarrow> addr \<Rightarrow> pool_callback \<Rightarrow> 's conn_pool \<Rightarrow> 's conn_pool result" where
  "run_callback fresh a CbReady p = Inr (p\<lparr>cp_awaiable := snd (try_enqueue a (cp_awaiable p))\<rparr>)"
| "run_callback fresh a CbSystemClosed p = pool_recreate fresh a p"
| "run_callback fresh a CbExpired p = pool_recreate fresh a p"

text \<open>
  \<open>AcquireConnection\<close> while the statuses of the sessions stay as they are: the first session is put behind the others
  until one is ready.  On an empty queue, or when none is ready, the loop does not end.
\<close>

partial_function (option) AcquireConnection ::
    "(addr \<Rightarrow> StatusSession) \<Rightarrow> addr list \<Rightarrow> (addr \<times> addr list) option" where
  "AcquireConnection status q =
     (case q of
        [] \<Rightarrow> AcquireConnection status q
      | a # rest \<Rightarrow> if status a = Ready then Some (a, rest @ [a]) else AcquireConnection status (rest @ [a]))"

text \<open>\<open>close_session\<close> is \<open>AsyncCloseSessionGracefully\<close> of the session class.\<close>

definition CloseAllSessions :: "('s \<Rightarrow> 's) \<Rightarrow> 's conn_pool \<Rightarrow> 's conn_pool result" where
  "CloseAllSessions close_session p =
     (let doomed = lq_items (cp_awaiable p) @ cp_useless p @ cp_copy_ready p;
          p1 = p\<lparr>cp_awaiable := (cp_awaiable p)\<lparr>lq_items := []\<rparr>, cp_useless := [], cp_copy_ready := []\<rparr>
      in fold_result (\<lambda>a p'. case cp_objects p' a of None \<Rightarrow> Inl DanglingDeref
            | Some s \<Rightarrow> Inr (p'\<lparr>cp_objects := (cp_objects p')(a \<mapsto> close_session s)\<rparr>)) doomed p1)"

subsection \<open>HTTPS sessions in the pool\<close>

text \<open>A session with the three callbacks of the pool; its queue and first response are arguments.\<close>

definition pool_session :: "'q lf_queue \<Rightarrow> 'p \<Rightarrow> ('c, 'q, 'p) https_session" where
  "pool_session q r = (HttpsSession3_new q r)\<lparr>hs_on_ready := True, hs_on_closed_system := True, hs_on_expired := True\<rparr>"

fun https_callback :: "('c, 'p) session_event \<Rightarrow> pool_callback option" where
  "https_callback OnReady = Some CbReady"
| "https_callback OnExpired = Some CbExpired"
| "https_callback OnClosedSystem = Some CbSystemClosed"
| "https_callback OnClosedUser = None"
| "https_callback (Responded cb x) = None"

text \<open>
  A piece of the code of the session at \<open>a\<close> that does not touch the session after its events, and one that goes on with
  \<open>rest\<close> on the session: that is a dangling access when a callback has destroyed it.
\<close>

definition run_callbacks ::
    "'s \<Rightarrow> addr \<Rightarrow> pool_callback list \<Rightarrow> 's conn_pool \<Rightarrow> 's conn_pool result" where
  "run_callbacks fresh a cbs p = fold_result (run_callback fresh a) cbs p"

definition destroys :: "pool_callback list \<Rightarrow> 's conn_pool \<Rightarrow> bool" where
  "destroys cbs p \<longleftrightarrow> \<not> cp_handling p \<and> (CbSystemClosed \<in> set cbs \<or> CbExpired \<in> set cbs)"

definition run_then ::
    "'s \<Rightarrow> addr \<Rightarrow> 's \<Rightarrow> pool_callback list \<Rightarrow> ('s \<Rightarrow> 's) \<Rightarrow> 's conn_pool \<Rightarrow> 's conn_pool result" where
  "run_then fresh a s cbs rest p =
     bind_result (run_callbacks fresh a cbs (p\<lparr>cp_objects := (cp_objects p)(a \<mapsto> s)\<rparr>)) (\<lambda>p'.
       if destroys cbs p then Inl DanglingDeref
       else Inr (p'\<lparr>cp_objects := (cp_objects p')(a \<mapsto> rest s)\<rparr>))"

text \<open>\<open>RequestLoop\<close> writes \<open>is_processing_\<close> after \<open>TransitionTo(Closing)\<close>.\<close>

definition pool_RequestLoop_finish ::
    "('c, 'q, 'p) https_session \<Rightarrow> 'p option \<Rightarrow> addr \<Rightarrow> ('c, 'q, 'p) https_session conn_pool \<Rightarrow>
     ('c, 'q, 'p) https_session conn_pool result" where
  "pool_RequestLoop_finish fresh io a p =
     (case cp_objects p a of
        None \<Rightarrow> Inl DanglingDeref
      | Some s \<Rightarrow>
          let (s1, es) = RequestLoop_response io s
          in run_then fresh a s1 (List.map_filter https_callback es) (\<lambda>s. s\<lparr>hs_is_processing := False\<rparr>) p)"

text \<open>The request loop up to the write does not touch the session after the event, unless there is a request.\<close>

definition pool_RequestLoop_start ::
    "('c, 'q, 'p) https_session \<Rightarrow> addr \<Rightarrow> ('c, 'q, 'p) https_session conn_pool \<Rightarrow>
     ('c, 'q, 'p) https_session conn_pool result" where
  "pool_RequestLoop_start fresh a p =
     (case cp_objects p a of
        None \<Rightarrow> Inl DanglingDeref
      | Some s \<Rightarrow>
          let (s1, es) = RequestLoop_start s
          in run_then fresh a s1 (List.map_filter https_callback es) (\<lambda>s. s) p)"

section \<open>The web socket session\<close>

text \<open>\<open>'m\<close> are the messages that are read; response callbacks are registered with a trading pair.\<close>

datatype ('c, 'm) wss_event =
  WssReady | WssExpired | WssClosed | Message 'c TradingPair 'm | SessionClosed 'c

record 'c wss_session =
  ws_need_read :: bool
  ws_is_connected :: bool
  ws_is_expired :: bool
  ws_status :: StatusSession
  ws_on_ready :: bool
  ws_on_expired :: bool
  ws_on_closed :: bool
  ws_cb_on_response :: "('c \<times> TradingPair) cb_manager"
  ws_cb_on_close_session :: "'c cb_manager"
  ws_message_queue :: "string list"
  ws_is_writing :: bool
  ws_write_loops :: nat            \<comment> \<open>write loops that are spawned and not started\<close>
  ws_sent :: "string list"         \<comment> \<open>what was written to the stream\<close>

definition WssSession3_new :: "'c wss_session" where
  "WssSession3_new =
     \<lparr>ws_need_read = True, ws_is_connected = False, ws_is_expired = False, ws_status = Resolving,
      ws_on_ready = False, ws_on_expired = False, ws_on_closed = False, ws_cb_on_response = cb_manager_new,
      ws_cb_on_close_session = cb_manager_new, ws_message_queue = [], ws_is_writing = False, ws_write_loops = 0,
      ws_sent = []\<rparr>"

definition RegisterCallbackOnResponse :: "'c \<Rightarrow> TradingPair \<Rightarrow> 'c wss_session \<Rightarrow> u64 \<times> 'c wss_session" where
  "RegisterCallbackOnResponse cb tp s =
     (let (i, m) = RegisterCallback (cb, tp) (ws_cb_on_response s) in (i, s\<lparr>ws_cb_on_response := m\<rparr>))"

definition UnRegisterCallbackOnResponse :: "u64 \<Rightarrow> 'c wss_session \<Rightarrow> bool \<times> 'c wss_session" where
  "UnRegisterCallbackOnResponse i s =
     (let (b, m) = UnregisterCallback i (ws_cb_on_response s) in (b, s\<lparr>ws_cb_on_response := m\<rparr>))"

definition RegisterCallbackOnCloseSession :: "'c \<Rightarrow> 'c wss_session \<Rightarrow> u64 \<times> 'c wss_session" where
  "RegisterCallbackOnCloseSession cb s =
     (let (i, m) = RegisterCallback cb (ws_cb_on_close_session s) in (i, s\<lparr>ws_cb_on_close_session := m\<rparr>))"

definition UnRegisterCallbackOnCloseSession :: "u64 \<Rightarrow> 'c wss_session \<Rightarrow> bool \<times> 'c wss_session" where
  "UnRegisterCallbackOnCloseSession i s =
     (let (b, m) = UnregisterCallback i (ws_cb_on_close_session s) in (b, s\<lparr>ws_cb_on_close_session := m\<rparr>))"

definition wss_TransitionTo ::
    "StatusSession \<Rightarrow> 'c wss_session \<Rightarrow> 'c wss_session \<times> ('c, 'm) wss_event list" where
  "wss_TransitionTo new_state s =
     (if ws_status s = new_state then (s, [])
      else (s\<lparr>ws_status := new_state\<rparr>,
        case new_state of
          Ready \<Rightarrow> if ws_on_ready s then [WssReady] else []
        | Expired \<Rightarrow> if ws_on_expired s then [WssExpired] else []
        | Closing \<Rightarrow> if ws_on_closed s then [WssClosed] else []
        | _ \<Rightarrow> []))"

definition wss_CloseSessionFast :: "'c wss_session \<Rightarrow> 'c wss_session \<times> ('c, 'm) wss_event list" where
  "wss_CloseSessionFast s = (s\<lparr>ws_is_expired := True\<rparr>, map SessionClosed (InvokeAll (ws_cb_on_close_session s)))"

text \<open>\<open>CloseSessionSlow\<close> after \<open>async_close\<close>; an exception of it is only logged.\<close>

definition wss_CloseSessionSlow :: "bool \<Rightarrow> 'c wss_session \<Rightarrow> 'c wss_session \<times> ('c, 'm) wss_event list" where
  "wss_CloseSessionSlow done s =
     (if done then (s\<lparr>ws_is_expired := True, ws_status := Closing\<rparr>,
                      map SessionClosed (InvokeAll (ws_cb_on_close_session s)))
      else (s, []))"

definition wss_HandleCancellation :: "'c wss_session \<Rightarrow> 'c wss_session" where
  "wss_HandleCancellation s = s\<lparr>ws_need_read := False\<rparr>"

definition AsyncWrite :: "string \<Rightarrow> 'c wss_session \<Rightarrow> 'c wss_session" where
  "AsyncWrite msg s =
     (let s1 = s\<lparr>ws_message_queue := ws_message_queue s @ [msg]\<rparr>
      in if \<not> ws_is_writing s1 then s1\<lparr>ws_is_writing := True, ws_write_loops := Suc (ws_write_loops s1)\<rparr> else s1)"

text \<open>
  \<open>WriteLoop\<close> with the outcomes of its writes (the message and whether it was written).  A loop that still waits for
  a write when the outcomes are used up is not finished: \<open>None\<close>.
\<close>

fun WriteLoop :: "bool list \<Rightarrow> 'c wss_session \<Rightarrow> 'c wss_session option" where
  "WriteLoop outcomes s =
     (if \<not> ws_need_read s then Some s
      else case ws_message_queue s of
        [] \<Rightarrow> Some (s\<lparr>ws_is_writing := False\<rparr>)
      | msg # rest \<Rightarrow>
          (case outcomes of
             [] \<Rightarrow> None
           | ok # outcomes' \<Rightarrow>
               let s1 = s\<lparr>ws_message_queue := rest\<rparr>
               in if ok then WriteLoop outcomes' (s1\<lparr>ws_sent := ws_sent s1 @ [msg]\<rparr>) else Some s1))"

text \<open>One iteration of \<open>ReadLoop\<close>: \<open>None\<close> is a read error, \<open>Some (n, m)\<close> a message of \<open>n\<close> bytes; the first result says
  whether the loop goes on.\<close>

definition ReadLoop_iteration ::
    "(nat \<times> 'm) option \<Rightarrow> 'c wss_session \<Rightarrow> bool \<times> 'c wss_session \<times> ('c, 'm) wss_event list" where
  "ReadLoop_iteration io s =
     (if \<not> ws_need_read s then (False, wss_CloseSessionFast s)
      else case io of
        None \<Rightarrow> (False, wss_CloseSessionFast s)
      | Some (n, m) \<Rightarrow>
          (True, s, if n > 0 then map (\<lambda>(cb, tp). Message cb tp m) (InvokeAll (ws_cb_on_response s)) else []))"

fun ReadLoop ::
    "(nat \<times> 'm) option list \<Rightarrow> 'c wss_session \<Rightarrow> 'c wss_session \<times> ('c, 'm) wss_event list" where
  "ReadLoop [] s = (s, [])"
| "ReadLoop (io # ios) s =
     (case ReadLoop_iteration io s of
        (False, s1, e) \<Rightarrow> (s1, e)
      | (True, s1, e) \<Rightarrow> (let (s2, e2) = ReadLoop ios s1 in (s2, e @ e2)))"

text \<open>\<open>Run\<close>: an error before the end only logs; the timer is started before the connect.\<close>

definition wss_Run_done :: "'c wss_session \<Rightarrow> 'c wss_session \<times> ('c, 'm) wss_event list" where
  "wss_Run_done s =
     (let (s1, e) = wss_TransitionTo Ready (s\<lparr>ws_is_connected := True\<rparr>)
      in (s1\<lparr>ws_write_loops := Suc (ws_write_loops s1)\<rparr>, e))"

definition wss_timer_expired :: "'c wss_session \<Rightarrow> 'c wss_session \<times> ('c, 'm) wss_event list" where
  "wss_timer_expired s =
     (let (s1, e1) = wss_TransitionTo Expired s; (s2, e2) = wss_CloseSessionFast s1 in (s2, e1 @ e2))"

subsection \<open>Web socket sessions in the pool\<close>

definition wss_pool_session :: "'c wss_session" where
  "wss_pool_session = WssSession3_new\<lparr>ws_on_ready := True, ws_on_expired := True, ws_on_closed := True\<rparr>"

fun wss_callback :: "('c, 'm) wss_event \<Rightarrow> pool_callback option" where
  "wss_callback WssReady = Some CbReady"
| "wss_callback WssExpired = Some CbExpired"
| "wss_callback WssClosed = Some CbSystemClosed"
| "wss_callback (Message cb tp m) = None"
| "wss_callback (SessionClosed cb) = None"

text \<open>The status of the session at an address; one that is not alive counts as closing.\<close>

definition wss_status_of :: "(addr \<rightharpoonup> 'c wss_session) \<Rightarrow> addr \<Rightarrow> StatusSession" where
  "wss_status_of objects a = (case objects a of None \<Rightarrow> Closing | Some s \<Rightarrow> ws_status s)"

text \<open>The timer closes the session after the transition that makes the pool destroy it.\<close>

definition pool_wss_timer_expired :: "'c wss_session \<Rightarrow> addr \<Rightarrow> 'c wss_session conn_pool \<Rightarrow> 'c wss_session conn_pool result" where
  "pool_wss_timer_expired fresh a p =
     (case cp_objects p a of
        None \<Rightarrow> Inl DanglingDeref
      | Some s \<Rightarrow>
          let (s1, es) = wss_TransitionTo Expired s
          in run_then fresh a s1 (List.map_filter wss_callback es) (\<lambda>s. fst (wss_CloseSessionFast s)) p)"

section \<open>BookEventGetter3\<close>

text \<open>
  The getter has one active session, and callbacks per trading pair.  Callbacks on the session are those the user
  registered (\<open>User\<close>) or the getter's own, which forgets the active session.
\<close>

datatype 'c getter_cb = User 'c | DefaultCBOnCloseSession

record 'c BookEventGetter3 =
  bg_active_session :: "addr option"
  bg_callback_map :: "TradingPair \<rightharpoonup> 'c"
  bg_callback_on_close_session_map :: "TradingPair \<rightharpoonup> 'c"
  bg_sessions :: "addr \<rightharpoonup> 'c getter_cb wss_session"
  bg_awaiable :: "addr list"

definition getter_RegisterCallback :: "TradingPair \<Rightarrow> 'c \<Rightarrow> 'c BookEventGetter3 \<Rightarrow> 'c BookEventGetter3" where
  "getter_RegisterCallback tp cb g = g\<lparr>bg_callback_map := (bg_callback_map g)(tp \<mapsto> cb)\<rparr>"

definition getter_RegisterCallbackOnCloseSession :: "TradingPair \<Rightarrow> 'c \<Rightarrow> 'c BookEventGetter3 \<Rightarrow> 'c BookEventGetter3" where
  "getter_RegisterCallbackOnCloseSession tp cb g =
     g\<lparr>bg_callback_on_close_session_map := (bg_callback_on_close_session_map g)(tp \<mapsto> cb)\<rparr>"

text \<open>A call on the active session, if there is one.\<close>

definition on_active ::
    "('c getter_cb wss_session \<Rightarrow> 'c getter_cb wss_session) \<Rightarrow> 'c BookEventGetter3 \<Rightarrow> 'c BookEventGetter3 result" where
  "on_active f g =
     (case bg_active_session g of
        None \<Rightarrow> Inr g
      | Some a \<Rightarrow> (case bg_sessions g a of None \<Rightarrow> Inl DanglingDeref
                   | Some s \<Rightarrow> Inr (g\<lparr>bg_sessions := (bg_sessions g)(a \<mapsto> f s)\<rparr>)))"


text \<open>\<open>AcquireActiveSession\<close> does not return while no session is ready.\<close>

definition AcquireActiveSession :: "'c BookEventGetter3 \<Rightarrow> 'c BookEventGetter3 option" where
  "AcquireActiveSession g =
     (case AcquireConnection (wss_status_of (bg_sessions g)) (bg_awaiable g) of
        None \<Rightarrow> None
      | Some (a, q) \<Rightarrow>
          Some (g\<lparr>bg_awaiable := q,
                  bg_active_session := (if bg_active_session g = None then Some a else bg_active_session g)\<rparr>))"

definition RegisterCallbacksForTradingPair ::
    "TradingPair \<Rightarrow> 'c BookEventGetter3 \<Rightarrow> (bool \<times> 'c BookEventGetter3) result" where
  "RegisterCallbacksForTradingPair tp g =
     (case bg_callback_map g tp of
        None \<Rightarrow> Inr (False, g)
      | Some cb \<Rightarrow>
          bind_result (on_active (\<lambda>s. snd (RegisterCallbackOnResponse (User cb) tp s)) g) (\<lambda>g1.
          bind_result (case bg_callback_on_close_session_map g1 tp of
              None \<Rightarrow> Inr g1
            | Some ccb \<Rightarrow> on_active (\<lambda>s. snd (RegisterCallbackOnCloseSession (User ccb) s)) g1) (\<lambda>g2.
          bind_result (on_active (\<lambda>s. snd (RegisterCallbackOnCloseSession DefaultCBOnCloseSession s)) g2) (\<lambda>g3.
            Inr (True, g3)))))"

definition SendAsyncRequest :: "string \<Rightarrow> 'c BookEventGetter3 \<Rightarrow> 'c BookEventGetter3 result" where
  "SendAsyncRequest req g = on_active (AsyncWrite req) g"

text \<open>\<open>HandleBookEvent\<close> for a request whose body is \<open>req\<close>; the outer \<open>None\<close> is the blocked acquisition.\<close>

definition HandleBookEvent :: "TradingPair \<Rightarrow> string \<Rightarrow> 'c BookEventGetter3 \<Rightarrow> 'c BookEventGetter3 result option" where
  "HandleBookEvent tp req g =
     map_option
       (\<lambda>g1. bind_result (RegisterCallbacksForTradingPair tp g1)
               (\<lambda>(ok, g2). if ok then SendAsyncRequest req g2 else Inr g2))
       (if bg_active_session g = None then AcquireActiveSession g else Some g)"

definition getter_AsyncStop :: "'c BookEventGetter3 \<Rightarrow> 'c BookEventGetter3 result" where
  "getter_AsyncStop g = on_active wss_HandleCancellation g"

text \<open>The callbacks of a closed session.\<close>

fun run_close_event :: "('c getter_cb, 'm) wss_event \<Rightarrow> 'c BookEventGetter3 \<Rightarrow> 'c BookEventGetter3" where
  "run_close_event (SessionClosed DefaultCBOnCloseSession) g = g\<lparr>bg_active_session := None\<rparr>"
| "run_close_event e g = g"

definition getter_ReadLoop ::
    "addr \<Rightarrow> (nat \<times> 'm) option list \<Rightarrow> 'c BookEventGetter3 \<Rightarrow>
     ('c BookEventGetter3 \<times> ('c getter_cb, 'm) wss_event list) result" where
  "getter_ReadLoop a ios g =
     (case bg_sessions g a of
        None \<Rightarrow> Inl DanglingDeref
      | Some s \<Rightarrow>
          let (s1, es) = ReadLoop ios s
          in Inr (fold run_close_event es (g\<lparr>bg_sessions := (bg_sessions g)(a \<mapsto> s1)\<rparr>), es))"

end
