(* ===== verification/Sessions_Props.thy ===== *)
theory Sessions_Props
  imports Sessions
begin

text \<open>
  Properties of the connections: what the callback lists call, that a session reports its end once, when a connection
  is acquired, which messages are written, and how requests, closed sessions and the pool get in each other's way.
\<close>

section \<open>Callback lists\<close>

definition register_all :: "'c list \<Rightarrow> 'c cb_manager \<Rightarrow> 'c cb_manager" where
  "register_all cbs m = fold (\<lambda>cb m'. snd (RegisterCallback cb m')) cbs m"

lemma register_blocked: "\<not> cm_registration_allowed m \<Longrightarrow> RegisterCallback cb m = (- 1, m)"
  by (simp add: RegisterCallback_def)

lemma register_all_blocked: "\<not> cm_registration_allowed m \<Longrightarrow> register_all cbs m = m"
  by (induction cbs) (simp_all add: register_all_def register_blocked)

lemma InvokeAll_first: "InvokeAll (snd (RegisterCallback cb cb_manager_new)) = [cb]"
  by (simp add: RegisterCallback_def cb_manager_new_def InvokeAll_def)

lemma first_blocks: "\<not> cm_registration_allowed (snd (RegisterCallback cb m))"
  by (simp add: RegisterCallback_def Let_def)

lemma register_all_first: "register_all (cb # cbs) cb_manager_new = snd (RegisterCallback cb cb_manager_new)"
proof -
  have "register_all (cb # cbs) cb_manager_new = register_all cbs (snd (RegisterCallback cb cb_manager_new))"
    by (simp add: register_all_def)
  then show ?thesis by (simp add: register_all_blocked first_blocks)
qed

text \<open>\<^bold>\<open>A callback list takes one callback.\<close>  The first registration forbids every later one: of any number of registered
  callbacks only the first is ever called.
\<close>

theorem RegisterCallback_only_first: "InvokeAll (register_all (cb # cbs) cb_manager_new) = [cb]"
  by (simp add: register_all_first InvokeAll_first)

section \<open>Acquiring a connection\<close>

lemma acquire_Cons:
  "AcquireConnection status (a # rest) =
     (if status a = Ready then Some (a, rest @ [a]) else AcquireConnection status (rest @ [a]))"
  by (subst AcquireConnection.simps) simp

lemma acquire_found:
  "\<forall>x \<in> set xs. status x \<noteq> Ready \<Longrightarrow> status a = Ready \<Longrightarrow>
     AcquireConnection status (xs @ a # ys) = Some (a, ys @ xs @ [a])"
proof (induction xs arbitrary: ys)
  case (Cons x xs)
  then have "AcquireConnection status ((x # xs) @ a # ys) = AcquireConnection status (xs @ a # (ys @ [x]))"
    by (simp add: acquire_Cons)
  also have "\<dots> = Some (a, (ys @ [x]) @ xs @ [a])" by (rule Cons.IH) (use Cons.prems in auto)
  finally show ?case by simp
qed (simp add: acquire_Cons)

lemma acquire_ready: "AcquireConnection status q = Some r \<Longrightarrow> \<exists>a \<in> set q. status a = Ready"
proof (erule AcquireConnection.raw_induct [where P = "\<lambda>status q r. \<exists>a \<in> set q. status a = Ready", rotated])
  fix f :: "(addr \<Rightarrow> StatusSession) \<Rightarrow> addr list \<Rightarrow> (addr \<times> addr list) option" and status q y
  assume IH: "\<And>status q y. f status q = Some y \<Longrightarrow> \<exists>a \<in> set q. status a = Ready"
    and e: "(case q of [] \<Rightarrow> f status q
      | a # rest \<Rightarrow> if status a = Ready then Some (a, rest @ [a]) else f status (rest @ [a])) = Some y"
  show "\<exists>a \<in> set q. status a = Ready"
  proof (cases q)
    case (Cons a rest)
    with e IH [of status "rest @ [a]" y] show ?thesis by (auto split: if_splits)
  qed (use e IH [of status "[]" y] in simp)
qed


section \<open>The HTTPS session\<close>

definition ends :: "('c, 'p) session_event list \<Rightarrow> nat" where
  "ends es = length (filter (\<lambda>e. e = OnExpired \<or> e = OnClosedSystem) es)"

lemma ends_simps [simp]: "ends [] = 0" "ends (es @ es') = ends es + ends es'"
  by (simp_all add: ends_def)

definition may_end :: "('c, 'q, 'p) https_session \<Rightarrow> nat" where
  "may_end s = (if hs_need_execute_on_closed_system s then 1 else 0)"

lemma TransitionTo_ends: "TransitionTo st s = (s', e) \<Longrightarrow> ends e + may_end s' \<le> may_end s"
  by (cases st) (auto simp: TransitionTo_def may_end_def ends_def Let_def split: if_splits)

lemma close_ends: "close_and_transition st s = (s', e) \<Longrightarrow> ends e + may_end s' \<le> may_end s"
  using TransitionTo_ends [of st s]
  by (auto simp: close_and_transition_def CloseSessionFast_def ends_def split: prod.splits if_splits)

lemma may_end_update [simp]:
  "may_end (s\<lparr>hs_status := a\<rparr>) = may_end s" "may_end (s\<lparr>hs_run := b\<rparr>) = may_end s"
  "may_end (s\<lparr>hs_timer := c\<rparr>) = may_end s" "may_end (s\<lparr>hs_loops := d\<rparr>) = may_end s"
  "may_end (s\<lparr>hs_request_queue := f\<rparr>) = may_end s" "may_end (s\<lparr>hs_in_flight := g\<rparr>) = may_end s"
  "may_end (s\<lparr>hs_res := h\<rparr>) = may_end s" "may_end (s\<lparr>hs_is_processing := i\<rparr>) = may_end s"
  "may_end (s\<lparr>hs_on_response := j\<rparr>) = may_end s" "may_end (s\<lparr>hs_need_execute_on_closed_system := False\<rparr>) = 0"
  by (simp_all add: may_end_def)

lemma response_ends: "RequestLoop_response io s = (s', e) \<Longrightarrow> ends e + may_end s' \<le> may_end s"
proof -
  let ?s1 = "s\<lparr>hs_res := (case io of None \<Rightarrow> hs_res s | Some r \<Rightarrow> r), hs_in_flight := None\<rparr>"
  assume "RequestLoop_response io s = (s', e)"
  moreover obtain s2 e2 where c: "close_and_transition Closing ?s1 = (s2, e2)" by (cases "close_and_transition Closing ?s1")
  ultimately have "s' = s2" "ends e = ends e2"
    by (auto simp: RequestLoop_response_def Let_def ends_def split: option.splits)
  with close_ends [OF c] show ?thesis by simp
qed

lemma start_ends:
  assumes "RequestLoop_start s = (s', e)"
  shows "ends e + may_end s' \<le> may_end s"
proof -
  obtain s1 e1 where t1: "TransitionTo Ready (s\<lparr>hs_loops := hs_loops s - 1\<rparr>) = (s1, e1)"
    by (cases "TransitionTo Ready (s\<lparr>hs_loops := hs_loops s - 1\<rparr>)")
  obtain s2 e2 where t2: "TransitionTo kInProcess s1 = (s2, e2)" by (cases "TransitionTo kInProcess s1")
  have "ends e1 + may_end s1 \<le> may_end s" "ends e2 + may_end s2 \<le> may_end s1"
    using TransitionTo_ends [OF t1] TransitionTo_ends [OF t2] by simp_all
  moreover have "(case lq_items (hs_request_queue s1) of [] \<Rightarrow> (s1, e1)
      | req # rest \<Rightarrow> (s2\<lparr>hs_request_queue := (hs_request_queue s2)\<lparr>lq_items := rest\<rparr>, hs_in_flight := Some req\<rparr>, e1 @ e2)) = (s', e)"
    using assms unfolding RequestLoop_start_def Let_def t1 t2 prod.case .
  ultimately show ?thesis by (auto split: list.splits)
qed

lemma step_ends: "https_step s e s' \<Longrightarrow> ends e + may_end s' \<le> may_end s"
proof (induction rule: https_step.induct)
  case (step_cancel s s' e)
  obtain s1 e1 where t: "TransitionTo Cancelling s = (s1, e1)" by (cases "TransitionTo Cancelling s")
  with step_cancel TransitionTo_ends [OF t] show ?case by (auto simp: HandleCancellation_https_def)
next
  case (step_finish s io s' e)
  obtain s1 e1 where r: "RequestLoop_response io s = (s1, e1)" by (cases "RequestLoop_response io s")
  with step_finish response_ends [OF r] show ?case by (auto simp: RequestLoop_finish_def)
next
  case (step_timer s s' e)
  from step_timer(2) close_ends [of Expired "s\<lparr>hs_timer := False\<rparr>" s' e] show ?case by (simp add: timer_expired_def)
next
  case (step_run s ok s' e)
  from step_run(2) close_ends [of Expired "s\<lparr>hs_run := RunDone\<rparr>" s' e] show ?case
    by (auto simp: Run_start_def split: if_splits)
next
  case (step_handshaken s ok s' e)
  from step_handshaken(2) close_ends [of Expired "s\<lparr>hs_run := RunDone\<rparr>" s' e] show ?case
    by (auto simp: Run_handshaken_def StartProcessing_def Let_def split: if_splits)
qed (auto simp: AsyncRequest_def StartProcessing_def Let_def Run_resolved_def Run_connected_def start_ends split: if_splits)

text \<open>C19: \<^bold>\<open>A session reports its end at most once.\<close>  In any interleaving of requests, cancellations, the timer, the steps of the
  connection and the request loops, the callbacks for expiry and for the closing by the system are called at most
  once altogether, so that the pool replaces a session once.
\<close>

theorem session_ends_once:
  assumes "https_run s es s'"
  shows "ends es \<le> 1 \<and> (ends es = 1 \<longrightarrow> \<not> hs_need_execute_on_closed_system s')"
proof -
  from assms have "ends es + may_end s' \<le> may_end s"
    by (induction rule: https_run.induct) (use step_ends in fastforce)+
  then show ?thesis by (auto simp: may_end_def split: if_splits)
qed

definition demo_queue :: "'q lf_queue" where
  "demo_queue = \<lparr>lq_items = [], lq_accepts = (\<lambda>n. True), lq_tries = 0\<rparr>"

theorem session_ends_once_witness:
  "\<exists>s' :: (nat, nat, nat) https_session. https_run (pool_session demo_queue 0) [OnExpired] s' \<and>
     ends [OnExpired :: (nat, nat) session_event] \<le> 1 \<and>
     (ends [OnExpired :: (nat, nat) session_event] = 1 \<longrightarrow> \<not> hs_need_execute_on_closed_system s')"
proof -
  let ?s = "pool_session demo_queue 0 :: (nat, nat, nat) https_session"
  obtain s1 e1 where t: "Run_start False ?s = (s1, e1)" by (cases "Run_start False ?s")
  then have e: "e1 = [OnExpired]"
    by (simp add: Run_start_def pool_session_def HttpsSession3_new_def close_and_transition_def CloseSessionFast_def
        TransitionTo_def Let_def)
  have "https_step ?s e1 s1" by (rule step_run [OF _ t]) (simp add: pool_session_def HttpsSession3_new_def)
  then have "https_run ?s ([] @ e1) s1" by (rule run_step [OF run_refl])
  then have r: "https_run ?s [OnExpired] s1" by (simp add: e)
  with session_ends_once [OF r] show ?thesis by blast
qed

text \<open>A session that is ready and waits for its first request.\<close>

definition idle :: "('c, 'q, 'p) https_session \<Rightarrow> bool" where
  "idle s \<longleftrightarrow> hs_status s = Ready \<and> hs_need_execute_on_closed_system s \<and> lq_items (hs_request_queue s) = [] \<and>
     (\<forall>n. lq_accepts (hs_request_queue s) n) \<and> \<not> hs_is_processing s \<and> hs_loops s = 0 \<and> hs_in_flight s = None \<and>
     hs_on_closed_system s \<and> \<not> hs_on_closed_user s"

definition submit :: "'c \<Rightarrow> 'q \<Rightarrow> ('c, 'q, 'p) https_session \<Rightarrow> ('c, 'q, 'p) https_session" where
  "submit cb req s = AsyncRequest req (s\<lparr>hs_on_response := Some cb\<rparr>)"

lemmas session_simps [session_defs] = submit_def AsyncRequest_def StartProcessing_def try_enqueue_def try_enqueue_bulk_def
  RequestLoop_start_def RequestLoop_finish_def RequestLoop_response_def close_and_transition_def CloseSessionFast_def
  TransitionTo_def Let_def

text \<open>C34: \<^bold>\<open>A request on an idle session is answered.\<close>  One request on a ready session starts one request loop; when the read ends
  the registered callback gets the response, once, then the pool is told that the session is closed, and nothing is
  left to do.
\<close>

theorem single_request_answered:
  assumes "idle s"
  shows "\<exists>s1 s2. RequestLoop_start (submit cb req s) = (s1, []) \<and> hs_loops (submit cb req s) = 1 \<and>
     hs_in_flight s1 = Some req \<and>
     RequestLoop_finish (Some r) s1 = (s2, [Responded cb r, OnClosedSystem]) \<and>
     hs_status s2 = Closing \<and> hs_loops s2 = 0 \<and> lq_items (hs_request_queue s2) = [] \<and> \<not> hs_is_processing s2"
  using assms by (simp add: idle_def session_defs)

text \<open>\<^bold>\<open>Two requests on one session: the answer goes to the wrong caller.\<close>  A pool of one session gives the same session
  twice.  When the second caller submits before the loop starts, the response to the first request is given to the
  callback of the second one, and the second request stays in the queue of a closed session with no loop to serve it.
\<close>

theorem second_request_misrouted:
  assumes "idle s"
  shows "\<exists>s1 s2. RequestLoop_start (submit cb2 req2 (submit cb1 req1 s)) = (s1, []) \<and> hs_in_flight s1 = Some req1 \<and>
     RequestLoop_finish (Some r) s1 = (s2, [Responded cb2 r, OnClosedSystem]) \<and>
     lq_items (hs_request_queue s2) = [req2] \<and> hs_status s2 = Closing \<and> hs_loops s2 = 0"
  using assms by (simp add: idle_def session_defs)

definition demo_session :: "(nat, string, string) https_session" where
  "demo_session = (pool_session demo_queue '''')\<lparr>hs_status := Ready, hs_run := RunDone\<rparr>"

lemma demo_idle: "idle demo_session"
  by (simp add: idle_def demo_session_def pool_session_def HttpsSession3_new_def demo_queue_def)

theorem single_request_answered_witness:
  "\<exists>s1 s2. RequestLoop_start (submit 1 ''GET a'' demo_session) = (s1, []) \<and> hs_loops (submit 1 ''GET a'' demo_session) = 1 \<and>
     hs_in_flight s1 = Some ''GET a'' \<and> RequestLoop_finish (Some ''A'') s1 = (s2, [Responded 1 ''A'', OnClosedSystem]) \<and>
     hs_status s2 = Closing \<and> hs_loops s2 = 0 \<and> lq_items (hs_request_queue s2) = [] \<and> \<not> hs_is_processing s2"
  by (rule single_request_answered [OF demo_idle])

theorem second_request_misrouted_witness:
  "\<exists>s1 s2. RequestLoop_start (submit 2 ''GET b'' (submit 1 ''GET a'' demo_session)) = (s1, []) \<and>
     hs_in_flight s1 = Some ''GET a'' \<and> RequestLoop_finish (Some ''A'') s1 = (s2, [Responded 2 ''A'', OnClosedSystem]) \<and>
     lq_items (hs_request_queue s2) = [''GET b''] \<and> hs_status s2 = Closing \<and> hs_loops s2 = 0"
  by (rule second_request_misrouted [OF demo_idle])

section \<open>Sessions in the pool\<close>

lemma recreate_alive:
  assumes "\<not> cp_handling p" and "mp_pool_size (cp_mem p) \<noteq> 0"
  shows "pool_recreate fresh a p =
    Inr (p\<lparr>cp_objects := (cp_objects p)(a \<mapsto> fresh), cp_handling := False\<rparr>)"
  using assms by (simp add: pool_recreate_def TryCreateNewSession_def Allocate_def Deallocate_def)

text \<open>\<^bold>\<open>The end of a request touches a destroyed session.\<close>  In the pool the first session that closes is destroyed by the
  callback of its own transition, and the request loop then writes its flag \<open>is_processing_\<close>: for every session in
  flight, whatever the read gave, the end of the loop is an access to a destroyed object.
\<close>

theorem request_end_dangling:
  assumes "cp_objects p a = Some s" and "hs_on_closed_system s" and "hs_need_execute_on_closed_system s"
    and "hs_status s = kInProcess" and "\<not> cp_handling p" and "mp_pool_size (cp_mem p) \<noteq> 0"
  shows "pool_RequestLoop_finish fresh io a p = Inl DanglingDeref"
proof -
  obtain s1 es where r: "RequestLoop_response io s = (s1, es)" by (cases "RequestLoop_response io s")
  with assms have "List.map_filter https_callback es = [CbSystemClosed]"
    by (auto simp: session_defs List.map_filter_def split: option.splits if_splits)
  with r assms show ?thesis
    by (simp add: pool_RequestLoop_finish_def run_then_def run_callbacks_def recreate_alive destroys_def)
qed

definition demo_pool :: "(nat, string, string) https_session conn_pool" where
  "demo_pool = \<lparr>cp_awaiable = demo_queue, cp_useless = [], cp_copy_ready = [], cp_handling = False,
     cp_mem = MemoryPool_new (\<lambda>n. Some n) 1, cp_objects = [0 \<mapsto> demo_session\<lparr>hs_status := kInProcess\<rparr>]\<rparr>"

theorem request_end_dangling_witness:
  "pool_RequestLoop_finish (pool_session demo_queue '''') (Some ''A'') 0 demo_pool = Inl DanglingDeref"
  by (rule request_end_dangling [where s = "demo_session\<lparr>hs_status := kInProcess\<rparr>"])
    (simp_all add: demo_pool_def demo_session_def pool_session_def HttpsSession3_new_def MemoryPool_new_def)

section \<open>The web socket session\<close>

declare WriteLoop.simps [simp del]

lemma WriteLoop_writes:
  assumes "ws_need_read s" and "ws_message_queue s = ms @ rest" and "length ms = length oks" and "list_all id oks"
  shows "WriteLoop (oks @ oks2) s = WriteLoop oks2 (s\<lparr>ws_message_queue := rest, ws_sent := ws_sent s @ ms\<rparr>)"
  using assms
proof (induction ms arbitrary: s oks)
  case (Cons m ms)
  then obtain oks' where o: "oks = True # oks'" by (cases oks) simp_all
  have "WriteLoop (oks @ oks2) s = WriteLoop (oks' @ oks2) (s\<lparr>ws_message_queue := ms @ rest, ws_sent := ws_sent s @ [m]\<rparr>)"
    using Cons.prems by (subst WriteLoop.simps) (simp add: o Let_def)
  also have "\<dots> = WriteLoop oks2 ((s\<lparr>ws_message_queue := ms @ rest, ws_sent := ws_sent s @ [m]\<rparr>)
      \<lparr>ws_message_queue := rest, ws_sent := ws_sent (s\<lparr>ws_message_queue := ms @ rest, ws_sent := ws_sent s @ [m]\<rparr>) @ ms\<rparr>)"
    by (rule Cons.IH) (use Cons.prems o in simp_all)
  finally show ?case by simp
next
  case Nil
  then show ?case by (cases s) simp
qed


definition demo_wss :: "nat getter_cb wss_session" where
  "demo_wss = wss_pool_session\<lparr>ws_status := Ready, ws_is_connected := True\<rparr>"


text \<open>After a failed write the flag stays set and a new message starts no loop.\<close>

lemma write_error_stops:
  assumes "ws_need_read s" and "ws_is_writing s" and "ws_message_queue s = m # ms"
  shows "\<exists>s'. WriteLoop (False # oks) s = Some s' \<and> ws_is_writing s' \<and>
    ws_write_loops (AsyncWrite msg s') = ws_write_loops s' \<and> ws_sent (AsyncWrite msg s') = ws_sent s"
  using assms by (subst WriteLoop.simps) (simp add: AsyncWrite_def Let_def)

text \<open>\<^bold>\<open>A dead web socket stays ready.\<close>  A read error closes the stream and marks the session expired, but its status stays
  ready and the pool is not told: the pool hands the dead session out again.
\<close>

theorem dead_session_acquired:
  assumes "objects a = Some s" and "ws_status s = Ready" and "ws_need_read s" and "ReadLoop [None] s = (s', es)"
  shows "ws_is_expired s' \<and> List.map_filter wss_callback es = [] \<and>
    AcquireConnection (wss_status_of (objects(a \<mapsto> s'))) (a # q) = Some (a, q @ [a])"
proof -
  have s: "s' = s\<lparr>ws_is_expired := True\<rparr>" "es = map SessionClosed (InvokeAll (ws_cb_on_close_session s))"
    using assms(3,4) by (simp_all add: ReadLoop_iteration_def wss_CloseSessionFast_def)
  have "List.map_filter wss_callback es = []" unfolding s(2) List.map_filter_def by (simp add: filter_map comp_def)
  then show ?thesis using assms(2) by (simp add: s(1) acquire_Cons wss_status_of_def)
qed

theorem dead_session_acquired_witness:
  "\<exists>s' es. ReadLoop [None :: (nat \<times> string) option] demo_wss = (s', es) \<and> ws_is_expired s' \<and>
    List.map_filter wss_callback es = [] \<and>
    AcquireConnection (wss_status_of ([0 \<mapsto> demo_wss](0 \<mapsto> s'))) (0 # []) = Some (0, [] @ [0])"
proof -
  obtain s' es where r: "ReadLoop [None :: (nat \<times> string) option] demo_wss = (s', es)"
    by (cases "ReadLoop [None :: (nat \<times> string) option] demo_wss")
  have "ws_status demo_wss = Ready" "ws_need_read demo_wss"
    by (simp_all add: demo_wss_def wss_pool_session_def WssSession3_new_def)
  with dead_session_acquired [OF _ _ _ r, of "[0 \<mapsto> demo_wss]" 0 "[]"] r show ?thesis by simp
qed

section \<open>The book event getter\<close>

text \<open>A getter with one idle session that is not used yet.\<close>

definition getter_idle :: "addr \<Rightarrow> 'c getter_cb wss_session \<Rightarrow> 'c BookEventGetter3 \<Rightarrow> bool" where
  "getter_idle a s g \<longleftrightarrow> bg_active_session g = None \<and> bg_awaiable g = [a] \<and> bg_sessions g a = Some s \<and>
     ws_status s = Ready \<and> ws_need_read s \<and> ws_cb_on_response s = cb_manager_new \<and>
     ws_cb_on_close_session s = cb_manager_new"

lemma acquire_idle:
  assumes "getter_idle a s g"
  shows "AcquireActiveSession g = Some (g\<lparr>bg_active_session := Some a\<rparr>)"
  using assms by (simp add: getter_idle_def AcquireActiveSession_def acquire_Cons wss_status_of_def)

lemmas getter_defs = HandleBookEvent_def RegisterCallbacksForTradingPair_def SendAsyncRequest_def on_active_def
  RegisterCallbackOnResponse_def RegisterCallbackOnCloseSession_def

text \<open>The session after the first request for a pair with response callback \<open>cb\<close>.\<close>

definition close_cbs :: "TradingPair \<Rightarrow> 'c BookEventGetter3 \<Rightarrow> 'c getter_cb list" where
  "close_cbs tp g =
     (case bg_callback_on_close_session_map g tp of None \<Rightarrow> [] | Some ccb \<Rightarrow> [User ccb]) @ [DefaultCBOnCloseSession]"

definition requested ::
    "TradingPair \<Rightarrow> string \<Rightarrow> 'c \<Rightarrow> 'c BookEventGetter3 \<Rightarrow> 'c getter_cb wss_session \<Rightarrow> 'c getter_cb wss_session" where
  "requested tp req cb g s = AsyncWrite req
     (s\<lparr>ws_cb_on_response := snd (RegisterCallback (User cb, tp) cb_manager_new),
        ws_cb_on_close_session := register_all (close_cbs tp g) cb_manager_new\<rparr>)"

lemma first_request:
  assumes "getter_idle a s g" and "bg_callback_map g tp = Some cb"
  shows "HandleBookEvent tp req g = Some (Inr (g\<lparr>bg_active_session := Some a,
      bg_sessions := (bg_sessions g)(a \<mapsto> requested tp req cb g s)\<rparr>))"
  using assms acquire_idle [OF assms(1)]
  by (cases "bg_callback_on_close_session_map g tp")
    (simp_all add: getter_defs getter_idle_def requested_def close_cbs_def register_all_def case_prod_beta)

lemma requested_fields:
  "ws_need_read (requested tp req cb g s) = ws_need_read s"
  "ws_cb_on_response (requested tp req cb g s) = snd (RegisterCallback (User cb, tp) cb_manager_new)"
  "ws_cb_on_close_session (requested tp req cb g s) = register_all (close_cbs tp g) cb_manager_new"
  by (simp_all add: requested_def AsyncWrite_def Let_def)

lemma close_cbs_first:
  "InvokeAll (register_all (close_cbs tp g) cb_manager_new) = [hd (close_cbs tp g)]"
  "\<not> cm_registration_allowed (register_all (close_cbs tp g) cb_manager_new)"
  by (cases "bg_callback_on_close_session_map g tp";
      simp add: close_cbs_def register_all_first InvokeAll_first first_blocks)+

lemma read_error:
  "ws_need_read s \<Longrightarrow> ReadLoop [None] (requested tp req cb g s) =
     ((requested tp req cb g s)\<lparr>ws_is_expired := True\<rparr>, [SessionClosed (hd (close_cbs tp g))])"
  by (simp add: ReadLoop_iteration_def wss_CloseSessionFast_def requested_fields close_cbs_first)

text \<open>A request on a session that takes no more callbacks is only queued.\<close>

lemma later_request:
  assumes "bg_active_session g = Some a" and "bg_sessions g a = Some s" and "bg_callback_map g tp = Some cb"
    and "\<not> cm_registration_allowed (ws_cb_on_response s)" and "\<not> cm_registration_allowed (ws_cb_on_close_session s)"
  shows "HandleBookEvent tp req g = Some (Inr (g\<lparr>bg_sessions := (bg_sessions g)(a \<mapsto> AsyncWrite req s)\<rparr>))"
  using assms by (cases "bg_callback_on_close_session_map g tp") (simp_all add: getter_defs register_blocked)

text \<open>\<^bold>\<open>The getter never leaves a closed session.\<close>  When the user registered a callback for closed sessions, the getter's own
  callback is refused by the session.  After a read error the getter still holds the closed session as its active one
  and the next request is queued on it.  Without a callback of the user, the getter forgets the closed session.
\<close>

theorem getter_keeps_closed_session:
  fixes g :: "'c BookEventGetter3"
  assumes "getter_idle a s g" and "bg_callback_map g tp = Some cb"
  shows "\<exists>g1 g2 es. HandleBookEvent tp req g = Some (Inr g1) \<and>
     getter_ReadLoop a [None :: (nat \<times> 'm) option] g1 = Inr (g2, es) \<and>
     (case bg_callback_on_close_session_map g tp of
        None \<Rightarrow> es = [SessionClosed DefaultCBOnCloseSession] \<and> bg_active_session g2 = None
      | Some ccb \<Rightarrow> es = [SessionClosed (User ccb)] \<and> bg_active_session g2 = Some a \<and>
          (\<exists>s2 g3 s3. bg_sessions g2 a = Some s2 \<and> ws_is_expired s2 \<and>
             HandleBookEvent tp req2 g2 = Some (Inr g3) \<and> bg_sessions g3 a = Some s3 \<and>
             ws_message_queue s3 = ws_message_queue s2 @ [req2]))"
proof -
  define s1 where "s1 = requested tp req cb g s"
  define g1 where "g1 = g\<lparr>bg_active_session := Some a, bg_sessions := (bg_sessions g)(a \<mapsto> s1)\<rparr>"
  define g2 where "g2 = g1\<lparr>bg_sessions := (bg_sessions g1)(a \<mapsto> s1\<lparr>ws_is_expired := True\<rparr>)\<rparr>"
  have h: "HandleBookEvent tp req g = Some (Inr g1)"
    unfolding first_request [OF assms] g1_def s1_def by (rule refl)
  have n: "ws_need_read s" using assms(1) by (simp add: getter_idle_def)
  let ?e = "SessionClosed (hd (close_cbs tp g)) :: ('c getter_cb, 'm) wss_event"
  have "ReadLoop [None :: (nat \<times> 'm) option] s1 = (s1\<lparr>ws_is_expired := True\<rparr>, [?e])"
    unfolding s1_def by (rule read_error [OF n])
  then have r: "getter_ReadLoop a [None :: (nat \<times> 'm) option] g1 = Inr (run_close_event ?e g2, [?e])"
    by (simp add: getter_ReadLoop_def g1_def g2_def del: ReadLoop.simps)
  show ?thesis
  proof (cases "bg_callback_on_close_session_map g tp")
    case None
    with h r show ?thesis by (simp add: close_cbs_def)
  next
    case (Some ccb)
    have s2: "bg_active_session g2 = Some a" "bg_sessions g2 a = Some (s1\<lparr>ws_is_expired := True\<rparr>)"
      by (simp_all add: g2_def g1_def)
    have "HandleBookEvent tp req2 g2 =
        Some (Inr (g2\<lparr>bg_sessions := (bg_sessions g2)(a \<mapsto> AsyncWrite req2 (s1\<lparr>ws_is_expired := True\<rparr>))\<rparr>))"
      by (rule later_request [OF s2])
        (use assms(2) in \<open>simp_all add: g2_def g1_def s1_def requested_fields close_cbs_first first_blocks\<close>)
    then have "\<exists>g3 s3. HandleBookEvent tp req2 g2 = Some (Inr g3) \<and> bg_sessions g3 a = Some s3 \<and>
        ws_message_queue s3 = ws_message_queue (s1\<lparr>ws_is_expired := True\<rparr>) @ [req2]"
      by (simp add: AsyncWrite_def Let_def)
    with h r s2 Some show ?thesis by (simp add: close_cbs_def)
  qed
qed

definition demo_tp :: TradingPair where
  "demo_tp = \<lparr>tp_first = 1, tp_second = 2\<rparr>"

definition demo_event_getter :: "nat BookEventGetter3" where
  "demo_event_getter = \<lparr>bg_active_session = None, bg_callback_map = (\<lambda>tp. Some 1),
     bg_callback_on_close_session_map = (\<lambda>tp. Some 2), bg_sessions = [0 \<mapsto> demo_wss], bg_awaiable = [0]\<rparr>"

lemma demo_getter_idle: "getter_idle 0 demo_wss demo_event_getter"
  by (simp add: getter_idle_def demo_event_getter_def demo_wss_def wss_pool_session_def WssSession3_new_def)

theorem getter_keeps_closed_session_witness:
  "\<exists>g1 g2 es. HandleBookEvent demo_tp ''sub'' demo_event_getter = Some (Inr g1) \<and>
     getter_ReadLoop 0 [None :: (nat \<times> string) option] g1 = Inr (g2, es) \<and>
     es = [SessionClosed (User 2)] \<and> bg_active_session g2 = Some 0 \<and>
     (\<exists>s2 g3 s3. bg_sessions g2 0 = Some s2 \<and> ws_is_expired s2 \<and>
        HandleBookEvent demo_tp ''again'' g2 = Some (Inr g3) \<and> bg_sessions g3 0 = Some s3 \<and>
        ws_message_queue s3 = ws_message_queue s2 @ [''again''])"
proof -
  have "bg_callback_map demo_event_getter demo_tp = Some 1" "bg_callback_on_close_session_map demo_event_getter demo_tp = Some 2"
    by (simp_all add: demo_event_getter_def)
  with getter_keeps_closed_session [OF demo_getter_idle, of demo_tp 1 "''sub''" "''again''", where 'm = string]
  show ?thesis by simp
qed

text \<open>\<^bold>\<open>Only the first trading pair gets its messages.\<close>  Two pairs that subscribe through one getter share its session; the
  callback of the second pair is refused, and every message is given to the callback of the first pair, with the
  first pair, whatever the message is about.
\<close>

theorem second_pair_not_served:
  fixes m :: 'm
  assumes "getter_idle a s g" and "bg_callback_map g tp1 = Some cb1" and "bg_callback_map g tp2 = Some cb2" and "0 < n"
  shows "\<exists>g1 g2 s2. HandleBookEvent tp1 req1 g = Some (Inr g1) \<and> HandleBookEvent tp2 req2 g1 = Some (Inr g2) \<and>
     bg_sessions g2 a = Some s2 \<and> ReadLoop [Some (n, m)] s2 = (s2, [Message (User cb1) tp1 m])"
proof -
  let ?s1 = "requested tp1 req1 cb1 g s"
  define g1 where "g1 = g\<lparr>bg_active_session := Some a, bg_sessions := (bg_sessions g)(a \<mapsto> ?s1)\<rparr>"
  have h1: "HandleBookEvent tp1 req1 g = Some (Inr g1)" unfolding first_request [OF assms(1,2)] g1_def by (rule refl)
  have "HandleBookEvent tp2 req2 g1 = Some (Inr (g1\<lparr>bg_sessions := (bg_sessions g1)(a \<mapsto> AsyncWrite req2 ?s1)\<rparr>))"
    by (rule later_request) (use assms(3) in \<open>simp_all add: g1_def requested_fields close_cbs_first first_blocks\<close>)
  moreover have "ws_need_read s" using assms(1) by (simp add: getter_idle_def)
  then have "ReadLoop [Some (n, m)] (AsyncWrite req2 ?s1) = (AsyncWrite req2 ?s1, [Message (User cb1) tp1 m])"
    using assms(4) requested_fields [of tp1 req1 cb1 g s]
    by (simp add: ReadLoop_iteration_def AsyncWrite_def Let_def InvokeAll_first)
  ultimately show ?thesis using h1 by auto
qed

theorem second_pair_not_served_witness:
  "\<exists>g1 g2 s2. HandleBookEvent demo_tp ''a'' demo_event_getter = Some (Inr g1) \<and>
     HandleBookEvent \<lparr>tp_first = 3, tp_second = 2\<rparr> ''b'' g1 = Some (Inr g2) \<and>
     bg_sessions g2 0 = Some s2 \<and> ReadLoop [Some (1, ''x'')] s2 = (s2, [Message (User 1) demo_tp ''x''])"
  by (rule second_pair_not_served [OF demo_getter_idle]) (simp_all add: demo_event_getter_def)

end
