(* ===== verification/Order_Execution.thy ===== *)
theory Order_Execution
  imports Exchange_Api_Props Sessions_Props
begin

text \<open>
  The executors of requests: \<open>CoExec\<close> of \<open>OrderNewLimit3\<close>, \<open>CancelOrder3\<close> and the two \<open>BookSnapshot2\<close> classes of
  aot/Binance.h and aot/Bybit.h.  An executor builds a request, acquires a session of the pool, registers the callback
  of the caller and submits the request; the last two steps are \<open>submit\<close> on the session.

  The outcome records how often the bus event was released and what was submitted, with its callback.  A request
  whose endpoint is not configured is dropped.
\<close>

section \<open>Outcomes\<close>

record 'c exec_outcome =
  xo_released :: nat
  xo_submitted :: "('c \<times> http_request) option"

definition dropped :: "'c exec_outcome" where
  "dropped = \<lparr>xo_released = 0, xo_submitted = None\<rparr>"

text \<open>What an executor is constructed with; \<open>ex_has_pool\<close> says that the pointer to the session pool is not null.\<close>

record executor =
  ex_network :: Network
  ex_market_type :: MarketType
  ex_signer :: "Signer option"
  ex_has_pool :: bool

section \<open>Binance\<close>

definition signed_request ::
    "hmac \<Rightarrow> string \<Rightarrow> u64 \<Rightarrow> executor \<Rightarrow> string \<Rightarrow> Args \<Rightarrow> verb \<Rightarrow> bool \<Rightarrow> http_request result option" where
  "signed_request H beast now ex end_point args action need_sign =
     map_option
       (\<lambda>ep. bind_result (FactoryRequest_new H now ep end_point args action (ex_signer ex) need_sign) (FactoryRequest_call beast))
       (GetEndpoint kBinance (ex_network ex) (ex_market_type ex) kHTTPS)"

definition OrderNewLimit3_CoExec ::
    "hmac \<Rightarrow> string \<Rightarrow> u64 \<Rightarrow> rounding \<Rightarrow> executor \<Rightarrow> RequestNewOrder option \<Rightarrow> 'c \<Rightarrow> pair_infos \<Rightarrow>
     ('c exec_outcome \<times> pair_infos) result" where
  "OrderNewLimit3_CoExec H beast now rnd ex event callback pairs =
     (case event of
        None \<Rightarrow> Inr (dropped, pairs)
      | Some request \<Rightarrow>
          if \<not> ex_has_pool ex then Inr (dropped, pairs)
          else let (args, pairs') = LimitOrder_ArgsOrder rnd request pairs in
            case signed_request H beast now ex ''/api/v3/order'' args post_verb True of
              None \<Rightarrow> Inr (dropped, pairs')
            | Some r \<Rightarrow> bind_result r (\<lambda>req. Inr (\<lparr>xo_released = 1, xo_submitted = Some (callback, req)\<rparr>, pairs')))"

definition CancelOrder3_CoExec ::
    "hmac \<Rightarrow> string \<Rightarrow> u64 \<Rightarrow> executor \<Rightarrow> RequestCancelOrder option \<Rightarrow> 'c \<Rightarrow> pair_infos \<Rightarrow>
     ('c exec_outcome \<times> pair_infos) result" where
  "CancelOrder3_CoExec H beast now ex event callback pairs =
     (case event of
        None \<Rightarrow> Inr (dropped, pairs)
      | Some request \<Rightarrow>
          if \<not> ex_has_pool ex then Inr (dropped, pairs)
          else let (args, pairs') = CancelOrder_ArgsOrder request pairs in
            case signed_request H beast now ex ''/api/v3/order'' args delete_verb True of
              None \<Rightarrow> Inr (dropped, pairs')
            | Some r \<Rightarrow> bind_result r (\<lambda>req. Inr (\<lparr>xo_released = 1, xo_submitted = Some (callback, req)\<rparr>, pairs')))"

text \<open>The snapshot executors look the callback up; the callback of Binance gets the trading pair, too.\<close>

type_synonym 'c callbacks = "TradingPair \<rightharpoonup> 'c"

definition snapshot_RegisterCallback :: "TradingPair \<Rightarrow> 'c \<Rightarrow> 'c callbacks \<Rightarrow> 'c callbacks" where
  "snapshot_RegisterCallback tp cb m = m(tp \<mapsto> cb)"

definition binance_BookSnapshot2_CoExec ::
    "hmac \<Rightarrow> string \<Rightarrow> u64 \<Rightarrow> executor \<Rightarrow> 'c callbacks \<Rightarrow> RequestSnapshot option \<Rightarrow> pair_infos \<Rightarrow>
     (('c \<times> TradingPair) exec_outcome \<times> pair_infos) result" where
  "binance_BookSnapshot2_CoExec H beast now ex callback_map event pairs =
     (case event of
        None \<Rightarrow> Inr (dropped, pairs)
      | Some request \<Rightarrow>
          if \<not> ex_has_pool ex then Inr (dropped, pairs)
          else case callback_map (rs_trading_pair request) of
            None \<Rightarrow> Inr (dropped, pairs)
          | Some cb \<Rightarrow>
              let (args, pairs') = BookSnapshot_ArgsOrder request pairs in
              case signed_request H beast now ex (GetEndPoint (ex_market_type ex)) args get_verb False of
                None \<Rightarrow> Inr (dropped, pairs')
              | Some r \<Rightarrow> bind_result r (\<lambda>req.
                  Inr (\<lparr>xo_released = 0, xo_submitted = Some ((cb, rs_trading_pair request), req)\<rparr>, pairs')))"

text \<open>The components spawn \<open>CoExec\<close> of their executor with what they are given.\<close>

definition OrderNewLimitComponent_AsyncHandleEvent ::
    "hmac \<Rightarrow> string \<Rightarrow> u64 \<Rightarrow> rounding \<Rightarrow> executor \<Rightarrow> RequestNewOrder option \<Rightarrow> 'c \<Rightarrow> pair_infos \<Rightarrow>
     ('c exec_outcome \<times> pair_infos) result" where
  "OrderNewLimitComponent_AsyncHandleEvent H beast now rnd ex event cb pairs = OrderNewLimit3_CoExec H beast now rnd ex event cb pairs"

definition CancelOrderComponent_AsyncHandleEvent ::
    "hmac \<Rightarrow> string \<Rightarrow> u64 \<Rightarrow> executor \<Rightarrow> RequestCancelOrder option \<Rightarrow> 'c \<Rightarrow> pair_infos \<Rightarrow>
     ('c exec_outcome \<times> pair_infos) result" where
  "CancelOrderComponent_AsyncHandleEvent H beast now ex event cb pairs = CancelOrder3_CoExec H beast now ex event cb pairs"

text \<open>\<open>BookEventGetter2::CoExec\<close>.  The spawned lambda holds the parameter \<open>callback\<close> by reference, so it reads the frame of \<open>CoExec\<close>;
  \<open>frame_alive\<close> says whether that coroutine has not returned yet when the lambda reaches the call.  The result is the callback and
  the text handed to the session.\<close>

definition BookEventGetter2_CoExec ::
    "(njson \<Rightarrow> string) \<Rightarrow> bool \<Rightarrow> bool \<Rightarrow> RequestDiffOrderBook option \<Rightarrow> 'c \<Rightarrow> pair_infos \<Rightarrow> ('c \<times> string) option result" where
  "BookEventGetter2_CoExec dump frame_alive has_pool event callback pairs =
     (case event of
        None \<Rightarrow> Inr None
      | Some request \<Rightarrow>
          if \<not> has_pool then Inr None
          else bind_result (binance_ArgsBody request pairs) (\<lambda>body.
               if frame_alive then Inr (Some (callback, dump body)) else Inl DanglingDeref))"

section \<open>Bybit\<close>

definition bybit_BookSnapshot2_CoExec ::
    "hmac \<Rightarrow> (njson \<Rightarrow> string) \<Rightarrow> string \<Rightarrow> u64 \<Rightarrow> TypeExchange \<Rightarrow> executor \<Rightarrow> 'c callbacks \<Rightarrow>
     RequestSnapshot option \<Rightarrow> pair_infos \<Rightarrow> ('c exec_outcome \<times> pair_infos) result" where
  "bybit_BookSnapshot2_CoExec H dump beast now type ex callback_map event pairs =
     (case event of
        None \<Rightarrow> Inr (dropped, pairs)
      | Some request \<Rightarrow>
          if \<not> ex_has_pool ex then Inr (dropped, pairs)
          else case callback_map (rs_trading_pair request) of
            None \<Rightarrow> Inr (dropped, pairs)
          | Some cb \<Rightarrow>
              let (args, pairs') = bybit_BookSnapshot_ArgsOrder request pairs in
              bind_result
                (bybit_FactoryRequestJson_call H dump beast now
                  (bybit_FactoryRequestJson_new (bybit_ExchangeChooser_Get type) ''/api/v3/depth'' args get_verb
                    (ex_signer ex) False))
                (\<lambda>req. Inr (\<lparr>xo_released = 0, xo_submitted = Some (cb, req)\<rparr>, pairs')))"

section \<open>Properties\<close>

lemma signed_request_configured:
  assumes "m \<in> {kSpot, kFutures}"
  shows "\<exists>ep. GetEndpoint kBinance n m p = Some ep \<and> map_of endpoints_init (endpoint_key kBinance n m p) = Some ep"
  using assms GetEndpoint_map_of [of kBinance m n p]
  by (cases n; cases p) (auto simp: endpoints_init_def endpoint_key_def)

text \<open>\<^bold>\<open>A snapshot request asks for the pair and its depth.\<close>  For a configured market and a registered pair, the executor sends a
  GET request for the symbol of the pair with the depth, at most 5000, to the endpoint of the market, and the response
  goes to the callback of that pair together with the pair.
\<close>

theorem snapshot_request_sent:
  assumes "ex_market_type ex \<in> {kSpot, kFutures}" and "ex_has_pool ex"
    and "callback_map (rs_trading_pair req) = Some cb" and "pairs (rs_trading_pair req) = Some info"
  shows "\<exists>r ep. binance_BookSnapshot2_CoExec H beast now ex callback_map (Some req) pairs =
      Inr (\<lparr>xo_released = 0, xo_submitted = Some ((cb, rs_trading_pair req), r)\<rparr>, pairs) \<and>
     map_of endpoints_init (endpoint_key kBinance (ex_network ex) (ex_market_type ex) kHTTPS) = Some ep \<and>
     fields_get r ''Host'' = Some (ep_host ep) \<and> hr_method r = get_verb \<and>
     hr_target r = GetEndPoint (ex_market_type ex) @ ''?limit='' @ to_string_nat (min 5000 (unat (rs_depth req))) @
       ''&symbol='' @ https_query_request info"
proof -
  obtain ep where ep: "GetEndpoint kBinance (ex_network ex) (ex_market_type ex) kHTTPS = Some ep"
    "map_of endpoints_init (endpoint_key kBinance (ex_network ex) (ex_market_type ex) kHTTPS) = Some ep"
    using signed_request_configured [OF assms(1)] by blast
  have u: "unat (ucast (rs_depth req) :: u64) = unat (rs_depth req)"
    using unsigned_less [of "rs_depth req", where ?'a = nat]
    by (simp add: unsigned_ucast_eq take_bit_nat_eq_self del: unsigned_less)
  have d: "unat (if (5000 :: u64) < ucast (rs_depth req) then 5000 else (ucast (rs_depth req) :: u64)) =
      min 5000 (unat (rs_depth req))"
    using u by (auto simp: word_less_nat_alt min_def)
  have a: "BookSnapshot_ArgsOrder req pairs =
      ([(''limit'', to_string_nat (min 5000 (unat (rs_depth req)))), (''symbol'', https_query_request info)], pairs)"
    using assms(4) d by (simp add: BookSnapshot_ArgsOrder_def snapshot_SetLimit_def args_put_def same_bucket_def
        StringHash_def arg_buckets_def info_of_def touch_info_def Let_def)
  show ?thesis
    using assms(2,3) ep
    by (simp add: binance_BookSnapshot2_CoExec_def a signed_request_def FactoryRequest_new_def FactoryRequest_call_def
        FinalQueryString_def QueryString_def http_request_empty_def set_field_def fields_get_def Let_def)
qed

definition demo_executor :: executor where
  "demo_executor = \<lparr>ex_network = kTestnet, ex_market_type = kSpot, ex_signer = None, ex_has_pool = True\<rparr>"

theorem snapshot_request_sent_witness:
  "\<exists>r ep. binance_BookSnapshot2_CoExec demo_hmac ''Beast'' 7 demo_executor (\<lambda>tp. Some (0::nat))
       (Some \<lparr>rs_exchange_id = kBinance, rs_trading_pair = \<lparr>tp_first = 1, tp_second = 2\<rparr>, rs_depth = 9000\<rparr>) demo_pairs =
      Inr (\<lparr>xo_released = 0, xo_submitted = Some ((0, \<lparr>tp_first = 1, tp_second = 2\<rparr>), r)\<rparr>, demo_pairs) \<and>
     map_of endpoints_init (endpoint_key kBinance kTestnet kSpot kHTTPS) = Some ep \<and>
     fields_get r ''Host'' = Some (ep_host ep) \<and> hr_method r = get_verb \<and>
     hr_target r = ''/api/v3/depth?limit='' @ to_string_nat 5000 @ ''&symbol=BTCUSDT''"
  using snapshot_request_sent [of demo_executor "\<lambda>tp. Some 0"
      "\<lparr>rs_exchange_id = kBinance, rs_trading_pair = \<lparr>tp_first = 1, tp_second = 2\<rparr>, rs_depth = 9000\<rparr>" 0 demo_pairs
      "TradingPairInfo_zero\<lparr>price_precission := 2, qty_precission := 5, https_query_request := ''BTCUSDT''\<rparr>"
      demo_hmac "''Beast''" 7]
  by (simp add: demo_executor_def demo_pairs_def)

lemma no_endpoint: "m \<in> {kOptions, kMarketInvalid} \<Longrightarrow> GetEndpoint kBinance n m kHTTPS = None"
  unfolding GetEndpoint_def endpoints_eq endpoint_find_def
  by (cases n) (auto simp: endpoints_init_def node_matches_def EndpointKey_eq_def comma_def endpoint_key_def
      EndpointKeyHash_def)

text \<open>\<^bold>\<open>An order for a market without an endpoint is lost.\<close>  For options, or with the default market type of the class, an order or a
  cancel is dropped: nothing is sent, no callback is called, and the bus event is not released.
\<close>

theorem order_without_endpoint_lost:
  assumes "ex_market_type ex \<in> {kOptions, kMarketInvalid}"
  shows "\<exists>pairs'. OrderNewLimit3_CoExec H beast now rnd ex (Some ord) cb pairs =
       Inr (\<lparr>xo_released = 0, xo_submitted = None\<rparr>, pairs')"
  using no_endpoint [OF assms]
  by (simp add: OrderNewLimit3_CoExec_def signed_request_def dropped_def split: prod.splits)

theorem order_without_endpoint_lost_witness:
  "\<exists>pairs'. OrderNewLimit3_CoExec demo_hmac ''Beast'' 7 nearest_double (demo_executor\<lparr>ex_market_type := kMarketInvalid\<rparr>)
     (Some demo_order) (0::nat) demo_pairs = Inr (\<lparr>xo_released = 0, xo_submitted = None\<rparr>, pairs')"
  by (rule order_without_endpoint_lost) simp

section \<open>Factories of connection pools\<close>

text \<open>\<open>Create\<close> of the two \<open>HttpsConnectionPoolFactory2\<close> classes: a connection pool is an object of the memory pool of the factory;
  \<open>hf_created\<close> records its address, host, port and size.\<close>

record HttpsConnectionPoolFactory2 =
  hf_pool :: MemoryPool
  hf_created :: "(addr \<times> string \<times> string \<times> nat) list"

definition factory_Create ::
    "ExchangeId \<Rightarrow> nat \<Rightarrow> Network \<Rightarrow> MarketType \<Rightarrow> HttpsConnectionPoolFactory2 \<Rightarrow> addr option \<times> HttpsConnectionPoolFactory2" where
  "factory_Create exchange_id pool_size network market_type f =
     (case GetEndpoint exchange_id network market_type kHTTPS of
        None \<Rightarrow> (None, f)
      | Some endpoint \<Rightarrow>
          (case Allocate (hf_pool f) of
             (None, p) \<Rightarrow> (None, f\<lparr>hf_pool := p\<rparr>)
           | (Some a, p) \<Rightarrow>
               (Some a, f\<lparr>hf_pool := p, hf_created := hf_created f @ [(a, ep_host endpoint, ep_port_as_string endpoint, pool_size)]\<rparr>)))"

definition bybit_factory_Create where "bybit_factory_Create = factory_Create kBybit"

text \<open>For spot and futures of both exchanges a pool that is created connects to the configured endpoint.\<close>

lemma factory_configured:
  assumes "ex \<in> {kBinance, kBybit}" and "m \<in> {kSpot, kFutures}" and "factory_Create ex n nw m f = (Some a, f')"
  shows "\<exists>endpoint. map_of endpoints_init (endpoint_key ex nw m kHTTPS) = Some endpoint \<and>
           hf_created f' = hf_created f @ [(a, ep_host endpoint, ep_port_as_string endpoint, n)]"
  using assms(3) GetEndpoint_map_of [OF assms(1,2), of nw kHTTPS]
  by (auto simp: factory_Create_def split: option.splits prod.splits)

end
