(* ===== verification/Order_Book_V1.thy ===== *)
theory Order_Book_V1
  imports Order_Book
begin

text \<open>
  The first order book, \<open>Trading::MarketOrderBook\<close> (aot/strategy/market_order_book.h,
  src/market_order_book.cpp), and the service that feeds it from a queue of updates.

  Both sides share one hash map from prices to levels and one \<open>MemPool\<close> of levels; each side has a tree of its own.  An
  address is an index of the pool.  A level that was given back keeps its contents until the block is used again.
\<close>

section \<open>The book\<close>

record 't MarketOrderBook =
  mb_pool :: "MarketOrdersAtPrice MemPool"
  mb_hash :: "(Price \<times> addr) list"
  mb_bids :: 't
  mb_asks :: 't
  mb_bbo :: BBO
  mb_trading_pair :: TradingPair

definition MarketOrder_default :: MarketOrder where
  "MarketOrder_default =
     \<lparr>mo_order_id = kOrderIdInvalid, mo_side = kSideInvalid, mo_price = kPriceInvalid, mo_qty = kQtyInvalid\<rparr>"

definition MarketOrdersAtPrice_default :: MarketOrdersAtPrice where
  "MarketOrdersAtPrice_default =
     \<lparr>moap_side = kSideInvalid, moap_price = kPriceInvalid, moap_first_mkt_order = MarketOrder_default\<rparr>"

definition MarketOrderBook_new :: "'t avl_ops \<Rightarrow> TradingPair \<Rightarrow> 't MarketOrderBook result" where
  "MarketOrderBook_new av tp =
     bind_result (MemPool_new MarketOrdersAtPrice_default kMaxOrdersAtPrice) (\<lambda>pool.
       Inr \<lparr>mb_pool = pool, mb_hash = [], mb_bids = avl_empty av, mb_asks = avl_empty av, mb_bbo = BBO_default,
            mb_trading_pair = tp\<rparr>)"

definition pool_heap :: "'a MemPool \<Rightarrow> (addr \<rightharpoonup> 'a)" where
  "pool_heap p i = (if i < length (mp_store p) then Some (ob_object (mp_store p ! i)) else None)"

definition pool_put :: "addr \<Rightarrow> 'a \<Rightarrow> 'a MemPool \<Rightarrow> 'a MemPool" where
  "pool_put i x p = p\<lparr>mp_store := (mp_store p)[i := (mp_store p ! i)\<lparr>ob_object := x\<rparr>]\<rparr>"

text \<open>The top of one tree, as \<open>updateBBO\<close> and \<open>OnMarketUpdate\<close> read it.\<close>

definition tree_front :: "'t avl_ops \<Rightarrow> 't \<Rightarrow> 't MarketOrderBook \<Rightarrow> MarketOrdersAtPrice result" where
  "tree_front av t b =
     (case avl_seq av t of [] \<Rightarrow> Inl NullDeref | a # _ \<Rightarrow> deref (pool_heap (mb_pool b)) a)"

definition tree_top :: "'t avl_ops \<Rightarrow> 't \<Rightarrow> 't MarketOrderBook \<Rightarrow> (Price \<times> Qty) result" where
  "tree_top av t b =
     (if avl_size av t \<noteq> 0
      then bind_result (tree_front av t b)
             (\<lambda>l. Inr (mo_price (moap_first_mkt_order l), mo_qty (moap_first_mkt_order l)))
      else Inr (kPriceInvalid, kQtyInvalid))"

definition book_updateBBO :: "'t avl_ops \<Rightarrow> bool \<Rightarrow> bool \<Rightarrow> 't MarketOrderBook \<Rightarrow> 't MarketOrderBook result" where
  "book_updateBBO av update_bid update_ask b =
     bind_result
       (if update_bid
        then bind_result (tree_top av (mb_bids b) b)
               (\<lambda>(p, q). Inr (b\<lparr>mb_bbo := (mb_bbo b)\<lparr>bid_price := p, bid_qty := q\<rparr>\<rparr>))
        else Inr b)
       (\<lambda>b1. if update_ask
             then bind_result (tree_top av (mb_asks b1) b1)
                    (\<lambda>(p, q). Inr (b1\<lparr>mb_bbo := (mb_bbo b1)\<lparr>ask_price := p, ask_qty := q\<rparr>\<rparr>))
             else Inr b1)"

definition book_ClearOrderBook :: "'t avl_ops \<Rightarrow> 't MarketOrderBook \<Rightarrow> 't MarketOrderBook result" where
  "book_ClearOrderBook av b =
     bind_result (fold_result (\<lambda>e. MemPool_deallocate (int (snd e))) (mb_hash b) (mb_pool b)) (\<lambda>p.
       Inr (b\<lparr>mb_bids := avl_empty av, mb_asks := avl_empty av, mb_pool := p, mb_hash := []\<rparr>))"

definition getOrdersAtPrice :: "Price \<Rightarrow> 't MarketOrderBook \<Rightarrow> addr option" where
  "getOrdersAtPrice price b = map_of (mb_hash b) price"

definition addOrdersAtPrice :: "'t avl_ops \<Rightarrow> addr \<Rightarrow> 't MarketOrderBook \<Rightarrow> 't MarketOrderBook result" where
  "addOrdersAtPrice av a b =
     bind_result (deref (pool_heap (mb_pool b)) a) (\<lambda>l.
       let heap = pool_heap (mb_pool b) in
       Inr (b\<lparr>mb_hash := (moap_price l, a) # mb_hash b,
              mb_asks := (if moap_side l = kAsk then avl_insert_equal av (node_before (<) heap) a (mb_asks b)
                          else mb_asks b),
              mb_bids := (if moap_side l = kBid then avl_insert_equal av (node_before (>) heap) a (mb_bids b)
                          else mb_bids b)\<rparr>))"

definition removeOrdersAtPrice ::
    "'t avl_ops \<Rightarrow> Side \<Rightarrow> Price \<Rightarrow> 't MarketOrderBook \<Rightarrow> 't MarketOrderBook result" where
  "removeOrdersAtPrice av side price b =
     (case getOrdersAtPrice price b of
        None \<Rightarrow> Inr b
      | Some a \<Rightarrow>
          bind_result (deref (pool_heap (mb_pool b)) a) (\<lambda>_.
            let heap = pool_heap (mb_pool b);
                asks = (if side = kAsk \<and> avl_count av (node_before (<) heap) a (mb_asks b) \<noteq> 0
                        then avl_erase av (node_before (<) heap) a (mb_asks b) else mb_asks b);
                bids = (if side = kBid \<and> avl_count av (node_before (>) heap) a (mb_bids b) \<noteq> 0
                        then avl_erase av (node_before (>) heap) a (mb_bids b) else mb_bids b)
            in bind_result (MemPool_deallocate (int a) (mb_pool b)) (\<lambda>p.
                 Inr (b\<lparr>mb_asks := asks, mb_bids := bids, mb_hash := filter (\<lambda>e. fst e \<noteq> price) (mb_hash b),
                        mb_pool := p\<rparr>))))"

text \<open>An order at a price that has a level changes that level, whatever its side: the check of the sides is
  \<open>ASSERT(true, ..)\<close>, which never fails.\<close>

definition addOrder :: "'t avl_ops \<Rightarrow> MarketOrder \<Rightarrow> 't MarketOrderBook \<Rightarrow> 't MarketOrderBook result" where
  "addOrder av ord b =
     (case getOrdersAtPrice (mo_price ord) b of
        None \<Rightarrow>
          bind_result (MemPool_allocate
              \<lparr>moap_side = mo_side ord, moap_price = mo_price ord, moap_first_mkt_order = ord\<rparr> (mb_pool b)) (\<lambda>(a, p).
            addOrdersAtPrice av a (b\<lparr>mb_pool := p\<rparr>))
      | Some a \<Rightarrow>
          bind_result (deref (pool_heap (mb_pool b)) a) (\<lambda>l.
            let first_order = (moap_first_mkt_order l)\<lparr>mo_order_id := mo_order_id ord, mo_price := mo_price ord,
                                 mo_qty := mo_qty ord\<rparr>
            in Inr (b\<lparr>mb_pool := pool_put a (l\<lparr>moap_first_mkt_order := first_order\<rparr>) (mb_pool b)\<rparr>)))"

definition tree_touched ::
    "'t avl_ops \<Rightarrow> (Price \<Rightarrow> Price \<Rightarrow> bool) \<Rightarrow> Price \<Rightarrow> 't \<Rightarrow> 't MarketOrderBook \<Rightarrow> bool result" where
  "tree_touched av at_least price t b =
     (if avl_size av t = 0 then Inr True
      else bind_result (tree_front av t b) (\<lambda>l. Inr (at_least price (moap_price l))))"

text \<open>A clearing update ends before the best bid and offer is updated.  \<open>update\<close> is the virtual \<open>updateBBO\<close>.\<close>

definition book_changed ::
    "'t avl_ops \<Rightarrow> MEMarketUpdate \<Rightarrow> 't MarketOrderBook \<Rightarrow> ((bool \<times> bool) \<times> 't MarketOrderBook) result" where
  "book_changed av u b =
     (let side = mu_side u; price = mu_price u in
      bind_result (if side = kBid then tree_touched av (\<ge>) price (mb_bids b) b else Inr False) (\<lambda>bid_upd.
      bind_result (if side = kAsk then tree_touched av (\<le>) price (mb_asks b) b else Inr False) (\<lambda>ask_upd.
      bind_result
        (if mu_qty u \<noteq> 0
         then addOrder av \<lparr>mo_order_id = kOrderIdInvalid, mo_side = side, mo_price = price, mo_qty = mu_qty u\<rparr> b
         else removeOrdersAtPrice av side price b) (\<lambda>b1.
      Inr ((bid_upd, ask_upd), b1)))))"

definition book_OnMarketUpdate ::
    "'t avl_ops \<Rightarrow> MEMarketUpdate \<Rightarrow> 't MarketOrderBook \<Rightarrow> 't MarketOrderBook result" where
  "book_OnMarketUpdate av u b =
     (if mu_type u = CLEAR then book_ClearOrderBook av b
      else bind_result (book_changed av u b) (\<lambda>((bid_upd, ask_upd), b1). book_updateBBO av bid_upd ask_upd b1))"

text \<open>\<open>OrderBookService::Run\<close>: one pass of the loop takes at most 50 updates from the queue.\<close>

definition OrderBookService_iteration ::
    "'t avl_ops \<Rightarrow> MEMarketUpdate lf_queue \<times> 't MarketOrderBook \<Rightarrow>
     (MEMarketUpdate lf_queue \<times> 't MarketOrderBook) result" where
  "OrderBookService_iteration av s =
     (let q = fst s in
      bind_result (fold_result (book_OnMarketUpdate av) (take 50 (lq_items q)) (snd s)) (\<lambda>b.
        Inr (q\<lparr>lq_items := drop 50 (lq_items q)\<rparr>, b)))"

end
