(* ===== verification/Order_Book_V1_Props.thy ===== *)
theory Order_Book_V1_Props
  imports Order_Book_V1 Order_Book_Refine
begin

text \<open>
  Correctness of the first order book: its invariant, that the service keeps it equal to the levels the updates mean,
  and what goes wrong when an update names a price that the other side has.  The trees are treated in the
  locale \<open>price_order\<close> for both orders.
\<close>

section \<open>Invariant and abstraction\<close>

text \<open>A tree holds the nodes \<open>A\<close> in the order of their prices; a map has the prices and quantities of these nodes.\<close>

definition tree_ok ::
    "'t avl_ops \<Rightarrow> (Price \<Rightarrow> Price \<Rightarrow> bool) \<Rightarrow> (addr \<rightharpoonup> MarketOrdersAtPrice) \<Rightarrow> addr set \<Rightarrow> 't \<Rightarrow> bool" where
  "tree_ok av before h A t \<longleftrightarrow>
     set (avl_seq av t) = A \<and> sorted_wrt (node_before before h) (avl_seq av t)"

definition levels_at :: "(addr \<rightharpoonup> MarketOrdersAtPrice) \<Rightarrow> addr set \<Rightarrow> (Price \<rightharpoonup> Qty) \<Rightarrow> bool" where
  "levels_at h A m \<longleftrightarrow> dom m = level_price h ` A \<and>
     (\<forall>a \<in> A. \<exists>l. h a = Some l \<and> mo_price (moap_first_mkt_order l) = moap_price l \<and>
        m (moap_price l) = Some (mo_qty (moap_first_mkt_order l)))"

definition side_addrs :: "'t MarketOrderBook \<Rightarrow> Side \<Rightarrow> addr set" where
  "side_addrs b side =
     {a \<in> snd ` set (mb_hash b). \<exists>l. pool_heap (mb_pool b) a = Some l \<and> moap_side l = side}"

definition book_levels :: "'t MarketOrderBook \<Rightarrow> Side \<Rightarrow> (Price \<rightharpoonup> Qty)" where
  "book_levels b side p =
     (case map_of (mb_hash b) p of
        None \<Rightarrow> None
      | Some a \<Rightarrow>
          (case pool_heap (mb_pool b) a of
             None \<Rightarrow> None
           | Some l \<Rightarrow> if moap_side l = side then Some (mo_qty (moap_first_mkt_order l)) else None))"

definition level_fits :: "Price \<Rightarrow> MarketOrdersAtPrice \<Rightarrow> bool" where
  "level_fits p l \<longleftrightarrow> moap_price l = p \<and> mo_price (moap_first_mkt_order l) = p \<and>
     mo_qty (moap_first_mkt_order l) \<noteq> 0 \<and> moap_side l \<in> {kBid, kAsk}"

definition book_inv :: "'t avl_ops \<Rightarrow> 't MarketOrderBook \<Rightarrow> bool" where
  "book_inv av b \<longleftrightarrow>
     MemPool_inv (mb_pool b) \<and>
     free_indices (mb_pool b) = {0..<length (mp_store (mb_pool b))} - snd ` set (mb_hash b) \<and>
     distinct (List.map fst (mb_hash b)) \<and> distinct (List.map snd (mb_hash b)) \<and>
     (\<forall>(p, a) \<in> set (mb_hash b). \<exists>l. pool_heap (mb_pool b) a = Some l \<and> level_fits p l) \<and>
     tree_ok av (>) (pool_heap (mb_pool b)) (side_addrs b kBid) (mb_bids b) \<and>
     tree_ok av (<) (pool_heap (mb_pool b)) (side_addrs b kAsk) (mb_asks b)"

lemma book_invI:
  assumes "MemPool_inv (mb_pool b)"
    and "free_indices (mb_pool b) = {0..<length (mp_store (mb_pool b))} - snd ` set (mb_hash b)"
    and "distinct (List.map fst (mb_hash b))" and "distinct (List.map snd (mb_hash b))"
    and "\<And>p a. (p, a) \<in> set (mb_hash b) \<Longrightarrow> \<exists>l. pool_heap (mb_pool b) a = Some l \<and> level_fits p l"
    and "tree_ok av (>) (pool_heap (mb_pool b)) (side_addrs b kBid) (mb_bids b)"
    and "tree_ok av (<) (pool_heap (mb_pool b)) (side_addrs b kAsk) (mb_asks b)"
  shows "book_inv av b"
  using assms unfolding book_inv_def by blast

lemma book_invD:
  assumes "book_inv av b"
  shows "MemPool_inv (mb_pool b)"
    and "free_indices (mb_pool b) = {0..<length (mp_store (mb_pool b))} - snd ` set (mb_hash b)"
    and "distinct (List.map fst (mb_hash b))" and "distinct (List.map snd (mb_hash b))"
    and "(p, a) \<in> set (mb_hash b) \<Longrightarrow> \<exists>l. pool_heap (mb_pool b) a = Some l \<and> level_fits p l"
    and "tree_ok av (>) (pool_heap (mb_pool b)) (side_addrs b kBid) (mb_bids b)"
    and "tree_ok av (<) (pool_heap (mb_pool b)) (side_addrs b kAsk) (mb_asks b)"
  using assms unfolding book_inv_def by blast+

section \<open>Trees of levels\<close>

context price_order
begin

lemma tree_ok_insert:
  assumes spec: "avltree_spec av" and ok: "tree_ok av before h A t"
    and fresh: "\<forall>y \<in> A. level_price h y \<noteq> level_price h a"
  shows "tree_ok av before h (insert a A) (avl_insert_equal av (node_before before h) a t)"
proof -
  have sorted: "sorted_wrt (node_before before h) (avl_seq av t)" and A: "set (avl_seq av t) = A"
    using ok by (simp_all add: tree_ok_def)
  note upd = av_update(1) [OF spec strict_weak_nodes sorted_weaken [OF sorted]]
  show ?thesis
    using insert_sorted [OF sorted] fresh A takeWhile_dropWhile_set [of _ "avl_seq av t"]
    by (auto simp: tree_ok_def upd)
qed

lemma tree_ok_erase:
  assumes spec: "avltree_spec av" and ok: "tree_ok av before h A t"
    and inj: "inj_on (level_price h) A" and a: "a \<in> A"
  shows "avl_count av (node_before before h) a t \<noteq> 0 \<and>
         tree_ok av before h (A - {a}) (avl_erase av (node_before before h) a t)"
proof -
  have sorted: "sorted_wrt (node_before before h) (avl_seq av t)" and A: "set (avl_seq av t) = A"
    using ok by (simp_all add: tree_ok_def)
  note upd = av_update(2,3) [OF spec strict_weak_nodes sorted_weaken [OF sorted], of a]
  have other: "(node_before before h a y \<or> node_before before h y a) = (y \<noteq> a)" if "y \<in> A" for y
    using inj that a irrefl total unfolding node_before_def by (metis inj_onD)
  have "filter (\<lambda>y. \<not> node_before before h a y \<and> \<not> node_before before h y a) (avl_seq av t) \<noteq> []"
    using A a irrefl by (auto simp: filter_empty_conv node_before_def)
  moreover have "filter (\<lambda>y. node_before before h a y \<or> node_before before h y a) (avl_seq av t) =
      filter (\<lambda>y. y \<noteq> a) (avl_seq av t)"
    using A other by (intro filter_cong) auto
  ultimately show ?thesis using A sorted by (auto simp: tree_ok_def upd sorted_wrt_filter)
qed

lemma tree_ok_heap:
  assumes "tree_ok av before h A t" and "\<And>y. y \<in> A \<Longrightarrow> level_price h' y = level_price h y"
  shows "tree_ok av before h' A t"
  using assms sorted_wrt_mono_rel [of "avl_seq av t" "node_before before h" "node_before before h'"]
  by (auto simp: tree_ok_def node_before_def)

lemma tree_ok_grow:
  assumes "avltree_spec av" and "tree_ok av before h A t" and "\<And>y. y \<in> A \<Longrightarrow> level_price h' y = level_price h y"
    and "\<And>y. y \<in> A \<Longrightarrow> level_price h' y \<noteq> level_price h' a"
  shows "tree_ok av before h' A t \<and>
    tree_ok av before h' (insert a A) (avl_insert_equal av (node_before before h') a t)"
  using tree_ok_heap [OF assms(2,3)] tree_ok_insert [OF assms(1) tree_ok_heap [OF assms(2,3)]] assms(4) by simp

lemma tree_front_top:
  assumes ok: "tree_ok av before h A t" and lv: "levels_at h A m" and seq: "avl_seq av t = a # rest"
  shows "\<exists>l. h a = Some l \<and> mo_price (moap_first_mkt_order l) = moap_price l \<and> m \<noteq> Map.empty \<and>
     top_of before m (moap_price l, mo_qty (moap_first_mkt_order l))"
proof -
  have A: "A = set (a # rest)" and sorted: "sorted_wrt (node_before before h) (a # rest)"
    using ok seq by (auto simp: tree_ok_def)
  obtain l where l: "h a = Some l" "mo_price (moap_first_mkt_order l) = moap_price l"
    "m (moap_price l) = Some (mo_qty (moap_first_mkt_order l))"
    using lv A by (auto simp: levels_at_def)
  have "level_price h a = moap_price l" using l(1) by (simp add: level_price_def)
  then have "p = moap_price l \<or> before (moap_price l) p" if "p \<in> dom m" for p
    using that lv sorted by (auto simp: levels_at_def A node_before_def)
  with l show ?thesis by (auto simp: top_of_def)
qed

lemma tree_top_correct:
  assumes spec: "avltree_spec av" and ok: "tree_ok av before (pool_heap (mb_pool b)) A t"
    and lv: "levels_at (pool_heap (mb_pool b)) A m"
  shows "\<exists>pq. tree_top av t b = Inr pq \<and> top_of before m pq"
proof (cases "avl_seq av t")
  case Nil
  with ok lv spec show ?thesis by (auto simp: tree_top_def top_of_def tree_ok_def levels_at_def av_size)
next
  case (Cons a rest)
  with tree_front_top [OF ok lv Cons] spec show ?thesis
    by (auto simp: tree_top_def tree_front_def deref_def av_size)
qed

lemma top_of_unique:
  assumes "top_of before m x" and "top_of before m y" and "m \<noteq> Map.empty"
  shows "fst x = fst y"
proof -
  have "fst x \<in> dom m" "fst y \<in> dom m" using assms by (auto simp: top_of_def)
  with assms have "fst x = fst y \<or> before (fst y) (fst x)" and "fst y = fst x \<or> before (fst x) (fst y)"
    by (simp_all add: top_of_def)
  then show ?thesis using irrefl [of "fst x"] trans [of "fst x" "fst y" "fst x"] by metis
qed

lemma tree_touched_correct:
  assumes spec: "avltree_spec av" and ok: "tree_ok av before (pool_heap (mb_pool b)) A t"
    and lv: "levels_at (pool_heap (mb_pool b)) A m" and al: "\<And>p q. at_least p q \<longleftrightarrow> p = q \<or> before p q"
  shows "\<exists>r. tree_touched av at_least price t b = Inr r \<and>
     (\<not> r \<longrightarrow> (\<forall>pq v. top_of before m pq \<longrightarrow> top_of before (m(price := v)) pq))"
proof (cases "avl_seq av t")
  case Nil
  with spec show ?thesis by (intro exI [of _ True]) (simp add: tree_touched_def av_size)
next
  case (Cons a rest)
  obtain l where l: "pool_heap (mb_pool b) a = Some l" "m \<noteq> Map.empty"
    "top_of before m (moap_price l, mo_qty (moap_first_mkt_order l))"
    using tree_front_top [OF ok lv Cons] by blast
  have "top_of before (m(price := v)) pq"
    if "\<not> at_least price (moap_price l)" and "top_of before m pq" for pq v
    using that top_of_unique [OF that(2) l(3,2)] al total [of price "moap_price l"] l(2)
    by (intro top_of_behind) auto
  with Cons l spec show ?thesis by (auto simp: tree_touched_def tree_front_def deref_def av_size)
qed

end

section \<open>One level of the book\<close>

lemma nth_update_same:
  assumes "g y = g (xs ! i)"
  shows "g (xs[i := y] ! j) = g (xs ! j)"
  using assms by (cases "i < length xs") (auto simp: nth_list_update list_update_beyond)

lemma pool_heap_put [simp]:
  "i < length (mp_store p) \<Longrightarrow> pool_heap (pool_put i x p) = (pool_heap p)(i \<mapsto> x)"
  by (auto simp: pool_heap_def pool_put_def fun_eq_iff nth_list_update)

lemma pool_put_frame [simp]:
  "free_indices (pool_put i x p) = free_indices p" "MemPool_inv (pool_put i x p) = MemPool_inv p"
  "length (mp_store (pool_put i x p)) = length (mp_store p)"
  by (simp_all add: free_indices_def MemPool_inv_def pool_put_def nth_update_same [where g = ob_is_free])

lemma pool_heap_less: "pool_heap p i = Some x \<Longrightarrow> i < length (mp_store p)"
  by (simp add: pool_heap_def split: if_splits)

lemma allocated_heap:
  assumes "MemPool_inv p" and "2 \<le> card (free_indices p)"
  obtains i p' where "MemPool_allocate x p = Inr (i, p')" and "MemPool_inv p'" and "i \<in> free_indices p"
    and "free_indices p' = free_indices p - {i}" and "pool_heap p' = (pool_heap p)(i \<mapsto> x)"
    and "length (mp_store p') = length (mp_store p)"
proof -
  let ?i = "mp_next_free_index p"
  have i: "?i \<in> free_indices p" using assms(1) by (simp add: MemPool_inv_def)
  obtain p' where p': "MemPool_allocate x p = Inr (?i, p')" "MemPool_inv p'" "free_indices p' = free_indices p - {?i}"
    "mp_store p' = (mp_store p)[?i := \<lparr>ob_object = x, ob_is_free = False\<rparr>]"
    using MemPool_allocate_spec [OF assms(1), of x] assms(2) by blast
  moreover have "pool_heap p' = (pool_heap p)(?i \<mapsto> x)"
    using p'(4) i by (auto simp: pool_heap_def fun_eq_iff free_indices_def nth_list_update)
  ultimately show thesis using i that by simp
qed

lemma deallocated_heap:
  assumes "MemPool_inv p" and "a < length (mp_store p)" and "a \<notin> free_indices p"
  obtains p' where "MemPool_deallocate (int a) p = Inr p'" and "MemPool_inv p'"
    and "free_indices p' = insert a (free_indices p)" and "pool_heap p' = pool_heap p"
    and "length (mp_store p') = length (mp_store p)"
proof -
  let ?p = "p\<lparr>mp_store := (mp_store p)[a := (mp_store p ! a)\<lparr>ob_is_free := True\<rparr>]\<rparr>"
  have d: "MemPool_deallocate (int a) p = Inr ?p"
    using MemPool_deallocate_spec [of "int a" p] assms by simp
  then have "MemPool_inv ?p" "free_indices ?p = insert a (free_indices p)"
    using MemPool_deallocate_spec [of "int a" p ?p] assms(1) by simp_all
  with d show thesis
    by (rule that) (auto simp: pool_heap_def fun_eq_iff nth_update_same [where g = ob_object])
qed

lemma inv_entry:
  assumes "book_inv av b" and "map_of (mb_hash b) p = Some a"
  obtains l where "pool_heap (mb_pool b) a = Some l" and "level_fits p l" and "a \<in> snd ` set (mb_hash b)"
    and "book_levels b (moap_side l) p = Some (mo_qty (moap_first_mkt_order l))"
  using assms map_of_SomeD [OF assms(2)] by (force simp: book_inv_def book_levels_def)

lemma inv_addr:
  assumes "book_inv av b" and "a \<in> snd ` set (mb_hash b)"
  obtains l where "pool_heap (mb_pool b) a = Some l" and "level_fits (moap_price l) l"
    and "map_of (mb_hash b) (moap_price l) = Some a"
proof -
  obtain p where p: "(p, a) \<in> set (mb_hash b)" using assms(2) by auto
  then obtain l where "pool_heap (mb_pool b) a = Some l" "level_fits p l"
    using assms(1) by (auto simp: book_inv_def)
  moreover have "map_of (mb_hash b) p = Some a" using assms(1) p by (simp add: book_inv_def)
  moreover have "moap_price l = p" using calculation by (simp add: level_fits_def)
  ultimately show thesis using that by blast
qed

lemma inv_price_inj: "book_inv av b \<Longrightarrow> inj_on (level_price (pool_heap (mb_pool b))) (snd ` set (mb_hash b))"
proof (rule inj_onI)
  fix x y
  assume inv: "book_inv av b" and xy: "x \<in> snd ` set (mb_hash b)" "y \<in> snd ` set (mb_hash b)"
    and eq: "level_price (pool_heap (mb_pool b)) x = level_price (pool_heap (mb_pool b)) y"
  obtain l where l: "pool_heap (mb_pool b) x = Some l" "map_of (mb_hash b) (moap_price l) = Some x"
    using inv_addr [OF inv xy(1)] .
  obtain k where "pool_heap (mb_pool b) y = Some k" "map_of (mb_hash b) (moap_price k) = Some y"
    using inv_addr [OF inv xy(2)] .
  with l eq show "x = y" by (simp add: level_price_def)
qed

lemma inv_price_unique:
  assumes inv: "book_inv av b" and "map_of (mb_hash b) p = Some a" and "(q, a) \<in> set (mb_hash b)"
  shows "q = p"
proof -
  have "map_of (mb_hash b) q = Some a" using inv assms(3) by (simp add: book_inv_def)
  then obtain k where "pool_heap (mb_pool b) a = Some k" "level_fits q k" using inv_entry [OF inv] by blast
  moreover obtain l where "pool_heap (mb_pool b) a = Some l" "level_fits p l" using inv_entry [OF inv assms(2)] by blast
  ultimately show ?thesis by (auto simp: level_fits_def)
qed

lemma side_addrs_sub: "side_addrs b side \<subseteq> snd ` set (mb_hash b)"
  by (auto simp: side_addrs_def)

lemma book_levels_at:
  assumes inv: "book_inv av b"
  shows "levels_at (pool_heap (mb_pool b)) (side_addrs b side) (book_levels b side)"
  unfolding levels_at_def
proof (intro conjI ballI set_eqI iffI)
  fix a
  assume a: "a \<in> side_addrs b side"
  then have "a \<in> snd ` set (mb_hash b)" by (simp add: side_addrs_def)
  then obtain l where l: "pool_heap (mb_pool b) a = Some l" "level_fits (moap_price l) l"
    "map_of (mb_hash b) (moap_price l) = Some a"
    using inv_addr [OF inv] by blast
  with a have "moap_side l = side" by (simp add: side_addrs_def)
  with l show "\<exists>l. pool_heap (mb_pool b) a = Some l \<and> mo_price (moap_first_mkt_order l) = moap_price l \<and>
      book_levels b side (moap_price l) = Some (mo_qty (moap_first_mkt_order l))"
    by (auto simp: book_levels_def level_fits_def)
next
  fix p
  assume "p \<in> dom (book_levels b side)"
  then obtain a l where "map_of (mb_hash b) p = Some a" "pool_heap (mb_pool b) a = Some l" "moap_side l = side"
    by (auto simp: book_levels_def split: option.splits if_splits)
  moreover obtain k where "pool_heap (mb_pool b) a = Some k" "level_fits p k" "a \<in> snd ` set (mb_hash b)"
    using inv_entry [OF inv calculation(1)] .
  ultimately have "a \<in> side_addrs b side" "level_price (pool_heap (mb_pool b)) a = p"
    by (simp_all add: side_addrs_def level_price_def level_fits_def)
  then show "p \<in> level_price (pool_heap (mb_pool b)) ` side_addrs b side" by blast
next
  fix p
  assume "p \<in> level_price (pool_heap (mb_pool b)) ` side_addrs b side"
  then obtain a l where l: "p = moap_price l" "pool_heap (mb_pool b) a = Some l" "moap_side l = side"
    "a \<in> snd ` set (mb_hash b)"
    by (fastforce simp: side_addrs_def level_price_def)
  obtain k where "pool_heap (mb_pool b) a = Some k" "map_of (mb_hash b) (moap_price k) = Some a"
    using inv_addr [OF inv l(4)] .
  with l show "p \<in> dom (book_levels b side)" by (simp add: book_levels_def dom_def)
qed

text \<open>The parts of the book that adding and removing levels leave alone.\<close>

definition quote_kept :: "'t MarketOrderBook \<Rightarrow> 't MarketOrderBook \<Rightarrow> bool" where
  "quote_kept b b' \<longleftrightarrow> mb_bbo b' = mb_bbo b \<and> mb_trading_pair b' = mb_trading_pair b \<and>
     length (mp_store (mb_pool b')) = length (mp_store (mb_pool b))"

text \<open>Adding at a price without a level.\<close>

lemma add_views:
  assumes i: "i \<notin> snd ` set (mb_hash b)" and hash: "mb_hash b' = (p, i) # mb_hash b"
    and heap: "pool_heap (mb_pool b') = (pool_heap (mb_pool b))(i \<mapsto> l)" and none: "map_of (mb_hash b) p = None"
  shows "book_levels b' = (book_levels b)(moap_side l := (book_levels b (moap_side l))(p \<mapsto> mo_qty (moap_first_mkt_order l)))"
    and "side_addrs b' s = (if s = moap_side l then insert i (side_addrs b s) else side_addrs b s)"
proof -
  have ne: "a \<noteq> i" if "map_of (mb_hash b) q = Some a" for q a
    using that i map_of_SomeD by force
  show "book_levels b' = (book_levels b)(moap_side l := (book_levels b (moap_side l))(p \<mapsto> mo_qty (moap_first_mkt_order l)))"
  proof (intro ext)
    fix s q
    show "book_levels b' s q =
      ((book_levels b)(moap_side l := (book_levels b (moap_side l))(p \<mapsto> mo_qty (moap_first_mkt_order l)))) s q"
      using none ne [of q] by (cases "map_of (mb_hash b) q") (auto simp: book_levels_def hash heap split: option.splits)
  qed
  show "side_addrs b' s = (if s = moap_side l then insert i (side_addrs b s) else side_addrs b s)"
    using i by (auto simp: side_addrs_def hash heap image_iff)
qed

lemma addOrder_new:
  assumes spec: "avltree_spec av" and inv: "book_inv av b" and none: "map_of (mb_hash b) (mo_price ord) = None"
    and room: "2 \<le> card (free_indices (mb_pool b))" and side: "mo_side ord \<in> {kBid, kAsk}" and qty: "mo_qty ord \<noteq> 0"
  shows "\<exists>b'. addOrder av ord b = Inr b' \<and> book_inv av b' \<and> quote_kept b b' \<and>
     book_levels b' = (book_levels b)(mo_side ord := (book_levels b (mo_side ord))(mo_price ord \<mapsto> mo_qty ord))"
proof -
  let ?l = "\<lparr>moap_side = mo_side ord, moap_price = mo_price ord, moap_first_mkt_order = ord\<rparr>"
  let ?h = "pool_heap (mb_pool b)"
  obtain i p where p: "MemPool_allocate ?l (mb_pool b) = Inr (i, p)" "MemPool_inv p" "i \<in> free_indices (mb_pool b)"
    "free_indices p = free_indices (mb_pool b) - {i}" "pool_heap p = ?h(i \<mapsto> ?l)"
    "length (mp_store p) = length (mp_store (mb_pool b))"
    using inv room by (auto simp: book_inv_def intro: allocated_heap [of "mb_pool b" ?l])
  have i: "i \<notin> snd ` set (mb_hash b)" using p(3) inv by (simp add: book_inv_def)
  define b' where "b' = b\<lparr>mb_pool := p, mb_hash := (mo_price ord, i) # mb_hash b,
     mb_asks := (if mo_side ord = kAsk then avl_insert_equal av (node_before (<) (pool_heap p)) i (mb_asks b) else mb_asks b),
     mb_bids := (if mo_side ord = kBid then avl_insert_equal av (node_before (>) (pool_heap p)) i (mb_bids b) else mb_bids b)\<rparr>"
  have add: "addOrder av ord b = Inr b'"
    using none p(1,5) by (simp add: addOrder_def getOrdersAtPrice_def addOrdersAtPrice_def deref_def b'_def Let_def)
  note views = add_views [OF i, of b' "mo_price ord" ?l]
  have addrs: "side_addrs b' s = (if s = mo_side ord then insert i (side_addrs b s) else side_addrs b s)" for s
    using views(2) none by (simp add: b'_def p(5))
  have old: "level_price (pool_heap p) y = level_price ?h y" "level_price (pool_heap p) y \<noteq> level_price (pool_heap p) i"
    if y: "y \<in> side_addrs b s" for y s
  proof -
    have yh: "y \<in> snd ` set (mb_hash b)" using y side_addrs_sub [of b s] by auto
    obtain l where "?h y = Some l" "map_of (mb_hash b) (moap_price l) = Some y"
      using inv_addr [OF inv yh] .
    then show "level_price (pool_heap p) y = level_price ?h y"
      and "level_price (pool_heap p) y \<noteq> level_price (pool_heap p) i"
      using none i yh by (auto simp: level_price_def p(5))
  qed
  have "tree_ok av (>) (pool_heap p) (side_addrs b' kBid) (mb_bids b')"
    using bids.tree_ok_grow [OF spec, of ?h "side_addrs b kBid" "mb_bids b" "pool_heap p" i] old inv
    by (simp add: book_inv_def addrs) (simp add: b'_def)
  moreover have "tree_ok av (<) (pool_heap p) (side_addrs b' kAsk) (mb_asks b')"
    using asks.tree_ok_grow [OF spec, of ?h "side_addrs b kAsk" "mb_asks b" "pool_heap p" i] old inv
    by (simp add: book_inv_def addrs) (simp add: b'_def)
  moreover have "\<exists>l. pool_heap p a = Some l \<and> level_fits q l" if "(q, a) \<in> set (mb_hash b')" for q a
  proof (cases "a = i")
    case True
    with that i have "q = mo_price ord" by (auto simp: b'_def image_iff)
    with True side qty show ?thesis by (simp add: p(5) level_fits_def)
  next
    case False
    with that have qa: "(q, a) \<in> set (mb_hash b)" by (simp add: b'_def)
    then have "pool_heap p a = ?h a" using False by (simp add: p(5))
    with qa inv show ?thesis by (auto simp: book_inv_def)
  qed
  ultimately have "book_inv av b'"
    using inv i p(2,4,6) map_of_eq_None_iff [of "mb_hash b" "mo_price ord"] none
    by (auto simp: book_inv_def b'_def)
  moreover have "book_levels b' = (book_levels b)(mo_side ord := (book_levels b (mo_side ord))(mo_price ord \<mapsto> mo_qty ord))"
    using views(1) none by (simp add: b'_def p(5))
  ultimately show ?thesis using add p(6) by (auto simp: quote_kept_def b'_def)
qed

text \<open>An order at a price that has a level: the level keeps its side.\<close>

lemma addOrder_existing:
  assumes inv: "book_inv av b" and some: "map_of (mb_hash b) (mo_price ord) = Some a"
    and l: "pool_heap (mb_pool b) a = Some l" and qty: "mo_qty ord \<noteq> 0"
  shows "\<exists>b'. addOrder av ord b = Inr b' \<and> book_inv av b' \<and> quote_kept b b' \<and>
     book_levels b' = (book_levels b)(moap_side l := (book_levels b (moap_side l))(mo_price ord \<mapsto> mo_qty ord))"
proof -
  let ?h = "pool_heap (mb_pool b)"
  define l' where "l' = l\<lparr>moap_first_mkt_order := (moap_first_mkt_order l)\<lparr>mo_order_id := mo_order_id ord,
    mo_price := mo_price ord, mo_qty := mo_qty ord\<rparr>\<rparr>"
  define b' where "b' = b\<lparr>mb_pool := pool_put a l' (mb_pool b)\<rparr>"
  have "addOrder av ord b = Inr b'"
    using some l by (simp add: addOrder_def getOrdersAtPrice_def deref_def b'_def l'_def Let_def)
  moreover have heap: "pool_heap (mb_pool b') = ?h(a \<mapsto> l')"
    using pool_heap_less [OF l] by (simp add: b'_def)
  have fits: "level_fits (mo_price ord) l'" and al: "a \<in> snd ` set (mb_hash b)"
    using inv_entry [OF inv some] l qty by (auto simp: level_fits_def l'_def)
  have prices: "level_price (?h(a \<mapsto> l')) y = level_price ?h y" for y
    using l by (simp add: level_price_def l'_def)
  have addrs: "side_addrs b' s = side_addrs b s" for s
    unfolding side_addrs_def heap using l by (auto simp: b'_def l'_def)
  have entries: "\<exists>k. (?h(a \<mapsto> l')) x = Some k \<and> level_fits q k" if "(q, x) \<in> set (mb_hash b)" for q x
  proof (cases "x = a")
    case True
    with that have "q = mo_price ord" using inv_price_unique [OF inv some] by simp
    with True fits show ?thesis by simp
  next
    case False
    with book_invD(5) [OF inv that] show ?thesis by simp
  qed
  have "book_inv av b'"
  proof (rule book_invI; (unfold heap addrs)?)
  qed (use book_invD(1-4) [OF inv] entries bids.tree_ok_heap [OF book_invD(6) [OF inv] prices]
      asks.tree_ok_heap [OF book_invD(7) [OF inv] prices] in \<open>simp_all add: b'_def\<close>)
  moreover have "book_levels b' s q =
      ((book_levels b)(moap_side l := (book_levels b (moap_side l))(mo_price ord \<mapsto> mo_qty ord))) s q" for s q
  proof (cases "map_of (mb_hash b) q = Some a")
    case True
    then have "q = mo_price ord" using inv_price_unique [OF inv some] map_of_SomeD [OF True] by simp
    with True l show ?thesis unfolding book_levels_def heap by (simp add: b'_def l'_def)
  next
    case False
    with some have "q \<noteq> mo_price ord" by auto
    with False show ?thesis unfolding book_levels_def heap by (auto simp: b'_def split: option.splits)
  qed
  ultimately show ?thesis by (auto simp: quote_kept_def b'_def fun_eq_iff)
qed

text \<open>Removing a level of the side it belongs to.\<close>

lemma remove_views:
  assumes inv: "book_inv av b" and some: "map_of (mb_hash b) p = Some a" and l: "pool_heap (mb_pool b) a = Some l"
    and hash: "mb_hash b' = filter (\<lambda>e. fst e \<noteq> p) (mb_hash b)" and heap: "pool_heap (mb_pool b') = pool_heap (mb_pool b)"
  shows "book_levels b' = (book_levels b)(moap_side l := (book_levels b (moap_side l))(p := None))"
    and "side_addrs b' s = side_addrs b s - {a}"
    and "snd ` set (mb_hash b') = snd ` set (mb_hash b) - {a}"
proof -
  show "book_levels b' = (book_levels b)(moap_side l := (book_levels b (moap_side l))(p := None))"
    unfolding fun_eq_iff book_levels_def hash heap map_of_filter_key using some l
    by (simp split: option.splits)
  have "fst e \<noteq> p \<longleftrightarrow> snd e \<noteq> a" if "e \<in> set (mb_hash b)" for e
  proof -
    have "map_of (mb_hash b) (fst e) = Some (snd e)" using map_of_is_SomeI [OF book_invD(3) [OF inv], of "fst e" "snd e"] that by simp
    then show ?thesis using some inv_price_unique [OF inv some, of "fst e"] that by (cases e) auto
  qed
  then show addrs: "snd ` set (mb_hash b') = snd ` set (mb_hash b) - {a}" by (auto simp: hash)
  show "side_addrs b' s = side_addrs b s - {a}" unfolding side_addrs_def addrs heap by auto
qed

lemma removeOrders_same:
  assumes spec: "avltree_spec av" and inv: "book_inv av b" and some: "map_of (mb_hash b) p = Some a"
    and l: "pool_heap (mb_pool b) a = Some l"
  shows "\<exists>b'. removeOrdersAtPrice av (moap_side l) p b = Inr b' \<and> book_inv av b' \<and> quote_kept b b' \<and>
     book_levels b' = (book_levels b)(moap_side l := (book_levels b (moap_side l))(p := None))"
proof -
  let ?h = "pool_heap (mb_pool b)" and ?A = "side_addrs b"
  have al: "a \<in> snd ` set (mb_hash b)" and fits: "level_fits p l"
    using inv_entry [OF inv some] l by auto
  then have aA: "a \<in> ?A (moap_side l)" "s \<noteq> moap_side l \<Longrightarrow> a \<notin> ?A s" for s using l by (auto simp: side_addrs_def)
  have inj: "inj_on (level_price ?h) (?A s)" for s
    using inv_price_inj [OF inv] side_addrs_sub by (rule inj_on_subset)
  have "a \<notin> free_indices (mb_pool b)" using al by (simp add: book_invD(2) [OF inv])
  then obtain q where q: "MemPool_deallocate (int a) (mb_pool b) = Inr q" "MemPool_inv q"
    "free_indices q = insert a (free_indices (mb_pool b))" "pool_heap q = ?h"
    "length (mp_store q) = length (mp_store (mb_pool b))"
    by (rule deallocated_heap [OF book_invD(1) [OF inv] pool_heap_less [OF l]])
  define b' where "b' = b\<lparr>mb_asks := (if moap_side l = kAsk then avl_erase av (node_before (<) ?h) a (mb_asks b) else mb_asks b),
    mb_bids := (if moap_side l = kBid then avl_erase av (node_before (>) ?h) a (mb_bids b) else mb_bids b),
    mb_hash := filter (\<lambda>e. fst e \<noteq> p) (mb_hash b), mb_pool := q\<rparr>"
  have bid: "moap_side l = kBid \<Longrightarrow> avl_count av (node_before (>) ?h) a (mb_bids b) \<noteq> 0"
    "tree_ok av (>) ?h (?A kBid - {a}) (mb_bids b')"
    using aA bids.tree_ok_erase [OF spec book_invD(6) [OF inv] inj, of a] book_invD(6) [OF inv]
    by (auto simp: b'_def)
  have ask: "moap_side l = kAsk \<Longrightarrow> avl_count av (node_before (<) ?h) a (mb_asks b) \<noteq> 0"
    "tree_ok av (<) ?h (?A kAsk - {a}) (mb_asks b')"
    using aA asks.tree_ok_erase [OF spec book_invD(7) [OF inv] inj, of a] book_invD(7) [OF inv]
    by (auto simp: b'_def)
  have "removeOrdersAtPrice av (moap_side l) p b = Inr b'"
    using some l bid(1) ask(1) q(1)
    by (auto simp: removeOrdersAtPrice_def getOrdersAtPrice_def deref_def b'_def Let_def)
  moreover have hash: "mb_hash b' = filter (\<lambda>e. fst e \<noteq> p) (mb_hash b)" and heap: "pool_heap (mb_pool b') = ?h"
    by (simp_all add: b'_def q(4))
  note views = remove_views [OF inv some l hash heap]
  have "book_inv av b'"
  proof (rule book_invI; (unfold heap views(2,3))?)
    show "free_indices (mb_pool b') = {0..<length (mp_store (mb_pool b'))} - (snd ` set (mb_hash b) - {a})"
      using q(3,5) pool_heap_less [OF l] book_invD(2) [OF inv] by (auto simp: b'_def)
    show "\<exists>l. ?h x = Some l \<and> level_fits r l" if "(r, x) \<in> set (mb_hash b')" for r x
      using that book_invD(5) [OF inv] by (simp add: hash)
  qed (use book_invD(3,4) [OF inv] bid(2) ask(2) q(2) in \<open>simp_all add: b'_def distinct_map_filter\<close>)
  ultimately show ?thesis using views(1) by (auto simp: quote_kept_def b'_def q(4,5))
qed

section \<open>Whole updates\<close>

definition quote_exact :: "'t MarketOrderBook \<Rightarrow> bool" where
  "quote_exact b \<longleftrightarrow>
     top_of (>) (book_levels b kBid) (bid_price (mb_bbo b), bid_qty (mb_bbo b)) \<and>
     top_of (<) (book_levels b kAsk) (ask_price (mb_bbo b), ask_qty (mb_bbo b))"

definition other_side :: "Side \<Rightarrow> Side" where
  "other_side s = (if s = kBid then kAsk else kBid)"

text \<open>What an update means: the level of its price and side becomes its quantity.\<close>

definition put_quote :: "MEMarketUpdate \<Rightarrow> (Side \<Rightarrow> Price \<rightharpoonup> Qty) \<Rightarrow> (Side \<Rightarrow> Price \<rightharpoonup> Qty)" where
  "put_quote u m = m(mu_side u := set_level (mu_price u) (mu_qty u) (m (mu_side u)))"

text \<open>The update names a side, its price has no level on the other side, and two blocks of a pool of \<open>n\<close> are free.\<close>

definition well_sided :: "nat \<Rightarrow> MEMarketUpdate \<Rightarrow> (Side \<Rightarrow> Price \<rightharpoonup> Qty) \<Rightarrow> bool" where
  "well_sided n u m \<longleftrightarrow> mu_type u = DEFAULT \<and> mu_side u \<in> {kBid, kAsk} \<and> m (other_side (mu_side u)) (mu_price u) = None \<and>
     card (dom (m kBid)) + card (dom (m kAsk)) + 2 \<le> n"

lemma book_free:
  assumes inv: "book_inv av b"
  shows "card (free_indices (mb_pool b)) + card (dom (book_levels b kBid)) + card (dom (book_levels b kAsk)) =
    length (mp_store (mb_pool b))"
proof -
  let ?n = "length (mp_store (mb_pool b))" and ?A = "snd ` set (mb_hash b)"
  have dom: "card (dom (book_levels b s)) = card (side_addrs b s)" for s
    using book_levels_at [OF inv, of s] card_image [OF inj_on_subset [OF inv_price_inj [OF inv] side_addrs_sub [of b s]]]
    by (simp add: levels_at_def)
  have "a \<in> side_addrs b kBid \<union> side_addrs b kAsk" if "a \<in> ?A" for a
    using inv_addr [OF inv that] that by (auto simp: side_addrs_def level_fits_def)
  then have "?A = side_addrs b kBid \<union> side_addrs b kAsk" using side_addrs_sub by blast
  moreover have "side_addrs b kBid \<inter> side_addrs b kAsk = {}" by (auto simp: side_addrs_def)
  ultimately have "card ?A = card (side_addrs b kBid) + card (side_addrs b kAsk)"
    by (metis List.finite_set card_Un_disjoint finite_Un finite_imageI)
  moreover have "?A \<subseteq> {0..<?n}" using book_invD(5) [OF inv] pool_heap_less by fastforce
  then have "card ({0..<?n} - ?A) + card ?A = ?n" using card_Diff_subset [of ?A "{0..<?n}"] card_mono [of "{0..<?n}" ?A] by simp
  ultimately show ?thesis using dom by (simp add: book_invD(2) [OF inv])
qed

lemma changed_level:
  assumes spec: "avltree_spec av" and inv: "book_inv av b" and u: "well_sided (length (mp_store (mb_pool b))) u (book_levels b)"
  shows "\<exists>b'. (if mu_qty u \<noteq> 0
      then addOrder av \<lparr>mo_order_id = kOrderIdInvalid, mo_side = mu_side u, mo_price = mu_price u, mo_qty = mu_qty u\<rparr> b
      else removeOrdersAtPrice av (mu_side u) (mu_price u) b) = Inr b' \<and>
    book_inv av b' \<and> quote_kept b b' \<and> book_levels b' = put_quote u (book_levels b)"
proof (cases "map_of (mb_hash b) (mu_price u)")
  case None
  have "2 \<le> card (free_indices (mb_pool b))" using book_free [OF inv] u by (simp add: well_sided_def)
  then show ?thesis
    using None u addOrder_new [OF spec inv, of "\<lparr>mo_order_id = kOrderIdInvalid, mo_side = mu_side u, mo_price = mu_price u,
      mo_qty = mu_qty u\<rparr>"] inv
    by (auto simp: well_sided_def put_quote_def set_level_def removeOrdersAtPrice_def getOrdersAtPrice_def quote_kept_def
        book_levels_def fun_eq_iff)
next
  case (Some a)
  obtain l where l: "pool_heap (mb_pool b) a = Some l" "level_fits (mu_price u) l"
    "book_levels b (moap_side l) (mu_price u) \<noteq> None"
    using inv_entry [OF inv Some] by (metis option.distinct(1))
  then have "moap_side l = mu_side u"
    using u by (auto simp: well_sided_def other_side_def level_fits_def)
  then show ?thesis
    using addOrder_existing [OF inv _ l(1), of "\<lparr>mo_order_id = kOrderIdInvalid, mo_side = mu_side u, mo_price = mu_price u,
      mo_qty = mu_qty u\<rparr>"] removeOrders_same [OF spec inv Some l(1)] Some
    by (simp add: put_quote_def set_level_def)
qed

lemma book_updateBBO_correct:
  assumes spec: "avltree_spec av" and inv: "book_inv av b"
  shows "\<exists>bbo. book_updateBBO av ub ua b = Inr (b\<lparr>mb_bbo := bbo\<rparr>) \<and>
     (if ub then top_of (>) (book_levels b kBid) (bid_price bbo, bid_qty bbo)
      else bid_price bbo = bid_price (mb_bbo b) \<and> bid_qty bbo = bid_qty (mb_bbo b)) \<and>
     (if ua then top_of (<) (book_levels b kAsk) (ask_price bbo, ask_qty bbo)
      else ask_price bbo = ask_price (mb_bbo b) \<and> ask_qty bbo = ask_qty (mb_bbo b))"
proof -
  obtain bp bq where bid: "tree_top av (mb_bids b) b = Inr (bp, bq)" "top_of (>) (book_levels b kBid) (bp, bq)"
    using bids.tree_top_correct [OF spec book_invD(6) [OF inv] book_levels_at [OF inv]] by auto
  obtain ap aq where ask: "tree_top av (mb_asks b) b = Inr (ap, aq)" "top_of (<) (book_levels b kAsk) (ap, aq)"
    using asks.tree_top_correct [OF spec book_invD(7) [OF inv] book_levels_at [OF inv]] by auto
  define bbo where "bbo =
    (let x = (if ub then (mb_bbo b)\<lparr>bid_price := bp, bid_qty := bq\<rparr> else mb_bbo b)
     in if ua then x\<lparr>ask_price := ap, ask_qty := aq\<rparr> else x)"
  have "tree_top av t (b\<lparr>mb_bbo := x\<rparr>) = tree_top av t b" for t x
    by (simp add: tree_top_def tree_front_def split: list.split)
  then have "book_updateBBO av ub ua b = Inr (b\<lparr>mb_bbo := bbo\<rparr>)"
    using bid(1) ask(1) by (auto simp: book_updateBBO_def bbo_def Let_def)
  with bid(2) ask(2) show ?thesis by (intro exI [of _ bbo]) (simp add: bbo_def Let_def)
qed

lemma bbo_views [simp]:
  "book_levels (b\<lparr>mb_bbo := x\<rparr>) = book_levels b" "book_inv av (b\<lparr>mb_bbo := x\<rparr>) = book_inv av b"
  by (simp_all add: book_levels_def fun_eq_iff book_inv_def side_addrs_def split: option.split)

lemma update_correct:
  assumes spec: "avltree_spec av" and inv: "book_inv av b" and exact: "quote_exact b"
    and u: "well_sided (length (mp_store (mb_pool b))) u (book_levels b)"
  shows "\<exists>b'. book_OnMarketUpdate av u b = Inr b' \<and> book_inv av b' \<and> quote_exact b' \<and>
     book_levels b' = put_quote u (book_levels b) \<and> length (mp_store (mb_pool b')) = length (mp_store (mb_pool b))"
proof -
  have side: "mu_side u \<in> {kBid, kAsk}" "mu_type u \<noteq> CLEAR" using u by (auto simp: well_sided_def)
  obtain rb where rb: "tree_touched av (\<ge>) (mu_price u) (mb_bids b) b = Inr rb"
    "\<not> rb \<Longrightarrow> top_of (>) (book_levels b kBid) pq \<Longrightarrow> top_of (>) ((book_levels b kBid)(mu_price u := v)) pq" for pq v
    using bids.tree_touched_correct [OF spec book_invD(6) [OF inv] book_levels_at [OF inv] ge_price_iff] by blast
  obtain ra where ra: "tree_touched av (\<le>) (mu_price u) (mb_asks b) b = Inr ra"
    "\<not> ra \<Longrightarrow> top_of (<) (book_levels b kAsk) pq \<Longrightarrow> top_of (<) ((book_levels b kAsk)(mu_price u := v)) pq" for pq v
    using asks.tree_touched_correct [OF spec book_invD(7) [OF inv] book_levels_at [OF inv] le_price_iff] by blast
  obtain b1 where b1: "(if mu_qty u \<noteq> 0
      then addOrder av \<lparr>mo_order_id = kOrderIdInvalid, mo_side = mu_side u, mo_price = mu_price u, mo_qty = mu_qty u\<rparr> b
      else removeOrdersAtPrice av (mu_side u) (mu_price u) b) = Inr b1"
    "book_inv av b1" "quote_kept b b1" "book_levels b1 = put_quote u (book_levels b)"
    using changed_level [OF spec inv u] by blast
  define ub where "ub = (mu_side u = kBid \<and> rb)"
  define ua where "ua = (mu_side u = kAsk \<and> ra)"
  have changed: "book_changed av u b = Inr ((ub, ua), b1)"
    using rb(1) ra(1) b1(1) by (auto simp: book_changed_def Let_def ub_def ua_def)
  obtain bbo where bbo: "book_updateBBO av ub ua b1 = Inr (b1\<lparr>mb_bbo := bbo\<rparr>)"
    "if ub then top_of (>) (book_levels b1 kBid) (bid_price bbo, bid_qty bbo)
     else bid_price bbo = bid_price (mb_bbo b1) \<and> bid_qty bbo = bid_qty (mb_bbo b1)"
    "if ua then top_of (<) (book_levels b1 kAsk) (ask_price bbo, ask_qty bbo)
     else ask_price bbo = ask_price (mb_bbo b1) \<and> ask_qty bbo = ask_qty (mb_bbo b1)"
    using book_updateBBO_correct [OF spec b1(2)] by blast
  have "quote_exact (b1\<lparr>mb_bbo := bbo\<rparr>)"
    using bbo(2,3) b1(3,4) exact rb(2) ra(2) side(1)
    by (auto simp: quote_exact_def quote_kept_def put_quote_def set_level_def ub_def ua_def split: if_splits)
  then show ?thesis
    using changed bbo(1) side(2) b1(2-4) by (simp add: book_OnMarketUpdate_def quote_kept_def)
qed

section \<open>The service\<close>

fun all_well_sided :: "nat \<Rightarrow> MEMarketUpdate list \<Rightarrow> (Side \<Rightarrow> Price \<rightharpoonup> Qty) \<Rightarrow> bool" where
  "all_well_sided n [] m = True"
| "all_well_sided n (u # us) m = (well_sided n u m \<and> all_well_sided n us (put_quote u m))"

lemma updates_correct:
  assumes spec: "avltree_spec av" and inv: "book_inv av b" and exact: "quote_exact b"
    and us: "all_well_sided (length (mp_store (mb_pool b))) us (book_levels b)"
  shows "\<exists>b'. fold_result (book_OnMarketUpdate av) us b = Inr b' \<and> book_inv av b' \<and> quote_exact b' \<and>
     book_levels b' = fold put_quote us (book_levels b)"
  using inv exact us
proof (induction us arbitrary: b)
  case (Cons u us)
  then obtain b1 where "book_OnMarketUpdate av u b = Inr b1" "book_inv av b1" "quote_exact b1"
    "book_levels b1 = put_quote u (book_levels b)" "length (mp_store (mb_pool b1)) = length (mp_store (mb_pool b))"
    using update_correct [OF spec Cons.prems(1,2)] by auto
  with Cons.IH [of b1] Cons.prems(3) show ?case by simp
qed simp

text \<open>\<open>n\<close> passes of the loop of the service, with no new updates in the meantime.\<close>

definition OrderBookService_Run ::
    "'t avl_ops \<Rightarrow> nat \<Rightarrow> MEMarketUpdate lf_queue \<times> 't MarketOrderBook \<Rightarrow>
     (MEMarketUpdate lf_queue \<times> 't MarketOrderBook) result" where
  "OrderBookService_Run av n s = fold_result (\<lambda>_. OrderBookService_iteration av) [0..<n] s"

lemma fold_result_ignore: "fold_result (\<lambda>_. f) [m..<m + n] s = fold_result (\<lambda>_. f) [0..<n] s"
proof (induction n arbitrary: m s)
  case (Suc n)
  have "[m..<m + Suc n] = m # [Suc m..<Suc m + n]" "[0..<Suc n] = 0 # [1..<1 + n]" by (simp_all add: upt_conv_Cons)
  then show ?case using Suc [of "Suc m"] Suc [of 1] by (cases "f s") simp_all
qed simp

lemma service_drains:
  assumes "fold_result (book_OnMarketUpdate av) (lq_items q) b = Inr b'" and "length (lq_items q) \<le> 50 * n"
  shows "OrderBookService_Run av n (q, b) = Inr (q\<lparr>lq_items := []\<rparr>, b')"
  using assms
proof (induction n arbitrary: q b)
  case 0
  then show ?case by (simp add: OrderBookService_Run_def)
next
  case (Suc n)
  have "bind_result (fold_result (book_OnMarketUpdate av) (take 50 (lq_items q)) b)
      (fold_result (book_OnMarketUpdate av) (drop 50 (lq_items q))) = Inr b'"
    using Suc.prems(1) fold_result_append [of "book_OnMarketUpdate av" "take 50 (lq_items q)" "drop 50 (lq_items q)" b]
    by simp
  then obtain b1 where b1: "fold_result (book_OnMarketUpdate av) (take 50 (lq_items q)) b = Inr b1"
    "fold_result (book_OnMarketUpdate av) (drop 50 (lq_items q)) b1 = Inr b'"
    by (rule bind_result_InrE)
  have "[0..<Suc n] = 0 # [1..<1 + n]" by (simp add: upt_conv_Cons)
  moreover have "OrderBookService_Run av n (q\<lparr>lq_items := drop 50 (lq_items q)\<rparr>, b1) = Inr (q\<lparr>lq_items := []\<rparr>, b')"
    using Suc.IH [of "q\<lparr>lq_items := drop 50 (lq_items q)\<rparr>" b1] b1(2) Suc.prems(2) by simp
  ultimately show ?case
    using b1(1) fold_result_ignore [of "OrderBookService_iteration av" 1 n]
    by (simp add: OrderBookService_Run_def OrderBookService_iteration_def Let_def del: upt_Suc)
qed


definition demo_v1_book :: "addr list MarketOrderBook" where
  "demo_v1_book =
     \<lparr>mb_pool = \<lparr>mp_store = replicate 4 \<lparr>ob_object = MarketOrdersAtPrice_default, ob_is_free = True\<rparr>, mp_next_free_index = 0\<rparr>,
      mb_hash = [], mb_bids = [], mb_asks = [], mb_bbo = BBO_default, mb_trading_pair = \<lparr>tp_first = 2, tp_second = 1\<rparr>\<rparr>"

definition demo_update :: "Side \<Rightarrow> Price \<Rightarrow> Qty \<Rightarrow> MEMarketUpdate" where
  "demo_update s p q = MEMarketUpdate_default\<lparr>mu_side := s, mu_price := p, mu_qty := q\<rparr>"

lemma demo_v1_levels: "book_levels demo_v1_book = (\<lambda>_. Map.empty)"
  by (simp add: book_levels_def demo_v1_book_def fun_eq_iff)

lemma demo_v1_ok: "book_inv list_avl demo_v1_book" "quote_exact demo_v1_book"
  by (auto simp: book_inv_def quote_exact_def demo_v1_levels top_of_def)
    (auto simp: demo_v1_book_def MemPool_inv_def free_indices_def tree_ok_def side_addrs_def list_avl_def BBO_default_def)


text \<open>An update on the wrong side of a price, for the asks at the price of a bid.\<close>

lemma count_other_side:
  assumes spec: "avltree_spec av" and inv: "book_inv av b" and a: "a \<in> side_addrs b kBid"
  shows "avl_count av (node_before (<) (pool_heap (mb_pool b))) a (mb_asks b) = 0"
proof -
  let ?h = "pool_heap (mb_pool b)"
  have sorted: "sorted_wrt (node_before (<) ?h) (avl_seq av (mb_asks b))" and A: "set (avl_seq av (mb_asks b)) = side_addrs b kAsk"
    using book_invD(7) [OF inv] by (simp_all add: tree_ok_def)
  have "level_price ?h y \<noteq> level_price ?h a" if "y \<in> side_addrs b kAsk" for y
    using inj_onD [OF inv_price_inj [OF inv], of y a] that a by (auto simp: side_addrs_def)
  then have "filter (\<lambda>y. \<not> node_before (<) ?h a y \<and> \<not> node_before (<) ?h y a) (avl_seq av (mb_asks b)) = []"
    by (auto simp: filter_empty_conv A node_before_def not_less_iff_gr_or_eq)
  then show ?thesis
    using av_update(3) [OF spec asks.strict_weak_nodes asks.sorted_weaken [OF sorted], of a] by simp
qed

lemma wrong_side_removal:
  assumes spec: "avltree_spec av" and inv: "book_inv av b" and some: "map_of (mb_hash b) p = Some a"
    and l: "pool_heap (mb_pool b) a = Some l" "moap_side l = kBid"
  shows "\<exists>b'. removeOrdersAtPrice av kAsk p b = Inr b' \<and> mb_bids b' = mb_bids b \<and> mb_asks b' = mb_asks b \<and>
     pool_heap (mb_pool b') = pool_heap (mb_pool b) \<and> map_of (mb_hash b') p = None \<and> a \<in> free_indices (mb_pool b')"
proof -
  have al: "a \<in> snd ` set (mb_hash b)" using inv_entry [OF inv some] by blast
  then have "a \<in> side_addrs b kBid" using l by (simp add: side_addrs_def)
  note count = count_other_side [OF spec inv this]
  have "a \<notin> free_indices (mb_pool b)" using al by (simp add: book_invD(2) [OF inv])
  then obtain q where "MemPool_deallocate (int a) (mb_pool b) = Inr q" "MemPool_inv q"
    "free_indices q = insert a (free_indices (mb_pool b))" "pool_heap q = pool_heap (mb_pool b)"
    "length (mp_store q) = length (mp_store (mb_pool b))"
    by (rule deallocated_heap [OF book_invD(1) [OF inv] pool_heap_less [OF l(1)]])
  with some l count show ?thesis
    by (simp add: removeOrdersAtPrice_def getOrdersAtPrice_def deref_def Let_def map_of_filter_key)
qed

text \<open>An ask update at the price of a bid goes to the bid, because both sides share the hash map and the check of the
  sides, \<open>ASSERT(true, ..)\<close>, cannot fail.  A quantity becomes the quantity of the bid and there is no ask level; a removal
  frees the block of the bid while the tree of the bids still holds it, so the book goes on showing a level whose
  memory the next level reuses.\<close>

theorem wrong_side_update:
  assumes spec: "avltree_spec av" and inv: "book_inv av b" and bid: "book_levels b kBid (mu_price u) = Some x"
    and u: "mu_type u = DEFAULT" "mu_side u = kAsk"
  shows "\<exists>b'. book_OnMarketUpdate av u b = Inr b' \<and> book_levels b' kAsk (mu_price u) = None \<and>
     (if mu_qty u \<noteq> 0 then book_levels b' kBid (mu_price u) = Some (mu_qty u)
      else book_levels b' kBid (mu_price u) = None \<and>
           (\<exists>a. a \<in> free_indices (mb_pool b') \<and> a \<in> set (avl_seq av (mb_bids b'))))"
proof -
  obtain a l where some: "map_of (mb_hash b) (mu_price u) = Some a" and l: "pool_heap (mb_pool b) a = Some l" "moap_side l = kBid"
    using bid by (auto simp: book_levels_def split: option.splits if_splits)
  then have none: "book_levels b kAsk (mu_price u) = None" by (simp add: book_levels_def)
  obtain r where touched: "tree_touched av (\<le>) (mu_price u) (mb_asks b) b = Inr r"
    using asks.tree_touched_correct [OF spec book_invD(7) [OF inv] book_levels_at [OF inv] le_price_iff] by blast
  show ?thesis
  proof (cases "mu_qty u = 0")
    case True
    obtain b1 where b1: "removeOrdersAtPrice av kAsk (mu_price u) b = Inr b1" "mb_bids b1 = mb_bids b" "mb_asks b1 = mb_asks b"
      "pool_heap (mb_pool b1) = pool_heap (mb_pool b)" "map_of (mb_hash b1) (mu_price u) = None" "a \<in> free_indices (mb_pool b1)"
      using wrong_side_removal [OF spec inv some l] by blast
    obtain pq where "tree_top av (mb_asks b1) b1 = Inr pq"
      using asks.tree_top_correct [OF spec, of b1 "side_addrs b kAsk" "mb_asks b1" "book_levels b kAsk"]
        book_invD(7) [OF inv] book_levels_at [OF inv] by (auto simp: b1(3,4))
    then have "\<exists>bbo. book_updateBBO av False r b1 = Inr (b1\<lparr>mb_bbo := bbo\<rparr>)"
      by (cases pq) (auto simp: book_updateBBO_def intro: exI [of _ "mb_bbo b1"])
    moreover have "a \<in> snd ` set (mb_hash b)" using map_of_SomeD [OF some] by force
    then have "a \<in> set (avl_seq av (mb_bids b))"
      using book_invD(6) [OF inv] l by (simp add: tree_ok_def side_addrs_def)
    moreover have "book_levels b1 s (mu_price u) = None" for s by (simp add: book_levels_def b1(5))
    ultimately show ?thesis
      using True u touched b1 by (auto simp: book_OnMarketUpdate_def book_changed_def Let_def)
  next
    case False
    obtain b1 where b1: "addOrder av \<lparr>mo_order_id = kOrderIdInvalid, mo_side = kAsk, mo_price = mu_price u,
        mo_qty = mu_qty u\<rparr> b = Inr b1" "book_inv av b1"
      "book_levels b1 = (book_levels b)(kBid := (book_levels b kBid)(mu_price u \<mapsto> mu_qty u))"
      using addOrder_existing [OF inv _ l(1), of "\<lparr>mo_order_id = kOrderIdInvalid, mo_side = kAsk, mo_price = mu_price u,
        mo_qty = mu_qty u\<rparr>"] some l(2) False by auto
    with book_updateBBO_correct [OF spec b1(2), of False r] False u touched none show ?thesis
      by (auto simp: book_OnMarketUpdate_def book_changed_def Let_def)
  qed
qed

definition demo_bid_book :: "addr list MarketOrderBook" where
  "demo_bid_book = (case book_OnMarketUpdate list_avl (demo_update kBid 6 2) demo_v1_book of Inr b \<Rightarrow> b | Inl _ \<Rightarrow> demo_v1_book)"

lemma demo_bid_ok: "book_inv list_avl demo_bid_book \<and> book_levels demo_bid_book kBid 6 = Some 2"
proof -
  have "well_sided (length (mp_store (mb_pool demo_v1_book))) (demo_update kBid 6 2) (book_levels demo_v1_book)"
    unfolding demo_v1_levels
    by (simp add: demo_v1_book_def well_sided_def demo_update_def MEMarketUpdate_default_def other_side_def)
  from update_correct [OF avltree_spec_list_avl demo_v1_ok this] show ?thesis
    by (auto simp: demo_bid_book_def demo_update_def MEMarketUpdate_default_def put_quote_def set_level_def demo_v1_levels)
qed

theorem wrong_side_update_witness:
  "\<exists>b'. book_OnMarketUpdate list_avl (demo_update kAsk 6 5) demo_bid_book = Inr b' \<and>
     book_levels b' kBid 6 = Some 5 \<and> book_levels b' kAsk 6 = None"
  using wrong_side_update [of list_avl demo_bid_book "demo_update kAsk 6 5" 2] demo_bid_ok avltree_spec_list_avl
  by (auto simp: demo_update_def MEMarketUpdate_default_def)

text \<open>A clearing update empties both sides and leaves the best bid and offer as it was.\<close>

lemma clear_pool:
  assumes "MemPool_inv p" and "distinct (List.map snd es)" and "snd ` set es \<subseteq> {0..<length (mp_store p)} - free_indices p"
  shows "\<exists>p'. fold_result (\<lambda>e. MemPool_deallocate (int (snd e))) es p = Inr p' \<and> MemPool_inv p' \<and>
     free_indices p' = free_indices p \<union> snd ` set es \<and> length (mp_store p') = length (mp_store p)"
  using assms
proof (induction es arbitrary: p)
  case (Cons e es)
  have "snd e < length (mp_store p)" "snd e \<notin> free_indices p" using Cons.prems(3) by auto
  then obtain p1 where p1: "MemPool_deallocate (int (snd e)) p = Inr p1" "MemPool_inv p1"
    "free_indices p1 = insert (snd e) (free_indices p)" "pool_heap p1 = pool_heap p" "length (mp_store p1) = length (mp_store p)"
    by (rule deallocated_heap [OF Cons.prems(1)])
  have "snd ` set es \<subseteq> {0..<length (mp_store p1)} - free_indices p1"
    using Cons.prems(2,3) p1(3,5) by (simp add: subset_iff) (metis Diff_iff image_eqI)
  with Cons.IH [OF p1(2)] Cons.prems(2) p1 show ?case by auto
qed simp

lemma clear_keeps_quote:
  assumes spec: "avltree_spec av" and inv: "book_inv av b" and "mu_type u = CLEAR"
  shows "\<exists>b'. book_OnMarketUpdate av u b = Inr b' \<and> book_inv av b' \<and> (\<forall>s. book_levels b' s = Map.empty) \<and> mb_bbo b' = mb_bbo b"
proof -
  have "a < length (mp_store (mb_pool b))" if "a \<in> snd ` set (mb_hash b)" for a
    by (rule inv_addr [OF inv that]) (rule pool_heap_less)
  then have "snd ` set (mb_hash b) \<subseteq> {0..<length (mp_store (mb_pool b))} - free_indices (mb_pool b)"
    unfolding book_invD(2) [OF inv] by fastforce
  then obtain p where p: "fold_result (\<lambda>e. MemPool_deallocate (int (snd e))) (mb_hash b) (mb_pool b) = Inr p" "MemPool_inv p"
    "free_indices p = free_indices (mb_pool b) \<union> snd ` set (mb_hash b)" "length (mp_store p) = length (mp_store (mb_pool b))"
    using clear_pool [OF book_invD(1,4) [OF inv]] by blast
  with \<open>snd ` set (mb_hash b) \<subseteq> _\<close> have "free_indices p = {0..<length (mp_store p)}"
    using book_invD(2) [OF inv] by auto
  with p assms(3) av_empty [OF spec] show ?thesis
    by (auto simp: book_OnMarketUpdate_def book_ClearOrderBook_def book_inv_def tree_ok_def side_addrs_def book_levels_def
        fun_eq_iff)
qed

end
