(* ===== verification/Cross_Order_Book.thy ===== *)
theory Cross_Order_Book
  imports Cross_Arbitrage Order_Book_V1_Props
begin

text \<open>
  \<open>strategy::cross_arbitrage::OrderBook\<close> of aot/strategy/market_order_book.h: a first order book that tells the trade
  engine and the position keeper of every change of its best bid or offer, over two lock-free queues of pointers into
  its own pools.

  An event for the position keeper holds a pointer to the best bid and offer inside the book, not a copy.
\<close>

section \<open>The book and its channels\<close>

record UpdateBBO_event =
  ub_exchange_id :: ExchangeId
  ub_trading_pair :: TradingPair
  ub_has_pool :: bool

record 't CrossOrderBook =
  co_exchange :: ExchangeId
  co_book :: "'t MarketOrderBook"
  co_bbu_pool :: "BBUpdated MemPool"
  co_bau_pool :: "BBUpdated MemPool"
  co_update_bbo_pool :: "UpdateBBO_event MemPool"
  co_engine :: "signal lf_queue option"
  co_keeper :: "nat lf_queue option"

text \<open>The defaults of the events in the pools; \<open>tp\<close> and \<open>uninit\<close> stand for members that no constructor sets.\<close>

definition BBUpdated_default :: "TradingPair \<Rightarrow> BBUpdated" where
  "BBUpdated_default tp = \<lparr>bu_exchange = kExchangeIdInvalid, bu_trading_pair = tp,
     bu_price = kPriceInvalid, bu_qty = kQtyInvalid, bu_has_pool = False\<rparr>"

definition CrossOrderBook_new ::
    "'t avl_ops \<Rightarrow> ExchangeId \<Rightarrow> TradingPair \<Rightarrow> signal lf_queue option \<Rightarrow> nat lf_queue option \<Rightarrow> nat \<Rightarrow> nat \<Rightarrow> nat \<Rightarrow>
     UpdateBBO_event \<Rightarrow> 't CrossOrderBook result" where
  "CrossOrderBook_new av ex tp engine keeper bbu_size bau_size updatebbo_size uninit =
     bind_result (MarketOrderBook_new av tp) (\<lambda>book.
     bind_result (MemPool_new (BBUpdated_default (ub_trading_pair uninit)) bbu_size) (\<lambda>bbu.
     bind_result (MemPool_new (BBUpdated_default (ub_trading_pair uninit)) bau_size) (\<lambda>bau.
     bind_result (MemPool_new (uninit\<lparr>ub_has_pool := False\<rparr>) updatebbo_size) (\<lambda>upd.
       Inr \<lparr>co_exchange = ex, co_book = book, co_bbu_pool = bbu, co_bau_pool = bau, co_update_bbo_pool = upd,
            co_engine = engine, co_keeper = keeper\<rparr>))))"

text \<open>\<open>SendMessageToChannel\<close>: a message that the queue refuses stays allocated.\<close>

definition SendMessageToChannel ::
    "'m \<Rightarrow> (nat \<Rightarrow> 'x) \<Rightarrow> 'm MemPool \<Rightarrow> 'x lf_queue \<Rightarrow> ('m MemPool \<times> 'x lf_queue) result" where
  "SendMessageToChannel msg ptr pool channel =
     bind_result (MemPool_allocate msg pool) (\<lambda>(i, p). Inr (p, snd (try_enqueue (ptr i) channel)))"

definition send_keeper :: "'t CrossOrderBook \<Rightarrow> nat lf_queue \<Rightarrow> 't CrossOrderBook result" where
  "send_keeper s keeper =
     bind_result (SendMessageToChannel
         \<lparr>ub_exchange_id = co_exchange s, ub_trading_pair = mb_trading_pair (co_book s), ub_has_pool = True\<rparr> (\<lambda>i. i)
         (co_update_bbo_pool s) keeper) (\<lambda>(p, q). Inr (s\<lparr>co_update_bbo_pool := p, co_keeper := Some q\<rparr>))"

definition side_signal :: "'t CrossOrderBook \<Rightarrow> Price \<Rightarrow> Qty \<Rightarrow> BBUpdated" where
  "side_signal s price qty =
     \<lparr>bu_exchange = co_exchange s, bu_trading_pair = mb_trading_pair (co_book s), bu_price = price, bu_qty = qty,
      bu_has_pool = True\<rparr>"

definition cross_updateBBO :: "'t avl_ops \<Rightarrow> bool \<Rightarrow> bool \<Rightarrow> 't CrossOrderBook \<Rightarrow> 't CrossOrderBook result" where
  "cross_updateBBO av update_bid update_ask s0 =
     bind_result (book_updateBBO av update_bid update_ask (co_book s0)) (\<lambda>book.
       let s = s0\<lparr>co_book := book\<rparr>; bbo = mb_bbo book in
       case (co_engine s, co_keeper s) of
         (Some engine, Some keeper) \<Rightarrow>
           if update_bid then
             bind_result (SendMessageToChannel (side_signal s (bid_price bbo) (bid_qty bbo)) BBidSignal (co_bbu_pool s) engine)
               (\<lambda>(p, q). send_keeper (s\<lparr>co_bbu_pool := p, co_engine := Some q\<rparr>) keeper)
           else if update_ask then
             bind_result (SendMessageToChannel (side_signal s (ask_price bbo) (ask_qty bbo)) BAskSignal (co_bau_pool s) engine)
               (\<lambda>(p, q). send_keeper (s\<lparr>co_bau_pool := p, co_engine := Some q\<rparr>) keeper)
           else Inr s
       | _ \<Rightarrow> Inr s)"

text \<open>\<open>OnMarketUpdate\<close> is inherited and calls the \<open>updateBBO\<close> above.\<close>

definition cross_OnMarketUpdate :: "'t avl_ops \<Rightarrow> MEMarketUpdate \<Rightarrow> 't CrossOrderBook \<Rightarrow> 't CrossOrderBook result" where
  "cross_OnMarketUpdate av u s =
     (if mu_type u = CLEAR
      then bind_result (book_ClearOrderBook av (co_book s)) (\<lambda>b. Inr (s\<lparr>co_book := b\<rparr>))
      else bind_result (book_changed av u (co_book s)) (\<lambda>((bid_upd, ask_upd), b1).
             cross_updateBBO av bid_upd ask_upd (s\<lparr>co_book := b1\<rparr>)))"

definition UpdateBBO_Deallocate :: "nat \<Rightarrow> UpdateBBO_event MemPool \<Rightarrow> UpdateBBO_event MemPool result" where
  "UpdateBBO_Deallocate i pool =
     (if \<not> ub_has_pool (ob_object (mp_store pool ! i)) then Inr pool else MemPool_deallocate (int i) pool)"

section \<open>A signal reaches the strategy\<close>

lemma send_message:
  assumes "MemPool_inv pool" and "2 \<le> card (free_indices pool)" and "lq_accepts channel (lq_tries channel)"
  obtains i p where "SendMessageToChannel msg ptr pool channel =
      Inr (p, channel\<lparr>lq_tries := Suc (lq_tries channel), lq_items := lq_items channel @ [ptr i]\<rparr>)"
    and "MemPool_inv p" and "i \<in> free_indices pool" and "free_indices p = free_indices pool - {i}" and "pool_heap p i = Some msg"
proof -
  obtain i p where "MemPool_allocate msg pool = Inr (i, p)" "MemPool_inv p" "i \<in> free_indices pool"
    "free_indices p = free_indices pool - {i}" "pool_heap p = (pool_heap pool)(i \<mapsto> msg)"
    "length (mp_store p) = length (mp_store pool)"
    by (rule allocated_heap [OF assms(1,2)])
  with assms(3) show thesis
    by (intro that [of p i]) (simp_all add: SendMessageToChannel_def try_enqueue_def try_enqueue_bulk_def Let_def)
qed

lemma signal_processed:
  assumes "MemPool_inv (sp_bids pools)" and "i \<notin> free_indices (sp_bids pools)" and "pool_heap (sp_bids pools) i = Some m"
    and "bu_has_pool m"
  shows "\<exists>p. ProcessSignal (BBidSignal i) pools ca =
      Inr (pools\<lparr>sp_bids := p\<rparr>, ca\<lparr>ca_prices := (ca_prices ca)(bu_exchange m \<mapsto>
        (price_of ca (bu_exchange m))\<lparr>bid_price := bu_price m, bid_qty := bu_qty m\<rparr>)\<rparr>) \<and>
      free_indices p = insert i (free_indices (sp_bids pools)) \<and> MemPool_inv p"
proof -
  have m: "i < length (mp_store (sp_bids pools))" "ob_object (mp_store (sp_bids pools) ! i) = m"
    using assms(3) by (simp_all add: pool_heap_def split: if_splits)
  obtain p where "MemPool_deallocate (int i) (sp_bids pools) = Inr p" "MemPool_inv p"
    "free_indices p = insert i (free_indices (sp_bids pools))" "pool_heap p = pool_heap (sp_bids pools)"
    "length (mp_store p) = length (mp_store (sp_bids pools))"
    by (rule deallocated_heap [OF assms(1) m(1) assms(2)])
  with m assms(4) show ?thesis by (auto simp: ProcessSignal_def Signal_Deallocate_def Let_def)
qed

text \<open>From the book to the strategy.  When the best bid of a consistent book has to be told, the pools have room
  and the queue takes the message, exactly one signal is appended for the trade engine; when the trade engine takes it,
  the strategy's bid of that exchange is the top of the bids of the book, and the block of the signal is back in its
  pool.\<close>

theorem bid_signal_delivered:
  assumes spec: "avltree_spec av" and inv: "book_inv av (co_book s)"
    and pools: "MemPool_inv (co_bbu_pool s)" "2 \<le> card (free_indices (co_bbu_pool s))"
      "MemPool_inv (co_update_bbo_pool s)" "2 \<le> card (free_indices (co_update_bbo_pool s))"
    and chan: "co_engine s = Some engine" "lq_accepts engine (lq_tries engine)" "co_keeper s = Some keeper"
      "lq_accepts keeper (lq_tries keeper)"
  shows "\<exists>s' engine' i. cross_updateBBO av True ua s = Inr s' \<and> co_engine s' = Some engine' \<and>
     lq_items engine' = lq_items engine @ [BBidSignal i] \<and>
     (\<exists>pools' ca'. ProcessSignal (BBidSignal i) \<lparr>sp_bids = co_bbu_pool s', sp_asks = co_bau_pool s'\<rparr> ca = Inr (pools', ca') \<and>
        top_of (>) (book_levels (co_book s) kBid)
          (bid_price (price_of ca' (co_exchange s)), bid_qty (price_of ca' (co_exchange s))) \<and>
        free_indices (sp_bids pools') = free_indices (co_bbu_pool s) \<and>
        (\<forall>ex. ex \<noteq> co_exchange s \<longrightarrow> ca_prices ca' ex = ca_prices ca ex))"
proof -
  obtain bbo where bbo: "book_updateBBO av True ua (co_book s) = Inr (co_book s\<lparr>mb_bbo := bbo\<rparr>)"
    "top_of (>) (book_levels (co_book s) kBid) (bid_price bbo, bid_qty bbo)"
    using book_updateBBO_correct [OF spec inv, of True ua] by auto
  let ?s = "s\<lparr>co_book := co_book s\<lparr>mb_bbo := bbo\<rparr>\<rparr>"
  let ?m = "side_signal ?s (bid_price bbo) (bid_qty bbo)"
  obtain i p where p: "SendMessageToChannel ?m BBidSignal (co_bbu_pool s) engine =
      Inr (p, engine\<lparr>lq_tries := Suc (lq_tries engine), lq_items := lq_items engine @ [BBidSignal i]\<rparr>)"
    "MemPool_inv p" "i \<in> free_indices (co_bbu_pool s)" "free_indices p = free_indices (co_bbu_pool s) - {i}" "pool_heap p i = Some ?m"
    by (rule send_message [OF pools(1,2) chan(2)])
  obtain j q where q: "SendMessageToChannel \<lparr>ub_exchange_id = co_exchange s, ub_trading_pair = mb_trading_pair (co_book s),
      ub_has_pool = True\<rparr> (\<lambda>i. i) (co_update_bbo_pool s) keeper =
      Inr (q, keeper\<lparr>lq_tries := Suc (lq_tries keeper), lq_items := lq_items keeper @ [j]\<rparr>)"
    by (rule send_message [OF pools(3,4) chan(4)])
  obtain r where r: "ProcessSignal (BBidSignal i) \<lparr>sp_bids = p, sp_asks = co_bau_pool s\<rparr> ca =
      Inr (\<lparr>sp_bids = r, sp_asks = co_bau_pool s\<rparr>, ca\<lparr>ca_prices := (ca_prices ca)(bu_exchange ?m \<mapsto>
        (price_of ca (bu_exchange ?m))\<lparr>bid_price := bu_price ?m, bid_qty := bu_qty ?m\<rparr>)\<rparr>)"
    "free_indices r = insert i (free_indices p)"
    using signal_processed [of "\<lparr>sp_bids = p, sp_asks = co_bau_pool s\<rparr>" i ?m ca] p by (auto simp: side_signal_def)
  have "free_indices r = free_indices (co_bbu_pool s)" using r(2) p(3,4) by auto
  with bbo p(1) q r(1) chan(1,3) show ?thesis
    by (auto simp: cross_updateBBO_def Let_def send_keeper_def price_of_def side_signal_def)
qed

definition demo_pool :: "'a \<Rightarrow> 'a MemPool" where
  "demo_pool x = \<lparr>mp_store = replicate 3 \<lparr>ob_object = x, ob_is_free = True\<rparr>, mp_next_free_index = 0\<rparr>"

definition demo_cross_book :: "addr list CrossOrderBook" where
  "demo_cross_book =
     \<lparr>co_exchange = kBinance, co_book = demo_bid_book,
      co_bbu_pool = demo_pool (BBUpdated_default \<lparr>tp_first = 0, tp_second = 0\<rparr>),
      co_bau_pool = demo_pool (BBUpdated_default \<lparr>tp_first = 0, tp_second = 0\<rparr>),
      co_update_bbo_pool = demo_pool \<lparr>ub_exchange_id = kExchangeIdInvalid, ub_trading_pair = \<lparr>tp_first = 0, tp_second = 0\<rparr>,
        ub_has_pool = False\<rparr>,
      co_engine = Some \<lparr>lq_items = [], lq_accepts = (\<lambda>_. True), lq_tries = 0\<rparr>,
      co_keeper = Some \<lparr>lq_items = [], lq_accepts = (\<lambda>_. True), lq_tries = 0\<rparr>\<rparr>"

definition demo_strategy :: CrossArbitrage where
  "demo_strategy = \<lparr>ca_prices = [kBinance \<mapsto> BBO_default, kBybit \<mapsto> BBO_default], ca_working_pairs = Map.empty,
     ca_exch1 = kBinance, ca_exch2 = kBybit, ca_ticker_cfg = Map.empty, ca_order_manager = OrderManager_new\<rparr>"

lemma demo_pool_ok: "MemPool_inv (demo_pool x) \<and> free_indices (demo_pool x) = {0..<3}"
  by (auto simp: MemPool_inv_def free_indices_def demo_pool_def)

lemma demo_cross_ok:
  "book_inv list_avl (co_book demo_cross_book)" "MemPool_inv (co_bbu_pool demo_cross_book)"
  "free_indices (co_bbu_pool demo_cross_book) = {0..<3}" "MemPool_inv (co_bau_pool demo_cross_book)"
  "MemPool_inv (co_update_bbo_pool demo_cross_book)" "free_indices (co_update_bbo_pool demo_cross_book) = {0..<3}"
  using demo_bid_ok by (simp_all add: demo_cross_book_def demo_pool_ok)

theorem bid_signal_delivered_witness:
  "\<exists>s' i ca'. cross_updateBBO list_avl True False demo_cross_book = Inr s' \<and>
     (\<exists>pools'. ProcessSignal (BBidSignal i) \<lparr>sp_bids = co_bbu_pool s', sp_asks = co_bau_pool s'\<rparr> demo_strategy =
        Inr (pools', ca') \<and>
        top_of (>) (book_levels demo_bid_book kBid) (bid_price (price_of ca' kBinance), bid_qty (price_of ca' kBinance)))"
  using bid_signal_delivered [of list_avl demo_cross_book
      "\<lparr>lq_items = [], lq_accepts = (\<lambda>_. True), lq_tries = 0\<rparr>" "\<lparr>lq_items = [], lq_accepts = (\<lambda>_. True), lq_tries = 0\<rparr>"
      False demo_strategy] demo_cross_ok avltree_spec_list_avl
  by (fastforce simp: demo_cross_book_def)

section \<open>Nobody frees the events of the position keeper\<close>

text \<open>A call of \<open>updateBBO\<close> finds the book and the pools of signals as the updates and the trade engine have left them.\<close>

record 't touch =
  tc_book :: "'t MarketOrderBook"
  tc_bbu :: "BBUpdated MemPool"
  tc_bau :: "BBUpdated MemPool"
  tc_bid :: bool
  tc_ask :: bool

definition touch_ok :: "'t avl_ops \<Rightarrow> 't touch \<Rightarrow> bool" where
  "touch_ok av c \<longleftrightarrow> book_inv av (tc_book c) \<and> MemPool_inv (tc_bbu c) \<and> MemPool_inv (tc_bau c) \<and> (tc_bid c \<or> tc_ask c)"

definition touch_step :: "'t avl_ops \<Rightarrow> 't touch \<Rightarrow> 't CrossOrderBook \<Rightarrow> 't CrossOrderBook result" where
  "touch_step av c s =
     cross_updateBBO av (tc_bid c) (tc_ask c) (s\<lparr>co_book := tc_book c, co_bbu_pool := tc_bbu c, co_bau_pool := tc_bau c\<rparr>)"

lemma allocate_cases:
  assumes inv: "MemPool_inv p"
  shows "MemPool_allocate x p = Inl AssertFailed \<and> card (free_indices p) = 1 \<or>
    (\<exists>i p'. MemPool_allocate x p = Inr (i, p') \<and> MemPool_inv p' \<and> Suc (card (free_indices p')) = card (free_indices p))"
proof -
  have i: "mp_next_free_index p \<in> free_indices p" and fin: "finite (free_indices p)"
    using inv by (simp_all add: MemPool_inv_def free_indices_def)
  then have "1 \<le> card (free_indices p)" by (metis card_gt_0_iff empty_iff One_nat_def Suc_leI)
  with MemPool_allocate_spec [OF inv, of x] card_Suc_Diff1 [OF fin i] show ?thesis by (cases "card (free_indices p) = 1") auto
qed

text \<open>What a call leaves of the events: one block fewer, unless the process has ended.\<close>

definition event_used :: "UpdateBBO_event MemPool \<Rightarrow> 't CrossOrderBook result \<Rightarrow> bool" where
  "event_used pool r \<longleftrightarrow> r = Inl AssertFailed \<or>
     (\<exists>s'. r = Inr s' \<and> MemPool_inv (co_update_bbo_pool s') \<and> co_engine s' \<noteq> None \<and> co_keeper s' \<noteq> None \<and>
        Suc (card (free_indices (co_update_bbo_pool s'))) = card (free_indices pool))"

lemma send_both_used:
  assumes "MemPool_inv p" and pool: "MemPool_inv pool"
    and g: "\<And>p q. co_update_bbo_pool (g p q) = pool" "\<And>p q. co_engine (g p q) \<noteq> None"
  shows "event_used pool (bind_result (SendMessageToChannel m ptr p ch) (\<lambda>(p', q). send_keeper (g p' q) keeper))"
proof -
  have "event_used pool (send_keeper (g p' q) keeper)" for p' q
    using allocate_cases [OF pool, of "\<lparr>ub_exchange_id = co_exchange (g p' q), ub_trading_pair = mb_trading_pair (co_book (g p' q)),
      ub_has_pool = True\<rparr>"] g by (auto simp: event_used_def send_keeper_def SendMessageToChannel_def)
  then show ?thesis
    using allocate_cases [OF assms(1), of m] by (auto simp: SendMessageToChannel_def) (simp add: event_used_def)
qed

lemma touch_uses_event:
  assumes spec: "avltree_spec av" and c: "touch_ok av c" and pool: "MemPool_inv (co_update_bbo_pool s)"
    and chan: "co_engine s \<noteq> None" "co_keeper s \<noteq> None"
  shows "event_used (co_update_bbo_pool s) (touch_step av c s)"
proof -
  obtain engine keeper where ek: "co_engine s = Some engine" "co_keeper s = Some keeper" using chan by auto
  obtain bbo where bbo: "book_updateBBO av (tc_bid c) (tc_ask c) (tc_book c) = Inr (tc_book c\<lparr>mb_bbo := bbo\<rparr>)"
    using book_updateBBO_correct [OF spec, of "tc_book c"] c unfolding touch_ok_def by blast
  have "MemPool_inv (tc_bbu c)" "MemPool_inv (tc_bau c)" "tc_bid c \<or> tc_ask c" using c by (simp_all add: touch_ok_def)
  with bbo ek pool show ?thesis
    by (auto simp: touch_step_def cross_updateBBO_def Let_def intro!: send_both_used)
qed

text \<open>An event for the position keeper is freed by nobody, because the service that would take it is commented
  out.  Whatever the book and the trade engine do in between, the process exits at the latest when the best bid or offer has
  changed as often as the pool of these events has free blocks.\<close>

theorem keeper_events_exhaust:
  assumes "avltree_spec av" and "\<forall>c \<in> set cs. touch_ok av c" and "MemPool_inv (co_update_bbo_pool s)"
    and "co_engine s \<noteq> None" and "co_keeper s \<noteq> None" and "card (free_indices (co_update_bbo_pool s)) \<le> length cs"
  shows "fold_result (touch_step av) cs s = Inl AssertFailed"
  using assms(2-6)
proof (induction cs arbitrary: s)
  case Nil
  then show ?case by (auto simp: MemPool_inv_def free_indices_def)
next
  case (Cons c cs)
  then have "event_used (co_update_bbo_pool s) (touch_step av c s)" using touch_uses_event [OF assms(1)] by simp
  then show ?case using Cons by (auto simp: event_used_def)
qed

theorem keeper_events_exhaust_witness:
  "fold_result (touch_step list_avl)
     (replicate 3 \<lparr>tc_book = demo_bid_book, tc_bbu = co_bbu_pool demo_cross_book, tc_bau = co_bau_pool demo_cross_book,
        tc_bid = True, tc_ask = False\<rparr>) demo_cross_book = Inl AssertFailed"
  by (rule keeper_events_exhaust)
    (use demo_cross_ok demo_bid_ok avltree_spec_list_avl in \<open>auto simp: touch_ok_def demo_cross_book_def\<close>)

end
