(* ===== verification/Sessions_Old.thy ===== *)
theory Sessions_Old
  imports Exchange_Api
begin

text \<open>
  The earlier sessions: \<open>V2::HttpsSession\<close> and \<open>V2::HttpsSession2\<close> of aot/Https.h, \<open>WssSession\<close> and \<open>WssSession2\<close> of aot/WS.h, and
  \<open>WSSession\<close> of aot/impl/WSImpl.h.

  Boost.Asio and Beast are the environment.  An HTTPS session starts asynchronous operations; each has a completion
  handler that runs later with an error code, which is a \<open>bool\<close> here (\<open>True\<close> for an error).  \<open>oh_pending\<close> holds the
  operations that were started and have not completed.  The two HTTPS classes differ in the callback they keep:
  \<open>HttpsSession\<close> a copy, \<open>HttpsSession2\<close> a pointer.  Calling an empty function object throws, following a null
  pointer is \<open>NullDeref\<close>; \<open>bad\<close> is the fault of the class.
\<close>

section \<open>HTTPS sessions\<close>

datatype https_op = OpTimer | OpResolve | OpConnect | OpHandshake | OpWrite | OpRead | OpShutdown

record 'c old_https =
  oh_is_connected :: bool
  oh_is_used :: bool
  oh_is_expired :: bool
  oh_cb :: "'c option"
  oh_req :: "http_request option"
  oh_pending :: "https_op list"
  oh_written :: "http_request list"
  oh_called :: "'c list"

definition start_op :: "https_op \<Rightarrow> 'c old_https \<Rightarrow> 'c old_https" where
  "start_op opr s = s\<lparr>oh_pending := oh_pending s @ [opr]\<rparr>"

text \<open>\<open>Run\<close>, which the constructor calls: without the host name for TLS nothing is started.\<close>

definition old_Run :: "bool \<Rightarrow> 'c old_https \<Rightarrow> 'c old_https" where
  "old_Run sni_ok s = (if \<not> sni_ok then s else start_op OpResolve (start_op OpTimer s))"

definition HttpsSession_new :: "bool \<Rightarrow> 'c old_https" where
  "HttpsSession_new sni_ok =
     old_Run sni_ok \<lparr>oh_is_connected = False, oh_is_used = False, oh_is_expired = False, oh_cb = None, oh_req = None,
      oh_pending = [], oh_written = [], oh_called = []\<rparr>"

definition close_session :: "'c old_https \<Rightarrow> 'c old_https" where
  "close_session s = s\<lparr>oh_is_expired := True\<rparr>"

definition fail :: "'c old_https \<Rightarrow> 'c old_https" where
  "fail s = close_session s"

definition old_AsyncRequest :: "http_request \<Rightarrow> 'c option \<Rightarrow> 'c old_https \<Rightarrow> bool \<times> 'c old_https" where
  "old_AsyncRequest req handler s =
     (if \<not> oh_is_connected s then (False, s)
      else if oh_is_used s then (False, s)
      else (True, start_op OpWrite (s\<lparr>oh_is_used := True, oh_cb := handler, oh_req := Some req\<rparr>)))"

definition AsyncCloseSessionGracefully :: "'c old_https \<Rightarrow> 'c old_https" where
  "AsyncCloseSessionGracefully s = start_op OpShutdown s"

definition on_resolve :: "bool \<Rightarrow> 'c old_https \<Rightarrow> 'c old_https" where
  "on_resolve ec s = (if ec then fail s else start_op OpConnect s)"

definition on_connect :: "bool \<Rightarrow> 'c old_https \<Rightarrow> 'c old_https" where
  "on_connect ec s = (if ec then fail s else start_op OpHandshake s)"

definition on_handshake :: "bool \<Rightarrow> 'c old_https \<Rightarrow> 'c old_https" where
  "on_handshake ec s = (if ec then fail s else s\<lparr>oh_is_connected := True\<rparr>)"

definition on_write :: "bool \<Rightarrow> 'c old_https \<Rightarrow> 'c old_https" where
  "on_write ec s =
     (if ec then fail s
      else start_op OpRead (s\<lparr>oh_written := oh_written s @ (case oh_req s of None \<Rightarrow> [] | Some r \<Rightarrow> [r])\<rparr>))"

definition on_read :: "fault \<Rightarrow> bool \<Rightarrow> 'c old_https \<Rightarrow> 'c old_https result" where
  "on_read bad ec s =
     (if ec then Inr (fail s)
      else case oh_cb s of
        None \<Rightarrow> Inl bad
      | Some cb \<Rightarrow> Inr (close_session (s\<lparr>oh_called := oh_called s @ [cb]\<rparr>)))"

text \<open>The timer of \<open>start_timer\<close>; \<open>aborted\<close> is \<open>operation_aborted\<close>, which no code of the class causes.\<close>

definition on_timer :: "bool \<Rightarrow> 'c old_https \<Rightarrow> 'c old_https" where
  "on_timer aborted s = (if aborted then s else close_session (fail s))"

definition complete :: "fault \<Rightarrow> https_op \<Rightarrow> bool \<Rightarrow> 'c old_https \<Rightarrow> 'c old_https result" where
  "complete bad opr ec s0 =
     (let s = s0\<lparr>oh_pending := remove1 opr (oh_pending s0)\<rparr> in
      case opr of
        OpTimer \<Rightarrow> Inr (on_timer ec s)
      | OpResolve \<Rightarrow> Inr (on_resolve ec s)
      | OpConnect \<Rightarrow> Inr (on_connect ec s)
      | OpHandshake \<Rightarrow> Inr (on_handshake ec s)
      | OpWrite \<Rightarrow> Inr (on_write ec s)
      | OpRead \<Rightarrow> on_read bad ec s
      | OpShutdown \<Rightarrow> Inr (close_session s))"

text \<open>What can happen to a session: the completion of a pending operation, a request, and a request to close.\<close>

datatype 'c old_event =
    Completed https_op bool
  | Requested http_request "'c option"
  | CloseRequested

inductive old_step :: "fault \<Rightarrow> 'c old_event \<Rightarrow> 'c old_https \<Rightarrow> 'c old_https \<Rightarrow> bool" for bad where
  completed: "opr \<in> set (oh_pending s) \<Longrightarrow> complete bad opr ec s = Inr s' \<Longrightarrow> old_step bad (Completed opr ec) s s'"
| requested: "old_step bad (Requested req handler) s (snd (old_AsyncRequest req handler s))"
| close_requested: "old_step bad CloseRequested s (AsyncCloseSessionGracefully s)"

inductive old_run :: "fault \<Rightarrow> 'c old_event list \<Rightarrow> 'c old_https \<Rightarrow> 'c old_https \<Rightarrow> bool" for bad where
  old_run_Nil: "old_run bad [] s s"
| old_run_Cons: "old_step bad e s t \<Longrightarrow> old_run bad es t u \<Longrightarrow> old_run bad (e # es) s u"

inductive_cases old_stepE [elim!]:
  "old_step bad (Completed opr ec) s s'" "old_step bad (Requested req handler) s s'" "old_step bad CloseRequested s s'"

lemma old_run_exec:
  "old_run bad [] s u \<longleftrightarrow> u = s"
  "old_run bad (Completed opr ec # es) s u \<longleftrightarrow>
     opr \<in> set (oh_pending s) \<and> (\<exists>t. complete bad opr ec s = Inr t \<and> old_run bad es t u)"
  "old_run bad (Requested req handler # es) s u \<longleftrightarrow> old_run bad es (snd (old_AsyncRequest req handler s)) u"
  "old_run bad (CloseRequested # es) s u \<longleftrightarrow> old_run bad es (AsyncCloseSessionGracefully s) u"
  by (auto elim: old_run.cases intro: old_run.intros old_step.intros)

section \<open>Web socket sessions\<close>

text \<open>\<open>ow_request_json\<close> is the buffer that an unfinished write reads from; \<open>ow_writing\<close> says that there is one.\<close>

record 'c old_wss =
  ow_need_read :: bool
  ow_is_connected :: bool
  ow_is_used :: bool
  ow_is_expired :: bool
  ow_request_json :: string
  ow_writing :: bool
  ow_cbs :: "'c option list"
  ow_written :: "string list"

definition WssSession_new :: "'c old_wss" where
  "WssSession_new =
     \<lparr>ow_need_read = True, ow_is_connected = False, ow_is_used = False, ow_is_expired = False, ow_request_json = '''',
      ow_writing = False, ow_cbs = [], ow_written = []\<rparr>"

definition old_wss_close_session :: "'c old_wss \<Rightarrow> 'c old_wss" where
  "old_wss_close_session s = s\<lparr>ow_is_expired := True\<rparr>"

definition old_wss_fail :: "'c old_wss \<Rightarrow> 'c old_wss" where
  "old_wss_fail s = old_wss_close_session s"

text \<open>The end of \<open>Run\<close>: all steps of the connection succeeded.  A step that fails throws out of the coroutine.\<close>

definition old_wss_Run_done :: "'c old_wss \<Rightarrow> 'c old_wss" where
  "old_wss_Run_done s = s\<lparr>ow_is_connected := True\<rparr>"

definition old_wss_timer :: "bool \<Rightarrow> 'c old_wss \<Rightarrow> 'c old_wss" where
  "old_wss_timer aborted s = (if aborted then s else old_wss_close_session (old_wss_fail s))"

text \<open>\<open>WssSession::AsyncRequest\<close> up to its first suspension.\<close>

definition wss1_AsyncRequest :: "string \<Rightarrow> 'c \<Rightarrow> 'c old_wss \<Rightarrow> bool \<times> 'c old_wss" where
  "wss1_AsyncRequest req handler s =
     (if \<not> ow_is_connected s then (False, s)
      else if ow_is_used s then (False, s)
      else (True, s\<lparr>ow_is_used := True, ow_cbs := [Some handler], ow_request_json := req, ow_writing := True\<rparr>))"

definition write_done :: "'c old_wss \<Rightarrow> 'c old_wss" where
  "write_done s = s\<lparr>ow_writing := False, ow_written := ow_written s @ [ow_request_json s]\<rparr>"

text \<open>One pass of the reading loop of \<open>WssSession\<close>: the handler is called whether the read failed or not.  The result is
  whether the loop goes on, and the calls.\<close>

definition wss1_read :: "bool \<Rightarrow> 'c \<Rightarrow> 'c old_wss \<Rightarrow> bool \<times> 'c list" where
  "wss1_read ec handler s = (if ow_need_read s then (True, [handler]) else (False, []))"

fun wss1_ReadLoop :: "bool list \<Rightarrow> 'c \<Rightarrow> 'c old_wss \<Rightarrow> bool \<times> 'c list" where
  "wss1_ReadLoop [] handler s = (ow_need_read s, [])"
| "wss1_ReadLoop (ec # ecs) handler s =
     (let (go, calls) = wss1_read ec handler s
      in if go then let (go', calls') = wss1_ReadLoop ecs handler s in (go', calls @ calls') else (False, []))"

text \<open>\<open>WssSession2::AsyncRequest\<close> assigns \<open>request_json_\<close> before it looks at the state of the session.  Assigning to the
  string invalidates the buffer that an unfinished write still reads.\<close>

definition wss2_AsyncRequest :: "string \<Rightarrow> 'c old_wss \<Rightarrow> (bool \<times> 'c old_wss) result" where
  "wss2_AsyncRequest req s0 =
     (if ow_writing s0 then Inl DanglingDeref
      else let s = s0\<lparr>ow_request_json := req\<rparr> in
        if \<not> ow_is_connected s then Inr (False, s)
        else if ow_is_used s then Inr (False, s)
        else Inr (True, s\<lparr>ow_is_used := True, ow_writing := True\<rparr>))"

definition wss2_written :: "bool \<Rightarrow> 'c option \<Rightarrow> 'c old_wss \<Rightarrow> bool \<times> 'c old_wss" where
  "wss2_written ec handler s0 =
     (let s = s0\<lparr>ow_writing := False\<rparr> in
      if ec then (False, old_wss_close_session s)
      else (True, s\<lparr>ow_written := ow_written s @ [ow_request_json s], ow_cbs := ow_cbs s @ [handler]\<rparr>))"

text \<open>One pass of the reading loop of \<open>WssSession2\<close>; exceptions of the callbacks are caught.\<close>

definition wss2_read :: "bool \<Rightarrow> 'c old_wss \<Rightarrow> bool \<times> 'c list \<times> 'c old_wss" where
  "wss2_read ec s =
     (if \<not> ow_need_read s then (False, [], s)
      else if ec then (False, [], old_wss_close_session s)
      else (True, List.map the (filter (\<lambda>cb. cb \<noteq> None) (ow_cbs s)), s))"

fun wss2_ReadLoop :: "bool list \<Rightarrow> 'c old_wss \<Rightarrow> 'c list \<times> 'c old_wss" where
  "wss2_ReadLoop [] s = ([], s)"
| "wss2_ReadLoop (ec # ecs) s =
     (let (go, calls, t) = wss2_read ec s
      in if go then let (calls', u) = wss2_ReadLoop ecs t in (calls @ calls', u) else (calls, t))"

definition wss2_AsyncCloseSessionGracefully :: "'c old_wss \<Rightarrow> 'c old_wss" where
  "wss2_AsyncCloseSessionGracefully s = s\<lparr>ow_need_read := False\<rparr>"

section \<open>One request per HTTPS session\<close>

text \<open>Every write, read and call stems from the one accepted request.\<close>

definition pending :: "https_op \<Rightarrow> https_op list \<Rightarrow> nat" where
  "pending opr xs = length (filter (\<lambda>x. x = opr) xs)"

definition one_request :: "'c old_https \<Rightarrow> bool" where
  "one_request s \<longleftrightarrow>
     pending OpWrite (oh_pending s) + length (oh_written s) \<le> (if oh_is_used s then 1 else 0) \<and>
     pending OpRead (oh_pending s) + length (oh_called s) \<le> length (oh_written s) \<and>
     set (oh_written s) \<subseteq> set_option (oh_req s) \<and> set (oh_called s) \<subseteq> set_option (oh_cb s) \<and>
     (oh_is_used s \<longrightarrow> oh_req s \<noteq> None) \<and> (oh_called s \<noteq> [] \<longrightarrow> oh_is_expired s)"

lemmas old_https_defs = close_session_def fail_def start_op_def on_resolve_def on_connect_def on_handshake_def on_write_def
  on_read_def on_timer_def AsyncCloseSessionGracefully_def old_AsyncRequest_def

lemma pending_pos: "a \<in> set xs \<Longrightarrow> 0 < pending a xs"
  by (auto simp: pending_def filter_empty_conv)

lemma pending_simps [simp]:
  "pending a [] = 0" "pending a (xs @ [b]) = pending a xs + (if a = b then 1 else 0)"
  "pending a (remove1 b xs) = pending a xs - (if a = b then 1 else 0)"
proof -
  show "pending a (remove1 b xs) = pending a xs - (if a = b then 1 else 0)"
    using pending_pos by (induction xs) (auto simp: pending_def)
qed (simp_all add: pending_def)

lemma one_request_new: "one_request (HttpsSession_new ok)"
  by (simp add: one_request_def HttpsSession_new_def old_Run_def start_op_def pending_def)

lemma one_request_quiet:
  assumes "one_request s"
  shows "one_request (close_session s)" "one_request (s\<lparr>oh_is_connected := c\<rparr>)"
    "opr \<noteq> OpWrite \<Longrightarrow> opr \<noteq> OpRead \<Longrightarrow> one_request (start_op opr s)"
    "one_request (s\<lparr>oh_pending := remove1 opr (oh_pending s)\<rparr>)"
  using assms by (auto simp: one_request_def close_session_def start_op_def)

lemma one_request_write:
  assumes inv: "one_request s" and "OpWrite \<in> set (oh_pending s)"
  shows "one_request (on_write ec (s\<lparr>oh_pending := remove1 OpWrite (oh_pending s)\<rparr>))"
proof (cases ec)
  case True
  with one_request_quiet [OF inv] show ?thesis by (simp add: on_write_def fail_def one_request_quiet)
next
  case False
  have used: "oh_is_used s" and "pending OpWrite (oh_pending s) + length (oh_written s) \<le> 1"
    using inv pending_pos [OF assms(2)] by (auto simp: one_request_def split: if_splits)
  then have "pending OpWrite (oh_pending s) = 1 \<and> length (oh_written s) = 0" using pending_pos [OF assms(2)] by arith
  with used have w: "pending OpWrite (oh_pending s) = 1" "oh_written s = []" "oh_is_used s" by simp_all
  then have "pending OpRead (oh_pending s) = 0" "oh_called s = []" using inv by (simp_all add: one_request_def)
  with w False inv show ?thesis by (auto simp: one_request_def on_write_def start_op_def)
qed

lemma one_request_read:
  assumes inv: "one_request s" and "OpRead \<in> set (oh_pending s)"
    and r: "on_read bad ec (s\<lparr>oh_pending := remove1 OpRead (oh_pending s)\<rparr>) = Inr s'"
  shows "one_request s'"
proof (cases ec)
  case True
  with one_request_quiet [OF inv] r show ?thesis by (auto simp: on_read_def fail_def one_request_quiet)
next
  case False
  then obtain cb where cb: "oh_cb s = Some cb"
    and s': "s' = s\<lparr>oh_pending := remove1 OpRead (oh_pending s), oh_called := oh_called s @ [cb], oh_is_expired := True\<rparr>"
    using r by (auto simp: on_read_def close_session_def split: option.splits)
  with inv pending_pos [OF assms(2)] cb show ?thesis by (auto simp: one_request_def split: if_splits)
qed

lemma one_request_step: "old_step bad e s s' \<Longrightarrow> one_request s \<Longrightarrow> one_request s'"
proof (induction rule: old_step.induct)
  case (completed opr s ec s')
  note inv = one_request_quiet [OF completed(3)]
  show ?case
  proof (cases opr)
  qed (use completed one_request_write [of s ec] one_request_read [of s bad ec s'] inv(4) [of opr] in
      \<open>auto simp: complete_def Let_def on_timer_def on_resolve_def on_connect_def on_handshake_def fail_def
        one_request_quiet split: if_splits\<close>)
next
  case (requested req handler s)
  then show ?case by (auto simp: old_AsyncRequest_def one_request_def start_op_def)
next
  case (close_requested s)
  then show ?case by (simp add: AsyncCloseSessionGracefully_def one_request_quiet)
qed

lemma one_request_run: "old_run bad es s s' \<Longrightarrow> one_request s \<Longrightarrow> one_request s'"
  by (induction rule: old_run.induct) (auto intro: one_request_step)

text \<open>In any order of completions, requests and closings an HTTPS session writes at most one request and calls at most one
  callback, those of the request that it accepted, and it is expired once it has called the callback.\<close>

theorem old_session_answers_once:
  assumes "old_run bad es (HttpsSession_new sni_ok) s"
  shows "(oh_written s = [] \<or> (\<exists>req. oh_written s = [req] \<and> oh_req s = Some req)) \<and>
    (oh_called s = [] \<or> (\<exists>cb. oh_called s = [cb] \<and> oh_cb s = Some cb \<and> oh_written s \<noteq> [] \<and> oh_is_expired s))"
proof -
  have inv: "one_request s" using one_request_run [OF assms one_request_new] .
  have single: "xs = [] \<or> (\<exists>x. xs = [x] \<and> v = Some x)" if "length xs \<le> 1" "set xs \<subseteq> set_option v" for xs :: "'x list" and v
    using that by (cases xs) (auto simp: Suc_le_eq)
  show ?thesis
    using inv single [of "oh_written s" "oh_req s"] single [of "oh_called s" "oh_cb s"]
    by (auto simp: one_request_def split: if_splits)
qed

theorem old_session_answers_once_witness:
  "\<exists>s. old_run NullDeref [Completed OpResolve False, Completed OpConnect False, Completed OpHandshake False,
       Requested http_request_empty (Some (7::nat)), Completed OpWrite False, Completed OpRead False]
     (HttpsSession_new True) s \<and> oh_written s = [http_request_empty] \<and> oh_called s = [7] \<and> oh_is_expired s"
proof -
  let ?es = "[Completed OpResolve False, Completed OpConnect False, Completed OpHandshake False,
    Requested http_request_empty (Some (7::nat)), Completed OpWrite False, Completed OpRead False]"
  have "\<exists>s. old_run NullDeref ?es (HttpsSession_new True) s \<and> oh_written s = [http_request_empty] \<and> oh_called s = [7]"
    by (simp add: old_run_exec HttpsSession_new_def old_Run_def start_op_def complete_def old_https_defs)
  then show ?thesis using old_session_answers_once [of NullDeref ?es True] by fastforce
qed

text \<open>A session whose host name could not be set never connects and never expires: nothing is pending, and all its
  operations leave it that way until it is closed by hand.\<close>

lemma no_sni_never_ready:
  assumes "old_run bad es (HttpsSession_new False) s" and "CloseRequested \<notin> set es"
  shows "\<not> oh_is_connected s \<and> \<not> oh_is_expired s"
proof -
  have "old_run bad es t u \<Longrightarrow> CloseRequested \<notin> set es \<Longrightarrow>
      oh_pending t = [] \<and> \<not> oh_is_connected t \<and> \<not> oh_is_expired t \<Longrightarrow> \<not> oh_is_connected u \<and> \<not> oh_is_expired u" for t u
  proof (induction rule: old_run.induct)
    case (old_run_Cons e s t es u)
    then show ?case by (cases e) (auto simp: old_AsyncRequest_def)
  qed simp
  from this [OF assms] show ?thesis by (simp add: HttpsSession_new_def old_Run_def start_op_def)
qed

section \<open>Reading loops of the web sockets\<close>

text \<open>The loop of \<open>WssSession\<close> never looks at the error of a read and nothing resets \<open>need_read_\<close>: it goes on for ever, and
  calls the handler once per pass, also when every read fails.\<close>

lemma wss1_reads_for_ever:
  "ow_need_read s \<Longrightarrow> wss1_ReadLoop ecs handler s = (True, replicate (length ecs) handler)"
  by (induction ecs) (simp_all add: wss1_read_def)

text \<open>The loop of \<open>WssSession2\<close> calls every registered callback for every message before the first error, and an
  error ends it with the session expired.\<close>

lemma wss2_reads_until_error:
  assumes "ow_need_read s"
  shows "wss2_ReadLoop ecs s =
    (concat (replicate (length (takeWhile Not ecs)) (List.map the (filter (\<lambda>cb. cb \<noteq> None) (ow_cbs s)))),
     if True \<in> set ecs then s\<lparr>ow_is_expired := True\<rparr> else s)"
  using assms by (induction ecs) (auto simp: wss2_read_def old_wss_close_session_def)

text \<open>A second request while the first is being written destroys the buffer of the write, although the session is in use
  and the request would be refused.\<close>

lemma wss2_second_request_dangling:
  assumes "ow_is_connected s" and "\<not> ow_is_used s" and "\<not> ow_writing s"
  shows "\<exists>t. wss2_AsyncRequest req1 s = Inr (True, t) \<and> wss2_AsyncRequest req2 t = Inl DanglingDeref"
  using assms by (simp add: wss2_AsyncRequest_def)


section \<open>The first web socket session\<close>

text \<open>\<open>WSSession\<close> of aot/impl/WSImpl.h, which \<open>WS\<close> of src/WS.cpp owns.  Each handler starts the next operation, so at most one
  is pending; a failed operation starts none, except a failed read.  A completion carries what its handler uses: the
  error, whether the host name for TLS could be set, the port of the connection, the message in the buffer (empty after a
  failed read).\<close>

datatype ws_op = WsResolve string string | WsConnect | WsSslHandshake | WsHandshake string string | WsWrite string | WsRead

datatype ws_done =
    ResolveDone bool bool
  | ConnectDone bool nat
  | SslHandshakeDone bool
  | HandshakeDone bool
  | WriteDone bool
  | ReadDone bool string

record WSSession =
  wi_host :: string
  wi_end_point :: string
  wi_request_json :: string
  wi_pending :: "ws_op option"
  wi_written :: "string list"
  wi_messages :: "string list"

definition WSSession_new :: "string \<Rightarrow> WSSession" where
  "WSSession_new request_json =
     \<lparr>wi_host = '''', wi_end_point = '''', wi_request_json = request_json, wi_pending = None, wi_written = [], wi_messages = []\<rparr>"

definition wi_run :: "string \<Rightarrow> string \<Rightarrow> string \<Rightarrow> WSSession \<Rightarrow> WSSession" where
  "wi_run host port end_point s = s\<lparr>wi_host := host, wi_end_point := end_point, wi_pending := Some (WsResolve host port)\<rparr>"

definition wi_on_resolve :: "bool \<Rightarrow> bool \<Rightarrow> WSSession \<Rightarrow> WSSession" where
  "wi_on_resolve ec sni_ok s =
     (if ec then s\<lparr>wi_pending := None\<rparr>
      else if \<not> sni_ok then s\<lparr>wi_pending := None\<rparr>
      else s\<lparr>wi_pending := Some WsConnect\<rparr>)"

definition wi_on_connect :: "bool \<Rightarrow> nat \<Rightarrow> WSSession \<Rightarrow> WSSession" where
  "wi_on_connect ec port s =
     (if ec then s\<lparr>wi_pending := None\<rparr>
      else s\<lparr>wi_host := wi_host s @ '':'' @ to_string_nat port, wi_pending := Some WsSslHandshake\<rparr>)"

definition wi_on_ssl_handshake :: "bool \<Rightarrow> WSSession \<Rightarrow> WSSession" where
  "wi_on_ssl_handshake ec s =
     (if ec then s\<lparr>wi_pending := None\<rparr> else s\<lparr>wi_pending := Some (WsHandshake (wi_host s) (wi_end_point s))\<rparr>)"

definition wi_on_handshake :: "bool \<Rightarrow> WSSession \<Rightarrow> WSSession" where
  "wi_on_handshake ec s =
     (if ec then s\<lparr>wi_pending := None\<rparr>
      else if wi_request_json s = ''{}'' then s\<lparr>wi_pending := Some WsRead\<rparr>
      else s\<lparr>wi_pending := Some (WsWrite (wi_request_json s))\<rparr>)"

definition wi_on_write :: "bool \<Rightarrow> WSSession \<Rightarrow> WSSession" where
  "wi_on_write ec s =
     (if ec then s\<lparr>wi_pending := None\<rparr>
      else s\<lparr>wi_written := wi_written s @ [wi_request_json s], wi_pending := Some WsRead\<rparr>)"

text \<open>\<open>on_read\<close> does not look at the error.\<close>

definition wi_on_read :: "bool \<Rightarrow> string \<Rightarrow> WSSession \<Rightarrow> WSSession" where
  "wi_on_read ec buffer s = s\<lparr>wi_messages := wi_messages s @ [buffer], wi_pending := Some WsRead\<rparr>"

text \<open>The completion of the pending operation; any other completion does not occur.\<close>

fun wi_complete :: "ws_done \<Rightarrow> WSSession \<Rightarrow> WSSession option" where
  "wi_complete (ResolveDone ec sni_ok) s =
     (case wi_pending s of Some (WsResolve _ _) \<Rightarrow> Some (wi_on_resolve ec sni_ok s) | _ \<Rightarrow> None)"
| "wi_complete (ConnectDone ec port) s =
     (case wi_pending s of Some WsConnect \<Rightarrow> Some (wi_on_connect ec port s) | _ \<Rightarrow> None)"
| "wi_complete (SslHandshakeDone ec) s =
     (case wi_pending s of Some WsSslHandshake \<Rightarrow> Some (wi_on_ssl_handshake ec s) | _ \<Rightarrow> None)"
| "wi_complete (HandshakeDone ec) s =
     (case wi_pending s of Some (WsHandshake _ _) \<Rightarrow> Some (wi_on_handshake ec s) | _ \<Rightarrow> None)"
| "wi_complete (WriteDone ec) s =
     (case wi_pending s of Some (WsWrite _) \<Rightarrow> Some (wi_on_write ec s) | _ \<Rightarrow> None)"
| "wi_complete (ReadDone ec buffer) s =
     (case wi_pending s of Some WsRead \<Rightarrow> Some (wi_on_read ec buffer s) | _ \<Rightarrow> None)"

fun wi_completes :: "ws_done list \<Rightarrow> WSSession \<Rightarrow> WSSession option" where
  "wi_completes [] s = Some s"
| "wi_completes (d # ds) s = Option.bind (wi_complete d s) (wi_completes ds)"

lemma wi_completes_append: "wi_completes (ds @ ds') s = Option.bind (wi_completes ds s) (wi_completes ds')"
  by (induction ds arbitrary: s) (auto split: bind_splits)

lemma wi_reads:
  "wi_pending s = Some WsRead \<Longrightarrow>
   wi_completes (List.map (\<lambda>(ec, m). ReadDone ec m) reads) s = Some (s\<lparr>wi_messages := wi_messages s @ List.map snd reads\<rparr>)"
  by (induction reads arbitrary: s) (auto simp: wi_on_read_def)

text \<open>A session that connects sends its request, unless that is \<open>{}\<close>, and passes every buffer to the callback in order.  It never
  stops reading: the buffers of failed reads are passed on too.\<close>

lemma wi_session_listens:
  "\<exists>s. wi_completes ([ResolveDone False True, ConnectDone False p, SslHandshakeDone False, HandshakeDone False] @
           (if request = ''{}'' then [] else [WriteDone False]) @ List.map (\<lambda>(ec, m). ReadDone ec m) reads)
         (wi_run host port end_point (WSSession_new request)) = Some s \<and>
       wi_host s = host @ '':'' @ to_string_nat p \<and> wi_written s = (if request = ''{}'' then [] else [request]) \<and>
       wi_messages s = List.map snd reads \<and> wi_pending s = Some WsRead"
  by (simp add: wi_completes_append wi_run_def WSSession_new_def wi_on_resolve_def wi_on_connect_def wi_on_ssl_handshake_def
      wi_on_handshake_def wi_on_write_def wi_reads)


end
