(* ===== verification/Config.thy ===== *)
theory Config
  imports Common_Types
begin

text \<open>
  The configuration of the program: aot/config/config.h and src/config.cpp.  \<open>TickerParser\<close> numbers the tickers of the
  configured trading pairs and fills the tables of pairs of both exchanges; \<open>BackTesting\<close> and \<open>ApiSecretKey\<close> look up strings.

  \<^item> toml++ is the argument \<open>tm\<close>: \<open>tm_get\<close> is \<open>node[key]\<close> (\<open>None\<close> for a missing node), \<open>tm_table\<close> the entries of a table in the
    order of its iterators, \<open>tm_int\<close> and \<open>tm_string\<close> are \<open>value<int>\<close> and \<open>value<string_view>\<close>.  A file that cannot be parsed is
    \<open>None\<close> for \<open>tm_parse_file\<close>.
  \<^item> The order in which \<open>std::unordered_set\<close> enumerates the strings that were inserted is the argument \<open>order\<close>;
    \<open>set_order\<close> says that it lists each of them once.
  \<^item> A string that goes through \<open>data()\<close> ends at its first null character (\<open>c_str\<close>).
\<close>

section \<open>TOML and sets of strings\<close>

record 'n toml =
  tm_parse_file :: "string \<Rightarrow> 'n option"
  tm_empty :: 'n
  tm_get :: "'n \<Rightarrow> string \<Rightarrow> 'n option"
  tm_table :: "'n \<Rightarrow> (string \<times> 'n) list option"
  tm_int :: "'n \<Rightarrow> int option"
  tm_string :: "'n \<Rightarrow> string option"

definition set_order :: "(string list \<Rightarrow> string list) \<Rightarrow> bool" where
  "set_order order \<longleftrightarrow> (\<forall>xs. distinct (order xs) \<and> set (order xs) = set xs)"

definition c_str :: "string \<Rightarrow> string" where
  "c_str s = takeWhile (\<lambda>c. c \<noteq> CHR 0x00) s"

text \<open>\<open>config[k1][k2]..\<close>.\<close>

fun tm_path :: "'n toml \<Rightarrow> 'n \<Rightarrow> string list \<Rightarrow> 'n option" where
  "tm_path tm n [] = Some n"
| "tm_path tm n (k # ks) = (case tm_get tm n k of None \<Rightarrow> None | Some m \<Rightarrow> tm_path tm m ks)"

definition path_table :: "'n toml \<Rightarrow> 'n \<Rightarrow> string list \<Rightarrow> (string \<times> 'n) list option" where
  "path_table tm n ks = Option.bind (tm_path tm n ks) (tm_table tm)"

definition int_or :: "'n toml \<Rightarrow> 'n \<Rightarrow> string list \<Rightarrow> int \<Rightarrow> int" where
  "int_or tm n ks dflt = (case Option.bind (tm_path tm n ks) (tm_int tm) of None \<Rightarrow> dflt | Some i \<Rightarrow> i)"

definition string_or :: "'n toml \<Rightarrow> 'n \<Rightarrow> string list \<Rightarrow> string \<Rightarrow> string" where
  "string_or tm n ks dflt = (case Option.bind (tm_path tm n ks) (tm_string tm) of None \<Rightarrow> dflt | Some s \<Rightarrow> s)"

section \<open>Paths and keys\<close>

text \<open>The constructors of \<open>BackTesting\<close> and \<open>ApiSecretKey\<close> keep an empty table when the file cannot be read.\<close>

definition load_config :: "'n toml \<Rightarrow> string \<Rightarrow> 'n" where
  "load_config tm path = (case tm_parse_file tm path of None \<Rightarrow> tm_empty tm | Some n \<Rightarrow> n)"

definition Answer :: "string \<Rightarrow> bool \<times> string" where
  "Answer path = (path \<noteq> '''', path)"

definition PathToPythonLib :: "'n toml \<Rightarrow> 'n \<Rightarrow> bool \<times> string" where
  "PathToPythonLib tm config = Answer (string_or tm config [''default'', ''path_to_python_lib''] '''')"

definition PathToPythonModule :: "'n toml \<Rightarrow> 'n \<Rightarrow> bool \<times> string" where
  "PathToPythonModule tm config = Answer (string_or tm config [''default'', ''path_to_python_module''] '''')"

definition PathToHistoryData :: "'n toml \<Rightarrow> 'n \<Rightarrow> bool \<times> string" where
  "PathToHistoryData tm config = Answer (string_or tm config [''default'', ''path_to_history_data''] '''')"

definition ApiKey :: "'n toml \<Rightarrow> 'n \<Rightarrow> bool \<times> string" where
  "ApiKey tm config = Answer (string_or tm config [''exchange'', ''api_key''] '''')"

definition SecretKey :: "'n toml \<Rightarrow> 'n \<Rightarrow> bool \<times> string" where
  "SecretKey tm config = Answer (string_or tm config [''exchange'', ''secret_key''] '''')"

section \<open>Tickers\<close>

record TickerManager =
  ticker_to_int :: "string \<rightharpoonup> u32"
  int_to_ticker :: "u32 \<rightharpoonup> string"

definition TickerManager_new :: TickerManager where
  "TickerManager_new = \<lparr>ticker_to_int = Map.empty, int_to_ticker = Map.empty\<rparr>"

definition AddTicker :: "string \<Rightarrow> u32 \<times> TickerManager \<Rightarrow> u32 \<times> TickerManager" where
  "AddTicker ticker_sv st =
     (let (counter, m) = st; ticker = c_str ticker_sv in
      if ticker_to_int m ticker = None
      then (counter + 1, m\<lparr>ticker_to_int := (ticker_to_int m)(ticker \<mapsto> counter),
                            int_to_ticker := (int_to_ticker m)(counter \<mapsto> ticker)\<rparr>)
      else st)"

definition TickerToInt :: "string \<Rightarrow> TickerManager \<Rightarrow> bool \<times> u32" where
  "TickerToInt ticker_sv m =
     (case ticker_to_int m (c_str ticker_sv) of None \<Rightarrow> (False, 0) | Some i \<Rightarrow> (True, i))"

section \<open>The parser of tickers and pairs\<close>

text \<open>A null \<open>ticker_manager_\<close> is \<open>None\<close>.\<close>

record TickerParser =
  tkp_manager :: "TickerManager option"
  tkp_pairs_bybit :: "TradingPair \<rightharpoonup> TradingPairInfo"
  tkp_pairs_binance :: "TradingPair \<rightharpoonup> TradingPairInfo"

definition TickerParser_new :: "TickerManager option \<Rightarrow> TickerParser" where
  "TickerParser_new m = \<lparr>tkp_manager = m, tkp_pairs_bybit = Map.empty, tkp_pairs_binance = Map.empty\<rparr>"

fun ExchangeConverter_ToString :: "ExchangeId \<Rightarrow> string" where
  "ExchangeConverter_ToString kBinance = ''binance''"
| "ExchangeConverter_ToString kBybit = ''bybit''"
| "ExchangeConverter_ToString kMexc = ''mexc''"
| "ExchangeConverter_ToString kExchangeIdInvalid = ''invalid''"

text \<open>The keys that are inserted into the two sets, in the order of insertion.\<close>

definition ParseExchanges :: "'n toml \<Rightarrow> 'n \<Rightarrow> string list" where
  "ParseExchanges tm config =
     (case path_table tm config [''exchange''] of None \<Rightarrow> [] | Some es \<Rightarrow> List.map fst es)"

definition ParseTickers :: "'n toml \<Rightarrow> 'n \<Rightarrow> string list \<Rightarrow> string list" where
  "ParseTickers tm config exchanges =
     concat (List.map (\<lambda>exchange.
       case path_table tm config [''trading_pairs'', exchange] of
         None \<Rightarrow> []
       | Some es \<Rightarrow> concat (List.map (\<lambda>(key, _).
           key # (case path_table tm config [''trading_pairs'', exchange, key] of
                    None \<Rightarrow> [] | Some qs \<Rightarrow> List.map fst qs)) es)) exchanges)"

definition InitTickerManager :: "string list \<Rightarrow> TickerParser \<Rightarrow> TickerParser" where
  "InitTickerManager tickers p =
     (case tkp_manager p of
        None \<Rightarrow> p
      | Some m \<Rightarrow> p\<lparr>tkp_manager := Some (snd (fold AddTicker tickers (0, m)))\<rparr>)"

text \<open>The fields of one pair; the precisions are cut to 8 bits.\<close>

definition pair_info :: "'n toml \<Rightarrow> 'n \<Rightarrow> string \<Rightarrow> TradingPairInfo" where
  "pair_info tm table key_quote =
     \<lparr>price_precission = word_of_int (int_or tm table [key_quote, ''price_precision''] 0),
      qty_precission = word_of_int (int_or tm table [key_quote, ''qty_precision''] 0),
      https_json_request = c_str (string_or tm table [key_quote, ''https_json_request''] ''''),
      https_query_request = c_str (string_or tm table [key_quote, ''https_query_request''] ''''),
      ws_query_request = c_str (string_or tm table [key_quote, ''ws_query_request''] ''''),
      https_query_response = c_str (string_or tm table [key_quote, ''https_query_response''] '''')\<rparr>"

definition add_quote ::
    "'n toml \<Rightarrow> TickerManager \<Rightarrow> 'n \<Rightarrow> u32 \<Rightarrow> string \<Rightarrow> (TradingPair \<rightharpoonup> TradingPairInfo) \<Rightarrow> (TradingPair \<rightharpoonup> TradingPairInfo)" where
  "add_quote tm m table base key_quote pairs =
     (let (status_quote, quote) = TickerToInt key_quote m in
      if \<not> status_quote then pairs
      else pairs(\<lparr>tp_first = base, tp_second = quote\<rparr> \<mapsto> pair_info tm table key_quote))"

definition add_base ::
    "'n toml \<Rightarrow> TickerManager \<Rightarrow> 'n \<Rightarrow> string \<Rightarrow> string \<Rightarrow> (TradingPair \<rightharpoonup> TradingPairInfo) \<Rightarrow> (TradingPair \<rightharpoonup> TradingPairInfo)" where
  "add_base tm m config exchange key pairs =
     (let (status_base, base) = TickerToInt key m in
      if \<not> status_base then pairs
      else case tm_path tm config [''trading_pairs'', exchange, key] of
             None \<Rightarrow> pairs
           | Some table \<Rightarrow>
               (case tm_table tm table of
                  None \<Rightarrow> pairs
                | Some qs \<Rightarrow> fold (add_quote tm m table base) (List.map fst qs) pairs))"

text \<open>The loop over the bases; \<open>ticker_manager_\<close> is followed in its first pass.\<close>

definition add_pairs ::
    "'n toml \<Rightarrow> TickerManager option \<Rightarrow> 'n \<Rightarrow> string \<Rightarrow> (TradingPair \<rightharpoonup> TradingPairInfo) \<Rightarrow>
     (TradingPair \<rightharpoonup> TradingPairInfo) result" where
  "add_pairs tm manager config exchange pairs =
     (case path_table tm config [''trading_pairs'', exchange] of
        None \<Rightarrow> Inr pairs
      | Some es \<Rightarrow>
          if es = [] then Inr pairs
          else (case manager of
                  None \<Rightarrow> Inl NullDeref
                | Some m \<Rightarrow> Inr (fold (add_base tm m config exchange) (List.map fst es) pairs)))"

definition InitExchange :: "'n toml \<Rightarrow> 'n \<Rightarrow> ExchangeId \<Rightarrow> TickerParser \<Rightarrow> TickerParser result" where
  "InitExchange tm config ex p =
     (let fill = add_pairs tm (tkp_manager p) config (ExchangeConverter_ToString ex) in
      case ex of
        kBybit \<Rightarrow> bind_result (fill (tkp_pairs_bybit p)) (\<lambda>m. Inr (p\<lparr>tkp_pairs_bybit := m\<rparr>))
      | kBinance \<Rightarrow> bind_result (fill (tkp_pairs_binance p)) (\<lambda>m. Inr (p\<lparr>tkp_pairs_binance := m\<rparr>))
      | _ \<Rightarrow> Inr p)"

definition TickerParser_Parse ::
    "'n toml \<Rightarrow> (string list \<Rightarrow> string list) \<Rightarrow> string \<Rightarrow> TickerParser \<Rightarrow> (bool \<times> TickerParser) result" where
  "TickerParser_Parse tm order path p =
     (case tm_parse_file tm path of
        None \<Rightarrow> Inr (False, p)
      | Some config \<Rightarrow>
          let exchanges = order (ParseExchanges tm config);
              tickers = order (ParseTickers tm config exchanges) in
          bind_result (InitExchange tm config kBinance (InitTickerManager tickers p)) (\<lambda>p1.
          bind_result (InitExchange tm config kBybit p1) (\<lambda>p2.
          Inr (True, p2))))"


section \<open>Numbers of tickers\<close>

text \<open>The two tables are inverse to each other and the numbers in use are \<open>0 .. n - 1\<close>.\<close>

definition numbered :: "nat \<Rightarrow> TickerManager \<Rightarrow> bool" where
  "numbered n m \<longleftrightarrow>
     (\<forall>t i. ticker_to_int m t = Some i \<longleftrightarrow> int_to_ticker m i = Some t) \<and> dom (int_to_ticker m) = {i. unat i < n}"

lemma numbered_inverse:
  "numbered n m \<Longrightarrow> ticker_to_int m t = Some i \<longleftrightarrow> int_to_ticker m i = Some t"
  by (simp add: numbered_def)

lemma numbered_fresh:
  assumes "numbered n m" and "n \<le> unat i"
  shows "int_to_ticker m i = None"
proof -
  have "i \<notin> dom (int_to_ticker m)" using assms by (simp add: numbered_def)
  then show ?thesis by (simp add: domIff)
qed

lemma TickerToInt_numbered:
  assumes "numbered n m"
  shows "TickerToInt t m = (True, i) \<longleftrightarrow> int_to_ticker m i = Some (c_str t)"
proof -
  have "TickerToInt t m = (True, i) \<longleftrightarrow> ticker_to_int m (c_str t) = Some i"
    by (simp add: TickerToInt_def split: option.split)
  then show ?thesis using numbered_inverse [OF assms] by simp
qed

lemma numbered_new: "numbered 0 TickerManager_new"
  by (simp add: numbered_def TickerManager_new_def)

lemma numbered_upd:
  assumes m: "numbered n m" and n: "n < 2 ^ 32" and t: "ticker_to_int m t = None"
  shows "numbered (Suc n) (m\<lparr>ticker_to_int := (ticker_to_int m)(t \<mapsto> word_of_nat n),
                            int_to_ticker := (int_to_ticker m)(word_of_nat n \<mapsto> t)\<rparr>)"
proof -
  have u: "unat (word_of_nat n :: u32) = n" using n by (simp add: unat_of_nat)
  have eq: "unat i = n \<longleftrightarrow> i = word_of_nat n" for i :: u32 using u by (metis word_unat_eq_iff)
  have fresh: "int_to_ticker m (word_of_nat n) = None" using m u by (auto intro: numbered_fresh)
  have inv: "ticker_to_int m s = Some i \<longleftrightarrow> int_to_ticker m i = Some s" for s i using m by (rule numbered_inverse)
  have "{i :: u32. unat i < Suc n} = insert (word_of_nat n) {i. unat i < n}" by (auto simp: less_Suc_eq eq)
  moreover have "dom (int_to_ticker m) = {i. unat i < n}" using m by (simp add: numbered_def)
  moreover have "int_to_ticker m i \<noteq> Some t" for i using t inv [of t i] by simp
  ultimately show ?thesis using fresh t inv by (auto simp: numbered_def)
qed

text \<open>Adding the strings of a list numbers the new ones; \<open>fresh_tickers\<close> lists them in that order.\<close>

lemma AddTicker_numbered:
  assumes "numbered n m" and "n < 2 ^ 32"
  obtains k m' where "AddTicker t (word_of_nat n, m) = (word_of_nat k, m')" and "numbered k m'" and "k \<le> Suc n"
    and "dom (ticker_to_int m') = insert (c_str t) (dom (ticker_to_int m))"
proof (cases "ticker_to_int m (c_str t) = None")
  case True
  then show thesis
    using that [of "Suc n" "m\<lparr>ticker_to_int := (ticker_to_int m)(c_str t \<mapsto> word_of_nat n),
                            int_to_ticker := (int_to_ticker m)(word_of_nat n \<mapsto> c_str t)\<rparr>"] assms
    by (simp add: AddTicker_def numbered_upd add.commute Let_def)
next
  case False
  then show thesis using that [of n m] assms by (auto simp: AddTicker_def Let_def insert_absorb domI)
qed

lemma fold_AddTicker_numbered:
  assumes "numbered n m" and "n + length ts \<le> 2 ^ 32"
  obtains k m' where "fold AddTicker ts (word_of_nat n, m) = (word_of_nat k, m')" and "numbered k m'"
    and "dom (ticker_to_int m') = c_str ` set ts \<union> dom (ticker_to_int m)"
  using assms
proof (induction ts arbitrary: n m thesis)
  case Nil
  then show ?case by simp
next
  case (Cons t ts)
  from Cons.prems have n: "n < 2 ^ 32" by simp
  obtain k m' where a: "AddTicker t (word_of_nat n, m) = (word_of_nat k, m')" and num: "numbered k m'" and k: "k \<le> Suc n"
    and d: "dom (ticker_to_int m') = insert (c_str t) (dom (ticker_to_int m))"
    by (rule AddTicker_numbered [OF Cons.prems(2) n])
  have "k + length ts \<le> 2 ^ 32" using k Cons.prems(3) by simp
  with num obtain j m'' where "fold AddTicker ts (word_of_nat k, m') = (word_of_nat j, m'')" and "numbered j m''"
    and "dom (ticker_to_int m'') = c_str ` set ts \<union> dom (ticker_to_int m')"
    using Cons.IH by metis
  then show ?case using Cons.prems(1) [of j m''] a d by simp
qed

lemma TickerManager_filled:
  assumes "length ts \<le> 2 ^ 32"
  obtains k where "numbered k (snd (fold AddTicker ts (0, TickerManager_new)))"
    and "dom (ticker_to_int (snd (fold AddTicker ts (0, TickerManager_new)))) = c_str ` set ts"
proof -
  obtain k m' where f: "fold AddTicker ts (word_of_nat 0, TickerManager_new) = (word_of_nat k, m')" and "numbered k m'"
    and "dom (ticker_to_int m') = c_str ` set ts \<union> dom (ticker_to_int TickerManager_new)"
    by (rule fold_AddTicker_numbered [OF numbered_new]) (use assms in simp)
  then show thesis using that [of k] by (simp add: TickerManager_new_def)
qed



section \<open>Tables of pairs\<close>

text \<open>The pairs that the file lists for an exchange, and the tickers they are made of.\<close>

definition base_keys :: "'n toml \<Rightarrow> 'n \<Rightarrow> string \<Rightarrow> string list" where
  "base_keys tm config exchange =
     (case path_table tm config [''trading_pairs'', exchange] of None \<Rightarrow> [] | Some es \<Rightarrow> List.map fst es)"

definition quote_keys :: "'n toml \<Rightarrow> 'n \<Rightarrow> string \<Rightarrow> string \<Rightarrow> string list" where
  "quote_keys tm config exchange key =
     (case path_table tm config [''trading_pairs'', exchange, key] of None \<Rightarrow> [] | Some qs \<Rightarrow> List.map fst qs)"

definition listed_pairs :: "'n toml \<Rightarrow> 'n \<Rightarrow> string \<Rightarrow> (string \<times> string) list" where
  "listed_pairs tm config exchange =
     concat (List.map (\<lambda>key. List.map (Pair key) (quote_keys tm config exchange key)) (base_keys tm config exchange))"

definition listed_info :: "'n toml \<Rightarrow> 'n \<Rightarrow> string \<Rightarrow> string \<times> string \<Rightarrow> TradingPairInfo" where
  "listed_info tm config exchange bq =
     pair_info tm (the (tm_path tm config [''trading_pairs'', exchange, fst bq])) (snd bq)"

definition ticker_pair :: "TickerManager \<Rightarrow> string \<times> string \<Rightarrow> TradingPair" where
  "ticker_pair m bq = \<lparr>tp_first = the (ticker_to_int m (fst bq)), tp_second = the (ticker_to_int m (snd bq))\<rparr>"

definition put_pair ::
    "'n toml \<Rightarrow> 'n \<Rightarrow> string \<Rightarrow> TickerManager \<Rightarrow> string \<times> string \<Rightarrow> (TradingPair \<rightharpoonup> TradingPairInfo) \<Rightarrow>
     (TradingPair \<rightharpoonup> TradingPairInfo)" where
  "put_pair tm config exchange m bq ps = ps(ticker_pair m bq \<mapsto> listed_info tm config exchange bq)"

definition known_keys :: "'n toml \<Rightarrow> 'n \<Rightarrow> string \<Rightarrow> TickerManager \<Rightarrow> bool" where
  "known_keys tm config exchange m \<longleftrightarrow>
     (\<forall>key \<in> set (base_keys tm config exchange).
        \<forall>t \<in> insert key (set (quote_keys tm config exchange key)). c_str t = t \<and> t \<in> dom (ticker_to_int m))"

lemma ParseTickers_eq:
  "ParseTickers tm config exchanges =
     concat (List.map (\<lambda>ex. concat (List.map (\<lambda>key. key # quote_keys tm config ex key) (base_keys tm config ex))) exchanges)"
proof -
  have "(case path_table tm config [''trading_pairs'', ex] of
           None \<Rightarrow> []
         | Some es \<Rightarrow> concat (List.map (\<lambda>(key, _). key # quote_keys tm config ex key) es)) =
        concat (List.map (\<lambda>key. key # quote_keys tm config ex key) (base_keys tm config ex))" for ex
    by (cases "path_table tm config [''trading_pairs'', ex]") (auto simp: base_keys_def comp_def intro!: arg_cong [where f = concat])
  then show ?thesis unfolding ParseTickers_def quote_keys_def [symmetric] by simp
qed

lemma ParseTickers_keys:
  assumes "exchange \<in> set exchanges" and "key \<in> set (base_keys tm config exchange)"
    and "t \<in> insert key (set (quote_keys tm config exchange key))"
  shows "t \<in> set (ParseTickers tm config exchanges)"
  using assms by (auto simp: ParseTickers_eq)

lemma TickerToInt_known: "c_str t = t \<Longrightarrow> t \<in> dom (ticker_to_int m) \<Longrightarrow> TickerToInt t m = (True, the (ticker_to_int m t))"
  by (auto simp: TickerToInt_def)

lemma path_table_quotes:
  "tm_path tm config [''trading_pairs'', exchange, key] = Some table \<Longrightarrow> tm_table tm table = Some qs \<Longrightarrow>
   quote_keys tm config exchange key = List.map fst qs"
  by (simp add: quote_keys_def path_table_def del: tm_path.simps)

lemma add_base_upds:
  assumes "\<forall>t \<in> insert key (set (quote_keys tm config exchange key)). c_str t = t \<and> t \<in> dom (ticker_to_int m)"
  shows "add_base tm m config exchange key =
         fold (put_pair tm config exchange m)
              (List.map (Pair key) (quote_keys tm config exchange key))"
proof -
  have q: "add_quote tm m table (the (ticker_to_int m key)) t = put_pair tm config exchange m (key, t)"
    if "tm_path tm config [''trading_pairs'', exchange, key] = Some table" and "t \<in> set (quote_keys tm config exchange key)" for table t
    using that assms by (simp add: fun_eq_iff put_pair_def add_quote_def TickerToInt_known ticker_pair_def listed_info_def del: tm_path.simps)
  show ?thesis
  proof (cases "tm_path tm config [''trading_pairs'', exchange, key]")
    case None
    then show ?thesis by (auto simp: fun_eq_iff add_base_def quote_keys_def path_table_def split: prod.split simp del: tm_path.simps)
  next
    case (Some table)
    show ?thesis
    proof (cases "tm_table tm table")
      case None
      then show ?thesis using Some
        by (auto simp: fun_eq_iff add_base_def quote_keys_def path_table_def split: prod.split simp del: tm_path.simps)
    next
      case (Some qs)
      note keys = path_table_quotes [OF \<open>tm_path _ _ _ = Some table\<close> Some]
      have "fold (add_quote tm m table (the (ticker_to_int m key))) (List.map fst qs) ps =
            fold (\<lambda>t. put_pair tm config exchange m (key, t)) (List.map fst qs) ps" for ps
        by (rule fold_cong) (auto intro!: q [OF \<open>tm_path _ _ _ = Some table\<close>] simp: keys rev_image_eqI)
      then show ?thesis using Some \<open>tm_path _ _ _ = Some table\<close> assms keys
        by (simp add: fun_eq_iff add_base_def TickerToInt_known fold_map comp_def del: tm_path.simps)
    qed
  qed
qed

lemma fold_add_base:
  assumes "known_keys tm config exchange m"
  shows "fold (add_base tm m config exchange) (base_keys tm config exchange) =
         fold (put_pair tm config exchange m) (listed_pairs tm config exchange)"
proof -
  have "fold (add_base tm m config exchange) keys =
        fold (put_pair tm config exchange m)
             (concat (List.map (\<lambda>key. List.map (Pair key) (quote_keys tm config exchange key)) keys))"
    if "set keys \<subseteq> set (base_keys tm config exchange)" for keys
    using that
  proof (induction keys)
    case (Cons key keys)
    then have "\<forall>t \<in> insert key (set (quote_keys tm config exchange key)). c_str t = t \<and> t \<in> dom (ticker_to_int m)"
      using assms by (auto simp: known_keys_def)
    from add_base_upds [OF this] Cons show ?case by simp
  qed simp
  then show ?thesis by (simp add: listed_pairs_def)
qed

lemma ticker_pair_inj:
  assumes "numbered n m" and "fst x \<in> dom (ticker_to_int m)" and "snd x \<in> dom (ticker_to_int m)"
  shows "ticker_pair m x = \<lparr>tp_first = b, tp_second = q\<rparr> \<longleftrightarrow>
         int_to_ticker m b = Some (fst x) \<and> int_to_ticker m q = Some (snd x)"
  using assms by (auto simp: ticker_pair_def numbered_inverse [OF assms(1), symmetric])

text \<open>What the table of an exchange holds for two numbers, read off the file.\<close>

definition configured :: "'n toml \<Rightarrow> 'n \<Rightarrow> string \<Rightarrow> TickerManager \<Rightarrow> u32 \<Rightarrow> u32 \<Rightarrow> TradingPairInfo option" where
  "configured tm config exchange m b q =
     (case (int_to_ticker m b, int_to_ticker m q) of
        (Some base, Some quote) \<Rightarrow>
          if (base, quote) \<in> set (listed_pairs tm config exchange)
          then Some (listed_info tm config exchange (base, quote)) else None
      | _ \<Rightarrow> None)"

lemma listed_pairs_known:
  assumes "known_keys tm config exchange m" and "x \<in> set (listed_pairs tm config exchange)"
  shows "fst x \<in> dom (ticker_to_int m)" and "snd x \<in> dom (ticker_to_int m)"
  using assms by (fastforce simp: known_keys_def listed_pairs_def)+

lemma fold_put_pair_hit:
  "x \<in> set xs \<Longrightarrow> (\<And>y. y \<in> set xs \<Longrightarrow> ticker_pair m y = k \<longleftrightarrow> y = x) \<Longrightarrow>
   fold (put_pair tm config exchange m) xs ps k = Some (listed_info tm config exchange x)"
  unfolding put_pair_def [abs_def] by (rule fold_upd_hit)

lemma fold_put_pair_miss:
  "(\<And>y. y \<in> set xs \<Longrightarrow> ticker_pair m y \<noteq> k) \<Longrightarrow> fold (put_pair tm config exchange m) xs ps k = ps k"
  unfolding put_pair_def [abs_def] by (rule fold_upd_miss)

lemma fold_put_pair:
  assumes num: "numbered n m" and known: "known_keys tm config exchange m"
  shows "fold (put_pair tm config exchange m) (listed_pairs tm config exchange) Map.empty \<lparr>tp_first = b, tp_second = q\<rparr> =
         configured tm config exchange m b q"
proof -
  let ?xs = "listed_pairs tm config exchange" and ?k = "\<lparr>tp_first = b, tp_second = q\<rparr>"
  have key: "ticker_pair m y = ?k \<longleftrightarrow> int_to_ticker m b = Some (fst y) \<and> int_to_ticker m q = Some (snd y)"
    if "y \<in> set ?xs" for y
    using listed_pairs_known [OF known that] by (rule ticker_pair_inj [OF num])
  show ?thesis
  proof (cases "\<exists>x \<in> set ?xs. ticker_pair m x = ?k")
    case True
    then obtain x where x: "x \<in> set ?xs" and at: "int_to_ticker m b = Some (fst x)" "int_to_ticker m q = Some (snd x)"
      by (auto simp: key)
    have "fold (put_pair tm config exchange m) ?xs Map.empty ?k = Some (listed_info tm config exchange x)"
      by (rule fold_put_pair_hit [OF x]) (auto simp: key at prod_eq_iff)
    then show ?thesis using x at by (simp add: configured_def)
  next
    case False
    then have "configured tm config exchange m b q = None"
      by (force simp: configured_def key split: option.splits)
    moreover have "fold (put_pair tm config exchange m) ?xs Map.empty ?k = Map.empty ?k"
      by (rule fold_put_pair_miss) (use False in blast)
    ultimately show ?thesis by simp
  qed
qed

lemma add_pairs_base_keys:
  "add_pairs tm (Some m) config exchange ps = Inr (fold (add_base tm m config exchange) (base_keys tm config exchange) ps)"
  by (simp add: add_pairs_def base_keys_def split: option.split)

lemma add_pairs_configured:
  assumes "numbered n m" and "known_keys tm config exchange m"
  shows "\<exists>ps. add_pairs tm (Some m) config exchange Map.empty = Inr ps \<and>
              (\<forall>b q. ps \<lparr>tp_first = b, tp_second = q\<rparr> = configured tm config exchange m b q)"
  using fold_put_pair [OF assms] by (simp add: add_pairs_base_keys fold_add_base [OF assms(2)])


section \<open>Parsing a file\<close>

lemma set_order_length:
  assumes "set_order order"
  shows "length (order xs) \<le> length xs"
proof -
  have "distinct (order xs)" and "set (order xs) = set xs" using assms by (simp_all add: set_order_def)
  then show ?thesis by (metis card_length distinct_card)
qed

lemma known_keys_parsed:
  assumes "exchange \<in> set exchanges" and "\<forall>t \<in> set (ParseTickers tm config exchanges). c_str t = t"
    and "dom (ticker_to_int m) = c_str ` set (ParseTickers tm config exchanges)"
  shows "known_keys tm config exchange m"
proof -
  have "c_str t = t \<and> t \<in> dom (ticker_to_int m)"
    if "key \<in> set (base_keys tm config exchange)" and "t \<in> insert key (set (quote_keys tm config exchange key))" for key t
  proof -
    from assms(1) that have "t \<in> set (ParseTickers tm config exchanges)" by (rule ParseTickers_keys)
    with assms(2) have "t \<in> set (ParseTickers tm config exchanges)" and "c_str t = t" by auto
    then show ?thesis using assms(3) by (metis imageI)
  qed
  then show ?thesis by (simp add: known_keys_def)
qed

definition pairs_of :: "ExchangeId \<Rightarrow> TickerParser \<Rightarrow> (TradingPair \<rightharpoonup> TradingPairInfo)" where
  "pairs_of ex p = (if ex = kBinance then tkp_pairs_binance p else tkp_pairs_bybit p)"

lemma InitExchange_fills:
  assumes "tkp_manager p = Some m" and "ex = kBinance \<or> ex = kBybit"
  obtains p' where "InitExchange tm config ex p = Inr p'" and "tkp_manager p' = Some m"
    and "add_pairs tm (Some m) config (ExchangeConverter_ToString ex) (pairs_of ex p) = Inr (pairs_of ex p')"
    and "\<And>other. other = kBinance \<or> other = kBybit \<Longrightarrow> other \<noteq> ex \<Longrightarrow> pairs_of other p' = pairs_of other p"
proof -
  let ?ps = "fold (add_base tm m config (ExchangeConverter_ToString ex)) (base_keys tm config (ExchangeConverter_ToString ex)) (pairs_of ex p)"
  let ?p = "if ex = kBinance then p\<lparr>tkp_pairs_binance := ?ps\<rparr> else p\<lparr>tkp_pairs_bybit := ?ps\<rparr>"
  show thesis
    by (rule that [of ?p]) (use assms in \<open>auto simp: InitExchange_def add_pairs_base_keys pairs_of_def\<close>)
qed

lemma Parse_fills:
  assumes "tm_parse_file tm path = Some config" and ex: "ex = kBinance \<or> ex = kBybit"
    and "tkp_manager (InitTickerManager (order (ParseTickers tm config (order (ParseExchanges tm config)))) p) = Some m"
  obtains p' where "TickerParser_Parse tm order path p = Inr (True, p')" and "tkp_manager p' = Some m"
    and "add_pairs tm (Some m) config (ExchangeConverter_ToString ex) (pairs_of ex p) = Inr (pairs_of ex p')"
proof -
  let ?p0 = "InitTickerManager (order (ParseTickers tm config (order (ParseExchanges tm config)))) p"
  have same: "pairs_of e ?p0 = pairs_of e p" for e by (simp add: InitTickerManager_def pairs_of_def split: option.split)
  obtain p1 where 1: "InitExchange tm config kBinance ?p0 = Inr p1" "tkp_manager p1 = Some m"
    "add_pairs tm (Some m) config (ExchangeConverter_ToString kBinance) (pairs_of kBinance ?p0) = Inr (pairs_of kBinance p1)"
    "pairs_of kBybit p1 = pairs_of kBybit ?p0"
    by (rule InitExchange_fills [OF assms(3), of kBinance tm config]) auto
  obtain p2 where 2: "InitExchange tm config kBybit p1 = Inr p2" "tkp_manager p2 = Some m"
    "add_pairs tm (Some m) config (ExchangeConverter_ToString kBybit) (pairs_of kBybit p1) = Inr (pairs_of kBybit p2)"
    "pairs_of kBinance p2 = pairs_of kBinance p1"
    by (rule InitExchange_fills [OF 1(2), of kBybit tm config]) auto
  have "TickerParser_Parse tm order path p = Inr (True, p2)"
    using assms(1) 1(1) 2(1) by (simp add: TickerParser_Parse_def Let_def)
  then show thesis using that [of p2] 1 2 ex same by auto
qed

text \<open>C36: parsing a file into an empty ticker manager numbers the tickers one to one, and the table of pairs of a listed
  exchange then holds exactly the pairs of the file: for the numbers of a base and a quote that the file lists the fields of
  their table, and nothing for any other numbers.\<close>

theorem parse_fills_tables:
  assumes "set_order order" and "tm_parse_file tm path = Some config"
    and "ex = kBinance \<or> ex = kBybit" and "ExchangeConverter_ToString ex \<in> set (ParseExchanges tm config)"
    and "\<forall>t \<in> set (ParseTickers tm config (order (ParseExchanges tm config))). CHR 0x00 \<notin> set t"
    and "length (ParseTickers tm config (order (ParseExchanges tm config))) \<le> 2 ^ 32"
  shows "\<exists>p m. TickerParser_Parse tm order path (TickerParser_new (Some TickerManager_new)) = Inr (True, p) \<and>
               tkp_manager p = Some m \<and>
               (\<forall>t i. TickerToInt t m = (True, i) \<longleftrightarrow> int_to_ticker m i = Some (c_str t)) \<and>
               dom (ticker_to_int m) = set (ParseTickers tm config (order (ParseExchanges tm config))) \<and>
               (\<forall>b q. pairs_of ex p \<lparr>tp_first = b, tp_second = q\<rparr> =
                      configured tm config (ExchangeConverter_ToString ex) m b q)"
proof -
  let ?ts = "ParseTickers tm config (order (ParseExchanges tm config))" and ?p = "TickerParser_new (Some TickerManager_new)"
  let ?m = "snd (fold AddTicker (order ?ts) (0, TickerManager_new))"
  have nul: "\<forall>t \<in> set ?ts. c_str t = t" using assms(5) by (auto simp: c_str_def takeWhile_eq_all_conv)
  have len: "length (order ?ts) \<le> 2 ^ 32" using set_order_length [OF assms(1), of ?ts] assms(6) by simp
  obtain k where num: "numbered k ?m" and d: "dom (ticker_to_int ?m) = c_str ` set (order ?ts)"
    by (rule TickerManager_filled [OF len])
  have dom: "dom (ticker_to_int ?m) = c_str ` set ?ts" using d assms(1) by (simp add: set_order_def)
  have "ExchangeConverter_ToString ex \<in> set (order (ParseExchanges tm config))"
    using assms(1,4) by (simp add: set_order_def)
  then have known: "known_keys tm config (ExchangeConverter_ToString ex) ?m" using nul dom by (rule known_keys_parsed)
  have man: "tkp_manager (InitTickerManager (order ?ts) ?p) = Some ?m"
    by (simp add: InitTickerManager_def TickerParser_new_def)
  obtain p where p: "TickerParser_Parse tm order path ?p = Inr (True, p)" "tkp_manager p = Some ?m"
    "add_pairs tm (Some ?m) config (ExchangeConverter_ToString ex) (pairs_of ex ?p) = Inr (pairs_of ex p)"
    by (rule Parse_fills [where order = order, OF assms(2,3) man])
  have "pairs_of ex ?p = Map.empty" by (simp add: pairs_of_def TickerParser_new_def)
  then have "\<forall>b q. pairs_of ex p \<lparr>tp_first = b, tp_second = q\<rparr> = configured tm config (ExchangeConverter_ToString ex) ?m b q"
    using add_pairs_configured [OF num known] p(3) by auto
  moreover have "\<forall>t i. TickerToInt t ?m = (True, i) \<longleftrightarrow> int_to_ticker ?m i = Some (c_str t)"
    using num by (simp add: TickerToInt_numbered)
  ultimately show ?thesis using p dom nul by (auto simp: image_iff)
qed


text \<open>An instance of toml++: trees of tables, integers and strings, and one file.\<close>

datatype node = IntNode int | StrNode string | TableNode "(string \<times> node) list"

fun node_get :: "node \<Rightarrow> string \<Rightarrow> node option" where
  "node_get (TableNode es) k = map_of es k"
| "node_get _ k = None"

fun node_table :: "node \<Rightarrow> (string \<times> node) list option" where
  "node_table (TableNode es) = Some es"
| "node_table _ = None"

fun node_int :: "node \<Rightarrow> int option" where
  "node_int (IntNode i) = Some i"
| "node_int _ = None"

fun node_string :: "node \<Rightarrow> string option" where
  "node_string (StrNode s) = Some s"
| "node_string _ = None"

definition btc_usdt :: node where
  "btc_usdt = TableNode [(''exchange'', TableNode [(''binance'', TableNode [])]),
     (''trading_pairs'', TableNode [(''binance'', TableNode [(''BTC'', TableNode [(''USDT'',
       TableNode [(''price_precision'', IntNode 2), (''qty_precision'', IntNode 5),
                  (''ws_query_request'', StrNode ''btcusdt'')])])])])]"

definition tree_toml :: "node toml" where
  "tree_toml = \<lparr>tm_parse_file = (\<lambda>path. if path = ''config.toml'' then Some btc_usdt else None), tm_empty = TableNode [],
     tm_get = node_get, tm_table = node_table, tm_int = node_int, tm_string = node_string\<rparr>"

lemma set_order_remdups: "set_order remdups"
  by (simp add: set_order_def)

lemma btc_usdt_parsed:
  "ParseExchanges tree_toml btc_usdt = [''binance'']"
  "ParseTickers tree_toml btc_usdt [''binance''] = [''BTC'', ''USDT'']"
  "listed_pairs tree_toml btc_usdt ''binance'' = [(''BTC'', ''USDT'')]"
  "listed_info tree_toml btc_usdt ''binance'' (''BTC'', ''USDT'') =
     \<lparr>price_precission = 2, qty_precission = 5, https_json_request = '''', https_query_request = '''',
      ws_query_request = ''btcusdt'', https_query_response = ''''\<rparr>"
  by code_simp+

theorem parse_fills_tables_witness:
  "\<exists>p m. TickerParser_Parse tree_toml remdups ''config.toml'' (TickerParser_new (Some TickerManager_new)) = Inr (True, p) \<and>
         tkp_manager p = Some m \<and>
         (\<forall>t i. TickerToInt t m = (True, i) \<longleftrightarrow> int_to_ticker m i = Some (c_str t)) \<and>
         dom (ticker_to_int m) = {''BTC'', ''USDT''} \<and>
         (\<forall>b q. pairs_of kBinance p \<lparr>tp_first = b, tp_second = q\<rparr> = configured tree_toml btc_usdt ''binance'' m b q)"
  using parse_fills_tables [of remdups tree_toml "''config.toml''" btc_usdt kBinance]
  by (simp add: set_order_remdups btc_usdt_parsed tree_toml_def [THEN arg_cong [where f = tm_parse_file]])

section \<open>Parsing a second file\<close>

text \<open>\<open>InitTickerManager\<close> counts from 0 at every call.  A number that is in use is then given away again.\<close>

lemma AddTicker_keeps:
  "ticker_to_int (snd st) t = Some i \<Longrightarrow> ticker_to_int (snd (AddTicker s st)) t = Some i"
  by (auto simp: AddTicker_def Let_def split: prod.split)

lemma fold_AddTicker_keeps:
  "ticker_to_int (snd st) t = Some i \<Longrightarrow> ticker_to_int (snd (fold AddTicker ts st)) t = Some i"
  by (induction ts arbitrary: st) (simp_all add: AddTicker_keeps)

lemma fold_AddTicker_known:
  "c_str ` set ts \<subseteq> dom (ticker_to_int m) \<Longrightarrow> fold AddTicker ts (c, m) = (c, m)"
  by (induction ts) (auto simp: AddTicker_def)

text \<open>A second file that brings a new ticker into a manager that is not empty gives this ticker the number 0, which
  another ticker has already; both tickers then have the same number, and pairs that differ only in them the same entry in the
  tables of pairs.\<close>

theorem second_parse_collides:
  assumes "numbered n m" and "0 < n" and "tkp_manager p = Some m"
    and "tickers = us @ t # ts" and "c_str ` set us \<subseteq> dom (ticker_to_int m)" and "c_str t \<notin> dom (ticker_to_int m)"
  shows "\<exists>s m'. s \<noteq> c_str t \<and> int_to_ticker m 0 = Some s \<and>
               tkp_manager (InitTickerManager tickers p) = Some m' \<and>
               ticker_to_int m' s = Some 0 \<and> ticker_to_int m' (c_str t) = Some 0 \<and>
               ticker_pair m' (s, x) = ticker_pair m' (c_str t, x)"
proof -
  have "0 \<in> dom (int_to_ticker m)" using assms(1,2) by (simp add: numbered_def)
  then obtain s where s: "int_to_ticker m 0 = Some s" by auto
  then have ts: "ticker_to_int m s = Some 0" using numbered_inverse [OF assms(1)] by simp
  let ?m1 = "m\<lparr>ticker_to_int := (ticker_to_int m)(c_str t \<mapsto> 0), int_to_ticker := (int_to_ticker m)(0 \<mapsto> c_str t)\<rparr>"
  let ?m' = "snd (fold AddTicker tickers (0, m))"
  have m': "?m' = snd (fold AddTicker ts (1, ?m1))"
    using assms(4-6) by (simp add: fold_AddTicker_known AddTicker_def domIff Let_def)
  have "s \<noteq> c_str t" using ts assms(6) by auto
  moreover have "ticker_to_int ?m' s = Some 0" unfolding m' by (rule fold_AddTicker_keeps) (use ts in simp)
  moreover have "ticker_to_int ?m' (c_str t) = Some 0" unfolding m' by (rule fold_AddTicker_keeps) simp
  moreover have "tkp_manager (InitTickerManager tickers p) = Some ?m'" using assms(3) by (simp add: InitTickerManager_def)
  ultimately show ?thesis using s by (auto simp: ticker_pair_def)
qed

theorem second_parse_collides_witness:
  "\<exists>s m'. s \<noteq> ''ETH'' \<and> int_to_ticker (snd (AddTicker ''BTC'' (0, TickerManager_new))) 0 = Some s \<and>
          tkp_manager (InitTickerManager [''BTC'', ''ETH'']
            (TickerParser_new (Some (snd (AddTicker ''BTC'' (0, TickerManager_new)))))) = Some m' \<and>
          ticker_to_int m' s = Some 0 \<and> ticker_to_int m' ''ETH'' = Some 0 \<and>
          ticker_pair m' (s, ''USDT'') = ticker_pair m' (''ETH'', ''USDT'')"
proof -
  let ?m = "snd (AddTicker ''BTC'' (0, TickerManager_new))"
  have c: "c_str ''BTC'' = ''BTC''" "c_str ''ETH'' = ''ETH''" by code_simp+
  have m: "?m = TickerManager_new\<lparr>ticker_to_int := [''BTC'' \<mapsto> 0], int_to_ticker := [0 \<mapsto> ''BTC'']\<rparr>"
    by (simp add: AddTicker_def TickerManager_new_def c Let_def)
  have "numbered (Suc 0) ?m"
    using numbered_upd [OF numbered_new, of "''BTC''"] unfolding m by (simp add: TickerManager_new_def)
  from second_parse_collides [OF this, of "TickerParser_new (Some ?m)" "[''BTC'', ''ETH'']" "[''BTC'']" "''ETH''" "[]" "''USDT''"]
  show ?thesis by (simp add: c m TickerParser_new_def)
qed

text \<open>Without a ticker manager \<open>InitTickerManager\<close> returns at once; \<open>InitExchange\<close> has no such test.\<close>

lemma parse_without_manager:
  assumes "tm_parse_file tm path = Some config"
  shows "TickerParser_Parse tm order path (TickerParser_new None) =
         (if base_keys tm config ''binance'' = [] \<and> base_keys tm config ''bybit'' = []
          then Inr (True, TickerParser_new None) else Inl NullDeref)"
proof -
  have "add_pairs tm None config exchange ps = (if base_keys tm config exchange = [] then Inr ps else Inl NullDeref)" for exchange ps
    by (simp add: add_pairs_def base_keys_def split: option.split)
  then show ?thesis using assms
    by (simp add: TickerParser_Parse_def InitTickerManager_def InitExchange_def TickerParser_new_def Let_def)
qed

end
