(* ===== verification/Redpanda.thy ===== *)
theory Redpanda
  imports Arbitrage_Strategy Order_Book_Component
begin

text \<open>
  The publication of quotes, trades and reports: \<open>KafkaClient\<close> and \<open>RedPandaComponent\<close> of
  aot/redpanda_client/redpanda_client.h, and the messages of aot/proto/classes.

  \<^item> Protocol Buffers is the argument \<open>pb\<close>: the bytes of a message (\<open>ByteSizeLong\<close> and \<open>SerializeToArray\<close>) and
    \<open>ParseFromArray\<close>.  The fields of the messages are those of aot/proto/aot.proto.
  \<^item> \<open>dump\<close> of nlohmann::json is the argument \<open>dump\<close>.
  \<^item> \<open>io_context_\<close> has one thread, which runs the posted tasks in their order: \<open>kc_posted\<close>.  \<open>produce\<close> may throw, which the
    task catches.  A client without a producer posts nothing.
\<close>

section \<open>Messages\<close>

datatype proto_ExchangeId = BINANCE | BYBIT | MEXC | EXCHANGE_ID_INVALID
datatype proto_MarketType = SPOT | FUTURES | OPTIONS | MARKET_TYPE_INVALID
datatype proto_TransactionAction = BUY | SELL

record proto_Transaction =
  px_trading_pair :: string
  px_exchange_id :: proto_ExchangeId
  px_market_type :: proto_MarketType
  px_transaction_action :: proto_TransactionAction

record proto_Trade =
  pt_id :: u64
  pt_transactions :: "proto_Transaction list"

record proto_Wallet =
  pw_exchange :: string
  pw_ticker :: string
  pw_balance :: rat

record proto_Pnl =
  pp_exchange :: string
  pp_trading_pair :: string
  pp_realized :: rat
  pp_unrealized :: rat

record protobuf =
  pb_Transaction :: "proto_Transaction \<Rightarrow> u8 list"
  pb_Trade :: "proto_Trade \<Rightarrow> u8 list"
  pb_Trades :: "(u64 \<rightharpoonup> proto_Trade) \<Rightarrow> u8 list"
  pb_Wallet :: "proto_Wallet \<Rightarrow> u8 list"
  pb_Pnl :: "proto_Pnl \<Rightarrow> u8 list"
  pb_parse_Trade :: "u8 list \<Rightarrow> bool \<times> proto_Trade"

text \<open>What a message is parsed from gives the message back.\<close>

definition protobuf_ok :: "protobuf \<Rightarrow> bool" where
  "protobuf_ok pb \<longleftrightarrow> (\<forall>t. pb_parse_Trade pb (pb_Trade pb t) = (True, t))"

fun ConvertToProtoEnum_exchange :: "ExchangeId \<Rightarrow> proto_ExchangeId" where
  "ConvertToProtoEnum_exchange kBinance = BINANCE"
| "ConvertToProtoEnum_exchange kBybit = BYBIT"
| "ConvertToProtoEnum_exchange kMexc = MEXC"
| "ConvertToProtoEnum_exchange kExchangeIdInvalid = EXCHANGE_ID_INVALID"

fun ConvertToProtoEnum_market :: "MarketType \<Rightarrow> proto_MarketType" where
  "ConvertToProtoEnum_market kSpot = SPOT"
| "ConvertToProtoEnum_market kFutures = FUTURES"
| "ConvertToProtoEnum_market kOptions = OPTIONS"
| "ConvertToProtoEnum_market kMarketInvalid = MARKET_TYPE_INVALID"

fun ConvertToProtoEnum_operation :: "Operation \<Rightarrow> proto_TransactionAction" where
  "ConvertToProtoEnum_operation kBuy = BUY"
| "ConvertToProtoEnum_operation kSell = SELL"

record Transaction_model =
  tm_trading_pair :: string
  tm_exchange_id :: ExchangeId
  tm_market_type :: MarketType
  tm_operation :: Operation

definition Transaction_of_step :: "Step \<Rightarrow> TradingPairInfo \<Rightarrow> Transaction_model" where
  "Transaction_of_step step info =
     \<lparr>tm_trading_pair = https_json_request info, tm_exchange_id = st_exchange_id step,
      tm_market_type = st_market_type step, tm_operation = st_operation step\<rparr>"

definition Transaction_message :: "Transaction_model \<Rightarrow> proto_Transaction" where
  "Transaction_message t =
     \<lparr>px_trading_pair = tm_trading_pair t, px_exchange_id = ConvertToProtoEnum_exchange (tm_exchange_id t),
      px_market_type = ConvertToProtoEnum_market (tm_market_type t),
      px_transaction_action = ConvertToProtoEnum_operation (tm_operation t)\<rparr>"

definition Transaction_SerializeTo :: "protobuf \<Rightarrow> Transaction_model \<Rightarrow> u8 list" where
  "Transaction_SerializeTo pb t = pb_Transaction pb (Transaction_message t)"

text \<open>One pass of the loop over the steps of a cycle; a step of an unknown pair is skipped.\<close>

definition add_transaction :: "ExchangeTradingPairs \<Rightarrow> Step \<Rightarrow> proto_Trade \<Rightarrow> proto_Trade" where
  "add_transaction etp step message =
     (case GetPairInfo (st_exchange_id step) (st_trading_pair step) etp of
        None \<Rightarrow> message
      | Some info \<Rightarrow> message\<lparr>pt_transactions := pt_transactions message @
          [\<lparr>px_trading_pair = https_json_request info,
            px_exchange_id = ConvertToProtoEnum_exchange (st_exchange_id step),
            px_market_type = ConvertToProtoEnum_market (st_market_type step),
            px_transaction_action = ConvertToProtoEnum_operation (st_operation step)\<rparr>]\<rparr>)"

definition Trade_message :: "hash_combine \<Rightarrow> std_hash \<Rightarrow> ExchangeTradingPairs \<Rightarrow> ArbitrageCycle \<Rightarrow> proto_Trade" where
  "Trade_message hc sh etp cycle =
     fold (add_transaction etp) cycle \<lparr>pt_id = ArbitrageCycleHash hc sh cycle, pt_transactions = []\<rparr>"

definition Trade_SerializeTo ::
    "protobuf \<Rightarrow> hash_combine \<Rightarrow> std_hash \<Rightarrow> ExchangeTradingPairs \<Rightarrow> ArbitrageCycle \<Rightarrow> u8 list" where
  "Trade_SerializeTo pb hc sh etp cycle = pb_Trade pb (Trade_message hc sh etp cycle)"

text \<open>One pass of the loop over the unique cycles: the entry is made with its id and then overwritten by what
  \<open>ParseFromArray\<close> reads, whether it succeeds or not.\<close>

definition add_trade ::
    "protobuf \<Rightarrow> hash_combine \<Rightarrow> std_hash \<Rightarrow> ExchangeTradingPairs \<Rightarrow> ArbitrageCycle \<Rightarrow>
     (u64 \<rightharpoonup> proto_Trade) \<Rightarrow> (u64 \<rightharpoonup> proto_Trade)" where
  "add_trade pb hc sh etp cycle message =
     (let id = ArbitrageCycleHash hc sh cycle;
          trade_data = Trade_SerializeTo pb hc sh etp cycle
      in message(id \<mapsto> snd (pb_parse_Trade pb trade_data)))"

text \<open>\<open>order\<close> is the order in which \<open>std::unordered_set\<close> enumerates the cycles.\<close>

definition Trades_message ::
    "protobuf \<Rightarrow> hash_combine \<Rightarrow> std_hash \<Rightarrow> (ArbitrageCycle list \<Rightarrow> ArbitrageCycle list) \<Rightarrow> ExchangeTradingPairs \<Rightarrow>
     TradeDictionary \<Rightarrow> (u64 \<rightharpoonup> proto_Trade)" where
  "Trades_message pb hc sh order etp trades = fold (add_trade pb hc sh etp) (order (GetUniqueCycles trades)) Map.empty"

definition Trades_SerializeTo ::
    "protobuf \<Rightarrow> hash_combine \<Rightarrow> std_hash \<Rightarrow> (ArbitrageCycle list \<Rightarrow> ArbitrageCycle list) \<Rightarrow> ExchangeTradingPairs \<Rightarrow>
     TradeDictionary \<Rightarrow> u8 list" where
  "Trades_SerializeTo pb hc sh order etp trades = pb_Trades pb (Trades_message pb hc sh order etp trades)"

definition Wallet_SerializeTo :: "protobuf \<Rightarrow> string \<Rightarrow> string \<Rightarrow> rat \<Rightarrow> u8 list" where
  "Wallet_SerializeTo pb exchange ticker balance =
     pb_Wallet pb \<lparr>pw_exchange = exchange, pw_ticker = ticker, pw_balance = balance\<rparr>"

definition Pnl_SerializeTo :: "protobuf \<Rightarrow> string \<Rightarrow> string \<Rightarrow> rat \<Rightarrow> rat \<Rightarrow> u8 list" where
  "Pnl_SerializeTo pb exchange trading_pair realized unrealized =
     pb_Pnl pb \<lparr>pp_exchange = exchange, pp_trading_pair = trading_pair, pp_realized = realized, pp_unrealized = unrealized\<rparr>"

record OrderBook_model =
  ob_exchange :: string
  ob_market_type :: string
  ob_trading_pair :: string
  ob_best_bid :: rat
  ob_best_ask :: rat
  ob_spread :: rat
  ob_best_bid_qty :: rat
  ob_best_ask_qty :: rat

text \<open>The body of \<open>OrderBook::SerializeTo\<close> is commented out: the vector stays as it is.\<close>

definition OrderBook_SerializeTo :: "OrderBook_model \<Rightarrow> u8 list \<Rightarrow> u8 list" where
  "OrderBook_SerializeTo ob bytes = bytes"

definition OrderBook_SerializeToJson :: "OrderBook_model \<Rightarrow> json" where
  "OrderBook_SerializeToJson ob = JObject
     [(''orderbook'', JObject
        [(''exchange'', JString (ob_exchange ob)), (''market_type'', JString (ob_market_type ob)),
         (''trading_pair'', JString (ob_trading_pair ob)), (''best_bid'', JReal (ob_best_bid ob)),
         (''best_ask'', JReal (ob_best_ask ob)), (''spread'', JReal (ob_spread ob)),
         (''best_bid_qty'', JReal (ob_best_bid_qty ob)), (''best_ask_qty'', JReal (ob_best_ask_qty ob))])]"

section \<open>The client\<close>

datatype payload = Bytes "u8 list" | Text string

text \<open>A task without topic is one for a type that the client does not know: it only logs.\<close>

datatype kafka_task = Produce "string option" payload | Flush

record KafkaClient =
  kc_producer :: bool
  kc_posted :: "kafka_task list"
  kc_produced :: "(string \<times> payload) list"
  kc_flushed :: nat

definition KafkaClient_new :: KafkaClient where
  "KafkaClient_new = \<lparr>kc_producer = True, kc_posted = [], kc_produced = [], kc_flushed = 0\<rparr>"

definition kafka_post :: "kafka_task \<Rightarrow> KafkaClient \<Rightarrow> KafkaClient" where
  "kafka_post task c = c\<lparr>kc_posted := kc_posted c @ [task]\<rparr>"

datatype bytes_type = TOrderBook | TWallet | TPnl | TTrades | TOtherBytes
datatype json_type_of_object = JOrderBook | JWallet | JPnl | JReport | JDictionary | JOtherObject

fun bytes_topic :: "bytes_type \<Rightarrow> string option" where
  "bytes_topic TOrderBook = Some ''orderbook''"
| "bytes_topic TWallet = Some ''wallet''"
| "bytes_topic TPnl = Some ''pnl''"
| "bytes_topic TTrades = Some ''trade_dictionary''"
| "bytes_topic TOtherBytes = None"

fun json_topic :: "json_type_of_object \<Rightarrow> string option" where
  "json_topic JOrderBook = Some ''orderbook''"
| "json_topic JWallet = Some ''wallet''"
| "json_topic JPnl = Some ''pnl''"
| "json_topic JReport = Some ''trade''"
| "json_topic JDictionary = Some ''trade_dictionary''"
| "json_topic JOtherObject = None"

text \<open>\<open>serialize\<close> is \<open>SerializeTo\<close> of the object, which fills an empty vector.\<close>

definition SendMessage :: "bytes_type \<Rightarrow> (u8 list \<Rightarrow> u8 list) \<Rightarrow> KafkaClient \<Rightarrow> KafkaClient" where
  "SendMessage ty serialize c =
     (if \<not> kc_producer c then c else kafka_post (Produce (bytes_topic ty) (Bytes (serialize []))) c)"

definition SendMessageAsJson :: "(json \<Rightarrow> string) \<Rightarrow> json_type_of_object \<Rightarrow> json \<Rightarrow> KafkaClient \<Rightarrow> KafkaClient" where
  "SendMessageAsJson dump ty json_object c =
     (if \<not> kc_producer c then c else kafka_post (Produce (json_topic ty) (Text (dump json_object))) c)"

definition WaitUntilFinished :: "KafkaClient \<Rightarrow> KafkaClient" where
  "WaitUntilFinished c = (if \<not> kc_producer c then c else kafka_post Flush c)"

text \<open>The thread runs the next task; \<open>throws\<close> says that \<open>produce\<close> throws.\<close>

definition run_posted :: "bool \<Rightarrow> KafkaClient \<Rightarrow> KafkaClient" where
  "run_posted throws c =
     (case kc_posted c of
        [] \<Rightarrow> c
      | Flush # ts \<Rightarrow> c\<lparr>kc_posted := ts, kc_flushed := length (kc_produced c)\<rparr>
      | Produce None _ # ts \<Rightarrow> c\<lparr>kc_posted := ts\<rparr>
      | Produce (Some topic) p # ts \<Rightarrow>
          c\<lparr>kc_posted := ts, kc_produced := (if throws then kc_produced c else kc_produced c @ [(topic, p)])\<rparr>)"

section \<open>The component\<close>

definition ValidatePrices :: "NewBBO option \<Rightarrow> bool" where
  "ValidatePrices event =
     (case event of
        None \<Rightarrow> False
      | Some e \<Rightarrow>
          if bid_price (nb_bbo e) = kPriceInvalid then False
          else if ask_price (nb_bbo e) = kPriceInvalid then False
          else True)"

definition GetFormattedPrice :: "rounding \<Rightarrow> ExchangeTradingPairs \<Rightarrow> bool \<Rightarrow> NewBBO option \<Rightarrow> bool \<times> rat" where
  "GetFormattedPrice rnd etp need_bid event =
     (case event of
        None \<Rightarrow> (False, 0)
      | Some e \<Rightarrow>
          (case GetPairInfo (nb_exchange_id e) (nb_trading_pair e) etp of
             None \<Rightarrow> (False, 0)
           | Some info \<Rightarrow>
               let multiplier = pow10_neg rnd (price_precission info) in
               if need_bid then (True, fmul rnd (double_of_u64 rnd (bid_price (nb_bbo e))) multiplier)
               else (True, fmul rnd (double_of_u64 rnd (ask_price (nb_bbo e))) multiplier)))"

definition GetFormattedQty :: "rounding \<Rightarrow> ExchangeTradingPairs \<Rightarrow> bool \<Rightarrow> NewBBO option \<Rightarrow> bool \<times> rat" where
  "GetFormattedQty rnd etp need_bid event =
     (case event of
        None \<Rightarrow> (False, 0)
      | Some e \<Rightarrow>
          (case GetPairInfo (nb_exchange_id e) (nb_trading_pair e) etp of
             None \<Rightarrow> (False, 0)
           | Some info \<Rightarrow>
               let multiplier = pow10_neg rnd (qty_precission info) in
               if need_bid then (True, fmul rnd (double_of_u64 rnd (bid_qty (nb_bbo e))) multiplier)
               else (True, fmul rnd (double_of_u64 rnd (ask_qty (nb_bbo e))) multiplier)))"

text \<open>\<open>None\<close> is the object that \<open>OrderBook()\<close> makes, whose numbers are not initialised.\<close>

definition PrepareOrderBook ::
    "rounding \<Rightarrow> ExchangeTradingPairs \<Rightarrow> NewBBO option \<Rightarrow> TradingPairInfo \<Rightarrow> OrderBook_model option" where
  "PrepareOrderBook rnd etp event info =
     (case event of
        None \<Rightarrow> None
      | Some e \<Rightarrow>
          let (status_ask, ask) = GetFormattedPrice rnd etp False event;
              (status_bid, bid) = GetFormattedPrice rnd etp True event;
              (status_ask_qty, askq) = GetFormattedQty rnd etp False event;
              (status_bid_qty, bidq) = GetFormattedQty rnd etp True event in
          if \<not> status_ask then None
          else if \<not> status_bid then None
          else if \<not> status_bid_qty then None
          else if \<not> status_ask_qty then None
          else Some \<lparr>ob_exchange = ExchangeIdPrinter (nb_exchange_id e), ob_market_type = MarketTypePrinter (nb_market_type e),
                 ob_trading_pair = https_json_request info, ob_best_bid = bid, ob_best_ask = ask,
                 ob_spread = fsub rnd ask bid, ob_best_bid_qty = bidq, ob_best_ask_qty = askq\<rparr>)"

definition HandleEventAsync_bbo ::
    "rounding \<Rightarrow> (json \<Rightarrow> string) \<Rightarrow> ExchangeTradingPairs \<Rightarrow> NewBBO option \<Rightarrow> KafkaClient \<Rightarrow> KafkaClient result" where
  "HandleEventAsync_bbo rnd dump etp event c =
     (case event of
        None \<Rightarrow> Inr c
      | Some e \<Rightarrow>
          (case GetPairInfo (nb_exchange_id e) (nb_trading_pair e) etp of
             None \<Rightarrow> Inr c
           | Some info \<Rightarrow>
               if \<not> ValidatePrices event then Inr c
               else (case PrepareOrderBook rnd etp event info of
                       None \<Rightarrow> (if kc_producer c then Inl Undefined else Inr c)
                     | Some ob \<Rightarrow> Inr (SendMessageAsJson dump JOrderBook (OrderBook_SerializeToJson ob) c))))"

definition HandleEventAsync_report ::
    "rounding \<Rightarrow> (json \<Rightarrow> string) \<Rightarrow> ExchangeTradingPairs \<Rightarrow> ArbitrageReport option \<Rightarrow> KafkaClient \<Rightarrow> KafkaClient" where
  "HandleEventAsync_report rnd dump etp event c =
     (case event of
        None \<Rightarrow> c
      | Some r \<Rightarrow>
          SendMessageAsJson dump JReport (ArbitrageReportString_SerializeToJson (ArbitrageReportString_new rnd r etp)) c)"

definition HandleEventAsync_dictionary ::
    "protobuf \<Rightarrow> hash_combine \<Rightarrow> std_hash \<Rightarrow> (ArbitrageCycle list \<Rightarrow> ArbitrageCycle list) \<Rightarrow> ExchangeTradingPairs \<Rightarrow>
     TradeDictionary \<Rightarrow> KafkaClient \<Rightarrow> KafkaClient" where
  "HandleEventAsync_dictionary pb hc sh order etp event c =
     SendMessage TTrades (\<lambda>_. Trades_SerializeTo pb hc sh order etp event) c"

text \<open>The events of the bus: the outer option is the event, the inner one what it wraps.  Each spawns one coroutine, which
  does not suspend.\<close>

datatype redpanda_event =
    NewBBOEvent "NewBBO option option"
  | ReportEvent "ArbitrageReport option option"
  | DictionaryEvent TradeDictionary

definition redpanda_AsyncHandleEvent ::
    "rounding \<Rightarrow> (json \<Rightarrow> string) \<Rightarrow> protobuf \<Rightarrow> hash_combine \<Rightarrow> std_hash \<Rightarrow> (ArbitrageCycle list \<Rightarrow> ArbitrageCycle list) \<Rightarrow>
     ExchangeTradingPairs \<Rightarrow> redpanda_event \<Rightarrow> KafkaClient \<Rightarrow> KafkaClient result" where
  "redpanda_AsyncHandleEvent rnd dump pb hc sh order etp ev c =
     (case ev of
        NewBBOEvent None \<Rightarrow> Inr c
      | NewBBOEvent (Some None) \<Rightarrow> Inr c
      | NewBBOEvent (Some e) \<Rightarrow> HandleEventAsync_bbo rnd dump etp e c
      | ReportEvent None \<Rightarrow> Inr c
      | ReportEvent (Some None) \<Rightarrow> Inr c
      | ReportEvent (Some e) \<Rightarrow> Inr (HandleEventAsync_report rnd dump etp e c)
      | DictionaryEvent d \<Rightarrow> Inr (HandleEventAsync_dictionary pb hc sh order etp d c))"

section \<open>What is published\<close>

text \<open>The quote of a known pair, with the numbers that \<open>GetPriceDouble\<close> and \<open>GetQtyDouble\<close> give.\<close>

definition quote_message :: "rounding \<Rightarrow> TradingPairInfo \<Rightarrow> NewBBO \<Rightarrow> OrderBook_model" where
  "quote_message rnd info e =
     (let bid = GetPriceDouble rnd info (bid_price (nb_bbo e)); ask = GetPriceDouble rnd info (ask_price (nb_bbo e)) in
      \<lparr>ob_exchange = ExchangeIdPrinter (nb_exchange_id e), ob_market_type = MarketTypePrinter (nb_market_type e),
       ob_trading_pair = https_json_request info, ob_best_bid = bid, ob_best_ask = ask, ob_spread = fsub rnd ask bid,
       ob_best_bid_qty = GetQtyDouble rnd info (bid_qty (nb_bbo e)), ob_best_ask_qty = GetQtyDouble rnd info (ask_qty (nb_bbo e))\<rparr>)"

definition quote_of :: "ExchangeTradingPairs \<Rightarrow> NewBBO \<Rightarrow> TradingPairInfo option" where
  "quote_of etp e =
     (if bid_price (nb_bbo e) = kPriceInvalid \<or> ask_price (nb_bbo e) = kPriceInvalid then None
      else GetPairInfo (nb_exchange_id e) (nb_trading_pair e) etp)"

fun event_messages ::
    "rounding \<Rightarrow> (json \<Rightarrow> string) \<Rightarrow> protobuf \<Rightarrow> hash_combine \<Rightarrow> std_hash \<Rightarrow> (ArbitrageCycle list \<Rightarrow> ArbitrageCycle list) \<Rightarrow>
     ExchangeTradingPairs \<Rightarrow> redpanda_event \<Rightarrow> (string \<times> payload) list" where
  "event_messages rnd dump pb hc sh order etp (NewBBOEvent (Some (Some e))) =
     (case quote_of etp e of
        None \<Rightarrow> []
      | Some info \<Rightarrow> [(''orderbook'', Text (dump (OrderBook_SerializeToJson (quote_message rnd info e))))])"
| "event_messages rnd dump pb hc sh order etp (NewBBOEvent _) = []"
| "event_messages rnd dump pb hc sh order etp (ReportEvent (Some (Some r))) =
     [(''trade'', Text (dump (ArbitrageReportString_SerializeToJson (ArbitrageReportString_new rnd r etp))))]"
| "event_messages rnd dump pb hc sh order etp (ReportEvent _) = []"
| "event_messages rnd dump pb hc sh order etp (DictionaryEvent d) =
     [(''trade_dictionary'', Bytes (Trades_SerializeTo pb hc sh order etp d))]"

lemma PrepareOrderBook_known:
  assumes "GetPairInfo (nb_exchange_id e) (nb_trading_pair e) etp = Some info"
  shows "PrepareOrderBook rnd etp (Some e) info = Some (quote_message rnd info e)"
  using assms
  by (simp add: PrepareOrderBook_def GetFormattedPrice_def GetFormattedQty_def quote_message_def GetPriceDouble_def
      GetQtyDouble_def Let_def)

definition post_all :: "(string \<times> payload) list \<Rightarrow> KafkaClient \<Rightarrow> KafkaClient" where
  "post_all ms c = c\<lparr>kc_posted := kc_posted c @ List.map (\<lambda>(topic, p). Produce (Some topic) p) ms\<rparr>"

lemma post_all_simps [simp]:
  "post_all [] c = c" "post_all ms' (post_all ms c) = post_all (ms @ ms') c" "kc_producer (post_all ms c) = kc_producer c"
  by (simp_all add: post_all_def)

lemma HandleEventAsync_bbo_posts:
  assumes "kc_producer c"
  shows "HandleEventAsync_bbo rnd dump etp (Some e) c =
         Inr (post_all (event_messages rnd dump pb hc sh order etp (NewBBOEvent (Some (Some e)))) c)"
  using assms
  by (cases "GetPairInfo (nb_exchange_id e) (nb_trading_pair e) etp")
     (simp_all add: HandleEventAsync_bbo_def quote_of_def ValidatePrices_def PrepareOrderBook_known SendMessageAsJson_def
       kafka_post_def post_all_def)

lemma redpanda_event_posts:
  assumes "kc_producer c"
  shows "redpanda_AsyncHandleEvent rnd dump pb hc sh order etp ev c =
         Inr (post_all (event_messages rnd dump pb hc sh order etp ev) c)"
  by (rule event_messages.cases [of "(rnd, dump, pb, hc, sh, order, etp, ev)"])
     (use assms in \<open>simp_all add: redpanda_AsyncHandleEvent_def HandleEventAsync_bbo_posts [of _ _ _ _ _ pb hc sh order]
        HandleEventAsync_report_def HandleEventAsync_dictionary_def SendMessageAsJson_def SendMessage_def kafka_post_def post_all_def
        del: event_messages.simps(1)\<close>)

lemma redpanda_events_post:
  "kc_producer c \<Longrightarrow>
   fold_result (redpanda_AsyncHandleEvent rnd dump pb hc sh order etp) es c =
   Inr (post_all (concat (List.map (event_messages rnd dump pb hc sh order etp) es)) c)"
  by (induction es arbitrary: c) (simp_all add: redpanda_event_posts)

lemma run_all_posted:
  "kc_posted c = List.map (\<lambda>(topic, p). Produce (Some topic) p) ms \<Longrightarrow>
   kc_produced ((run_posted False ^^ length ms) c) = kc_produced c @ ms \<and> kc_posted ((run_posted False ^^ length ms) c) = []"
proof (induction ms arbitrary: c)
  case (Cons m ms)
  let ?c = "run_posted False c"
  have c: "kc_posted ?c = List.map (\<lambda>(topic, p). Produce (Some topic) p) ms" "kc_produced ?c = kc_produced c @ [m]"
    using Cons.prems by (simp_all add: run_posted_def split: prod.split)
  have "(run_posted False ^^ length (m # ms)) c = (run_posted False ^^ length ms) ?c"
    by (simp add: funpow_swap1)
  then show ?case using Cons.IH [OF c(1)] c(2) by simp
qed simp


text \<open>A quote whose bid is not above its ask is published with a spread that is not negative.\<close>

lemma published_spread_nonneg:
  assumes "ieee_rounding rnd" and "bid_price (nb_bbo e) \<le> ask_price (nb_bbo e)"
  shows "ob_best_bid (quote_message rnd info e) \<le> ob_best_ask (quote_message rnd info e) \<and> 0 \<le> ob_spread (quote_message rnd info e)"
proof -
  have m: "0 \<le> pow10_neg rnd (price_precission info)" by (simp add: pow10_neg_def ieee_nonneg [OF assms(1)])
  have "double_of_u64 rnd (bid_price (nb_bbo e)) \<le> double_of_u64 rnd (ask_price (nb_bbo e))"
    using assms by (rule double_of_u64_mono)
  then have le: "GetPriceDouble rnd info (bid_price (nb_bbo e)) \<le> GetPriceDouble rnd info (ask_price (nb_bbo e))"
    using m by (auto simp: GetPriceDouble_def fmul_def intro: ieee_mono [OF assms(1)] mult_right_mono)
  then have "0 \<le> fsub rnd (GetPriceDouble rnd info (ask_price (nb_bbo e))) (GetPriceDouble rnd info (bid_price (nb_bbo e)))"
    by (simp add: fsub_def ieee_nonneg [OF assms(1)])
  with le show ?thesis by (simp add: quote_message_def Let_def)
qed


section \<open>The dictionary of trades\<close>

definition cycle_order :: "(ArbitrageCycle list \<Rightarrow> ArbitrageCycle list) \<Rightarrow> bool" where
  "cycle_order order \<longleftrightarrow> (\<forall>xs. set (order xs) = set xs)"

definition step_transactions :: "ExchangeTradingPairs \<Rightarrow> Step \<Rightarrow> proto_Transaction list" where
  "step_transactions etp step =
     (case GetPairInfo (st_exchange_id step) (st_trading_pair step) etp of
        None \<Rightarrow> [] | Some info \<Rightarrow> [Transaction_message (Transaction_of_step step info)])"

lemma add_transaction_eq:
  "add_transaction etp step message = message\<lparr>pt_transactions := pt_transactions message @ step_transactions etp step\<rparr>"
  by (simp add: add_transaction_def step_transactions_def Transaction_message_def Transaction_of_step_def split: option.split)

lemma Trade_message_steps:
  "Trade_message hc sh etp cycle =
     \<lparr>pt_id = ArbitrageCycleHash hc sh cycle, pt_transactions = concat (List.map (step_transactions etp) cycle)\<rparr>"
proof -
  have "fold (add_transaction etp) steps message =
        message\<lparr>pt_transactions := pt_transactions message @ concat (List.map (step_transactions etp) steps)\<rparr>" for steps message
    by (induction steps arbitrary: message) (simp_all add: add_transaction_eq)
  then show ?thesis by (simp add: Trade_message_def)
qed

lemma add_trade_eq:
  assumes "protobuf_ok pb"
  shows "add_trade pb hc sh etp = (\<lambda>cycle m. m(ArbitrageCycleHash hc sh cycle \<mapsto> Trade_message hc sh etp cycle))"
  using assms by (simp add: fun_eq_iff add_trade_def Trade_SerializeTo_def protobuf_ok_def Let_def)

text \<open>When the hashes of the cycles differ, the published dictionary has under the hash of each cycle its steps in
  their order, with the name of the pair, the exchange, the market and the action of each step whose pair is known, and nothing
  under any other number; it goes to the topic of the dictionary.\<close>

theorem dictionary_published:
  assumes "protobuf_ok pb" and "cycle_order order" and "inj_on (ArbitrageCycleHash hc sh) (snd ` set d)" and "kc_producer c"
  shows "\<exists>message. HandleEventAsync_dictionary pb hc sh order etp d c =
           kafka_post (Produce (Some ''trade_dictionary'') (Bytes (pb_Trades pb message))) c \<and>
         (\<forall>cycle \<in> snd ` set d. message (ArbitrageCycleHash hc sh cycle) =
           Some \<lparr>pt_id = ArbitrageCycleHash hc sh cycle, pt_transactions = concat (List.map (step_transactions etp) cycle)\<rparr>) \<and>
         (\<forall>id. id \<notin> ArbitrageCycleHash hc sh ` snd ` set d \<longrightarrow> message id = None)"
proof -
  let ?h = "ArbitrageCycleHash hc sh" and ?cs = "order (GetUniqueCycles d)"
  let ?message = "Trades_message pb hc sh order etp d"
  have cs: "set ?cs = snd ` set d" using assms(2) GetUniqueCycles_spec [of d] by (simp add: cycle_order_def)
  have m: "?message = fold (\<lambda>cycle m. m(?h cycle \<mapsto> Trade_message hc sh etp cycle)) ?cs Map.empty"
    by (simp only: Trades_message_def add_trade_eq [OF assms(1)])
  have "?message (?h cycle) = Some (Trade_message hc sh etp cycle)" if "cycle \<in> snd ` set d" for cycle
    unfolding m by (rule fold_upd_hit) (use that assms(3) cs in \<open>auto simp: inj_on_eq_iff\<close>)
  moreover have "?message id = None" if "id \<notin> ?h ` snd ` set d" for id
    using that unfolding m cs [symmetric] by (subst fold_upd_miss) auto
  moreover have "HandleEventAsync_dictionary pb hc sh order etp d c =
      kafka_post (Produce (Some ''trade_dictionary'') (Bytes (pb_Trades pb ?message))) c"
    using assms(4) by (simp add: HandleEventAsync_dictionary_def SendMessage_def Trades_SerializeTo_def)
  ultimately show ?thesis by (intro exI [of _ ?message]) (simp add: Trade_message_steps)
qed


text \<open>An instance of Protocol Buffers: the bits of the id, then the transactions, each after a byte 1.\<close>

definition put_u64 :: "u64 \<Rightarrow> u8 list" where
  "put_u64 w = List.map (\<lambda>i. of_bool (bit w i)) [0..<64]"

definition get_u64 :: "u8 list \<Rightarrow> u64" where
  "get_u64 bs = horner_sum of_bool 2 (List.map (\<lambda>b. b = 1) bs)"

lemma get_put_u64 [simp]: "get_u64 (put_u64 w) = w"
proof -
  have "get_u64 (put_u64 w) = horner_sum of_bool 2 (List.map (bit w) [0..<64])"
    by (simp add: get_u64_def put_u64_def comp_def del: upt.simps upt_rec_numeral)
  also have "\<dots> = take_bit 64 w" by (rule horner_sum_bit_eq_take_bit)
  finally show ?thesis by (simp add: take_bit_word_eq_self)
qed

fun put_string :: "string \<Rightarrow> u8 list" where
  "put_string [] = [0]"
| "put_string (c # cs) = 1 # word_of_nat (of_char c) # put_string cs"

fun get_string :: "u8 list \<Rightarrow> string \<times> u8 list" where
  "get_string (b # c # bs) = (if b = 1 then let (s, rest) = get_string bs in (char_of (unat c) # s, rest) else ([], c # bs))"
| "get_string bs = ([], tl bs)"

lemma get_put_string [simp]: "get_string (put_string s @ rest) = (s, rest)"
proof (induction s)
  case Nil
  then show ?case by (cases rest) simp_all
next
  case (Cons c s)
  have "unat (word_of_nat (of_char c) :: u8) = of_char c" by (simp add: unat_of_nat)
  with Cons show ?case by simp
qed

fun put_transactions :: "proto_Transaction list \<Rightarrow> u8 list" where
  "put_transactions [] = []"
| "put_transactions (t # ts) =
     (case px_exchange_id t of BINANCE \<Rightarrow> 0 | BYBIT \<Rightarrow> 1 | MEXC \<Rightarrow> 2 | EXCHANGE_ID_INVALID \<Rightarrow> 3) #
     (case px_market_type t of SPOT \<Rightarrow> 0 | FUTURES \<Rightarrow> 1 | OPTIONS \<Rightarrow> 2 | MARKET_TYPE_INVALID \<Rightarrow> 3) #
     (case px_transaction_action t of BUY \<Rightarrow> 0 | SELL \<Rightarrow> 1) # put_string (px_trading_pair t) @ put_transactions ts"

lemma get_string_shorter: "length (snd (get_string bs)) \<le> length bs"
  by (induction bs rule: get_string.induct) (auto split: prod.split)

function get_transactions :: "u8 list \<Rightarrow> proto_Transaction list" where
  "get_transactions (e # m # a # bs) =
     \<lparr>px_trading_pair = fst (get_string bs),
      px_exchange_id = (if e = 0 then BINANCE else if e = 1 then BYBIT else if e = 2 then MEXC else EXCHANGE_ID_INVALID),
      px_market_type = (if m = 0 then SPOT else if m = 1 then FUTURES else if m = 2 then OPTIONS else MARKET_TYPE_INVALID),
      px_transaction_action = (if a = 0 then BUY else SELL)\<rparr> # get_transactions (snd (get_string bs))"
| "get_transactions [] = []"
| "get_transactions [e] = []"
| "get_transactions [e, m] = []"
  by pat_completeness auto
termination
  by (relation "measure length") (use get_string_shorter in \<open>auto simp: less_Suc_eq_le le_SucI\<close>)

lemma get_put_transactions [simp]: "get_transactions (put_transactions ts) = ts"
proof (induction ts)
  case (Cons t ts)
  then show ?case
    by (cases "px_exchange_id t"; cases "px_market_type t"; cases "px_transaction_action t") simp_all
qed simp

definition tiny_protobuf :: protobuf where
  "tiny_protobuf =
     \<lparr>pb_Transaction = (\<lambda>t. put_transactions [t]),
      pb_Trade = (\<lambda>t. put_u64 (pt_id t) @ put_transactions (pt_transactions t)),
      pb_Trades = (\<lambda>_. []), pb_Wallet = (\<lambda>_. []), pb_Pnl = (\<lambda>_. []),
      pb_parse_Trade = (\<lambda>bs. (True, \<lparr>pt_id = get_u64 (take 64 bs), pt_transactions = get_transactions (drop 64 bs)\<rparr>))\<rparr>"

lemma length_put_u64 [simp]: "length (put_u64 w) = 64"
  by (simp add: put_u64_def)

lemma tiny_protobuf_ok: "protobuf_ok tiny_protobuf"
  by (simp add: protobuf_ok_def tiny_protobuf_def)

definition dict_info :: TradingPairInfo where
  "dict_info = \<lparr>price_precission = 2, qty_precission = 5, https_json_request = ''BTCUSDT'', https_query_request = '''',
     ws_query_request = '''', https_query_response = ''''\<rparr>"

definition one_hash :: std_hash where
  "one_hash = \<lparr>hash_ticker = (\<lambda>_. 1), hash_enum = (\<lambda>_. 1)\<rparr>"

definition dict_step :: "ExchangeId \<Rightarrow> Operation \<Rightarrow> Step" where
  "dict_step ex oper =
     \<lparr>st_trading_pair = \<lparr>tp_first = 1, tp_second = 2\<rparr>, st_exchange_id = ex, st_market_type = kSpot, st_operation = oper\<rparr>"

theorem dictionary_published_witness:
  "\<exists>message. HandleEventAsync_dictionary tiny_protobuf (\<lambda>a b. a + b) one_hash (\<lambda>xs. xs)
       (AddOrUpdatePair kBinance \<lparr>tp_first = 1, tp_second = 2\<rparr> dict_info [])
       [(7, [dict_step kBinance kBuy, dict_step kBybit kSell])] KafkaClient_new =
         kafka_post (Produce (Some ''trade_dictionary'') (Bytes (pb_Trades tiny_protobuf message))) KafkaClient_new \<and>
     (\<exists>id. message id = Some \<lparr>pt_id = id, pt_transactions =
        [\<lparr>px_trading_pair = ''BTCUSDT'', px_exchange_id = BINANCE, px_market_type = SPOT, px_transaction_action = BUY\<rparr>]\<rparr>)"
proof -
  let ?etp = "AddOrUpdatePair kBinance \<lparr>tp_first = 1, tp_second = 2\<rparr> dict_info []"
  let ?cycle = "[dict_step kBinance kBuy, dict_step kBybit kSell]"
  have "concat (List.map (step_transactions ?etp) ?cycle) =
      [\<lparr>px_trading_pair = ''BTCUSDT'', px_exchange_id = BINANCE, px_market_type = SPOT, px_transaction_action = BUY\<rparr>]"
    by (simp add: step_transactions_def dict_step_def dict_info_def GetPairInfo_def AddOrUpdatePair_def Transaction_message_def
        Transaction_of_step_def)
  moreover have "cycle_order (\<lambda>xs. xs)" by (simp add: cycle_order_def)
  ultimately show ?thesis
    using dictionary_published [OF tiny_protobuf_ok, of "\<lambda>xs. xs" "\<lambda>a b. a + b" one_hash "[(7, ?cycle)]" KafkaClient_new ?etp]
    by (fastforce simp: KafkaClient_new_def)
qed


text \<open>Sent as bytes, an order book is an empty message.\<close>

lemma order_book_bytes_empty:
  "kc_producer c \<Longrightarrow> SendMessage TOrderBook (OrderBook_SerializeTo ob) c = kafka_post (Produce (Some ''orderbook'') (Bytes [])) c"
  by (simp add: SendMessage_def OrderBook_SerializeTo_def)


end
