(* ===== verification/Bus_Components.thy ===== *)
theory Bus_Components
  imports Wallet Position_Keeper
begin

text \<open>
  The components that join the order manager, the position keeper and the wallets to the bus: \<open>OrderManagerComponent\<close> of
  aot/strategy/order_manager.h, \<open>PositionKeeperComponent\<close> of aot/strategy/position_keeper.h and \<open>WalletComponent\<close> of
  aot/wallet_asset.h, with the events of aot/client_request.h and aot/client_response.h that they share.

  The bus passes one pointer to an event to every subscriber; each posts a task on its own executor, so the tasks run in
  any order.  The response that the event wraps lives in a block of a pool; reading it after it was given back is
  \<open>DanglingDeref\<close>.  Each task ends with \<open>Release\<close> of the event.
\<close>

section \<open>A response with several subscribers\<close>

record response_world =
  rw_refs :: int
  rw_response :: "nat option"
  rw_pool :: "MEClientResponse MemPool"
  rw_manager :: OrderManager
  rw_keeper :: ExchangePositionKeeper
  rw_wallets :: exchange_wallets

definition BusEventResponse_Deallocate :: "response_world \<Rightarrow> response_world result" where
  "BusEventResponse_Deallocate w =
     (case rw_response w of
        None \<Rightarrow> Inl NullDeref
      | Some i \<Rightarrow> bind_result (MemPool_deallocate (int i) (rw_pool w)) (\<lambda>pool.
          Inr (w\<lparr>rw_pool := pool, rw_response := None\<rparr>)))"

definition BusEvent_Release :: "response_world \<Rightarrow> response_world result" where
  "BusEvent_Release w =
     (let w1 = w\<lparr>rw_refs := rw_refs w - 1\<rparr> in
      if rw_refs w = 1 then BusEventResponse_Deallocate w1 else Inr w1)"

definition read_response :: "nat \<Rightarrow> MEClientResponse MemPool \<Rightarrow> MEClientResponse result" where
  "read_response i pool =
     (if \<not> i < length (mp_store pool) then Inl OutOfRange
      else if ob_is_free (mp_store pool ! i) then Inl DanglingDeref
      else Inr (ob_object (mp_store pool ! i)))"

text \<open>\<open>OrderManagerComponent\<close>: the manager gives the response back itself.\<close>

definition manager_HandleResponse :: "response_world \<Rightarrow> response_world result" where
  "manager_HandleResponse w =
     (case rw_response w of
        None \<Rightarrow> Inl NullDeref
      | Some i \<Rightarrow>
          bind_result (read_response i (rw_pool w)) (\<lambda>_.
          bind_result (OnOrderResponseI i (rw_pool w) (rw_manager w)) (\<lambda>(pool, m).
          BusEvent_Release (w\<lparr>rw_pool := pool, rw_manager := m\<rparr>))))"

text \<open>\<open>PositionKeeper::HandleResponse\<close>; \<open>AddFill\<close> does nothing for a null response.\<close>

definition keeper_HandleResponse :: "rounding \<Rightarrow> response_world \<Rightarrow> response_world result" where
  "keeper_HandleResponse rnd w =
     bind_result (case rw_response w of
                    None \<Rightarrow> Inr None
                  | Some i \<Rightarrow> bind_result (read_response i (rw_pool w)) (\<lambda>r. Inr (Some r))) (\<lambda>response.
     bind_result (Exchange_AddFill rnd response (rw_keeper w)) (\<lambda>ks.
     BusEvent_Release (w\<lparr>rw_keeper := ks\<rparr>)))"

definition wallet_HandleResponse :: "rounding \<Rightarrow> response_world \<Rightarrow> response_world result" where
  "wallet_HandleResponse rnd w =
     (case rw_response w of
        None \<Rightarrow> Inl NullDeref
      | Some i \<Rightarrow>
          bind_result (read_response i (rw_pool w)) (\<lambda>r.
          bind_result (Wallets_Update rnd r (rw_wallets w)) (\<lambda>ws.
          BusEvent_Release (w\<lparr>rw_wallets := ws\<rparr>))))"

datatype subscriber = SubManager | SubKeeper | SubWallet

fun handle_response :: "rounding \<Rightarrow> subscriber \<Rightarrow> response_world \<Rightarrow> response_world result" where
  "handle_response rnd SubManager w = manager_HandleResponse w"
| "handle_response rnd SubKeeper w = keeper_HandleResponse rnd w"
| "handle_response rnd SubWallet w = wallet_HandleResponse rnd w"

section \<open>Requests and reservations\<close>

text \<open>A wallet event is released after \<open>OnNewSignal\<close>; its \<open>Deallocate\<close> does nothing.\<close>

definition wallet_HandleReserve :: "rounding \<Rightarrow> BusEventReserveQty \<Rightarrow> exchange_wallets \<Rightarrow> exchange_wallets" where
  "wallet_HandleReserve rnd event ws = snd (Wallet_OnNewSignal rnd event ws)"

text \<open>\<open>BusEventRequestNewLimitOrder\<close> is a \<open>RequestNewOrder\<close> and also points to one.  Its constructor sets the pointer only;
  the inherited fields keep their defaults, where the tickers are not initialised (\<open>tp0\<close>).\<close>

definition RequestNewOrder_default :: "TradingPair \<Rightarrow> RequestNewOrder" where
  "RequestNewOrder_default tp0 =
     \<lparr>rn_exchange_id = kExchangeIdInvalid, rn_type = NEW, rn_trading_pair = tp0, rn_order_id = kOrderIdInvalid,
      rn_side = kSideInvalid, rn_price = kPriceInvalid, rn_qty = kQtyInvalid\<rparr>"

record BusEventRequestNewLimitOrder =
  bn_base :: RequestNewOrder
  bn_request :: RequestNewOrder

definition BusEventRequestNewLimitOrder_new :: "TradingPair \<Rightarrow> RequestNewOrder \<Rightarrow> BusEventRequestNewLimitOrder" where
  "BusEventRequestNewLimitOrder_new tp0 new_request =
     \<lparr>bn_base = RequestNewOrder_default tp0, bn_request = new_request\<rparr>"

definition manager_HandleNewLimitOrder :: "BusEventRequestNewLimitOrder \<Rightarrow> OrderManager \<Rightarrow> OrderManager" where
  "manager_HandleNewLimitOrder event m =
     NewOrder (rn_exchange_id (bn_base event)) (rn_trading_pair (bn_base event)) (rn_price (bn_base event))
       (rn_side (bn_base event)) (rn_qty (bn_base event)) m"

text \<open>\<open>order_manager::BusEventRequestCancelOrder\<close> adds the side to the fields of the request.\<close>

record BusEventRequestCancelOrder = RequestCancelOrder +
  bc_side :: Side

definition manager_HandleCancelOrder :: "BusEventRequestCancelOrder \<Rightarrow> OrderManager \<Rightarrow> OrderManager" where
  "manager_HandleCancelOrder event m = CancelOrder (rc_exchange_id event) (rc_trading_pair event) (bc_side event) m"

section \<open>Sharing a response\<close>

lemma release_counted:
  "rw_refs w \<noteq> 1 \<Longrightarrow> BusEvent_Release w = Inr (w\<lparr>rw_refs := rw_refs w - 1\<rparr>)"
  by (simp add: BusEvent_Release_def)

definition free_block :: "nat \<Rightarrow> MEClientResponse MemPool \<Rightarrow> MEClientResponse MemPool" where
  "free_block i p = p\<lparr>mp_store := (mp_store p)[i := (mp_store p ! i)\<lparr>ob_is_free := True\<rparr>]\<rparr>"

lemma release_last:
  assumes "rw_refs w = 1" and "rw_response w = Some i" and "i < length (mp_store (rw_pool w))"
    and "\<not> ob_is_free (mp_store (rw_pool w) ! i)"
  shows "BusEvent_Release w = Inr (w\<lparr>rw_refs := 0, rw_pool := free_block i (rw_pool w), rw_response := None\<rparr>)"
  using assms by (simp add: BusEvent_Release_def BusEventResponse_Deallocate_def MemPool_deallocate_def free_block_def)

text \<open>\<open>live_response\<close>: the event wraps an allocated block with the response \<open>r\<close>, to which the keeper and the wallets react
  without fault.\<close>

definition live_response :: "rounding \<Rightarrow> nat \<Rightarrow> MEClientResponse \<Rightarrow> ExchangePositionKeeper \<Rightarrow> exchange_wallets \<Rightarrow> response_world \<Rightarrow> bool" where
  "live_response rnd i r ks ws w \<longleftrightarrow>
     rw_response w = Some i \<and> i < length (mp_store (rw_pool w)) \<and> \<not> ob_is_free (mp_store (rw_pool w) ! i) \<and>
     ob_object (mp_store (rw_pool w) ! i) = r \<and>
     Exchange_AddFill rnd (Some r) (rw_keeper w) = Inr ks \<and> Wallets_Update rnd r (rw_wallets w) = Inr ws"

lemma live_response_read: "live_response rnd i r ks ws w \<Longrightarrow> read_response i (rw_pool w) = Inr r"
  by (simp add: live_response_def read_response_def)

lemma keeper_handles:
  "live_response rnd i r ks ws w \<Longrightarrow> keeper_HandleResponse rnd w = BusEvent_Release (w\<lparr>rw_keeper := ks\<rparr>)"
  using live_response_read by (auto simp: keeper_HandleResponse_def live_response_def)

lemma wallet_handles:
  "live_response rnd i r ks ws w \<Longrightarrow> wallet_HandleResponse rnd w = BusEvent_Release (w\<lparr>rw_wallets := ws\<rparr>)"
  using live_response_read by (auto simp: wallet_HandleResponse_def live_response_def)

text \<open>After one of the two has run without giving the block back, the other still finds the response.\<close>

lemma wallet_after_keeper:
  "live_response rnd i r ks ws w \<Longrightarrow>
   wallet_HandleResponse rnd (w\<lparr>rw_keeper := k, rw_refs := n\<rparr>) = BusEvent_Release (w\<lparr>rw_keeper := k, rw_refs := n, rw_wallets := ws\<rparr>)"
  using live_response_read by (auto simp: wallet_HandleResponse_def live_response_def)

lemma keeper_after_wallet:
  "live_response rnd i r ks ws w \<Longrightarrow>
   keeper_HandleResponse rnd (w\<lparr>rw_wallets := v, rw_refs := n\<rparr>) = BusEvent_Release (w\<lparr>rw_wallets := v, rw_refs := n, rw_keeper := ks\<rparr>)"
  using live_response_read by (auto simp: keeper_HandleResponse_def live_response_def)

lemma both_handle:
  assumes live: "live_response rnd i r ks ws w" and subs: "subs = [SubKeeper, SubWallet] \<or> subs = [SubWallet, SubKeeper]"
    and refs: "rw_refs w \<noteq> 1"
  shows "fold_result (handle_response rnd) subs w =
         BusEvent_Release (w\<lparr>rw_keeper := ks, rw_wallets := ws, rw_refs := rw_refs w - 1\<rparr>)"
proof -
  have bind: "bind_result x (fold_result f []) = x" for x :: "response_world result" and f :: "subscriber \<Rightarrow> _"
    by (cases x) simp_all
  have 1: "fold_result (handle_response rnd) [SubKeeper, SubWallet] w = wallet_HandleResponse rnd (w\<lparr>rw_keeper := ks, rw_refs := rw_refs w - 1\<rparr>)"
    using refs by (simp add: keeper_handles [OF live] release_counted bind)
  have 2: "fold_result (handle_response rnd) [SubWallet, SubKeeper] w = keeper_HandleResponse rnd (w\<lparr>rw_wallets := ws, rw_refs := rw_refs w - 1\<rparr>)"
    using refs by (simp add: wallet_handles [OF live] release_counted bind)
  show ?thesis using subs
  proof
    assume subs: "subs = [SubKeeper, SubWallet]"
    show ?thesis unfolding subs 1 wallet_after_keeper [OF live] by (cases w) simp
  next
    assume subs: "subs = [SubWallet, SubKeeper]"
    show ?thesis unfolding subs 2 keeper_after_wallet [OF live] by (cases w) simp
  qed
qed


text \<open>When the order manager runs before another subscriber of a response, for a pair it knows, it has given the block back
  and the other reads freed memory.\<close>

theorem response_freed_by_manager:
  assumes "live_response rnd i r ks ws w" and "om_orders (rw_manager w) (cr_trading_pair r) \<noteq> None" and "rw_refs w \<noteq> 1"
    and "sub \<noteq> SubManager"
  shows "fold_result (handle_response rnd) [SubManager, sub] w = Inl DanglingDeref"
proof -
  let ?pool = "free_block i (rw_pool w)"
  have live: "rw_response w = Some i" "i < length (mp_store (rw_pool w))" "\<not> ob_is_free (mp_store (rw_pool w) ! i)"
    "ob_object (mp_store (rw_pool w) ! i) = r" using assms(1) by (simp_all add: live_response_def)
  obtain m where "OnOrderResponseI i (rw_pool w) (rw_manager w) = Inr (?pool, m)"
    using assms(2) live by (auto simp: OnOrderResponseI_def MemPool_deallocate_def free_block_def Let_def)
  then have "manager_HandleResponse w = Inr (w\<lparr>rw_pool := ?pool, rw_manager := m, rw_refs := rw_refs w - 1\<rparr>)"
    using assms(3) live live_response_read [OF assms(1)] by (simp add: manager_HandleResponse_def release_counted)
  moreover have "read_response i ?pool = Inl DanglingDeref" using live by (simp add: read_response_def free_block_def)
  ultimately show ?thesis using live assms(4)
    by (cases sub) (simp_all add: keeper_HandleResponse_def wallet_HandleResponse_def)
qed

text \<open>When the event counts one reference, for the manager alone, the manager gives the response back and \<open>Release\<close> gives it
  back again, which fails the \<open>ASSERT\<close> of the pool.\<close>

lemma manager_double_free:
  assumes "live_response rnd i r ks ws w" and "om_orders (rw_manager w) (cr_trading_pair r) \<noteq> None" and "rw_refs w = 1"
  shows "manager_HandleResponse w = Inl AssertFailed"
  using assms
  by (auto simp: manager_HandleResponse_def live_response_def read_response_def OnOrderResponseI_def MemPool_deallocate_def
      BusEvent_Release_def BusEventResponse_Deallocate_def Let_def)

text \<open>The event of a new limit order reaches the order manager with the defaults of its base class: whatever order it wraps,
  the manager sends one without exchange, side, price and quantity.\<close>

theorem limit_order_event_loses_request:
  assumes "\<not> OrderIsLive (fst (GetOrder tp0 kSideInvalid m))"
  shows "om_sent_new (manager_HandleNewLimitOrder (BusEventRequestNewLimitOrder_new tp0 request) m) = om_sent_new m @
           [\<lparr>rn_exchange_id = kExchangeIdInvalid, rn_type = NEW, rn_trading_pair = tp0, rn_order_id = om_next_order_id m,
             rn_side = kSideInvalid, rn_price = kPriceInvalid, rn_qty = kQtyInvalid\<rparr>]"
  using assms
  by (auto simp: manager_HandleNewLimitOrder_def BusEventRequestNewLimitOrder_new_def RequestNewOrder_default_def NewOrder_def
      GetOrder_def put_order_def Let_def split: option.splits)

section \<open>Instances\<close>

definition accepted_response :: MEClientResponse where
  "accepted_response =
     \<lparr>cr_exchange_id = kBinance, cr_type = ACCEPTED, cr_trading_pair = \<lparr>tp_first = 1, tp_second = 2\<rparr>, cr_order_id = 7,
      cr_side = kBid, cr_price = 100, cr_exec_qty = 0, cr_leaves_qty = 5\<rparr>"

definition shared_world :: "int \<Rightarrow> response_world" where
  "shared_world refs =
     \<lparr>rw_refs = refs, rw_response = Some 0,
      rw_pool = \<lparr>mp_store = [\<lparr>ob_object = accepted_response, ob_is_free = False\<rparr>], mp_next_free_index = 0\<rparr>,
      rw_manager = OrderManager_new\<lparr>om_orders := [\<lparr>tp_first = 1, tp_second = 2\<rparr> \<mapsto> side_array]\<rparr>,
      rw_keeper = Map.empty, rw_wallets = [kBinance \<mapsto> Wallet_new\<lparr>w_reserves := [7 \<mapsto> ReservedForTicker_default]\<rparr>]\<rparr>"

lemma shared_world_live:
  "live_response (\<lambda>x. x) 0 accepted_response Map.empty [kBinance \<mapsto> Wallet_new] (shared_world refs)"
  by (simp add: live_response_def shared_world_def accepted_response_def Exchange_AddFill_def Wallets_Update_def Update_def
      erase_reserve_def Wallet_new_def)


theorem response_freed_by_manager_witness:
  "fold_result (handle_response (\<lambda>x. x)) [SubManager, SubWallet] (shared_world 3) = Inl DanglingDeref"
  by (rule response_freed_by_manager [OF shared_world_live]) (simp_all add: shared_world_def accepted_response_def)

theorem limit_order_event_loses_request_witness:
  "\<exists>request. rn_exchange_id request = kBinance \<and>
     List.map rn_exchange_id (om_sent_new (manager_HandleNewLimitOrder
       (BusEventRequestNewLimitOrder_new \<lparr>tp_first = 1, tp_second = 2\<rparr> request) OrderManager_new)) = [kExchangeIdInvalid]"
proof -
  let ?tp = "\<lparr>tp_first = 1, tp_second = 2\<rparr>"
  let ?request = "RequestNewOrder_default ?tp\<lparr>rn_exchange_id := kBinance\<rparr>"
  have "\<not> OrderIsLive (fst (GetOrder ?tp kSideInvalid OrderManager_new))" by code_simp
  from limit_order_event_loses_request [OF this, of ?request]
  show ?thesis by (intro exI [of _ ?request]) (simp add: OrderManager_new_def)
qed

end
