(* ===== verification/Drift_Detector.thy ===== *)
theory Drift_Detector
  imports Doubles "HOL-Library.Product_Lexorder"
begin

text \<open>
  The detectors of sandbox_algo/drift_detector/drift_detector.cpp: sharp moves of a price against the mean change in a
  sliding window, and the mutual information of two series in a window.

  \<^item> Doubles are rationals, rounded by \<open>rnd\<close>.  A value that is infinite or not a number is \<open>None\<close>; converting it to \<open>int\<close>
    is undefined.  \<open>log2\<close> is an argument.
  \<^item> A \<open>std::map\<close> is the list of its entries in the order of the keys.
\<close>

section \<open>Sliding windows and sharp moves\<close>

record SlidingWindow =
  sw_window :: "rat list"
  sw_actual_sum :: rat
  sw_window_size :: nat
  sw_last_value :: rat
  sw_last_value_was_init :: bool

text \<open>The constructor does not set \<open>last_value_\<close> (\<open>junk\<close>).\<close>

definition SlidingWindow_new :: "rat \<Rightarrow> nat \<Rightarrow> SlidingWindow" where
  "SlidingWindow_new junk n =
     \<lparr>sw_window = [], sw_actual_sum = 0, sw_window_size = n, sw_last_value = junk, sw_last_value_was_init = False\<rparr>"

definition AddElement :: "rounding \<Rightarrow> rat \<Rightarrow> SlidingWindow \<Rightarrow> SlidingWindow" where
  "AddElement rnd t w0 =
     (let w = w0\<lparr>sw_last_value_was_init := True, sw_actual_sum := fadd rnd (sw_actual_sum w0) t,
                 sw_window := sw_window w0 @ [t], sw_last_value := t\<rparr>
      in if length (sw_window w) > sw_window_size w
         then w\<lparr>sw_actual_sum := fsub rnd (sw_actual_sum w) (hd (sw_window w)), sw_window := tl (sw_window w)\<rparr>
         else w)"

definition GetAverage :: "rounding \<Rightarrow> SlidingWindow \<Rightarrow> bool \<times> rat option" where
  "GetAverage rnd w =
     (if length (sw_window w) < sw_window_size w then (False, Some 0)
      else (True, if sw_window_size w = 0 then None
                  else Some (fdiv rnd (sw_actual_sum w) (rnd (of_nat (sw_window_size w))))))"

definition LastValue :: "SlidingWindow \<Rightarrow> bool \<times> rat" where
  "LastValue w = (sw_last_value_was_init w, sw_last_value w)"

record SharpMove =
  sh_index :: nat
  sh_price_change :: rat
  sh_avg_change :: rat

text \<open>One pass of the loop.  A comparison with a value that is not a number is false.\<close>

definition sharp_step :: "rounding \<Rightarrow> rat list \<Rightarrow> rat \<Rightarrow> nat \<Rightarrow> SlidingWindow \<times> SharpMove list \<Rightarrow> SlidingWindow \<times> SharpMove list" where
  "sharp_step rnd prices thr i st =
     (let (change_window, sharp_moves) = st;
          current_change = fsub rnd (prices ! i) (prices ! (i - 1));
          change_window = AddElement rnd \<bar>current_change\<bar> change_window
      in case GetAverage rnd change_window of
           (True, Some avg_change) \<Rightarrow>
             if \<bar>current_change\<bar> > fmul rnd thr avg_change
             then (change_window, sharp_moves @ [\<lparr>sh_index = i, sh_price_change = current_change, sh_avg_change = avg_change\<rparr>])
             else (change_window, sharp_moves)
         | _ \<Rightarrow> (change_window, sharp_moves))"

definition detectSharpMoves :: "rounding \<Rightarrow> rat \<Rightarrow> rat list \<Rightarrow> nat \<Rightarrow> rat \<Rightarrow> SharpMove list" where
  "detectSharpMoves rnd junk prices window_size thr =
     snd (fold (sharp_step rnd prices thr) [1..<length prices] (SlidingWindow_new junk window_size, []))"

section \<open>Histograms and mutual information\<close>

text \<open>\<open>int bin_index = (value - min_val) / bin_width\<close> with \<open>bin_width = (max_val - min_val) / bins\<close>.  Without bins the width is
  infinite, unless all values are equal.\<close>

definition trunc_to_int :: "rat \<Rightarrow> int result" where
  "trunc_to_int q =
     (let i = (if 0 \<le> q then \<lfloor>q\<rfloor> else \<lceil>q\<rceil>) in if - (2 ^ 31) \<le> i \<and> i < 2 ^ 31 then Inr i else Inl Undefined)"

definition bin_index :: "rounding \<Rightarrow> rat \<Rightarrow> rat \<Rightarrow> int \<Rightarrow> rat \<Rightarrow> int result" where
  "bin_index rnd min_val max_val bins value =
     (if bins = 0 then (if fsub rnd max_val min_val = 0 then Inl Undefined else Inr 0)
      else let bin_width = fdiv rnd (fsub rnd max_val min_val) (rnd (of_int bins)) in
           if bin_width = 0 then Inl Undefined
           else trunc_to_int (fdiv rnd (fsub rnd value min_val) bin_width))"

fun hist_inc :: "rounding \<Rightarrow> 'k::linorder \<Rightarrow> ('k \<times> rat) list \<Rightarrow> ('k \<times> rat) list" where
  "hist_inc rnd k [] = [(k, fadd rnd 0 1)]"
| "hist_inc rnd k ((k', c) # h) =
     (if k < k' then (k, fadd rnd 0 1) # (k', c) # h
      else if k = k' then (k', fadd rnd c 1) # h
      else (k', c) # hist_inc rnd k h)"

definition normalise :: "rounding \<Rightarrow> nat \<Rightarrow> ('k \<times> rat) list \<Rightarrow> ('k \<times> rat) list" where
  "normalise rnd n h = List.map (\<lambda>(k, c). (k, fdiv rnd c (rnd (of_nat n)))) h"

definition ComputeHistogram :: "rounding \<Rightarrow> rat list \<Rightarrow> int \<Rightarrow> (int \<times> rat) list result" where
  "ComputeHistogram rnd data bins =
     (if data = [] then Inl Undefined
      else let min_val = Min (set data); max_val = Max (set data) in
        bind_result (fold_result (\<lambda>value h. bind_result (bin_index rnd min_val max_val bins value) (\<lambda>i. Inr (hist_inc rnd i h)))
          data []) (\<lambda>h. Inr (normalise rnd (length data) h)))"

text \<open>The loop runs over the indices of \<open>x\<close>; \<open>y\<close> is read without a check.\<close>

definition ComputeJointHistogram :: "rounding \<Rightarrow> rat list \<Rightarrow> rat list \<Rightarrow> int \<Rightarrow> ((int \<times> int) \<times> rat) list result" where
  "ComputeJointHistogram rnd x y bins =
     (if x = [] \<or> y = [] then Inl Undefined
      else let min_x = Min (set x); max_x = Max (set x); min_y = Min (set y); max_y = Max (set y) in
        bind_result (fold_result (\<lambda>i h.
            bind_result (bin_index rnd min_x max_x bins (x ! i)) (\<lambda>bin_x.
            if \<not> i < length y then Inl Undefined
            else bind_result (bin_index rnd min_y max_y bins (y ! i)) (\<lambda>bin_y. Inr (hist_inc rnd (bin_x, bin_y) h))))
          [0..<length x] []) (\<lambda>h. Inr (normalise rnd (length x) h)))"

definition hist_at :: "('k \<times> rat) list \<Rightarrow> 'k \<Rightarrow> rat" where
  "hist_at h k = (case map_of h k of None \<Rightarrow> 0 | Some p \<Rightarrow> p)"

definition ComputeMutualInformation :: "rounding \<Rightarrow> (rat \<Rightarrow> rat) \<Rightarrow> rat list \<Rightarrow> rat list \<Rightarrow> int \<Rightarrow> rat result" where
  "ComputeMutualInformation rnd log2 x y bins =
     bind_result (ComputeHistogram rnd x bins) (\<lambda>hist_x.
     bind_result (ComputeHistogram rnd y bins) (\<lambda>hist_y.
     bind_result (ComputeJointHistogram rnd x y bins) (\<lambda>joint_hist.
     Inr (fold (\<lambda>((bin_x, bin_y), p_xy) mi.
       let p_x = hist_at hist_x bin_x; p_y = hist_at hist_y bin_y in
       if p_xy > 0 \<and> p_x > 0 \<and> p_y > 0
       then fadd rnd mi (fmul rnd p_xy (log2 (fdiv rnd p_xy (fmul rnd p_x p_y)))) else mi) joint_hist 0))))"

text \<open>\<open>RealTimeMutualInformation\<close>; \<open>window_size_\<close> is an \<open>int\<close>, which a comparison with \<open>size()\<close> converts to 64 bits without
  sign.  \<open>rt_printed\<close> holds the values that were printed.\<close>

record RealTimeMI =
  rt_window_size :: int
  rt_bins :: int
  rt_x_window :: "rat list"
  rt_y_window :: "rat list"
  rt_printed :: "rat list"

definition RealTimeMI_new :: "int \<Rightarrow> int \<Rightarrow> RealTimeMI" where
  "RealTimeMI_new window_size bins =
     \<lparr>rt_window_size = window_size, rt_bins = bins, rt_x_window = [], rt_y_window = [], rt_printed = []\<rparr>"

definition size_limit :: "int \<Rightarrow> nat" where
  "size_limit n = unat (word_of_int n :: u64)"

definition AddDataPoint :: "rounding \<Rightarrow> (rat \<Rightarrow> rat) \<Rightarrow> rat \<times> rat \<Rightarrow> RealTimeMI \<Rightarrow> RealTimeMI result" where
  "AddDataPoint rnd log2 point m0 =
     (let m1 = m0\<lparr>rt_x_window := rt_x_window m0 @ [fst point], rt_y_window := rt_y_window m0 @ [snd point]\<rparr>;
          m = (if length (rt_x_window m1) > size_limit (rt_window_size m1)
               then m1\<lparr>rt_x_window := tl (rt_x_window m1), rt_y_window := tl (rt_y_window m1)\<rparr> else m1)
      in if length (rt_x_window m) = size_limit (rt_window_size m)
         then bind_result (ComputeMutualInformation rnd log2 (rt_x_window m) (rt_y_window m) (rt_bins m)) (\<lambda>mi.
           Inr (m\<lparr>rt_printed := rt_printed m @ [mi]\<rparr>))
         else Inr m)"

section \<open>The window holds the last changes\<close>

interpretation sliding: last_window sw_window "AddElement rnd" Some "\<lambda>w. sw_window_size w = n" n for rnd n
  by unfold_locales (auto simp: AddElement_def Let_def)

text \<open>Whatever the rounding, the window holds the last values.\<close>

lemma sliding_window_last: "sw_window (fold (AddElement rnd) xs (SlidingWindow_new junk n)) = last_n n xs"
  using sliding.fold_view [of "SlidingWindow_new junk n" n "[]" rnd xs]
  by (simp add: SlidingWindow_new_def map_filter_def)

lemma sum_list_bound:
  fixes ks :: "int list"
  assumes "\<forall>k \<in> set ks. 0 \<le> k \<and> k \<le> M"
  shows "0 \<le> sum_list ks \<and> sum_list ks \<le> int (length ks) * M"
  using assms by (induction ks) (auto simp: algebra_simps)

text \<open>\<open>holds_last rnd n M xs w\<close>: the window holds the last \<open>n\<close> of the whole numbers \<open>xs\<close> in \<open>0 .. M\<close> and their exact sum.\<close>

definition holds_last :: "nat \<Rightarrow> int list \<Rightarrow> SlidingWindow \<Rightarrow> bool" where
  "holds_last n xs w \<longleftrightarrow>
     sw_window_size w = n \<and> sw_window w = List.map of_int (last_n n xs) \<and> sw_actual_sum w = of_int (sum_list (last_n n xs))"

lemma holds_last_new: "holds_last n [] (SlidingWindow_new junk n)"
  by (simp add: holds_last_def SlidingWindow_new_def last_n_def)

lemma holds_last_add:
  assumes rnd: "ieee_rounding rnd" and w: "holds_last n xs w" and xs: "\<forall>k \<in> set (xs @ [x]). 0 \<le> k \<and> k \<le> M"
    and M: "(int n + 1) * M \<le> 2 ^ 53"
  shows "holds_last n (xs @ [x]) (AddElement rnd (of_int x) w)"
proof -
  let ?ks = "last_n n xs"
  have ks: "\<forall>k \<in> set ?ks. 0 \<le> k \<and> k \<le> M" and x: "0 \<le> x" "x \<le> M" using xs set_last_n [of n xs] by auto
  have "int (length ?ks) * M \<le> int n * M" using x by (intro mult_right_mono) auto
  then have b: "0 \<le> sum_list ?ks" "sum_list ?ks + x \<le> 2 ^ 53"
    using sum_list_bound [OF ks] x M by (auto simp: algebra_simps)
  have add: "fadd rnd (of_int (sum_list ?ks)) (of_int x) = of_int (sum_list ?ks + x)"
    using ieee_int [OF rnd, of "sum_list ?ks + x"] b x by (simp add: fadd_def)
  show ?thesis
  proof (cases "length xs < n")
    case True
    then show ?thesis using w add by (simp add: holds_last_def AddElement_def last_n_snoc Let_def)
  next
    case False
    obtain h ts where h: "?ks @ [x] = h # ts" by (cases "?ks @ [x]") auto
    have hd: "0 \<le> h" using h ks x by (cases ?ks) auto
    have sum: "h + sum_list ts = sum_list ?ks + x" using arg_cong [OF h, of sum_list] by simp
    have "0 \<le> sum_list ts" using h ks x sum_list_bound [of ts M] by (cases ?ks) auto
    then have "rnd (of_int (sum_list ts)) = of_int (sum_list ts)" using b sum hd by (intro ieee_int [OF rnd]) simp
    moreover have "of_int (sum_list ?ks + x) - of_int h = (of_int (sum_list ts) :: rat)" by (simp flip: sum)
    ultimately have sub: "fsub rnd (of_int (sum_list ?ks + x)) (of_int h) = of_int (sum_list ts)"
      by (simp only: fsub_def)
    have win: "List.map of_int ?ks @ [of_int x] = of_int h # (List.map of_int ts :: rat list)"
      using arg_cong [OF h, of "List.map of_int"] by simp
    have last: "last_n n (xs @ [x]) = ts" using False h by (simp add: last_n_snoc)
    have len: "length ?ks = n" using False by simp
    then have lts: "length ts = n" using arg_cong [OF h, of length] by simp
    have "sw_window w @ [of_int x] = of_int h # List.map of_int ts" and "sw_window_size w = n"
      and "fadd rnd (sw_actual_sum w) (of_int x) = of_int (sum_list ?ks + x)" and "length (sw_window w) = n"
      using w win add len by (simp_all add: holds_last_def del: length_last_n)
    then show ?thesis using sub lts by (simp add: holds_last_def AddElement_def last Let_def)
  qed
qed


section \<open>Sharp moves\<close>

text \<open>The reference computes the mean change at each index afresh.\<close>

definition abs_changes :: "int list \<Rightarrow> int list" where
  "abs_changes ps = List.map (\<lambda>i. \<bar>ps ! i - ps ! (i - 1)\<bar>) [1..<length ps]"

definition sharp_at :: "rounding \<Rightarrow> int list \<Rightarrow> nat \<Rightarrow> rat \<Rightarrow> nat \<Rightarrow> SharpMove list" where
  "sharp_at rnd ps n thr i =
     (let change = ps ! i - ps ! (i - 1);
          avg = fdiv rnd (of_int (sum_list (last_n n (take i (abs_changes ps))))) (rnd (of_nat n))
      in if 0 < n \<and> n \<le> i \<and> of_int \<bar>change\<bar> > fmul rnd thr avg
         then [\<lparr>sh_index = i, sh_price_change = of_int change, sh_avg_change = avg\<rparr>] else [])"

lemma take_abs_changes:
  assumes "1 \<le> i" and "i < length ps"
  shows "take i (abs_changes ps) = take (i - 1) (abs_changes ps) @ [\<bar>ps ! i - ps ! (i - 1)\<bar>]"
proof -
  obtain j where j: "i = Suc j" using assms(1) by (cases i) auto
  then have "[1..<length ps] ! j = Suc j" using assms(2) nth_upt [of 1 j "length ps"] by simp
  with j show ?thesis using assms(2) by (simp add: abs_changes_def take_Suc_conv_app_nth)
qed

lemma abs_changes_range:
  assumes "\<forall>p \<in> set ps. 0 \<le> p \<and> p \<le> M"
  shows "\<forall>k \<in> set (abs_changes ps). 0 \<le> k \<and> k \<le> M"
proof
  fix k assume "k \<in> set (abs_changes ps)"
  then obtain i where i: "i < length ps" "k = \<bar>ps ! i - ps ! (i - 1)\<bar>" by (auto simp: abs_changes_def)
  then have "ps ! i \<in> set ps" and "ps ! (i - 1) \<in> set ps" by simp_all
  then have "0 \<le> ps ! i \<and> ps ! i \<le> M" and "0 \<le> ps ! (i - 1) \<and> ps ! (i - 1) \<le> M" using assms by blast+
  then show "0 \<le> k \<and> k \<le> M" using i(2) by linarith
qed

lemma sharp_step_spec:
  assumes rnd: "ieee_rounding rnd" and ps: "\<forall>p \<in> set ps. 0 \<le> p \<and> p \<le> M" and M: "(int n + 1) * M \<le> 2 ^ 53"
    and i: "1 \<le> i" "i < length ps" and w: "holds_last n (take (i - 1) (abs_changes ps)) w"
  shows "\<exists>w'. sharp_step rnd (List.map of_int ps) thr i (w, ms) = (w', ms @ sharp_at rnd ps n thr i) \<and>
              holds_last n (take i (abs_changes ps)) w'"
proof -
  let ?c = "ps ! i - ps ! (i - 1)" and ?xs = "take (i - 1) (abs_changes ps)"
  have bound: "\<forall>k \<in> set (take i (abs_changes ps)). 0 \<le> k \<and> k \<le> M"
    using abs_changes_range [OF ps] set_take_subset by fast
  then have m: "0 \<le> M" "\<bar>?c\<bar> \<le> M" using take_abs_changes [OF i] by auto
  then have "M \<le> 2 ^ 53" using M by (auto simp: algebra_simps intro: order_trans [rotated])
  then have c: "fsub rnd (List.map of_int ps ! i) (List.map of_int ps ! (i - 1)) = of_int ?c"
    using ieee_int [OF rnd, of ?c] m i by (simp add: fsub_def)
  define w' where "w' = AddElement rnd (of_int \<bar>?c\<bar>) w"
  have w': "holds_last n (take i (abs_changes ps)) w'"
    using holds_last_add [OF rnd w, of "\<bar>?c\<bar>" M] bound M take_abs_changes [OF i] by (simp add: w'_def)
  have len: "length (take i (abs_changes ps)) = i" using i by (simp add: abs_changes_def)
  have "GetAverage rnd w' =
      (if i < n then (False, Some 0)
       else (True, if n = 0 then None
                   else Some (fdiv rnd (of_int (sum_list (last_n n (take i (abs_changes ps))))) (rnd (of_nat n)))))"
    using w' len by (auto simp: GetAverage_def holds_last_def)
  moreover have "\<bar>of_int ?c :: rat\<bar> = of_int \<bar>?c\<bar>" by (simp only: of_int_abs)
  ultimately have "sharp_step rnd (List.map of_int ps) thr i (w, ms) = (w', ms @ sharp_at rnd ps n thr i)"
    unfolding sharp_step_def c Let_def prod.case sharp_at_def by (simp del: One_nat_def of_int_abs flip: w'_def)
  with w' show ?thesis by blast
qed

text \<open>C37: for prices that are whole numbers of a size that doubles hold exactly, the detector with its running sum
  finds the same moves as the reference that adds up the last changes at each index: an index is reported, with its
  change and the mean, exactly when the window is full and the change exceeds the multiple of the mean.\<close>

theorem detectSharpMoves_eq:
  assumes "ieee_rounding rnd" and "\<forall>p \<in> set ps. 0 \<le> p \<and> p \<le> M" and "(int n + 1) * M \<le> 2 ^ 53"
  shows "detectSharpMoves rnd junk (List.map of_int ps) n thr = concat (List.map (sharp_at rnd ps n thr) [1..<length ps])"
proof -
  have "\<exists>w. fold (sharp_step rnd (List.map of_int ps) thr) [1..<k] (SlidingWindow_new junk n, []) =
              (w, concat (List.map (sharp_at rnd ps n thr) [1..<k])) \<and> holds_last n (take (k - 1) (abs_changes ps)) w"
    if "k \<le> length ps" for k
    using that
  proof (induction k)
    case 0
    then show ?case by (simp add: holds_last_new)
  next
    case (Suc k)
    show ?case
    proof (cases "k = 0")
      case True
      then show ?thesis by (simp add: holds_last_new)
    next
      case False
      obtain w where w: "fold (sharp_step rnd (List.map of_int ps) thr) [1..<k] (SlidingWindow_new junk n, []) =
          (w, concat (List.map (sharp_at rnd ps n thr) [1..<k]))" "holds_last n (take (k - 1) (abs_changes ps)) w"
        using Suc by auto
      obtain w' where "sharp_step rnd (List.map of_int ps) thr k (w, concat (List.map (sharp_at rnd ps n thr) [1..<k])) =
          (w', concat (List.map (sharp_at rnd ps n thr) [1..<k]) @ sharp_at rnd ps n thr k)"
        "holds_last n (take k (abs_changes ps)) w'"
        using sharp_step_spec [OF assms _ _ w(2)] False Suc.prems by fastforce
      then show ?thesis using False w(1) by (simp add: upt_Suc_append)
    qed
  qed
  from this [of "length ps"] show ?thesis by (auto simp: detectSharpMoves_def)
qed


theorem detectSharpMoves_eq_witness:
  "detectSharpMoves (\<lambda>x. x) 0 [100, 101, 100, 101, 110, 111] 3 2 =
     [\<lparr>sh_index = 4, sh_price_change = 9, sh_avg_change = 11 / 3\<rparr>]"
proof -
  let ?ps = "[100, 101, 100, 101, 110, 111 :: int]"
  have "detectSharpMoves (\<lambda>x. x) 0 (List.map of_int ?ps) 3 2 = concat (List.map (sharp_at (\<lambda>x. x) ?ps 3 2) [1..<length ?ps])"
    by (rule detectSharpMoves_eq [where M = 200]) (simp_all add: ieee_rounding_def)
  also have "[1..<length ?ps] = [1, 2, 3, 4, 5]" by code_simp
  also have "concat (List.map (sharp_at (\<lambda>x. x) ?ps 3 2) [1, 2, 3, 4, 5]) =
      [\<lparr>sh_index = 4, sh_price_change = 9, sh_avg_change = 11 / 3\<rparr>]"
    by (simp add: sharp_at_def abs_changes_def last_n_def fdiv_def fmul_def upt_rec Let_def)
  finally show ?thesis by simp
qed

section \<open>Histograms\<close>

text \<open>A window of equal values has bins of width zero, and dividing by it gives no number: converting it is undefined.\<close>

lemma histogram_constant_undefined:
  assumes "rnd 0 = 0"
  shows "ComputeHistogram rnd (replicate (Suc n) v) bins = Inl Undefined"
proof -
  have "set (replicate (Suc n) v) = {v}" by (simp only: set_replicate_conv_if) simp
  then have "Min (set (replicate (Suc n) v)) = v" and "Max (set (replicate (Suc n) v)) = v"
    by (simp_all only: Min_singleton Max_singleton)
  then show ?thesis using assms by (simp add: ComputeHistogram_def bin_index_def fsub_def fdiv_def Let_def)
qed

text \<open>The largest value falls into a bin of its own beyond the requested number.\<close>

lemma histogram_extra_bin:
  "ComputeHistogram (\<lambda>x. x) [0, 1, 2, 3] 2 = Inr [(0, 1 / 2), (1, 1 / 4), (2, 1 / 4)]"
proof -
  have "\<lfloor>2 / 3 :: rat\<rfloor> = 0" "\<lfloor>4 / 3 :: rat\<rfloor> = 1" by (simp_all add: floor_eq_iff)
  then show ?thesis
    by (simp add: ComputeHistogram_def bin_index_def trunc_to_int_def fsub_def fdiv_def fadd_def normalise_def Let_def)
qed

text \<open>The counts: each entry is the share of the values that fall into its bin.\<close>

lemma map_of_hist_inc:
  "sorted_wrt (<) (List.map fst h) \<Longrightarrow>
   map_of (hist_inc rnd k h) j = (if j = k then Some (fadd rnd (case map_of h k of None \<Rightarrow> 0 | Some c \<Rightarrow> c) 1) else map_of h j)"
proof (induction h)
  case (Cons e h)
  obtain k' c where e: "e = (k', c)" by (cases e)
  have none: "map_of h k = None" if "k < k'"
    using that Cons.prems e by (force simp: map_of_eq_None_iff)
  show ?case using Cons none by (auto simp: e)
qed simp

lemma hist_inc_sorted:
  "sorted_wrt (<) (List.map fst h) \<Longrightarrow> sorted_wrt (<) (List.map fst (hist_inc rnd k h)) \<and> set (List.map fst (hist_inc rnd k h)) = insert k (set (List.map fst h))"
proof (induction h)
  case (Cons e h)
  obtain k' c where e: "e = (k', c)" by (cases e)
  show ?case using Cons by (auto simp: e)
qed simp

lemma map_of_normalise: "map_of (normalise rnd n h) k = map_option (\<lambda>c. fdiv rnd c (rnd (of_nat n))) (map_of h k)"
  by (induction h) (auto simp: normalise_def)

definition count_of :: "'k \<Rightarrow> 'k list \<Rightarrow> nat" where
  "count_of k ks = length (filter (\<lambda>j. j = k) ks)"

lemma fold_hist_inc:
  assumes rnd: "ieee_rounding rnd" and "length ks \<le> 2 ^ 53"
  shows "map_of (fold (hist_inc rnd) ks []) k = (if k \<in> set ks then Some (of_nat (count_of k ks)) else None) \<and>
         sorted_wrt (<) (List.map fst (fold (hist_inc rnd) ks []))"
  using assms(2)
proof (induction ks arbitrary: k rule: rev_induct)
  case (snoc x ks)
  let ?h = "fold (hist_inc rnd) ks []"
  have h: "map_of ?h j = (if j \<in> set ks then Some (of_nat (count_of j ks)) else None)" "sorted_wrt (<) (List.map fst ?h)" for j
    using snoc by simp_all
  have "(case map_of ?h x of None \<Rightarrow> 0 | Some c \<Rightarrow> c) = of_nat (count_of x ks)"
    by (auto simp: h(1) count_of_def filter_empty_conv)
  moreover have "fadd rnd (of_nat (count_of x ks)) 1 = of_nat (Suc (count_of x ks))"
  proof -
    have "count_of x ks \<le> length ks" unfolding count_of_def by (rule length_filter_le)
    moreover have "Suc (length ks) \<le> 2 ^ 53" using snoc.prems by simp
    ultimately have "Suc (count_of x ks) \<le> 2 ^ 53" by linarith
    from ieee_nat [OF rnd this] show ?thesis by (simp add: fadd_def add.commute)
  qed
  ultimately show ?case using h(1) [of k] map_of_hist_inc [OF h(2), of rnd x k] hist_inc_sorted [OF h(2), of rnd x]
    by (auto simp: count_of_def)
qed simp


lemma fold_bins:
  assumes "List.map f xs = List.map Inr ks"
  shows "fold_result (\<lambda>value h. bind_result (f value) (\<lambda>i. Inr (g i h))) xs h = Inr (fold g ks h)"
  using assms by (induction xs arbitrary: ks h) auto

lemma histogram_frequencies:
  assumes "ieee_rounding rnd" and "data \<noteq> []" and "length data \<le> 2 ^ 53"
    and ks: "List.map (bin_index rnd (Min (set data)) (Max (set data)) bins) data = List.map Inr ks"
  shows "\<exists>h. ComputeHistogram rnd data bins = Inr h \<and>
    (\<forall>k. map_of h k = (if k \<in> set ks then Some (fdiv rnd (of_nat (count_of k ks)) (rnd (of_nat (length data)))) else None))"
proof -
  have "length ks = length data" using arg_cong [OF ks, of length] by simp
  then show ?thesis
    using assms(2,3) fold_hist_inc [OF assms(1), of ks] by (simp add: ComputeHistogram_def fold_bins [OF ks] map_of_normalise Let_def)
qed

section \<open>Windows of two series\<close>

lemma AddDataPoint_windows:
  assumes "AddDataPoint rnd log2 pt m = Inr m'" and "rt_x_window m = last_n k xs" and "rt_y_window m = last_n k ys"
    and "length xs = length ys" and "size_limit (rt_window_size m) = k"
  shows "rt_x_window m' = last_n k (xs @ [fst pt]) \<and> rt_y_window m' = last_n k (ys @ [snd pt]) \<and>
         rt_window_size m' = rt_window_size m \<and>
         length (rt_printed m') = length (rt_printed m) + (if k \<le> Suc (length xs) then 1 else 0)"
proof -
  have "length (last_n k xs @ [fst pt]) > k \<longleftrightarrow> \<not> length xs < k" by auto
  then show ?thesis using assms
    by (auto simp: AddDataPoint_def last_n_snoc Let_def min_def split: if_splits elim!: bind_result_InrE)
qed

text \<open>The windows hold the last points of both series, in step, and a value is printed for each point from the one that
  fills the window on.  A negative size stands for a window of nearly \<open>2 ^ 64\<close> points.\<close>

lemma mutual_information_windows:
  assumes "fold_result (AddDataPoint rnd log2) pts (RealTimeMI_new n bins) = Inr m"
  shows "rt_x_window m = last_n (size_limit n) (List.map fst pts) \<and> rt_y_window m = last_n (size_limit n) (List.map snd pts) \<and>
         rt_window_size m = n \<and>
         length (rt_printed m) = length (filter (\<lambda>i. size_limit n \<le> i) [1..<Suc (length pts)])"
  using assms
proof (induction pts arbitrary: m rule: rev_induct)
  case Nil
  then show ?case by (auto simp: RealTimeMI_new_def last_n_def)
next
  case (snoc pt pts)
  then obtain m0 where m0: "fold_result (AddDataPoint rnd log2) pts (RealTimeMI_new n bins) = Inr m0" "AddDataPoint rnd log2 pt m0 = Inr m"
    by (auto simp: fold_result_append elim!: bind_result_InrE)
  from snoc.IH [OF m0(1)] AddDataPoint_windows [OF m0(2), of "size_limit n" "List.map fst pts" "List.map snd pts"]
  show ?case by (simp add: upt_Suc_append)
qed


end
