(* ===== verification/Telemetry.thy ===== *)
theory Telemetry
  imports Prelude
begin

text \<open>
  Measuring and exporting: aot/prometheus/event.h, aot/prometheus/service.h and \<open>TimeManager\<close> of aot/common/time_utils.h.
  The registry of prometheus-cpp is a map from the label of a gauge to its value; a gauge is made once per label.  The
  clock is an argument.
\<close>

section \<open>Time\<close>

definition NANOS_TO_MICROS :: int where "NANOS_TO_MICROS = 1000"
definition MICROS_TO_MILLIS :: int where "MICROS_TO_MILLIS = 1000"
definition MILLIS_TO_SECS :: int where "MILLIS_TO_SECS = 1000"
definition NANOS_TO_MILLIS :: int where "NANOS_TO_MILLIS = NANOS_TO_MICROS * MICROS_TO_MILLIS"
definition NANOS_TO_SECS :: int where "NANOS_TO_SECS = NANOS_TO_MILLIS * MILLIS_TO_SECS"

record TimeManager =
  tmg_start :: int
  tmg_last :: int

definition TimeManager_new :: "int \<Rightarrow> TimeManager" where
  "TimeManager_new now = \<lparr>tmg_start = now, tmg_last = now\<rparr>"

definition TimeManager_Update :: "int \<Rightarrow> TimeManager \<Rightarrow> TimeManager" where
  "TimeManager_Update now t = t\<lparr>tmg_last := now\<rparr>"

text \<open>Division rounds towards zero.\<close>

definition div_trunc :: "int \<Rightarrow> int \<Rightarrow> int" where
  "div_trunc a b = (if 0 \<le> a then a div b else - ((- a) div b))"

definition GetDeltaInNanos :: "int \<Rightarrow> TimeManager \<Rightarrow> int" where
  "GetDeltaInNanos now t = now - tmg_last t"

definition GetDeltaInS :: "int \<Rightarrow> TimeManager \<Rightarrow> int" where
  "GetDeltaInS now t = div_trunc (now - tmg_last t) NANOS_TO_SECS"

definition GetDeltaInMilliS :: "int \<Rightarrow> TimeManager \<Rightarrow> int" where
  "GetDeltaInMilliS now t = div_trunc (now - tmg_last t) NANOS_TO_MILLIS"

definition GetDeltaInMicroS :: "int \<Rightarrow> TimeManager \<Rightarrow> int" where
  "GetDeltaInMicroS now t = div_trunc (now - tmg_last t) NANOS_TO_MICROS"

section \<open>Events\<close>

datatype EventType =
    kNoEvent
  | kDiffMarketOrderBookExchangeIncoming
  | kSnapshotMarketOrderBookIncoming
  | kLFQueuePushNewBidAsksEvents
  | kLFQueuePullNewBidAsksEvents
  | kStrategyOnNewKLineBefore
  | kStrategyOnNewKLineAfter
  | kStrategyOnNewKLineRate
  | kOrderBookUpdateBefore
  | kOrderBookUpdateAfter
  | kUpdateSpeedOrderBook

record Event =
  pe_event_type :: EventType
  pe_time :: int

text \<open>\<open>LogEvent\<close>: a null queue is \<open>None\<close>; \<open>full\<close> says that \<open>try_enqueue\<close> fails, and the event is lost.\<close>

definition LogEvent :: "bool \<Rightarrow> bool \<Rightarrow> EventType \<Rightarrow> int \<Rightarrow> Event list option \<Rightarrow> Event list option" where
  "LogEvent need_measure_latency full ty value queue =
     (if need_measure_latency
      then (case queue of
              None \<Rightarrow> None
            | Some q \<Rightarrow> Some (if full then q else q @ [\<lparr>pe_event_type = ty, pe_time = value\<rparr>]))
      else queue)"

section \<open>The service\<close>

record Service =
  ps_gauges :: "EventType \<rightharpoonup> rat"
  ps_time_manager :: TimeManager

definition set_gauge :: "rounding \<Rightarrow> (nat \<Rightarrow> int) \<Rightarrow> nat \<times> Event \<Rightarrow> Service \<Rightarrow> Service" where
  "set_gauge rnd clock e s =
     s\<lparr>ps_gauges := (ps_gauges s)(pe_event_type (snd e) \<mapsto> rnd (of_int (pe_time (snd e)))),
       ps_time_manager := TimeManager_Update (clock (fst e)) (ps_time_manager s)\<rparr>"

text \<open>One pass of \<open>Run\<close>: at most 50 events are taken from the queue; the passes number the readings of the clock.\<close>

definition Service_iteration :: "rounding \<Rightarrow> (nat \<Rightarrow> int) \<Rightarrow> Event list \<times> Service \<Rightarrow> Event list \<times> Service" where
  "Service_iteration rnd clock st =
     (let (q, s) = st; events = take 50 q in
      (drop 50 q, fold (set_gauge rnd clock) (List.zip [0..<length events] events) s))"

section \<open>Facts\<close>

lemma delta_units:
  assumes "tmg_last t \<le> now"
  shows "GetDeltaInMilliS now t = GetDeltaInMicroS now t div 1000" and "GetDeltaInS now t = GetDeltaInMilliS now t div 1000"
  using assms
  by (simp_all add: GetDeltaInMilliS_def GetDeltaInMicroS_def GetDeltaInS_def div_trunc_def NANOS_TO_SECS_def NANOS_TO_MILLIS_def
      NANOS_TO_MICROS_def MICROS_TO_MILLIS_def MILLIS_TO_SECS_def flip: zdiv_zmult2_eq)

text \<open>A gauge shows the last event of its type that was taken; the others keep their values.\<close>

lemma fold_set_gauge:
  "ps_gauges (fold (set_gauge rnd clock) (List.zip ns es) s) ty =
     (case filter (\<lambda>e. pe_event_type e = ty) (List.rev (take (length ns) es)) of
        [] \<Rightarrow> ps_gauges s ty | e # _ \<Rightarrow> Some (rnd (of_int (pe_time e))))"
proof (induction ns arbitrary: es s)
  case (Cons n ns)
  show ?case
  proof (cases es)
    case (Cons e es')
    show ?thesis using Cons.IH by (auto simp: local.Cons set_gauge_def split: list.splits)
  qed simp
qed simp

lemma gauge_shows_last:
  "ps_gauges (snd (Service_iteration rnd clock (q, s))) ty =
     (case filter (\<lambda>e. pe_event_type e = ty) (List.rev (take 50 q)) of
        [] \<Rightarrow> ps_gauges s ty | e # _ \<Rightarrow> Some (rnd (of_int (pe_time e))))"
  by (simp add: Service_iteration_def fold_set_gauge min_def)

end
