(* ===== verification/Event_Lifetime.thy ===== *)
theory Event_Lifetime
  imports Bus Mem_Pool
begin

text \<open>
  How long a bus event and the message it wraps live.  The events of aot/market_data/market_update.h, aot/strategy/market_order.h
  and aot/strategy/arbitrage/arbitrage_strategy.h come in pairs: a message derived from \<open>aot::Event\<close>
  (aot/event/general_event.h) and a bus event derived from \<open>bus::Event2\<close> (aot/bus/bus_event.h) whose member \<open>wrapped_event_\<close> is a
  \<open>boost::intrusive_ptr\<close> to the message.  Both live in blocks of memory pools and count their references.

  A publisher allocates both, sends the event over the bus (aot/bus/bus.h) and drops its own pointers.  \<open>Accept\<close> calls the
  overload of \<open>AsyncHandleEvent\<close> of aot/bus/bus_component.h for the class of the event; a component that overrides it spawns a
  task that runs later.  Which pointer the task keeps is decided by the component: the event, only its message, or a raw pointer
  that counts for nothing.  The system below has one class of events; publishing and running a task are its steps, and the tasks
  run in any order.
\<close>

section \<open>Counted objects\<close>

record counted =
  ct_ref_count :: int
  ct_has_pool :: bool

record 'm message_obj = counted +
  mo_body :: 'm

record event_obj = counted +
  eo_wrapped :: "addr option"

text \<open>A task of a component: it holds a pointer to the event, to the message, or a raw pointer to the event.\<close>

datatype task_ref = TaskEvent addr | TaskMessage addr | TaskRaw addr

record 'm event_system =
  es_messages :: "addr \<rightharpoonup> 'm message_obj"
  es_message_pool :: MemoryPool
  es_events :: "addr \<rightharpoonup> event_obj"
  es_event_pool :: MemoryPool
  es_tasks :: "(component \<times> task_ref) list"
  es_seen :: "(component \<times> 'm option) list"   \<comment> \<open>what the finished tasks have read\<close>

definition event_system_new :: "(nat \<Rightarrow> addr option) \<Rightarrow> nat \<Rightarrow> (nat \<Rightarrow> addr option) \<Rightarrow> nat \<Rightarrow> 'm event_system" where
  "event_system_new ch1 n1 ch2 n2 =
     \<lparr>es_messages = Map.empty, es_message_pool = MemoryPool_new ch1 n1,
      es_events = Map.empty, es_event_pool = MemoryPool_new ch2 n2, es_tasks = [], es_seen = []\<rparr>"

definition message_add_ref :: "addr \<Rightarrow> 'm event_system \<Rightarrow> 'm event_system result" where
  "message_add_ref w s =
     (case es_messages s w of
        None \<Rightarrow> Inl DanglingDeref
      | Some obj \<Rightarrow> Inr (s\<lparr>es_messages := (es_messages s)(w \<mapsto> obj\<lparr>ct_ref_count := ct_ref_count obj + 1\<rparr>)\<rparr>))"

definition message_release :: "addr \<Rightarrow> 'm event_system \<Rightarrow> 'm event_system result" where
  "message_release w s =
     (case es_messages s w of
        None \<Rightarrow> Inl DanglingDeref
      | Some obj \<Rightarrow>
          if ct_ref_count obj = 1 \<and> ct_has_pool obj
          then Inr (s\<lparr>es_messages := (es_messages s)(w := None), es_message_pool := Deallocate (Some w) (es_message_pool s)\<rparr>)
          else Inr (s\<lparr>es_messages := (es_messages s)(w \<mapsto> obj\<lparr>ct_ref_count := ct_ref_count obj - 1\<rparr>)\<rparr>))"

definition event_add_ref :: "addr \<Rightarrow> 'm event_system \<Rightarrow> 'm event_system result" where
  "event_add_ref a s =
     (case es_events s a of
        None \<Rightarrow> Inl DanglingDeref
      | Some obj \<Rightarrow> Inr (s\<lparr>es_events := (es_events s)(a \<mapsto> obj\<lparr>ct_ref_count := ct_ref_count obj + 1\<rparr>)\<rparr>))"

text \<open>The functions of \<open>boost::intrusive_ptr\<close> do nothing for a null pointer.\<close>

definition for_pointer :: "(addr \<Rightarrow> 's \<Rightarrow> 's result) \<Rightarrow> addr option \<Rightarrow> 's \<Rightarrow> 's result" where
  "for_pointer f p s = (case p of None \<Rightarrow> Inr s | Some a \<Rightarrow> f a s)"

text \<open>The last release of an event calls \<open>Deallocate\<close> of its pool, which runs the destructor, and so releases
  \<open>wrapped_event_\<close>, before the block goes to the free list.\<close>

definition event_release :: "addr \<Rightarrow> 'm event_system \<Rightarrow> 'm event_system result" where
  "event_release a s =
     (case es_events s a of
        None \<Rightarrow> Inl DanglingDeref
      | Some obj \<Rightarrow>
          if ct_ref_count obj = 1 \<and> ct_has_pool obj
          then bind_result (for_pointer message_release (eo_wrapped obj) s) (\<lambda>t.
               Inr (t\<lparr>es_events := (es_events t)(a := None), es_event_pool := Deallocate (Some a) (es_event_pool t)\<rparr>))
          else Inr (s\<lparr>es_events := (es_events s)(a \<mapsto> obj\<lparr>ct_ref_count := ct_ref_count obj - 1\<rparr>)\<rparr>))"

text \<open>\<open>Allocate\<close> of a message and of an event.  The constructor of the event takes the pointer to the message by value and copies it
  into \<open>wrapped_event_\<close>; it does not run when there is no block.\<close>

definition new_message :: "'m \<Rightarrow> 'm event_system \<Rightarrow> addr option \<times> 'm event_system" where
  "new_message m s =
     (case Allocate (es_message_pool s) of
        (None, p) \<Rightarrow> (None, s\<lparr>es_message_pool := p\<rparr>)
      | (Some w, p) \<Rightarrow>
          (Some w, s\<lparr>es_message_pool := p,
                     es_messages := (es_messages s)(w \<mapsto> \<lparr>ct_ref_count = 0, ct_has_pool = True, mo_body = m\<rparr>)\<rparr>))"

definition new_event :: "addr option \<Rightarrow> 'm event_system \<Rightarrow> (addr option \<times> 'm event_system) result" where
  "new_event wrapped s =
     (case Allocate (es_event_pool s) of
        (None, p) \<Rightarrow> Inr (None, s\<lparr>es_event_pool := p\<rparr>)
      | (Some a, p) \<Rightarrow>
          bind_result (for_pointer message_add_ref wrapped (s\<lparr>es_event_pool := p\<rparr>)) (\<lambda>s1.
          bind_result (for_pointer message_add_ref wrapped s1) (\<lambda>s2.
          bind_result (for_pointer message_release wrapped s2) (\<lambda>s3.
          Inr (Some a, s3\<lparr>es_events := (es_events s3)(a \<mapsto> \<lparr>ct_ref_count = 0, ct_has_pool = True, eo_wrapped = wrapped\<rparr>)\<rparr>)))))"

definition WrappedEvent :: "addr \<Rightarrow> 'm event_system \<Rightarrow> addr option result" where
  "WrappedEvent a s = (case es_events s a of None \<Rightarrow> Inl DanglingDeref | Some obj \<Rightarrow> Inr (eo_wrapped obj))"

section \<open>Classes of events and components\<close>

datatype event_class =
    BusEventMEMarketUpdate2
  | BusEventResponseNewSnapshot
  | BusEventRequestNewSnapshot
  | BusEventBookDiffSnapshot
  | BusEventRequestDiffOrderBook
  | BusEventNewBBO
  | BusEventArbitrageReport

text \<open>What the overload of \<open>bus::Component\<close> for a class takes: an \<open>intrusive_ptr\<close>, or a plain pointer.\<close>

fun takes_intrusive :: "event_class \<Rightarrow> bool" where
  "takes_intrusive BusEventRequestNewSnapshot \<longleftrightarrow> False"
| "takes_intrusive _ \<longleftrightarrow> True"

datatype handling = Ignored | KeepsEvent | KeepsMessage | KeepsRaw

datatype component_class =
    BookSnapshotComponent | BookEventGetterComponent | BidAskGeneratorComponent
  | OrderBookComponent | ArbitrageStrategyComponent | RedPandaComponent | OtherComponent

text \<open>The overrides of the components, those of both exchanges being alike.\<close>

fun AsyncHandleEvent :: "component_class \<Rightarrow> event_class \<Rightarrow> handling" where
  "AsyncHandleEvent BookSnapshotComponent BusEventRequestNewSnapshot = KeepsRaw"
| "AsyncHandleEvent BookEventGetterComponent BusEventRequestDiffOrderBook = KeepsEvent"
| "AsyncHandleEvent BidAskGeneratorComponent BusEventResponseNewSnapshot = KeepsEvent"
| "AsyncHandleEvent BidAskGeneratorComponent BusEventBookDiffSnapshot = KeepsEvent"
| "AsyncHandleEvent OrderBookComponent BusEventMEMarketUpdate2 = KeepsEvent"
| "AsyncHandleEvent OrderBookComponent BusEventResponseNewSnapshot = KeepsEvent"
| "AsyncHandleEvent OrderBookComponent BusEventBookDiffSnapshot = KeepsEvent"
| "AsyncHandleEvent ArbitrageStrategyComponent BusEventNewBBO = KeepsMessage"
| "AsyncHandleEvent RedPandaComponent BusEventNewBBO = KeepsMessage"
| "AsyncHandleEvent RedPandaComponent BusEventArbitrageReport = KeepsMessage"
| "AsyncHandleEvent _ _ = Ignored"

definition spawn_task :: "component \<Rightarrow> task_ref \<Rightarrow> 'm event_system \<Rightarrow> 'm event_system" where
  "spawn_task c r s = s\<lparr>es_tasks := es_tasks s @ [(c, r)]\<rparr>"

text \<open>The body of the override.  A handler that keeps the event copies its parameter into the coroutine; one that keeps the message
  copies \<open>wrapped_event_\<close>, and does nothing when that is null.\<close>

definition handler_body :: "handling \<Rightarrow> component \<Rightarrow> addr \<Rightarrow> 'm event_system \<Rightarrow> 'm event_system result" where
  "handler_body h c a s =
     (case h of
        Ignored \<Rightarrow> Inr s
      | KeepsRaw \<Rightarrow> Inr (spawn_task c (TaskRaw a) s)
      | KeepsEvent \<Rightarrow> bind_result (event_add_ref a s) (\<lambda>t. Inr (spawn_task c (TaskEvent a) t))
      | KeepsMessage \<Rightarrow>
          bind_result (WrappedEvent a s) (\<lambda>wrapped.
          case wrapped of
            None \<Rightarrow> Inr s
          | Some w \<Rightarrow> bind_result (message_add_ref w s) (\<lambda>t. Inr (spawn_task c (TaskMessage w) t))))"

text \<open>\<open>event->Accept(component)\<close>: where the overload takes an \<open>intrusive_ptr\<close> the parameter counts during the call.\<close>

definition Accept :: "event_class \<Rightarrow> (component \<Rightarrow> component_class) \<Rightarrow> addr \<Rightarrow> component \<Rightarrow>
    'm event_system \<Rightarrow> 'm event_system result" where
  "Accept cls kind a c s =
     (let h = AsyncHandleEvent (kind c) cls in
      if takes_intrusive cls
      then bind_result (event_add_ref a s) (\<lambda>s1. bind_result (handler_body h c a s1) (event_release a))
      else handler_body h c a s)"

section \<open>Publishing and running tasks\<close>

text \<open>A publisher, as \<open>RequestNewSnapshot\<close> of the generator: message, event, \<open>AsyncSend\<close> with the pointer by value, and the
  destructors of its two pointers.\<close>

definition accept_handler :: "event_class \<Rightarrow> (component \<Rightarrow> component_class) \<Rightarrow> addr \<Rightarrow> 'm event_system result handler" where
  "accept_handler cls kind a = (\<lambda>c r. (bind_result r (Accept cls kind a c), False))"

definition publish_event :: "event_class \<Rightarrow> (component \<Rightarrow> component_class) \<Rightarrow> CoBus \<Rightarrow> component \<Rightarrow> 'm \<Rightarrow>
    'm event_system \<Rightarrow> 'm event_system result" where
  "publish_event cls kind b p m s =
     (let (pm, s1) = new_message m s in
      bind_result (for_pointer message_add_ref pm s1) (\<lambda>s2.
      bind_result (new_event pm s2) (\<lambda>(pe, s3).
      bind_result (for_pointer event_add_ref pe s3) (\<lambda>s4.
      bind_result (for_pointer event_add_ref pe s4) (\<lambda>s5.
      bind_result (AsyncSend p (map_option (accept_handler cls kind) pe) b (Inr s5)) (\<lambda>s6.
      bind_result (for_pointer event_release pe s6) (\<lambda>s7.
      bind_result (for_pointer event_release pe s7) (\<lambda>s8.
      for_pointer message_release pm s8))))))))"

text \<open>A task reads the message and then drops its pointer.\<close>

definition read_wrapped :: "addr option \<Rightarrow> 'm event_system \<Rightarrow> 'm option result" where
  "read_wrapped wrapped s =
     (case wrapped of
        None \<Rightarrow> Inr None
      | Some w \<Rightarrow> (case es_messages s w of None \<Rightarrow> Inl DanglingDeref | Some obj \<Rightarrow> Inr (Some (mo_body obj))))"

fun task_reads :: "task_ref \<Rightarrow> 'm event_system \<Rightarrow> 'm option result" where
  "task_reads (TaskEvent a) s = bind_result (WrappedEvent a s) (\<lambda>w. read_wrapped w s)"
| "task_reads (TaskRaw a) s = bind_result (WrappedEvent a s) (\<lambda>w. read_wrapped w s)"
| "task_reads (TaskMessage w) s = read_wrapped (Some w) s"

fun task_ends :: "task_ref \<Rightarrow> 'm event_system \<Rightarrow> 'm event_system result" where
  "task_ends (TaskEvent a) s = event_release a s"
| "task_ends (TaskMessage w) s = message_release w s"
| "task_ends (TaskRaw a) s = Inr s"

definition run_task :: "nat \<Rightarrow> 'm event_system \<Rightarrow> 'm event_system result" where
  "run_task i s =
     (if i < length (es_tasks s)
      then let (c, r) = es_tasks s ! i in
           bind_result (task_reads r s) (\<lambda>m.
           task_ends r (s\<lparr>es_tasks := take i (es_tasks s) @ drop (Suc i) (es_tasks s),
                          es_seen := es_seen s @ [(c, m)]\<rparr>))
      else Inr s)"

datatype 'm event_op = OpPublish component 'm | OpRun nat

fun event_step :: "event_class \<Rightarrow> (component \<Rightarrow> component_class) \<Rightarrow> CoBus \<Rightarrow> 'm event_op \<Rightarrow>
    'm event_system \<Rightarrow> 'm event_system result" where
  "event_step cls kind b (OpPublish p m) s = publish_event cls kind b p m s"
| "event_step cls kind b (OpRun i) s = run_task i s"

section \<open>The invariant\<close>

text \<open>The pools are well formed and do not run out of memory.\<close>

definition pool_ok :: "MemoryPool \<Rightarrow> bool" where
  "pool_ok p \<longleftrightarrow> MemoryPool_inv p \<and> memory_suffices p"

lemma pool_ok_new:
  "chunks_distinct ch \<Longrightarrow> \<forall>i. ch i \<noteq> None \<Longrightarrow> n \<noteq> 0 \<Longrightarrow> pool_ok (MemoryPool_new ch n) \<and> mp_live (MemoryPool_new ch n) = {}"
  using MemoryPool_new_inv [of ch n] by (simp add: pool_ok_def)

lemma pool_ok_alloc:
  "pool_ok p \<Longrightarrow> Allocate p = (Some a, q) \<Longrightarrow> a \<notin> mp_live p \<and> mp_live q = insert a (mp_live p) \<and> pool_ok q"
  using mp.alloc_Some [of p a q] by (simp add: pool_ok_def memory_suffices_after_Allocate)

lemma pool_ok_free:
  "pool_ok p \<Longrightarrow> a \<in> mp_live p \<Longrightarrow> mp_live (Deallocate (Some a) p) = mp_live p - {a} \<and> pool_ok (Deallocate (Some a) p)"
  using mp.dealloc_Some [of p a] by (simp add: pool_ok_def)

lemma pool_ok_gives: "pool_ok p \<Longrightarrow> \<exists>a q. Allocate p = (Some a, q)"
  unfolding pool_ok_def using memory_suffices_Allocate by metis

text \<open>\<open>held s r\<close> tasks hold the pointer \<open>r\<close>.  A live object has a positive count, the number of its owners: the tasks, for a message
  also the event that wraps it, and the pointers of a publisher that is under way, which \<open>xe\<close> and \<open>xm\<close> count.\<close>

definition held :: "'m event_system \<Rightarrow> task_ref \<Rightarrow> nat" where
  "held s r = count_list (List.map snd (es_tasks s)) r"

definition wraps :: "(addr \<rightharpoonup> event_obj) \<Rightarrow> addr \<Rightarrow> addr \<Rightarrow> bool" where
  "wraps evs a w \<longleftrightarrow> (\<exists>obj. evs a = Some obj \<and> eo_wrapped obj = Some w)"

definition counted_ok :: "'a counted_scheme option \<Rightarrow> nat \<Rightarrow> bool" where
  "counted_ok x n \<longleftrightarrow>
     (case x of None \<Rightarrow> n = 0 | Some obj \<Rightarrow> 0 < n \<and> ct_has_pool obj \<and> ct_ref_count obj = int n)"

definition lifetime_inv :: "(addr \<Rightarrow> nat) \<Rightarrow> (addr \<Rightarrow> nat) \<Rightarrow> 'm event_system \<Rightarrow> bool" where
  "lifetime_inv xe xm s \<longleftrightarrow>
     pool_ok (es_message_pool s) \<and> pool_ok (es_event_pool s) \<and>
     dom (es_messages s) = mp_live (es_message_pool s) \<and> dom (es_events s) = mp_live (es_event_pool s) \<and>
     (\<forall>a. counted_ok (es_events s a) (held s (TaskEvent a) + xe a)) \<and>
     (\<forall>w. counted_ok (es_messages s w) (of_bool (\<exists>a. wraps (es_events s) a w) + held s (TaskMessage w) + xm w)) \<and>
     (\<forall>a b w. wraps (es_events s) a w \<longrightarrow> wraps (es_events s) b w \<longrightarrow> a = b)"

lemma counted_ok_simps [simp]:
  "counted_ok None n \<longleftrightarrow> n = 0"
  "counted_ok (Some obj) n \<longleftrightarrow> 0 < n \<and> ct_has_pool obj \<and> ct_ref_count obj = int n"
  by (simp_all add: counted_ok_def)

lemma held_upd [simp]:
  "held (s\<lparr>es_messages := ms\<rparr>) r = held s r" "held (s\<lparr>es_message_pool := p\<rparr>) r = held s r"
  "held (s\<lparr>es_events := evs\<rparr>) r = held s r" "held (s\<lparr>es_event_pool := p\<rparr>) r = held s r"
  "held (s\<lparr>es_seen := l\<rparr>) r = held s r" "held (spawn_task c q s) r = held s r + of_bool (q = r)"
  by (simp_all add: held_def spawn_task_def)

lemma wraps_upd:
  "wraps (evs(a := None)) b w \<longleftrightarrow> b \<noteq> a \<and> wraps evs b w"
  "wraps (evs(a \<mapsto> obj)) b w \<longleftrightarrow> (if b = a then eo_wrapped obj = Some w else wraps evs b w)"
  by (auto simp: wraps_def)

lemma lifetime_init:
  "chunks_distinct ch1 \<Longrightarrow> \<forall>i. ch1 i \<noteq> None \<Longrightarrow> n1 \<noteq> 0 \<Longrightarrow>
   chunks_distinct ch2 \<Longrightarrow> \<forall>i. ch2 i \<noteq> None \<Longrightarrow> n2 \<noteq> 0 \<Longrightarrow>
   lifetime_inv (\<lambda>_. 0) (\<lambda>_. 0) (event_system_new ch1 n1 ch2 n2)"
  using pool_ok_new [of ch1 n1] pool_ok_new [of ch2 n2]
  by (simp add: lifetime_inv_def event_system_new_def held_def wraps_def)

lemma lifetime_event_live:
  assumes "lifetime_inv xe xm s" and "0 < held s (TaskEvent a) + xe a"
  obtains obj where "es_events s a = Some obj" "ct_has_pool obj" "ct_ref_count obj = int (held s (TaskEvent a) + xe a)"
proof (cases "es_events s a")
  case None
  with assms show ?thesis unfolding lifetime_inv_def by (metis counted_ok_simps(1) less_numeral_extra(3))
next
  case (Some obj)
  with assms(1) have "counted_ok (Some obj) (held s (TaskEvent a) + xe a)" unfolding lifetime_inv_def by metis
  with Some that show ?thesis by simp
qed

lemma lifetime_message_live:
  assumes "lifetime_inv xe xm s" and "n = of_bool (\<exists>a. wraps (es_events s) a w) + held s (TaskMessage w) + xm w" and "0 < n"
  obtains obj where "es_messages s w = Some obj" "ct_has_pool obj" "ct_ref_count obj = int n"
proof (cases "es_messages s w")
  case None
  with assms show ?thesis unfolding lifetime_inv_def by (metis counted_ok_simps(1) less_numeral_extra(3))
next
  case (Some obj)
  with assms(1,2) have "counted_ok (Some obj) n" unfolding lifetime_inv_def by metis
  with Some that show ?thesis by simp
qed

text \<open>Taking and dropping pointers keeps the invariant.\<close>

lemma event_add_ref_inv:
  assumes inv: "lifetime_inv xe xm s" and live: "0 < held s (TaskEvent a) + xe a"
  obtains obj where "es_events s a = Some obj"
    "event_add_ref a s = Inr (s\<lparr>es_events := (es_events s)(a \<mapsto> obj\<lparr>ct_ref_count := ct_ref_count obj + 1\<rparr>)\<rparr>)"
    "lifetime_inv (xe(a := Suc (xe a))) xm (s\<lparr>es_events := (es_events s)(a \<mapsto> obj\<lparr>ct_ref_count := ct_ref_count obj + 1\<rparr>)\<rparr>)"
proof -
  from lifetime_event_live [OF inv live] obtain obj where obj: "es_events s a = Some obj" "ct_has_pool obj"
    "ct_ref_count obj = int (held s (TaskEvent a) + xe a)" .
  let ?evs = "(es_events s)(a \<mapsto> obj\<lparr>ct_ref_count := ct_ref_count obj + 1\<rparr>)"
  have wr: "wraps ((es_events s)(a \<mapsto> obj\<lparr>ct_ref_count := n\<rparr>)) b w = wraps (es_events s) b w" for b w n
    using obj(1) by (simp add: wraps_def)
  have "dom ?evs = dom (es_events s)" using obj(1) by auto
  with inv obj have "lifetime_inv (xe(a := Suc (xe a))) xm (s\<lparr>es_events := ?evs\<rparr>)"
    unfolding lifetime_inv_def by (simp add: wr)
  with obj(1) show ?thesis by (intro that [of obj]) (simp_all add: event_add_ref_def)
qed

lemma message_add_ref_inv:
  assumes inv: "lifetime_inv xe xm s"
    and live: "0 < of_bool (\<exists>a. wraps (es_events s) a w) + held s (TaskMessage w) + xm w"
  obtains obj where "es_messages s w = Some obj"
    "message_add_ref w s = Inr (s\<lparr>es_messages := (es_messages s)(w \<mapsto> obj\<lparr>ct_ref_count := ct_ref_count obj + 1\<rparr>)\<rparr>)"
    "lifetime_inv xe (xm(w := Suc (xm w))) (s\<lparr>es_messages := (es_messages s)(w \<mapsto> obj\<lparr>ct_ref_count := ct_ref_count obj + 1\<rparr>)\<rparr>)"
proof -
  from lifetime_message_live [OF inv refl live] obtain obj where obj: "es_messages s w = Some obj" "ct_has_pool obj"
    "ct_ref_count obj = int (of_bool (\<exists>a. wraps (es_events s) a w) + held s (TaskMessage w) + xm w)" .
  let ?ms = "(es_messages s)(w \<mapsto> obj\<lparr>ct_ref_count := ct_ref_count obj + 1\<rparr>)"
  have "dom ?ms = dom (es_messages s)" using obj(1) by auto
  with inv obj have "lifetime_inv xe (xm(w := Suc (xm w))) (s\<lparr>es_messages := ?ms\<rparr>)"
    unfolding lifetime_inv_def by simp
  with obj(1) show ?thesis by (intro that [of obj]) (simp_all add: message_add_ref_def)
qed


lemma message_release_inv:
  assumes inv: "lifetime_inv xe xm s" and live: "0 < xm w"
  obtains t where "message_release w s = Inr t" "lifetime_inv xe (xm(w := xm w - 1)) t"
    "es_events t = es_events s" "es_tasks t = es_tasks s" "es_seen t = es_seen s" "es_event_pool t = es_event_pool s"
    "\<forall>v obj. es_messages t v = Some obj \<longrightarrow> map_option mo_body (es_messages s v) = Some (mo_body obj)"
proof -
  define n where n: "n = of_bool (\<exists>a. wraps (es_events s) a w) + held s (TaskMessage w) + xm w"
  have pos: "0 < n" using live n by simp
  from lifetime_message_live [OF inv n pos] obtain obj where obj: "es_messages s w = Some obj" "ct_has_pool obj"
    "ct_ref_count obj = int n" .
  show ?thesis
  proof (cases "n = 1")
    case True
    let ?t = "s\<lparr>es_messages := (es_messages s)(w := None), es_message_pool := Deallocate (Some w) (es_message_pool s)\<rparr>"
    have zero: "\<not> (\<exists>a. wraps (es_events s) a w)" "held s (TaskMessage w) = 0" "xm w = 1"
      using True live n by (auto simp: of_bool_def split: if_splits)
    have "w \<in> mp_live (es_message_pool s)" using inv obj(1) unfolding lifetime_inv_def by blast
    with pool_ok_free [of "es_message_pool s" w] inv zero have "lifetime_inv xe (xm(w := xm w - 1)) ?t"
      unfolding lifetime_inv_def by auto
    with True obj show ?thesis by (intro that [of ?t]) (simp_all add: message_release_def)
  next
    case False
    let ?t = "s\<lparr>es_messages := (es_messages s)(w \<mapsto> obj\<lparr>ct_ref_count := ct_ref_count obj - 1\<rparr>)\<rparr>"
    have "dom (es_messages ?t) = dom (es_messages s)" using obj(1) by auto
    moreover have "of_bool (\<exists>a. wraps (es_events s) a w) + held s (TaskMessage w) + (xm w - 1) = n - 1"
      using live n by simp
    ultimately have "lifetime_inv xe (xm(w := xm w - 1)) ?t"
      using inv obj False pos unfolding lifetime_inv_def by (simp add: of_nat_diff)
    with False obj show ?thesis by (intro that [of ?t]) (auto simp: message_release_def)
  qed
qed


text \<open>What an operation leaves of a system for those who still hold a pointer: objects that are live afterwards were live before and
  wrap or carry the same.\<close>

definition keeps :: "'m event_system \<Rightarrow> 'm event_system \<Rightarrow> bool" where
  "keeps s t \<longleftrightarrow>
     es_tasks t = es_tasks s \<and> es_seen t = es_seen s \<and>
     (\<forall>a obj. es_events t a = Some obj \<longrightarrow> map_option eo_wrapped (es_events s a) = Some (eo_wrapped obj)) \<and>
     (\<forall>w obj. es_messages t w = Some obj \<longrightarrow> map_option mo_body (es_messages s w) = Some (mo_body obj))"

lemma keeps_trans: "keeps s t \<Longrightarrow> keeps t u \<Longrightarrow> keeps s u"
  unfolding keeps_def by fastforce

lemma keeps_event: "keeps s t \<Longrightarrow> es_events t a = Some obj \<Longrightarrow> \<exists>z. es_events s a = Some z \<and> eo_wrapped z = eo_wrapped obj"
  and keeps_message: "keeps s t \<Longrightarrow> es_messages t w = Some m \<Longrightarrow> \<exists>z. es_messages s w = Some z \<and> mo_body z = mo_body m"
  by (auto simp: keeps_def)

lemma message_release_events:
  "message_release w (s\<lparr>es_events := evs, es_event_pool := p\<rparr>) =
     bind_result (message_release w s) (\<lambda>t. Inr (t\<lparr>es_events := evs, es_event_pool := p\<rparr>))"
  by (cases s) (simp add: message_release_def split: option.split)

lemma event_removed_inv:
  assumes inv: "lifetime_inv xe xm s" and obj: "es_events s a = Some obj" and one: "held s (TaskEvent a) = 0" "xe a = 1"
  shows "lifetime_inv (xe(a := 0)) (case eo_wrapped obj of None \<Rightarrow> xm | Some w \<Rightarrow> xm(w := Suc (xm w)))
           (s\<lparr>es_events := (es_events s)(a := None), es_event_pool := Deallocate (Some a) (es_event_pool s)\<rparr>)"
proof -
  let ?evs = "(es_events s)(a := None)"
  let ?xm = "case eo_wrapped obj of None \<Rightarrow> xm | Some w \<Rightarrow> xm(w := Suc (xm w))"
  have "a \<in> mp_live (es_event_pool s)" using inv obj unfolding lifetime_inv_def by blast
  note pool = pool_ok_free [OF _ this]
  have "of_bool (\<exists>b. wraps ?evs b w) + ?xm w = of_bool (\<exists>b. wraps (es_events s) b w) + xm w" for w
  proof (cases "eo_wrapped obj = Some w")
    case True
    with obj inv have "wraps (es_events s) b w \<longleftrightarrow> b = a" for b
      unfolding lifetime_inv_def wraps_def by (metis option.inject)
    with True show ?thesis by (simp add: wraps_upd)
  next
    case False
    with obj have "\<not> wraps (es_events s) a w" by (simp add: wraps_def)
    then have "(\<exists>b. wraps ?evs b w) = (\<exists>b. wraps (es_events s) b w)" by (auto simp: wraps_upd)
    with False show ?thesis by (simp split: option.split)
  qed
  then have *: "of_bool (\<exists>b. wraps ?evs b w) + held s (TaskMessage w) + ?xm w =
      of_bool (\<exists>b. wraps (es_events s) b w) + held s (TaskMessage w) + xm w" for w
    by (metis (no_types, lifting) add.assoc add.commute)
  have "dom ?evs = mp_live (Deallocate (Some a) (es_event_pool s)) \<and> pool_ok (Deallocate (Some a) (es_event_pool s))"
    using inv pool unfolding lifetime_inv_def by simp
  moreover have "\<forall>b. counted_ok (?evs b) (held s (TaskEvent b) + (xe(a := 0)) b)"
    using inv one unfolding lifetime_inv_def by simp
  moreover have "\<forall>b c w. wraps ?evs b w \<longrightarrow> wraps ?evs c w \<longrightarrow> b = c"
    using inv unfolding lifetime_inv_def wraps_upd by blast
  ultimately show ?thesis
    using inv unfolding lifetime_inv_def by (simp add: *)
qed

text \<open>No object is freed and none changes.\<close>

definition same_objects :: "'m event_system \<Rightarrow> 'm event_system \<Rightarrow> bool" where
  "same_objects s t \<longleftrightarrow>
     es_seen t = es_seen s \<and>
     (\<forall>a. map_option eo_wrapped (es_events t a) = map_option eo_wrapped (es_events s a)) \<and>
     (\<forall>w. map_option mo_body (es_messages t w) = map_option mo_body (es_messages s w))"

lemma event_release_shared:
  assumes inv: "lifetime_inv xe xm s" and live: "0 < xe a" "1 < held s (TaskEvent a) + xe a"
  obtains t where "event_release a s = Inr t" "lifetime_inv (xe(a := xe a - 1)) xm t" "same_objects s t" "es_tasks t = es_tasks s"
proof -
  have pos: "0 < held s (TaskEvent a) + xe a" using live by simp
  from lifetime_event_live [OF inv pos] obtain obj where obj: "es_events s a = Some obj" "ct_has_pool obj"
    "ct_ref_count obj = int (held s (TaskEvent a) + xe a)" .
  let ?t = "s\<lparr>es_events := (es_events s)(a \<mapsto> obj\<lparr>ct_ref_count := ct_ref_count obj - 1\<rparr>)\<rparr>"
  have wr: "wraps ((es_events s)(a \<mapsto> obj\<lparr>ct_ref_count := n\<rparr>)) b w = wraps (es_events s) b w" for b w n
    using obj(1) by (simp add: wraps_def)
  have "dom (es_events ?t) = dom (es_events s)" using obj(1) by auto
  with inv obj live have "lifetime_inv (xe(a := xe a - 1)) xm ?t"
    unfolding lifetime_inv_def by (simp add: wr of_nat_diff)
  moreover have "ct_ref_count obj \<noteq> 1" using live obj(3) by simp
  ultimately show ?thesis
    using obj(1) by (intro that [of ?t]) (simp_all add: event_release_def same_objects_def)
qed

lemma event_release_inv:
  assumes inv: "lifetime_inv xe xm s" and live: "0 < xe a"
  obtains t where "event_release a s = Inr t" "lifetime_inv (xe(a := xe a - 1)) xm t" "keeps s t"
proof -
  have pos: "0 < held s (TaskEvent a) + xe a" using live by simp
  from lifetime_event_live [OF inv pos] obtain obj where obj: "es_events s a = Some obj" "ct_has_pool obj"
    "ct_ref_count obj = int (held s (TaskEvent a) + xe a)" .
  show ?thesis
  proof (cases "held s (TaskEvent a) + xe a = 1")
    case True
    with live have one: "held s (TaskEvent a) = 0" "xe a = 1" by auto
    let ?d = "\<lambda>t. t\<lparr>es_events := (es_events s)(a := None), es_event_pool := Deallocate (Some a) (es_event_pool s)\<rparr>"
    note rem = event_removed_inv [OF inv obj(1) one]
    show ?thesis
    proof (cases "eo_wrapped obj")
      case None
      with rem one obj True show ?thesis
        by (intro that [of "?d s"]) (auto simp: event_release_def for_pointer_def keeps_def)
    next
      case (Some w)
      with rem have "lifetime_inv (xe(a := 0)) (xm(w := Suc (xm w))) (?d s)" by simp
      then obtain t where rel: "message_release w (?d s) = Inr t"
        and t: "lifetime_inv (xe(a := 0)) ((xm(w := Suc (xm w)))(w := (xm(w := Suc (xm w))) w - 1)) t"
        "es_events t = es_events (?d s)" "es_tasks t = es_tasks (?d s)" "es_seen t = es_seen (?d s)"
        "\<forall>v obj. es_messages t v = Some obj \<longrightarrow> map_option mo_body (es_messages (?d s) v) = Some (mo_body obj)"
        by (rule message_release_inv [of _ _ _ w]) simp_all
      from rel obtain u where u: "message_release w s = Inr u" "t = ?d u" by (auto simp: message_release_events)
      have "es_events u = es_events s \<and> es_event_pool u = es_event_pool s"
        using u(1) by (auto simp: message_release_def split: option.splits if_splits)
      with u obj True Some have "event_release a s = Inr t" by (simp add: event_release_def for_pointer_def)
      moreover have "keeps s t" using t(2-5) unfolding keeps_def by simp
      ultimately show ?thesis using that t(1) one by simp
    qed
  next
    case False
    with live have "1 < held s (TaskEvent a) + xe a" by simp
    from event_release_shared [OF inv live this] obtain t where t: "event_release a s = Inr t"
      "lifetime_inv (xe(a := xe a - 1)) xm t" "same_objects s t" "es_tasks t = es_tasks s" .
    then have "keeps s t" unfolding keeps_def same_objects_def by (metis option.simps(9))
    with t show ?thesis by (intro that [of t])
  qed
qed


lemma new_message_inv:
  assumes inv: "lifetime_inv xe xm s"
  obtains w s1 t where "new_message m s = (Some w, s1)" "message_add_ref w s1 = Inr t"
    "lifetime_inv xe (xm(w := 1)) t" "es_messages s w = None" "\<not> (\<exists>a. wraps (es_events s) a w)"
    "es_messages t = (es_messages s)(w \<mapsto> \<lparr>ct_ref_count = 1, ct_has_pool = True, mo_body = m\<rparr>)"
    "es_events t = es_events s" "es_tasks t = es_tasks s" "es_seen t = es_seen s"
proof -
  obtain w p where alloc: "Allocate (es_message_pool s) = (Some w, p)"
    using inv pool_ok_gives unfolding lifetime_inv_def by metis
  let ?t = "s\<lparr>es_message_pool := p,
              es_messages := (es_messages s)(w \<mapsto> \<lparr>ct_ref_count = 1, ct_has_pool = True, mo_body = m\<rparr>)\<rparr>"
  have p: "w \<notin> mp_live (es_message_pool s)" "mp_live p = insert w (mp_live (es_message_pool s))" "pool_ok p"
    using pool_ok_alloc [OF _ alloc] inv unfolding lifetime_inv_def by blast+
  with inv have fresh: "es_messages s w = None" unfolding lifetime_inv_def by auto
  with inv have "of_bool (\<exists>a. wraps (es_events s) a w) + held s (TaskMessage w) + xm w = (0 :: nat)"
    unfolding lifetime_inv_def by (metis counted_ok_simps(1))
  then have zero: "\<not> (\<exists>a. wraps (es_events s) a w)" "held s (TaskMessage w) = 0" "xm w = 0"
    by (auto simp: of_bool_def split: if_splits)
  have "lifetime_inv xe (xm(w := 1)) ?t"
    using inv p zero unfolding lifetime_inv_def by simp
  moreover define s1 where s1: "s1 = s\<lparr>es_message_pool := p,
      es_messages := (es_messages s)(w \<mapsto> \<lparr>ct_ref_count = 0, ct_has_pool = True, mo_body = m\<rparr>)\<rparr>"
  have "new_message m s = (Some w, s1)" using alloc by (simp add: s1 new_message_def)
  moreover have "message_add_ref w s1 = Inr ?t" by (simp add: s1 message_add_ref_def)
  ultimately show ?thesis using fresh zero(1) by (intro that [of w s1 ?t]) simp_all
qed

lemma new_event_inv:
  assumes inv: "lifetime_inv xe xm s"
    and w: "es_messages s w = Some obj" "ct_ref_count obj = 1" "0 < xm w" "\<not> (\<exists>b. wraps (es_events s) b w)"
  obtains a s1 t where "new_event (Some w) s = Inr (Some a, s1)" "event_add_ref a s1 = Inr t"
    "lifetime_inv (xe(a := 1)) xm t" "es_events s a = None"
    "es_events t = (es_events s)(a \<mapsto> \<lparr>ct_ref_count = 1, ct_has_pool = True, eo_wrapped = Some w\<rparr>)"
    "es_messages t = (es_messages s)(w \<mapsto> obj\<lparr>ct_ref_count := 2\<rparr>)" "es_tasks t = es_tasks s" "es_seen t = es_seen s"
proof -
  obtain a p where alloc: "Allocate (es_event_pool s) = (Some a, p)"
    using inv pool_ok_gives unfolding lifetime_inv_def by metis
  let ?evs = "(es_events s)(a \<mapsto> \<lparr>ct_ref_count = 1, ct_has_pool = True, eo_wrapped = Some w\<rparr>)"
  let ?t = "s\<lparr>es_event_pool := p, es_messages := (es_messages s)(w \<mapsto> obj\<lparr>ct_ref_count := 2\<rparr>), es_events := ?evs\<rparr>"
  have p: "a \<notin> mp_live (es_event_pool s)" "mp_live p = insert a (mp_live (es_event_pool s))" "pool_ok p"
    using pool_ok_alloc [OF _ alloc] inv unfolding lifetime_inv_def by blast+
  with inv have fresh: "es_events s a = None" unfolding lifetime_inv_def by auto
  with inv have "held s (TaskEvent a) + xe a = 0" unfolding lifetime_inv_def by (metis counted_ok_simps(1))
  then have zero: "held s (TaskEvent a) = 0" "xe a = 0" by simp_all
  have "counted_ok (es_messages s w) (of_bool (\<exists>b. wraps (es_events s) b w) + held s (TaskMessage w) + xm w)"
    using inv unfolding lifetime_inv_def by blast
  with w have mw: "ct_has_pool obj" "held s (TaskMessage w) = 0" "xm w = 1" by auto
  have "(\<exists>b. wraps ?evs b v) \<longleftrightarrow> v = w \<or> (\<exists>b. wraps (es_events s) b v)" for v
    using fresh by (auto simp: wraps_upd) (metis (no_types) option.distinct(1) wraps_def)
  moreover have "\<forall>b c v. wraps ?evs b v \<longrightarrow> wraps ?evs c v \<longrightarrow> b = c"
    using inv w(4) unfolding lifetime_inv_def wraps_upd by auto
  moreover have "dom ((es_messages s)(w \<mapsto> obj\<lparr>ct_ref_count := 2\<rparr>)) = dom (es_messages s)" using w(1) by auto
  ultimately have "lifetime_inv (xe(a := 1)) xm ?t"
    using inv p zero mw w(4) unfolding lifetime_inv_def by simp
  moreover define s1 where s1: "s1 = s\<lparr>es_event_pool := p, es_messages := (es_messages s)(w \<mapsto> obj\<lparr>ct_ref_count := 2\<rparr>),
      es_events := (es_events s)(a \<mapsto> \<lparr>ct_ref_count = 0, ct_has_pool = True, eo_wrapped = Some w\<rparr>)\<rparr>"
  have "new_event (Some w) s = Inr (Some a, s1)"
    using alloc w(1,2) by (simp add: s1 new_event_def for_pointer_def message_add_ref_def message_release_def)
  moreover have "event_add_ref a s1 = Inr ?t" by (simp add: s1 event_add_ref_def)
  ultimately show ?thesis using fresh by (intro that [of a s1 ?t]) simp_all
qed

text \<open>A spawned task takes over the pointer that was made for it.\<close>

lemma lifetime_owners:
  assumes inv: "lifetime_inv xe xm s"
    and same: "es_messages t = es_messages s" "es_events t = es_events s"
      "es_message_pool t = es_message_pool s" "es_event_pool t = es_event_pool s"
    and events: "\<And>a. held t (TaskEvent a) + xe' a = held s (TaskEvent a) + xe a"
    and messages: "\<And>w. held t (TaskMessage w) + xm' w = held s (TaskMessage w) + xm w"
  shows "lifetime_inv xe' xm' t"
  using inv unfolding lifetime_inv_def same events add.assoc messages .

lemma spawn_inv:
  "lifetime_inv (xe(a := Suc (xe a))) xm s \<Longrightarrow> lifetime_inv xe xm (spawn_task c (TaskEvent a) s)"
  "lifetime_inv xe (xm(w := Suc (xm w))) s \<Longrightarrow> lifetime_inv xe xm (spawn_task c (TaskMessage w) s)"
  "lifetime_inv xe xm s \<Longrightarrow> lifetime_inv xe xm (spawn_task c (TaskRaw a) s)"
  by (erule lifetime_owners; (simp add: held_upd)?; simp add: spawn_task_def)+

text \<open>The task that a handler spawns for an event \<open>a\<close> with message \<open>w\<close>.\<close>

fun spawned_ref :: "handling \<Rightarrow> addr \<Rightarrow> addr \<Rightarrow> task_ref option" where
  "spawned_ref Ignored a w = None"
| "spawned_ref KeepsEvent a w = Some (TaskEvent a)"
| "spawned_ref KeepsMessage a w = Some (TaskMessage w)"
| "spawned_ref KeepsRaw a w = Some (TaskRaw a)"

definition spawned_by :: "handling \<Rightarrow> component \<Rightarrow> addr \<Rightarrow> addr \<Rightarrow> (component \<times> task_ref) list" where
  "spawned_by h c a w = (case spawned_ref h a w of None \<Rightarrow> [] | Some r \<Rightarrow> [(c, r)])"

lemma handler_body_inv:
  assumes inv: "lifetime_inv xe xm s" and live: "0 < xe a" and w: "map_option eo_wrapped (es_events s a) = Some (Some w)"
  obtains t where "handler_body h c a s = Inr t" "lifetime_inv xe xm t" "same_objects s t" "es_tasks t = es_tasks s @ spawned_by h c a w"
proof (cases h)
  case Ignored
  with inv show ?thesis by (intro that [of s]) (simp_all add: handler_body_def same_objects_def spawned_by_def)
next
  case KeepsRaw
  with inv show ?thesis
    by (intro that [of "spawn_task c (TaskRaw a) s"])
      (simp_all add: handler_body_def same_objects_def spawned_by_def spawn_inv, simp_all add: spawn_task_def)
next
  case KeepsEvent
  have pos: "0 < held s (TaskEvent a) + xe a" using live by simp
  from event_add_ref_inv [OF inv pos] obtain obj where obj: "es_events s a = Some obj"
    "event_add_ref a s = Inr (s\<lparr>es_events := (es_events s)(a \<mapsto> obj\<lparr>ct_ref_count := ct_ref_count obj + 1\<rparr>)\<rparr>)"
    and inv': "lifetime_inv (xe(a := Suc (xe a))) xm (s\<lparr>es_events := (es_events s)(a \<mapsto> obj\<lparr>ct_ref_count := ct_ref_count obj + 1\<rparr>)\<rparr>)" .
  from spawn_inv(1) [OF inv'] obj KeepsEvent show ?thesis
    by (intro that [of "spawn_task c (TaskEvent a) (s\<lparr>es_events := (es_events s)(a \<mapsto> obj\<lparr>ct_ref_count := ct_ref_count obj + 1\<rparr>)\<rparr>)"])
      (simp_all add: handler_body_def same_objects_def spawned_by_def, simp_all add: spawn_task_def)
next
  case KeepsMessage
  from w have wr: "wraps (es_events s) a w" by (auto simp: wraps_def)
  then have pos: "0 < of_bool (\<exists>b. wraps (es_events s) b w) + held s (TaskMessage w) + xm w" by auto
  from message_add_ref_inv [OF inv pos] obtain obj where obj: "es_messages s w = Some obj"
    "message_add_ref w s = Inr (s\<lparr>es_messages := (es_messages s)(w \<mapsto> obj\<lparr>ct_ref_count := ct_ref_count obj + 1\<rparr>)\<rparr>)"
    and inv': "lifetime_inv xe (xm(w := Suc (xm w))) (s\<lparr>es_messages := (es_messages s)(w \<mapsto> obj\<lparr>ct_ref_count := ct_ref_count obj + 1\<rparr>)\<rparr>)" .
  have "WrappedEvent a s = Inr (Some w)" using wr by (auto simp: WrappedEvent_def wraps_def)
  with spawn_inv(2) [OF inv'] obj KeepsMessage show ?thesis
    by (intro that [of "spawn_task c (TaskMessage w) (s\<lparr>es_messages := (es_messages s)(w \<mapsto> obj\<lparr>ct_ref_count := ct_ref_count obj + 1\<rparr>)\<rparr>)"])
      (simp_all add: handler_body_def same_objects_def spawned_by_def, simp_all add: spawn_task_def)
qed


lemma same_objects_trans: "same_objects s t \<Longrightarrow> same_objects t u \<Longrightarrow> same_objects s u"
  by (simp add: same_objects_def)

lemma Accept_inv:
  assumes inv: "lifetime_inv xe xm s" and live: "0 < xe a" and w: "map_option eo_wrapped (es_events s a) = Some (Some w)"
  obtains t where "Accept cls kind a c s = Inr t" "lifetime_inv xe xm t" "same_objects s t"
    "es_tasks t = es_tasks s @ spawned_by (AsyncHandleEvent (kind c) cls) c a w"
proof (cases "takes_intrusive cls")
  case False
  obtain t where "handler_body (AsyncHandleEvent (kind c) cls) c a s = Inr t" "lifetime_inv xe xm t" "same_objects s t"
    "es_tasks t = es_tasks s @ spawned_by (AsyncHandleEvent (kind c) cls) c a w"
    by (rule handler_body_inv [OF inv live w])
  with False show ?thesis by (intro that [of t]) (simp_all add: Accept_def)
next
  case True
  have pos: "0 < held s (TaskEvent a) + xe a" using live by simp
  from event_add_ref_inv [OF inv pos] obtain obj where obj: "es_events s a = Some obj"
    and add: "event_add_ref a s = Inr (s\<lparr>es_events := (es_events s)(a \<mapsto> obj\<lparr>ct_ref_count := ct_ref_count obj + 1\<rparr>)\<rparr>)"
    and inv1: "lifetime_inv (xe(a := Suc (xe a))) xm (s\<lparr>es_events := (es_events s)(a \<mapsto> obj\<lparr>ct_ref_count := ct_ref_count obj + 1\<rparr>)\<rparr>)" .
  define s1 where s1: "s1 = s\<lparr>es_events := (es_events s)(a \<mapsto> obj\<lparr>ct_ref_count := ct_ref_count obj + 1\<rparr>)\<rparr>"
  have same1: "same_objects s s1" "es_tasks s1 = es_tasks s" using obj by (simp_all add: s1 same_objects_def)
  have w1: "map_option eo_wrapped (es_events s1 a) = Some (Some w)" using same1(1) w by (simp add: same_objects_def)
  obtain s2 where s2: "handler_body (AsyncHandleEvent (kind c) cls) c a s1 = Inr s2" "lifetime_inv (xe(a := Suc (xe a))) xm s2"
    "same_objects s1 s2" "es_tasks s2 = es_tasks s1 @ spawned_by (AsyncHandleEvent (kind c) cls) c a w"
    by (rule handler_body_inv [OF inv1 [folded s1] _ w1]) simp
  obtain t where t: "event_release a s2 = Inr t" "lifetime_inv ((xe(a := Suc (xe a)))(a := (xe(a := Suc (xe a))) a - 1)) xm t"
    "same_objects s2 t" "es_tasks t = es_tasks s2"
    by (rule event_release_shared [OF s2(2), of a]) (use live in simp_all)
  have "same_objects s t" using same1(1) s2(3) t(3) by (meson same_objects_trans)
  with True add s2 t same1(2) show ?thesis
    by (intro that [of t]) (simp_all add: Accept_def s1 [symmetric])
qed

definition subscriber_list :: "CoBus \<Rightarrow> component \<Rightarrow> component list" where
  "subscriber_list b p = (case map_of (cb_subscribers b) p of None \<Rightarrow> [] | Some ss \<Rightarrow> List.map the (filter (\<lambda>c. c \<noteq> None) ss))"

lemma deliver_fold_inv:
  assumes "lifetime_inv xe xm s" and live: "0 < xe a" and "map_option eo_wrapped (es_events s a) = Some (Some w)"
  shows "\<exists>t. fold (deliver (accept_handler cls kind a)) ss (Inr s) = Inr t \<and> lifetime_inv xe xm t \<and> same_objects s t \<and>
     es_tasks t = es_tasks s @
       concat (List.map (\<lambda>c. spawned_by (AsyncHandleEvent (kind c) cls) c a w) (List.map the (filter (\<lambda>c. c \<noteq> None) ss)))"
  using assms(1,3)
proof (induction ss arbitrary: s)
  case Nil
  then show ?case by (simp add: same_objects_def)
next
  case (Cons x ss)
  show ?case
  proof (cases x)
    case None
    with Cons show ?thesis by (simp add: deliver_def)
  next
    case (Some c)
    obtain u where u: "Accept cls kind a c s = Inr u" "lifetime_inv xe xm u" "same_objects s u"
      "es_tasks u = es_tasks s @ spawned_by (AsyncHandleEvent (kind c) cls) c a w"
      by (rule Accept_inv [OF Cons.prems(1) live Cons.prems(2)])
    then have "map_option eo_wrapped (es_events u a) = Some (Some w)"
      using Cons.prems(2) by (simp add: same_objects_def)
    from Cons.IH [OF u(2) this] u Some show ?thesis
      by (auto simp: deliver_def accept_handler_def dest: same_objects_trans)
  qed
qed

lemma AsyncSend_inv:
  assumes "lifetime_inv xe xm s" and "0 < xe a" and "map_option eo_wrapped (es_events s a) = Some (Some w)"
  obtains t where "AsyncSend p (Some (accept_handler cls kind a)) b (Inr s) = Inr t" "lifetime_inv xe xm t" "same_objects s t"
    "es_tasks t = es_tasks s @
       concat (List.map (\<lambda>c. spawned_by (AsyncHandleEvent (kind c) cls) c a w) (subscriber_list b p))"
proof (cases "map_of (cb_subscribers b) p")
  case None
  with assms(1) show ?thesis by (intro that [of s]) (simp_all add: AsyncSend_def subscriber_list_def same_objects_def)
next
  case (Some ss)
  from deliver_fold_inv [OF assms, of cls kind ss] Some show ?thesis
    by (auto simp: AsyncSend_def subscriber_list_def intro: that)
qed


section \<open>What the tasks read\<close>

text \<open>The message that a task is going to read.\<close>

definition event_message :: "'m event_system \<Rightarrow> addr \<Rightarrow> addr option" where
  "event_message s a = (case es_events s a of None \<Rightarrow> None | Some obj \<Rightarrow> eo_wrapped obj)"

fun pending_message :: "'m event_system \<Rightarrow> task_ref \<Rightarrow> 'm option" where
  "pending_message s (TaskMessage w) = map_option mo_body (es_messages s w)"
| "pending_message s (TaskEvent a) =
     (case event_message s a of None \<Rightarrow> None | Some w \<Rightarrow> map_option mo_body (es_messages s w))"
| "pending_message s (TaskRaw a) =
     (case event_message s a of None \<Rightarrow> None | Some w \<Rightarrow> map_option mo_body (es_messages s w))"

fun counted_ref :: "task_ref \<Rightarrow> bool" where
  "counted_ref (TaskRaw a) \<longleftrightarrow> False"
| "counted_ref _ \<longleftrightarrow> True"

lemma wrapped_live:
  assumes "lifetime_inv xe xm s" and "es_events s a = Some obj" and "eo_wrapped obj = Some w"
  shows "\<exists>m. es_messages s w = Some m"
proof -
  have "\<exists>b. wraps (es_events s) b w" using assms(2,3) by (auto simp: wraps_def)
  then have "0 < of_bool (\<exists>b. wraps (es_events s) b w) + held s (TaskMessage w) + xm w" by simp
  from lifetime_message_live [OF assms(1) refl this] show ?thesis by metis
qed

lemma task_reads_pending:
  assumes inv: "lifetime_inv xe xm s" and "0 < held s r" and "counted_ref r"
  shows "task_reads r s = Inr (pending_message s r)"
proof (cases r)
  case (TaskEvent a)
  with assms(2) have pos: "0 < held s (TaskEvent a) + xe a" by simp
  from lifetime_event_live [OF inv pos] obtain obj where obj: "es_events s a = Some obj" by metis
  with wrapped_live [OF inv obj] TaskEvent show ?thesis
    by (cases "eo_wrapped obj") (auto simp: WrappedEvent_def read_wrapped_def event_message_def)
next
  case (TaskMessage w)
  with assms(2) have pos: "0 < of_bool (\<exists>b. wraps (es_events s) b w) + held s (TaskMessage w) + xm w" by simp
  from lifetime_message_live [OF inv refl pos] obtain obj where "es_messages s w = Some obj" by metis
  with TaskMessage show ?thesis by (simp add: read_wrapped_def)
qed (use assms(3) in simp)

lemma pending_keeps:
  assumes inv: "lifetime_inv xe xm t" and "0 < held t r" and "counted_ref r" and keeps: "keeps s t"
  shows "pending_message t r = pending_message s r"
proof (cases r)
  case (TaskEvent a)
  with assms(2) have pos: "0 < held t (TaskEvent a) + xe a" by simp
  from lifetime_event_live [OF inv pos] obtain obj where obj: "es_events t a = Some obj" by metis
  with keeps_event [OF keeps obj] have ev: "event_message s a = eo_wrapped obj" by (auto simp: event_message_def)
  show ?thesis
  proof (cases "eo_wrapped obj")
    case None
    with ev obj TaskEvent show ?thesis by (simp add: event_message_def)
  next
    case (Some w)
    with wrapped_live [OF inv obj] obtain m where m: "es_messages t w = Some m" by auto
    with keeps_message [OF keeps m] ev obj TaskEvent Some show ?thesis by (auto simp: event_message_def)
  qed
next
  case (TaskMessage w)
  with assms(2) have pos: "0 < of_bool (\<exists>b. wraps (es_events t) b w) + held t (TaskMessage w) + xm w" by simp
  from lifetime_message_live [OF inv refl pos] obtain obj where obj: "es_messages t w = Some obj" by metis
  with keeps_message [OF keeps obj] TaskMessage show ?thesis by auto
qed (use assms(3) in simp)

lemma pending_same: "same_objects s t \<Longrightarrow> pending_message t r = pending_message s r"
proof -
  assume "same_objects s t"
  then have "event_message t a = event_message s a" for a
    unfolding same_objects_def event_message_def by (metis (no_types) option.case_eq_if option.map_disc_iff option.map_sel)
  with \<open>same_objects s t\<close> show ?thesis by (cases r) (simp_all add: same_objects_def split: option.split)
qed

text \<open>A new message and a new event change nothing for the tasks there are.\<close>

lemma pending_fresh:
  assumes inv: "lifetime_inv xe xm s" and "0 < held s r" and "counted_ref r"
    and fresh: "es_events s a = None" "es_messages s w = None"
    and t: "es_events t = (es_events s)(a \<mapsto> evt)" "es_messages t = (es_messages s)(w \<mapsto> msg)"
  shows "pending_message t r = pending_message s r"
proof (cases r)
  case (TaskEvent b)
  with assms(2) have pos: "0 < held s (TaskEvent b) + xe b" by simp
  from lifetime_event_live [OF inv pos] obtain obj where obj: "es_events s b = Some obj" by metis
  with wrapped_live [OF inv obj] TaskEvent fresh t show ?thesis
    by (cases "eo_wrapped obj") (auto simp: event_message_def)
next
  case (TaskMessage v)
  with assms(2) have pos: "0 < of_bool (\<exists>b. wraps (es_events s) b v) + held s (TaskMessage v) + xm v" by simp
  from lifetime_message_live [OF inv refl pos] obtain obj where "es_messages s v = Some obj" by metis
  with TaskMessage fresh t show ?thesis by auto
qed (use assms(3) in simp)


section \<open>Publishing\<close>

lemma zero_upd [simp]: "(\<lambda>_. 0 :: nat)(a := 0) = (\<lambda>_. 0)"
  by (rule ext) simp

text \<open>The objects of a new event \<open>a\<close> with message \<open>w\<close>, with the two pointers of the publisher and the parameter of \<open>AsyncSend\<close>.\<close>

lemma publish_prepares:
  assumes inv: "lifetime_inv (\<lambda>_. 0) (\<lambda>_. 0) s"
  obtains w s1 s2 a s3 s4 s5 where "new_message m s = (Some w, s1)" "message_add_ref w s1 = Inr s2"
    "new_event (Some w) s2 = Inr (Some a, s3)" "event_add_ref a s3 = Inr s4" "event_add_ref a s4 = Inr s5"
    "lifetime_inv ((\<lambda>_. 0)(a := 2)) ((\<lambda>_. 0)(w := 1)) s5"
    "event_message s5 a = Some w" "pending_message s5 (TaskMessage w) = Some m"
    "es_tasks s5 = es_tasks s" "es_seen s5 = es_seen s" "es_events s5 a \<noteq> None"
    "\<forall>r. 0 < held s r \<longrightarrow> counted_ref r \<longrightarrow> pending_message s5 r = pending_message s r"
proof -
  let ?O = "\<lambda>_. 0 :: nat"
  obtain w s1 s2 where s2: "new_message m s = (Some w, s1)" "message_add_ref w s1 = Inr s2"
    "lifetime_inv ?O (?O(w := 1)) s2" "es_messages s w = None" "\<not> (\<exists>a. wraps (es_events s) a w)"
    "es_messages s2 = (es_messages s)(w \<mapsto> \<lparr>ct_ref_count = 1, ct_has_pool = True, mo_body = m\<rparr>)"
    "es_events s2 = es_events s" "es_tasks s2 = es_tasks s" "es_seen s2 = es_seen s"
    by (rule new_message_inv [OF inv])
  obtain a s3 s4 where s4: "new_event (Some w) s2 = Inr (Some a, s3)" "event_add_ref a s3 = Inr s4"
    "lifetime_inv (?O(a := 1)) (?O(w := 1)) s4" "es_events s2 a = None"
    "es_events s4 = (es_events s2)(a \<mapsto> \<lparr>ct_ref_count = 1, ct_has_pool = True, eo_wrapped = Some w\<rparr>)"
    "es_messages s4 = (es_messages s2)(w \<mapsto> \<lparr>ct_ref_count = 1, ct_has_pool = True, mo_body = m\<rparr>\<lparr>ct_ref_count := 2\<rparr>)"
    "es_tasks s4 = es_tasks s2" "es_seen s4 = es_seen s2"
    by (rule new_event_inv [OF s2(3), of w "\<lparr>ct_ref_count = 1, ct_has_pool = True, mo_body = m\<rparr>"]) (use s2(5-7) in simp_all)
  obtain obj where s5: "es_events s4 a = Some obj"
    "event_add_ref a s4 = Inr (s4\<lparr>es_events := (es_events s4)(a \<mapsto> obj\<lparr>ct_ref_count := ct_ref_count obj + 1\<rparr>)\<rparr>)"
    "lifetime_inv ((?O(a := 1))(a := Suc ((?O(a := 1)) a))) (?O(w := 1))
       (s4\<lparr>es_events := (es_events s4)(a \<mapsto> obj\<lparr>ct_ref_count := ct_ref_count obj + 1\<rparr>)\<rparr>)"
    by (rule event_add_ref_inv [OF s4(3), of a]) simp_all
  define u where "u = s4\<lparr>es_events := (es_events s4)(a \<mapsto> obj\<lparr>ct_ref_count := ct_ref_count obj + 1\<rparr>)\<rparr>"
  have "\<forall>r. 0 < held s r \<longrightarrow> counted_ref r \<longrightarrow> pending_message u r = pending_message s r"
    using pending_fresh [OF inv, of _ a w u] s2(4,6,7) s4(4,5,6) by (auto simp: u_def)
  moreover have "lifetime_inv (?O(a := 2)) (?O(w := 1)) u" using s5(3) by (simp add: u_def numeral_2_eq_2)
  moreover have "obj = \<lparr>ct_ref_count = 1, ct_has_pool = True, eo_wrapped = Some w\<rparr>" using s4(5) s5(1) by simp
  ultimately show ?thesis
    using s2 s4 s5(2) by (intro that [of w s1 s2 a s3 s4 u]) (simp_all add: u_def event_message_def)
qed

text \<open>Then the tasks of the subscribers are added and the publisher drops its pointers.\<close>

lemma publish_event_inv:
  assumes inv: "lifetime_inv (\<lambda>_. 0) (\<lambda>_. 0) s"
  obtains t u a w where "publish_event cls kind b p m s = Inr t" "lifetime_inv (\<lambda>_. 0) (\<lambda>_. 0) t" "keeps u t"
    "es_tasks u = es_tasks s @ concat (List.map (\<lambda>c. spawned_by (AsyncHandleEvent (kind c) cls) c a w) (subscriber_list b p))"
    "es_seen u = es_seen s" "pending_message u (TaskEvent a) = Some m" "pending_message u (TaskMessage w) = Some m"
    "\<forall>r. 0 < held s r \<longrightarrow> counted_ref r \<longrightarrow> pending_message u r = pending_message s r"
proof -
  let ?O = "\<lambda>_. 0 :: nat"
  obtain w s1 s2 a s3 s4 s5 where prep: "new_message m s = (Some w, s1)" "message_add_ref w s1 = Inr s2"
    "new_event (Some w) s2 = Inr (Some a, s3)" "event_add_ref a s3 = Inr s4" "event_add_ref a s4 = Inr s5"
    and inv5: "lifetime_inv (?O(a := 2)) (?O(w := 1)) s5"
    and s5: "event_message s5 a = Some w" "pending_message s5 (TaskMessage w) = Some m"
      "es_tasks s5 = es_tasks s" "es_seen s5 = es_seen s" "es_events s5 a \<noteq> None"
      "\<forall>r. 0 < held s r \<longrightarrow> counted_ref r \<longrightarrow> pending_message s5 r = pending_message s r"
    by (rule publish_prepares [OF inv])
  have "map_option eo_wrapped (es_events s5 a) = Some (Some w)" using s5(1) by (auto simp: event_message_def split: option.splits)
  then obtain s6 where send: "AsyncSend p (Some (accept_handler cls kind a)) b (Inr s5) = Inr s6"
    and inv6: "lifetime_inv (?O(a := 2)) (?O(w := 1)) s6" and same: "same_objects s5 s6"
    and tasks: "es_tasks s6 = es_tasks s5 @ concat (List.map (\<lambda>c. spawned_by (AsyncHandleEvent (kind c) cls) c a w) (subscriber_list b p))"
    by (rule AsyncSend_inv [OF inv5, rotated]) simp_all
  obtain s7 where s7: "event_release a s6 = Inr s7" "lifetime_inv ((?O(a := 2))(a := (?O(a := 2)) a - 1)) (?O(w := 1)) s7" "keeps s6 s7"
    by (rule event_release_inv [OF inv6, of a]) simp
  obtain s8 where s8: "event_release a s7 = Inr s8" "keeps s7 s8"
    "lifetime_inv (((?O(a := 2))(a := (?O(a := 2)) a - 1))(a := ((?O(a := 2))(a := (?O(a := 2)) a - 1)) a - 1)) (?O(w := 1)) s8"
    by (rule event_release_inv [OF s7(2), of a]) simp
  then have inv8: "lifetime_inv ?O (?O(w := 1)) s8" by simp
  obtain t where t: "message_release w s8 = Inr t" "lifetime_inv ?O ((?O(w := 1))(w := (?O(w := 1)) w - 1)) t"
    "es_events t = es_events s8" "es_tasks t = es_tasks s8" "es_seen t = es_seen s8"
    "\<forall>v obj. es_messages t v = Some obj \<longrightarrow> map_option mo_body (es_messages s8 v) = Some (mo_body obj)"
    by (rule message_release_inv [OF inv8, of w]) simp
  have "keeps s8 t" using t(3-6) by (simp add: keeps_def)
  with s7(3) s8(2) have "keeps s6 t" by (meson keeps_trans)
  moreover have "publish_event cls kind b p m s = Inr t"
    using prep send s7(1) s8(1) t(1) by (simp add: publish_event_def for_pointer_def)
  moreover have "pending_message s6 r = pending_message s5 r" for r by (rule pending_same [OF same])
  moreover have "pending_message s5 (TaskEvent a) = Some m" using s5(1,2) by simp
  ultimately show ?thesis
    using t(2) tasks same s5 by (intro that [of t s6 a w]) (simp_all add: same_objects_def del: pending_message.simps)
qed


section \<open>Running a task\<close>

lemma run_task_inv:
  assumes inv: "lifetime_inv (\<lambda>_. 0) (\<lambda>_. 0) s" and tasks: "es_tasks s = xs @ (c, r) # ys" and counted: "counted_ref r"
  obtains t where "run_task (length xs) s = Inr t" "lifetime_inv (\<lambda>_. 0) (\<lambda>_. 0) t" "es_tasks t = xs @ ys"
    "es_seen t = es_seen s @ [(c, pending_message s r)]"
    "keeps (s\<lparr>es_tasks := xs @ ys, es_seen := es_seen s @ [(c, pending_message s r)]\<rparr>) t"
proof -
  let ?O = "\<lambda>_. 0 :: nat"
  let ?s = "s\<lparr>es_tasks := xs @ ys, es_seen := es_seen s @ [(c, pending_message s r)]\<rparr>"
  have held: "held s q = held ?s q + of_bool (q = r)" for q by (simp add: held_def tasks)
  have run: "run_task (length xs) s = task_ends r ?s"
    using task_reads_pending [OF inv _ counted] held [of r] by (simp add: run_task_def tasks)
  show ?thesis
  proof (cases r)
    case (TaskEvent a)
    have "lifetime_inv (?O(a := 1)) ?O ?s"
      by (rule lifetime_owners [OF inv]) (simp_all add: held TaskEvent)
    then obtain t where "event_release a ?s = Inr t" "lifetime_inv ((?O(a := 1))(a := (?O(a := 1)) a - 1)) ?O t" "keeps ?s t"
      by (rule event_release_inv [of _ _ _ a]) simp_all
    with run TaskEvent show ?thesis by (intro that [of t]) (simp_all add: keeps_def)
  next
    case (TaskMessage w)
    have "lifetime_inv ?O (?O(w := 1)) ?s"
      by (rule lifetime_owners [OF inv]) (simp_all add: held TaskMessage)
    then obtain t where t: "message_release w ?s = Inr t" "lifetime_inv ?O ((?O(w := 1))(w := (?O(w := 1)) w - 1)) t"
      "es_events t = es_events ?s" "es_tasks t = es_tasks ?s" "es_seen t = es_seen ?s"
      "\<forall>v obj. es_messages t v = Some obj \<longrightarrow> map_option mo_body (es_messages ?s v) = Some (mo_body obj)"
      by (rule message_release_inv [of _ _ _ w]) simp_all
    with run TaskMessage show ?thesis by (intro that [of t]) (simp_all add: keeps_def)
  next
    case (TaskRaw a)
    with counted show ?thesis by simp
  qed
qed

section \<open>Every handler reads its message, and nothing leaks\<close>

text \<open>Who is to read what after an operation: each subscriber of the publisher that does not ignore the class.\<close>

fun deliveries :: "event_class \<Rightarrow> (component \<Rightarrow> component_class) \<Rightarrow> CoBus \<Rightarrow> 'm event_op \<Rightarrow> (component \<times> 'm option) list" where
  "deliveries cls kind b (OpPublish p m) =
     List.map (\<lambda>c. (c, Some m)) (filter (\<lambda>c. AsyncHandleEvent (kind c) cls \<noteq> Ignored) (subscriber_list b p))"
| "deliveries cls kind b (OpRun i) = []"

definition waiting :: "'m event_system \<Rightarrow> (component \<times> 'm option) list" where
  "waiting s = List.map (\<lambda>(c, r). (c, pending_message s r)) (es_tasks s)"

definition tasks_counted :: "'m event_system \<Rightarrow> bool" where
  "tasks_counted s \<longleftrightarrow> (\<forall>t \<in> set (es_tasks s). counted_ref (snd t))"

lemma held_member: "(c, r) \<in> set (es_tasks s) \<Longrightarrow> 0 < held s r"
  unfolding held_def by (metis count_list_0_iff gr0I image_eqI image_set snd_conv)

lemma waiting_keeps:
  assumes "lifetime_inv xe xm t" and "tasks_counted t" and "keeps s t"
  shows "waiting t = waiting s"
proof -
  have "pending_message t r = pending_message s r" if "(c, r) \<in> set (es_tasks t)" for c r
    using assms pending_keeps held_member [OF that] that unfolding tasks_counted_def by (metis snd_conv)
  with assms(3) show ?thesis by (auto simp: waiting_def keeps_def)
qed

lemma intrusive_not_raw: "takes_intrusive cls \<Longrightarrow> AsyncHandleEvent k cls \<noteq> KeepsRaw"
  by (cases k; cases cls) simp_all

lemma spawned_pending:
  assumes "takes_intrusive cls" and "pending_message u (TaskEvent a) = Some m" and "pending_message u (TaskMessage w) = Some m"
  shows "List.map (\<lambda>(c, r). (c, pending_message u r)) (concat (List.map (\<lambda>c. spawned_by (AsyncHandleEvent (kind c) cls) c a w) cs)) =
           List.map (\<lambda>c. (c, Some m)) (filter (\<lambda>c. AsyncHandleEvent (kind c) cls \<noteq> Ignored) cs) \<and>
         (\<forall>t \<in> set (concat (List.map (\<lambda>c. spawned_by (AsyncHandleEvent (kind c) cls) c a w) cs)). counted_ref (snd t))"
proof (induction cs)
  case (Cons c cs)
  with assms intrusive_not_raw [OF assms(1), of "kind c"] show ?case
    by (cases "AsyncHandleEvent (kind c) cls") (auto simp: spawned_by_def simp del: pending_message.simps)
qed simp

lemma event_step_inv:
  assumes inv: "lifetime_inv (\<lambda>_. 0) (\<lambda>_. 0) s" and counted: "tasks_counted s" and intr: "takes_intrusive cls"
  shows "\<exists>t. event_step cls kind b op s = Inr t \<and> lifetime_inv (\<lambda>_. 0) (\<lambda>_. 0) t \<and> tasks_counted t \<and>
     mset (es_seen t) + mset (waiting t) = mset (es_seen s) + mset (waiting s) + mset (deliveries cls kind b op)"
proof (cases op)
  case (OpPublish p m)
  obtain t u a w where pub: "publish_event cls kind b p m s = Inr t" "lifetime_inv (\<lambda>_. 0) (\<lambda>_. 0) t" "keeps u t"
    "es_tasks u = es_tasks s @ concat (List.map (\<lambda>c. spawned_by (AsyncHandleEvent (kind c) cls) c a w) (subscriber_list b p))"
    "es_seen u = es_seen s" "pending_message u (TaskEvent a) = Some m" "pending_message u (TaskMessage w) = Some m"
    "\<forall>r. 0 < held s r \<longrightarrow> counted_ref r \<longrightarrow> pending_message u r = pending_message s r"
    by (rule publish_event_inv [OF inv])
  note new = spawned_pending [OF intr pub(6,7), of kind "subscriber_list b p"]
  have tasks: "es_tasks t = es_tasks u" "es_seen t = es_seen s" using pub(3,5) by (simp_all add: keeps_def)
  have counted_t: "tasks_counted t"
    using counted new pub(4) tasks(1) unfolding tasks_counted_def by auto
  have "List.map (\<lambda>(c, r). (c, pending_message u r)) (es_tasks s) = waiting s"
    using pub(8) held_member counted by (force simp: waiting_def tasks_counted_def)
  then have "waiting u = waiting s @ deliveries cls kind b op"
    using new pub(4) OpPublish by (simp add: waiting_def)
  with waiting_keeps [OF pub(2) counted_t pub(3)] pub(1,2) counted_t tasks OpPublish show ?thesis by simp
next
  case (OpRun i)
  show ?thesis
  proof (cases "i < length (es_tasks s)")
    case False
    with OpRun assms show ?thesis by (simp add: run_task_def)
  next
    case True
    define xs ys where "xs = take i (es_tasks s)" and "ys = drop (Suc i) (es_tasks s)"
    obtain c r where cr: "es_tasks s ! i = (c, r)" by fastforce
    with True have split: "es_tasks s = xs @ (c, r) # ys" "i = length xs"
      by (simp_all add: xs_def ys_def id_take_nth_drop [symmetric] flip: cr)
    with counted have "counted_ref r" by (simp add: tasks_counted_def)
    from run_task_inv [OF inv split(1) this] obtain t where t: "run_task (length xs) s = Inr t"
      "lifetime_inv (\<lambda>_. 0) (\<lambda>_. 0) t" "es_tasks t = xs @ ys" "es_seen t = es_seen s @ [(c, pending_message s r)]"
      and keeps: "keeps (s\<lparr>es_tasks := xs @ ys, es_seen := es_seen s @ [(c, pending_message s r)]\<rparr>) t" .
    have counted_t: "tasks_counted t" using counted split(1) t(3) by (simp add: tasks_counted_def)
    have "pending_message (s\<lparr>es_tasks := l, es_seen := l'\<rparr>) q = pending_message s q" for l l' q
      by (cases q) (simp_all add: event_message_def split: option.split)
    then have "waiting t = List.map (\<lambda>(c, r). (c, pending_message s r)) (xs @ ys)"
      using waiting_keeps [OF t(2) counted_t keeps] by (simp add: waiting_def)
    moreover have "waiting s = List.map (\<lambda>(c, r). (c, pending_message s r)) xs @ (c, pending_message s r) #
        List.map (\<lambda>(c, r). (c, pending_message s r)) ys" by (simp add: waiting_def split(1))
    ultimately show ?thesis using t counted_t split(2) OpRun by simp
  qed
qed


lemma event_run_inv:
  assumes "lifetime_inv (\<lambda>_. 0) (\<lambda>_. 0) s" and "tasks_counted s" and intr: "takes_intrusive cls"
  shows "\<exists>t. fold_result (event_step cls kind b) ops s = Inr t \<and> lifetime_inv (\<lambda>_. 0) (\<lambda>_. 0) t \<and> tasks_counted t \<and>
     mset (es_seen t) + mset (waiting t) =
       mset (es_seen s) + mset (waiting s) + mset (concat (List.map (deliveries cls kind b) ops))"
  using assms(1,2)
proof (induction ops arbitrary: s)
  case (Cons op ops)
  from event_step_inv [OF Cons.prems intr, of kind b op] obtain u where u: "event_step cls kind b op s = Inr u"
    "lifetime_inv (\<lambda>_. 0) (\<lambda>_. 0) u" "tasks_counted u"
    "mset (es_seen u) + mset (waiting u) = mset (es_seen s) + mset (waiting s) + mset (deliveries cls kind b op)" by blast
  from Cons.IH [OF u(2,3)] u show ?case by (simp add: add.assoc)
qed simp

lemma no_tasks_no_events:
  assumes inv: "lifetime_inv (\<lambda>_. 0) (\<lambda>_. 0) s" and "\<And>a. held s (TaskEvent a) = 0"
  shows "es_events s = Map.empty"
proof (rule ext)
  fix a
  have "counted_ok (es_events s a) (held s (TaskEvent a) + 0)" using inv unfolding lifetime_inv_def by blast
  then show "es_events s a = None" using assms(2) by (cases "es_events s a") simp_all
qed

lemma no_tasks_no_objects:
  assumes inv: "lifetime_inv (\<lambda>_. 0) (\<lambda>_. 0) s" and none: "es_tasks s = []"
  shows "es_events s = Map.empty \<and> es_messages s = Map.empty"
proof -
  have held: "held s r = 0" for r using none by (simp add: held_def)
  then have events: "es_events s = Map.empty" by (intro no_tasks_no_events [OF inv])
  have "es_messages s w = None" for w
  proof -
    have "counted_ok (es_messages s w) (of_bool (\<exists>a. wraps (es_events s) a w) + held s (TaskMessage w) + 0)"
      using inv unfolding lifetime_inv_def by blast
    then show ?thesis using held events by (cases "es_messages s w") (simp_all add: wraps_def)
  qed
  with events show ?thesis by auto
qed


definition demo_bus :: CoBus where
  "demo_bus = \<lparr>cb_subscribers = [(0, [Some 1, None, Some 2, Some 3])]\<rparr>"

definition demo_kind :: "component \<Rightarrow> component_class" where
  "demo_kind c = (if c = 1 then BidAskGeneratorComponent else if c = 2 then OrderBookComponent else OtherComponent)"


text \<open>C39: the handler of a snapshot request takes a plain pointer.  The publisher has dropped its pointers when \<open>RequestNewSnapshot\<close>
  returns, so the event is back in its pool, and every task for it reads a block that was given back.\<close>

theorem snapshot_request_dangling:
  assumes "chunks_distinct ch1" and "\<forall>i. ch1 i \<noteq> None" and "n1 \<noteq> 0"
    and "chunks_distinct ch2" and "\<forall>i. ch2 i \<noteq> None" and "n2 \<noteq> 0"
    and "c \<in> set (subscriber_list b p)" and "kind c = BookSnapshotComponent"
  shows "\<exists>s. publish_event BusEventRequestNewSnapshot kind b p m (event_system_new ch1 n1 ch2 n2) = Inr s \<and>
     es_events s = Map.empty \<and> c \<in> fst ` set (es_tasks s) \<and>
     (\<forall>i < length (es_tasks s). run_task i s = Inl DanglingDeref)"
proof -
  let ?s = "event_system_new ch1 n1 ch2 n2 :: 'a event_system"
  have inv: "lifetime_inv (\<lambda>_. 0) (\<lambda>_. 0) ?s" using assms by (intro lifetime_init)
  obtain t u a w where t: "publish_event BusEventRequestNewSnapshot kind b p m ?s = Inr t" "lifetime_inv (\<lambda>_. 0) (\<lambda>_. 0) t" "keeps u t"
    "es_tasks u = es_tasks ?s @
       concat (List.map (\<lambda>c. spawned_by (AsyncHandleEvent (kind c) BusEventRequestNewSnapshot) c a w) (subscriber_list b p))"
    by (rule publish_event_inv [OF inv])
  have raw: "spawned_by (AsyncHandleEvent k BusEventRequestNewSnapshot) d a w = (if k = BookSnapshotComponent then [(d, TaskRaw a)] else [])"
    for k d by (cases k) (simp_all add: spawned_by_def)
  have tasks: "es_tasks t = concat (List.map (\<lambda>d. if kind d = BookSnapshotComponent then [(d, TaskRaw a)] else []) (subscriber_list b p))"
    using t(3,4) by (simp add: keeps_def raw event_system_new_def)
  then have all_raw: "snd x = TaskRaw a" if "x \<in> set (es_tasks t)" for x using that by (auto split: if_splits)
  then have "held t (TaskEvent d) = 0" for d unfolding held_def by (auto simp: count_list_0_iff)
  then have gone: "es_events t = Map.empty" by (rule no_tasks_no_events [OF t(2)])
  have "run_task i t = Inl DanglingDeref" if "i < length (es_tasks t)" for i
  proof -
    obtain d r where d: "es_tasks t ! i = (d, r)" by fastforce
    with all_raw [of "(d, r)"] that have "r = TaskRaw a" by (metis nth_mem snd_conv)
    with d that gone show ?thesis by (simp add: run_task_def WrappedEvent_def)
  qed
  moreover have "c \<in> fst ` set (es_tasks t)" using assms(7,8) by (force simp: tasks)
  ultimately show ?thesis using t(1) gone by blast
qed

theorem snapshot_request_dangling_witness:
  "\<exists>s. publish_event BusEventRequestNewSnapshot (\<lambda>c. BookSnapshotComponent) demo_bus 0 ''BTCUSDT'' (event_system_new Some 4 Some 4) = Inr s \<and>
     es_events s = Map.empty \<and> 2 \<in> fst ` set (es_tasks s) \<and>
     (\<forall>i < length (es_tasks s). run_task i s = Inl DanglingDeref)"
  by (rule snapshot_request_dangling) (simp_all add: chunks_distinct_def subscriber_list_def demo_bus_def)


section \<open>The pools stay small\<close>

text \<open>Only \<open>Allocate\<close> takes memory from \<open>boost::pool\<close>.\<close>

definition calls :: "'m event_system \<Rightarrow> nat \<times> nat" where
  "calls s = (mp_calls (es_message_pool s), mp_calls (es_event_pool s))"

lemma Deallocate_calls [simp]: "mp_calls (Deallocate a p) = mp_calls p"
  by (simp add: Deallocate_def split: option.split)

lemma calls_refs:
  "message_add_ref w s = Inr t \<Longrightarrow> calls t = calls s" "message_release w s = Inr t \<Longrightarrow> calls t = calls s"
  "event_add_ref a s = Inr t \<Longrightarrow> calls t = calls s"
  by (auto simp: calls_def message_add_ref_def message_release_def event_add_ref_def split: option.splits if_splits)

lemma calls_pointer:
  "(\<And>a u. f a s = Inr u \<Longrightarrow> calls u = calls s) \<Longrightarrow> for_pointer f p s = Inr t \<Longrightarrow> calls t = calls s"
  by (auto simp: for_pointer_def split: option.splits)

lemma calls_event_release: "event_release a s = Inr t \<Longrightarrow> calls t = calls s"
proof -
  assume rel: "event_release a s = Inr t"
  then obtain obj where obj: "es_events s a = Some obj" by (auto simp: event_release_def split: option.splits)
  have "for_pointer message_release p s = Inr u \<Longrightarrow> calls u = calls s" for p u
    by (rule calls_pointer) (rule calls_refs(2))
  with rel obj show "calls t = calls s"
    by (auto simp: event_release_def calls_def split: if_splits elim!: bind_result_InrE)
qed

lemma calls_handler: "handler_body h c a s = Inr t \<Longrightarrow> calls t = calls s"
  by (auto simp: handler_body_def spawn_task_def split: handling.splits option.splits elim!: bind_result_InrE dest!: calls_refs)
    (simp_all add: calls_def)

lemma calls_Accept: "Accept cls kind a c s = Inr t \<Longrightarrow> calls t = calls s"
  by (auto simp: Accept_def Let_def split: if_splits elim!: bind_result_InrE
      dest!: calls_handler calls_event_release calls_refs)

lemma calls_deliver: "fold (deliver (accept_handler cls kind a)) ss (Inr s) = Inr t \<Longrightarrow> calls t = calls s"
proof (induction ss arbitrary: s)
  case (Cons x ss)
  have stuck: "fold (deliver (accept_handler cls kind a)) ys (Inl e) = Inl e" for ys e
    by (induction ys) (simp_all add: deliver_def accept_handler_def split: option.split)
  show ?case
  proof (cases x)
    case None
    with Cons show ?thesis by (simp add: deliver_def)
  next
    case (Some c)
    have one: "deliver (accept_handler cls kind a) (Some c) (Inr s) = Accept cls kind a c s"
      by (simp add: deliver_def accept_handler_def)
    with Some Cons.prems obtain u where u: "Accept cls kind a c s = Inr u"
      by (cases "Accept cls kind a c s") (simp_all add: stuck)
    with one Some Cons.prems have "fold (deliver (accept_handler cls kind a)) ss (Inr u) = Inr t" by simp
    from Cons.IH [OF this] calls_Accept [OF u] show ?thesis by simp
  qed
qed simp

lemma calls_AsyncSend: "AsyncSend p (Some (accept_handler cls kind a)) b (Inr s) = Inr t \<Longrightarrow> calls t = calls s"
  by (auto simp: AsyncSend_def split: option.splits dest: calls_deliver)

lemma calls_run_task: "run_task i s = Inr t \<Longrightarrow> calls t = calls s"
proof -
  assume run: "run_task i s = Inr t"
  have ends: "task_ends r u = Inr t \<Longrightarrow> calls t = calls u" for r u
    by (cases r) (auto dest: calls_event_release calls_refs)
  from run show "calls t = calls s"
    by (auto simp: run_task_def split: if_splits prod.splits elim!: bind_result_InrE dest!: ends) (simp_all add: calls_def)
qed

lemma calls_Allocate: "Allocate p = (x, q) \<Longrightarrow> mp_calls q \<le> mp_calls p + of_bool (mp_free p = [])"
  by (auto simp: Allocate_def split: if_splits list.splits)

lemma calls_new_message:
  "new_message m s = (pm, t) \<Longrightarrow>
     es_event_pool t = es_event_pool s \<and> mp_calls (es_message_pool t) \<le> mp_calls (es_message_pool s) + of_bool (mp_free (es_message_pool s) = [])"
  by (auto simp: new_message_def split: prod.splits option.splits dest: calls_Allocate)

lemma calls_new_event:
  assumes "new_event pm s = Inr (pe, t)"
  shows "mp_calls (es_message_pool t) = mp_calls (es_message_pool s) \<and>
    mp_calls (es_event_pool t) \<le> mp_calls (es_event_pool s) + of_bool (mp_free (es_event_pool s) = [])"
proof -
  have add: "for_pointer message_add_ref p u = Inr v \<Longrightarrow> calls v = calls u" for p and u v :: "'a event_system"
    by (rule calls_pointer) (rule calls_refs(1))
  have rel: "for_pointer message_release p u = Inr v \<Longrightarrow> calls v = calls u" for p and u v :: "'a event_system"
    by (rule calls_pointer) (rule calls_refs(2))
  from assms show ?thesis
    by (auto simp: new_event_def calls_def split: prod.splits option.splits elim!: bind_result_InrE dest!: add rel calls_Allocate)
qed

lemma calls_publish:
  assumes "publish_event cls kind b p m s = Inr t"
  shows "mp_calls (es_message_pool t) \<le> mp_calls (es_message_pool s) + of_bool (mp_free (es_message_pool s) = []) \<and>
    mp_calls (es_event_pool t) \<le> mp_calls (es_event_pool s) + of_bool (mp_free (es_event_pool s) = [])"
proof -
  have held: "for_pointer message_add_ref q u = Inr v \<Longrightarrow> calls v = calls u \<and> es_event_pool v = es_event_pool u"
    for q and u v :: "'a event_system"
    by (auto simp: for_pointer_def message_add_ref_def calls_def split: option.splits)
  have add: "for_pointer event_add_ref q u = Inr v \<Longrightarrow> calls v = calls u" for q and u v :: "'a event_system"
    by (rule calls_pointer) (rule calls_refs(3))
  have rel: "for_pointer event_release q u = Inr v \<Longrightarrow> calls v = calls u" for q and u v :: "'a event_system"
    by (rule calls_pointer) (rule calls_event_release)
  have drop: "for_pointer message_release q u = Inr v \<Longrightarrow> calls v = calls u" for q and u v :: "'a event_system"
    by (rule calls_pointer) (rule calls_refs(2))
  have send: "AsyncSend p (map_option (accept_handler cls kind) q) b (Inr u) = Inr v \<Longrightarrow> calls v = calls u"
    for q and u v :: "'a event_system"
    by (cases q) (auto simp: AsyncSend_def split: option.splits dest: calls_deliver)
  obtain pm s1 where new: "new_message m s = (pm, s1)" by fastforce
  with assms obtain s2 pe s3 where "for_pointer message_add_ref pm s1 = Inr s2" "new_event pm s2 = Inr (pe, s3)" "calls t = calls s3"
    by (auto simp: publish_event_def elim!: bind_result_InrE dest!: add rel drop send)
  with calls_new_message [OF new] calls_new_event [of pm s2 pe s3] held [of pm s1 s2] show ?thesis
    by (auto simp: calls_def)
qed

text \<open>A pool with an empty free list has given out one live block per call.\<close>

lemma exhausted_pool:
  assumes "pool_ok p" and "mp_free p = []"
  shows "mp_calls p = card (mp_live p)"
proof -
  have total: "\<And>i. mp_chunks p i \<noteq> None" and dist: "chunks_distinct (mp_chunks p)"
    using assms(1) by (simp_all add: pool_ok_def memory_suffices_def MemoryPool_inv_def)
  have "mp_live p = (\<lambda>i. the (mp_chunks p i)) ` {..<mp_calls p}"
    using assms(2) total by (force simp: mp_live_def mp_given_def image_iff)
  moreover have "inj_on (\<lambda>i. the (mp_chunks p i)) {..<mp_calls p}"
  proof (rule inj_onI)
    fix i j assume eq: "the (mp_chunks p i) = the (mp_chunks p j)"
    from total [of i] total [of j] eq obtain a where "mp_chunks p i = Some a" "mp_chunks p j = Some a" by auto
    with dist show "i = j" unfolding chunks_distinct_def by blast
  qed
  ultimately show ?thesis by (simp add: card_image)
qed

text \<open>Between two steps every event and every message belongs to a task.\<close>

fun task_message :: "'m event_system \<Rightarrow> task_ref \<Rightarrow> addr option" where
  "task_message s (TaskEvent a) = event_message s a"
| "task_message s (TaskMessage w) = Some w"
| "task_message s (TaskRaw a) = None"

lemma objects_belong_to_tasks:
  assumes inv: "lifetime_inv (\<lambda>_. 0) (\<lambda>_. 0) s"
  shows "TaskEvent ` dom (es_events s) \<subseteq> snd ` set (es_tasks s)"
    and "Some ` dom (es_messages s) \<subseteq> task_message s ` snd ` set (es_tasks s)"
proof -
  have member: "r \<in> snd ` set (es_tasks s)" if "0 < held s r" for r
    using that by (auto simp: held_def count_list_0_iff image_iff simp flip: neq0_conv)
  have event: "0 < held s (TaskEvent a)" if "es_events s a = Some obj" for a obj
  proof -
    have "counted_ok (es_events s a) (held s (TaskEvent a) + 0)" using inv unfolding lifetime_inv_def by blast
    with that show ?thesis by simp
  qed
  then show "TaskEvent ` dom (es_events s) \<subseteq> snd ` set (es_tasks s)" using member by blast
  show "Some ` dom (es_messages s) \<subseteq> task_message s ` snd ` set (es_tasks s)"
  proof (intro image_subsetI)
    fix w assume "w \<in> dom (es_messages s)"
    moreover have "counted_ok (es_messages s w) (of_bool (\<exists>a. wraps (es_events s) a w) + held s (TaskMessage w) + 0)"
      using inv unfolding lifetime_inv_def by blast
    ultimately have "(\<exists>a. wraps (es_events s) a w) \<or> 0 < held s (TaskMessage w)"
      by (auto simp: of_bool_def split: if_splits)
    then show "Some w \<in> task_message s ` snd ` set (es_tasks s)"
    proof
      assume "\<exists>a. wraps (es_events s) a w"
      then obtain a obj where obj: "es_events s a = Some obj" "eo_wrapped obj = Some w" unfolding wraps_def by blast
      then have "task_message s (TaskEvent a) = Some w" by (simp add: event_message_def)
      with member [OF event [OF obj(1)]] show ?thesis by (metis imageI)
    next
      assume "0 < held s (TaskMessage w)"
      from imageI [OF member [OF this], of "task_message s"] show ?thesis by simp
    qed
  qed
qed

lemma objects_at_most_tasks:
  assumes inv: "lifetime_inv (\<lambda>_. 0) (\<lambda>_. 0) s"
  shows "card (dom (es_events s)) \<le> length (es_tasks s)" and "card (dom (es_messages s)) \<le> length (es_tasks s)"
proof -
  have tasks: "card (snd ` set (es_tasks s)) \<le> length (es_tasks s)"
    by (meson card_image_le card_length finite_set le_trans)
  have "card (dom (es_events s)) = card (TaskEvent ` dom (es_events s))" by (simp add: card_image inj_on_def)
  also have "\<dots> \<le> card (snd ` set (es_tasks s))" by (rule card_mono) (simp_all add: objects_belong_to_tasks(1) [OF inv])
  finally show "card (dom (es_events s)) \<le> length (es_tasks s)" using tasks by simp
  have "card (dom (es_messages s)) = card (Some ` dom (es_messages s))" by (simp add: card_image inj_on_def)
  also have "\<dots> \<le> card (task_message s ` snd ` set (es_tasks s))"
    by (rule card_mono) (simp_all add: objects_belong_to_tasks(2) [OF inv])
  also have "\<dots> \<le> card (snd ` set (es_tasks s))" by (rule card_image_le) simp
  finally show "card (dom (es_messages s)) \<le> length (es_tasks s)" using tasks by simp
qed

lemma event_step_calls:
  assumes inv: "lifetime_inv (\<lambda>_. 0) (\<lambda>_. 0) s" and few: "length (es_tasks s) \<le> k" and step: "event_step cls kind b op s = Inr t"
    and calls: "mp_calls (es_event_pool s) \<le> Suc k" "mp_calls (es_message_pool s) \<le> Suc k"
  shows "mp_calls (es_event_pool t) \<le> Suc k \<and> mp_calls (es_message_pool t) \<le> Suc k"
proof (cases op)
  case (OpRun i)
  with step calls calls_run_task [of i s t] show ?thesis by (simp add: calls_def)
next
  case (OpPublish p m)
  have "mp_free (es_event_pool s) = [] \<Longrightarrow> mp_calls (es_event_pool s) = card (dom (es_events s))"
    "mp_free (es_message_pool s) = [] \<Longrightarrow> mp_calls (es_message_pool s) = card (dom (es_messages s))"
    using inv exhausted_pool unfolding lifetime_inv_def by metis+
  with objects_at_most_tasks [OF inv] few
  have "mp_free (es_event_pool s) = [] \<Longrightarrow> mp_calls (es_event_pool s) \<le> k"
    "mp_free (es_message_pool s) = [] \<Longrightarrow> mp_calls (es_message_pool s) \<le> k" by simp_all
  with OpPublish step calls calls_publish [of cls kind b p m s t] show ?thesis by (auto simp: of_bool_def split: if_splits)
qed


definition demo_ops :: "string event_op list" where
  "demo_ops = [OpPublish 0 ''d1'', OpRun 1, OpRun 0, OpPublish 0 ''d2'', OpRun 0, OpRun 0]"

lemma demo_backlog:
  "list_all (\<lambda>j. case fold_result (event_step BusEventBookDiffSnapshot demo_kind demo_bus) (take j demo_ops) (event_system_new Some 4 Some 4) of
     Inl e \<Rightarrow> False | Inr t \<Rightarrow> length (es_tasks t) \<le> 2) [0..<7]"
  by code_simp


end
