(* ===== verification/Backtesting.thy ===== *)
theory Backtesting
  imports Trading_Services Parsers_Props Exchange_Api_Props
begin

text \<open>
  Backtesting from the history file to the book: \<open>OHLCVI::Init\<close> reads the lines of a file of klines, \<open>KLineService\<close> passes the klines
  one by one to the queue of the trade engine (aot/strategy/kline.h, src/kline.cpp), and \<open>backtesting::TradeEngine\<close>
  (aot/strategy/trade_engine.h, src/trade_engine.cpp) sets its book to each of them.  Also the waiting loop of \<open>TradeEngine::Stop\<close>,
  the loop of the live \<open>KLineService\<close>, and the two gateways of src/order_gw.cpp that are not \<open>OrderGateway2\<close>.

  The file is the list of its lines.  RE2 is an argument, the function from a line to the five captured texts.
\<close>

section \<open>Reading the history\<close>

type_synonym re2 = "string \<Rightarrow> string list option"

abbreviation tab :: char where "tab \<equiv> CHR 0x09"
abbreviation newline :: char where "newline \<equiv> CHR 0x0A"

text \<open>The pattern: any text, then five decimals, each behind a tab.\<close>

definition is_digit :: "char \<Rightarrow> bool" where
  "is_digit c \<longleftrightarrow> 48 \<le> (of_char c :: nat) \<and> (of_char c :: nat) \<le> 57"

definition decimal_text :: "string \<Rightarrow> bool" where
  "decimal_text s \<longleftrightarrow>
     (let i = takeWhile is_digit s; r = dropWhile is_digit s
      in i \<noteq> [] \<and> r \<noteq> [] \<and> hd r = CHR ''.'' \<and> tl r \<noteq> [] \<and> list_all is_digit (tl r))"

definition tab_fields :: "string list \<Rightarrow> string" where
  "tab_fields fs = concat (List.map (\<lambda>f. tab # f) fs)"

definition kline_line :: "string \<Rightarrow> string list \<Rightarrow> bool" where
  "kline_line line fs \<longleftrightarrow>
     length fs = 5 \<and> list_all decimal_text fs \<and>
     (\<exists>pre. pre \<noteq> [] \<and> newline \<notin> set pre \<and> line = pre @ tab_fields fs)"

definition is_kline :: "string \<Rightarrow> bool" where
  "is_kline line \<longleftrightarrow> (\<exists>fs. kline_line line fs)"

definition re2_ok :: "re2 \<Rightarrow> bool" where
  "re2_ok full_match \<longleftrightarrow> (\<forall>line fs. full_match line = Some fs \<longleftrightarrow> kline_line line fs)"

text \<open>\<open>std::stod\<close> of a decimal: the value rounded, or \<open>std::out_of_range\<close>.\<close>

definition stod :: "rounding \<Rightarrow> string \<Rightarrow> rat result" where
  "stod rnd s = (let x = rnd (decimal_value s) in if 2 ^ 1024 \<le> x then Inl Uncaught else Inr x)"

text \<open>\<open>unsigned int price_prec = std::pow(10, ...)\<close>; and \<open>static_cast<int>(price_prec * stod(..))\<close> as a \<open>uint64_t\<close>.\<close>

definition precision_uint :: "rounding \<Rightarrow> u8 \<Rightarrow> nat result" where
  "precision_uint rnd p = (let t = truncate_rat (pow10 rnd p) in if 0 \<le> t \<and> t < 2 ^ 32 then Inr (nat t) else Inl Undefined)"

definition text_ticks :: "rounding \<Rightarrow> nat \<Rightarrow> string \<Rightarrow> u64 result" where
  "text_ticks rnd prec s =
     bind_result (stod rnd s) (\<lambda>x.
     bind_result (cast_int (fmul rnd (rnd (of_nat prec)) x)) (\<lambda>t. Inr (word_of_int t)))"

definition parse_kline :: "re2 \<Rightarrow> rounding \<Rightarrow> TradingPair \<Rightarrow> nat \<Rightarrow> nat \<Rightarrow> string \<Rightarrow> OHLCVExt list \<Rightarrow> OHLCVExt list result" where
  "parse_kline full_match rnd tp price_prec qty_prec line history =
     (case full_match line of
        Some [sopen, high, low, sclose, volume] \<Rightarrow>
          bind_result (text_ticks rnd price_prec sopen) (\<lambda>o1.
          bind_result (text_ticks rnd price_prec high) (\<lambda>h.
          bind_result (text_ticks rnd price_prec low) (\<lambda>l.
          bind_result (text_ticks rnd price_prec sclose) (\<lambda>c.
          bind_result (text_ticks rnd qty_prec volume) (\<lambda>v.
          Inr (history @ [\<lparr>ke_ohlcv = \<lparr>k_open = o1, k_high = h, k_low = l, k_close = c, k_volume = v\<rparr>,
                           ke_trading_pair = tp\<rparr>]))))))
      | _ \<Rightarrow> Inr history)"

definition OHLCVI_Init :: "re2 \<Rightarrow> rounding \<Rightarrow> TradingPairInfo \<Rightarrow> TradingPair \<Rightarrow> string list \<Rightarrow> OHLCVI \<Rightarrow> OHLCVI result" where
  "OHLCVI_Init full_match rnd info tp lines o1 =
     bind_result (precision_uint rnd (price_precission info)) (\<lambda>price_prec.
     bind_result (precision_uint rnd (qty_precission info)) (\<lambda>qty_prec.
     bind_result (fold_result (parse_kline full_match rnd tp price_prec qty_prec) lines (oh_history o1)) (\<lambda>history.
     Inr (ResetIterator (o1\<lparr>oh_history := history\<rparr>)))))"

definition OHLCVI_new :: OHLCVI where
  "OHLCVI_new = \<lparr>oh_history = [], oh_iterator = 0\<rparr>"

section \<open>The services\<close>

text \<open>The constructor of \<open>backtesting::KLineService\<close> and the start of its \<open>Run\<close>.\<close>

definition KLineService_new :: "OHLCVI \<Rightarrow> OHLCVExt lf_queue \<Rightarrow> OHLCVExt lf_queue option \<Rightarrow> KLineService" where
  "KLineService_new getter internal external =
     \<lparr>ks_getter = getter, ks_internal = internal, ks_external = external, ks_need_fetch_more = True\<rparr>"

text \<open>The loop of the live \<open>KLineService\<close>: one \<open>LaunchOne\<close> per round, with its answer ignored.\<close>

definition live_KLineService_Run_iteration :: "OHLCVI \<times> OHLCVExt lf_queue option \<Rightarrow> OHLCVI \<times> OHLCVExt lf_queue option" where
  "live_KLineService_Run_iteration st = snd (LaunchOne (fst st) (snd st))"

text \<open>The engine: a round of \<open>Run\<close> takes at most 50 klines.\<close>

definition backtesting_Run_iteration ::
    "OHLCVExt list \<times> backtesting_BBO \<Rightarrow> (OHLCVExt list \<times> backtesting_BBO) result" where
  "backtesting_Run_iteration st =
     bind_result (fold_result backtesting_OnNewKLine (take 50 (fst st)) (snd st)) (\<lambda>bbo. Inr (drop 50 (fst st), bbo))"

fun rounds :: "nat \<Rightarrow> ('s \<Rightarrow> 's option) \<Rightarrow> 's \<Rightarrow> 's option" where
  "rounds 0 f s = Some s"
| "rounds (Suc n) f s = Option.bind (f s) (rounds n f)"

fun rounds_result :: "nat \<Rightarrow> ('s \<Rightarrow> 's result) \<Rightarrow> 's \<Rightarrow> 's result" where
  "rounds_result 0 f s = Inr s"
| "rounds_result (Suc n) f s = bind_result (f s) (rounds_result n f)"

text \<open>\<open>TradeEngine::Stop\<close>: \<open>sizes i\<close> is the answer of the \<open>i\<close>-th call of \<open>size_approx\<close>; without a queue the loop is skipped.  The
  result counts the sleeps before \<open>run_\<close> is reset.\<close>

partial_function (option) wait_empty :: "(nat \<Rightarrow> nat) \<Rightarrow> nat \<Rightarrow> nat option" where
  "wait_empty sizes i = (if sizes i = 0 then Some i else wait_empty sizes (Suc i))"

definition TradeEngine_Stop :: "(nat \<Rightarrow> nat) option \<Rightarrow> nat option" where
  "TradeEngine_Stop queue = (case queue of None \<Rightarrow> Some 0 | Some sizes \<Rightarrow> wait_empty sizes 0)"

section \<open>The other gateways\<close>

text \<open>\<open>Trading::OrderGateway\<close> executes cancels only (and the body of the loop of \<open>backtesting::OrderGateway\<close> is a comment).  State: the queues of new orders
  and of cancels, and the cancels handed to the executor.\<close>

definition OrderGateway_Run_iteration ::
    "RequestNewOrder list \<times> RequestCancelOrder list \<times> RequestCancelOrder list \<Rightarrow>
     RequestNewOrder list \<times> RequestCancelOrder list \<times> RequestCancelOrder list" where
  "OrderGateway_Run_iteration st =
     (case st of (news, cancels, calls) \<Rightarrow> (news, drop 50 cancels, calls @ take 50 cancels))"

section \<open>A matcher for the pattern\<close>

fun split_tabs :: "string \<Rightarrow> string list" where
  "split_tabs [] = [[]]"
| "split_tabs (c # cs) =
     (if c = tab then [] # split_tabs cs
      else case split_tabs cs of [] \<Rightarrow> [[c]] | f # fs \<Rightarrow> (c # f) # fs)"

definition match_kline :: re2 where
  "match_kline line =
     (let parts = split_tabs line; n = length parts - 5; fs = drop n parts;
          pre = hd parts @ tab_fields (tl (take n parts))
      in if 5 < length parts \<and> list_all decimal_text fs \<and> pre \<noteq> [] \<and> newline \<notin> set pre then Some fs else None)"

lemma split_tabs_nonempty [simp]: "split_tabs s \<noteq> []"
  by (induction s) (auto split: list.split)

lemma split_tabs_join: "hd (split_tabs s) @ tab_fields (tl (split_tabs s)) = s"
proof (induction s)
  case (Cons c s)
  then show ?case
    by (cases "split_tabs s") (auto simp: tab_fields_def)
qed (simp add: tab_fields_def)

lemma split_tabs_tab: "split_tabs (xs @ tab # ys) = split_tabs xs @ split_tabs ys"
proof (induction xs)
  case (Cons c xs)
  then show ?case by (cases "split_tabs xs") simp_all
qed simp

lemma split_tabs_none: "tab \<notin> set f \<Longrightarrow> split_tabs f = [f]"
  by (induction f) auto

lemma split_tabs_fields: "\<forall>f \<in> set fs. tab \<notin> set f \<Longrightarrow> split_tabs (pre @ tab_fields fs) = split_tabs pre @ fs"
proof (induction fs arbitrary: pre)
  case (Cons f fs)
  have "split_tabs ((pre @ tab # f) @ tab_fields fs) = split_tabs (pre @ tab # f) @ fs"
    using Cons.prems by (intro Cons.IH) simp
  with Cons.prems show ?case by (simp add: split_tabs_tab split_tabs_none tab_fields_def)
qed (simp add: tab_fields_def)

lemma decimal_text_no_tab: "decimal_text s \<Longrightarrow> tab \<notin> set s"
proof
  assume "decimal_text s" and "tab \<in> set s"
  then have "tab \<in> set (takeWhile is_digit s) \<union> set (dropWhile is_digit s)"
    by (metis set_append takeWhile_dropWhile_id)
  moreover have "\<not> is_digit tab" by (simp add: is_digit_def)
  then have "tab \<notin> set (takeWhile is_digit s)" by (auto dest: set_takeWhileD)
  ultimately have "tab \<in> set (dropWhile is_digit s)" by blast
  with \<open>decimal_text s\<close> \<open>\<not> is_digit tab\<close> show False
    by (cases "dropWhile is_digit s") (auto simp: decimal_text_def Let_def list_all_iff)
qed

lemma match_kline_ok: "re2_ok match_kline"
  unfolding re2_ok_def
proof (intro allI iffI)
  fix line fs
  assume "match_kline line = Some fs"
  define parts n where "parts = split_tabs line" and "n = length parts - 5"
  have fs: "fs = drop n parts" "5 < length parts" "list_all decimal_text fs"
    "hd parts @ tab_fields (tl (take n parts)) \<noteq> []" "newline \<notin> set (hd parts @ tab_fields (tl (take n parts)))"
    using \<open>match_kline line = Some fs\<close> by (auto simp: match_kline_def Let_def parts_def n_def split: if_splits)
  from fs(2) have "tl (take n parts) @ drop n parts = tl parts"
    by (cases parts; cases n) (auto simp: n_def)
  with split_tabs_join [of line] fs(1) have "line = (hd parts @ tab_fields (tl (take n parts))) @ tab_fields fs"
    unfolding parts_def tab_fields_def by (metis append.assoc concat_append map_append)
  moreover have "length fs = 5" using fs(1,2) by (simp add: n_def)
  ultimately show "kline_line line fs" using fs(3-5) unfolding kline_line_def by blast
next
  fix line fs
  assume "kline_line line fs"
  then obtain pre where pre: "length fs = 5" "list_all decimal_text fs" "pre \<noteq> []" "newline \<notin> set pre" "line = pre @ tab_fields fs"
    by (auto simp: kline_line_def)
  then have parts: "split_tabs line = split_tabs pre @ fs"
    using decimal_text_no_tab by (auto simp: list_all_iff intro: split_tabs_fields)
  have "hd (split_tabs pre) @ tab_fields (tl (split_tabs pre)) = pre" by (rule split_tabs_join)
  moreover have "0 < length (split_tabs pre)" by simp
  ultimately show "match_kline line = Some fs"
    using pre(1-4) unfolding match_kline_def parts Let_def by (simp del: append_is_Nil_conv set_append)
qed

section \<open>The ticks of the history\<close>

definition ticks_text :: "u8 \<Rightarrow> nat \<Rightarrow> string \<Rightarrow> bool" where
  "ticks_text p n s \<longleftrightarrow> n < 2 ^ 31 \<and> decimal_value s = of_nat n / 10 ^ unat p"

text \<open>A line with its numbers of ticks, and the kline that is read from it.\<close>

definition line_ticks :: "TradingPairInfo \<Rightarrow> string \<Rightarrow> nat list \<Rightarrow> bool" where
  "line_ticks info line ns \<longleftrightarrow>
     (\<exists>fs. kline_line line fs \<and> length ns = 5 \<and>
        (\<forall>i < 4. ticks_text (price_precission info) (ns ! i) (fs ! i)) \<and> ticks_text (qty_precission info) (ns ! 4) (fs ! 4))"

definition kline_near :: "TradingPair \<Rightarrow> OHLCVExt \<Rightarrow> nat list \<Rightarrow> bool" where
  "kline_near tp k ns \<longleftrightarrow>
     ke_trading_pair k = tp \<and> near_tick (ns ! 0) (k_open (ke_ohlcv k)) \<and> near_tick (ns ! 1) (k_high (ke_ohlcv k)) \<and>
     near_tick (ns ! 2) (k_low (ke_ohlcv k)) \<and> near_tick (ns ! 3) (k_close (ke_ohlcv k)) \<and> near_tick (ns ! 4) (k_volume (ke_ohlcv k))"

lemma precision_uint_exact:
  assumes "nearest_rounding rnd" and "p \<le> 9"
  shows "precision_uint rnd p = Inr (10 ^ unat p)"
proof -
  have p: "unat p \<le> 9" using assms(2) by (simp add: word_le_nat_alt)
  have "pow10 rnd p = 10 ^ unat p" using assms by (intro pow10_exact) (simp_all add: word_le_nat_alt)
  moreover have "truncate_rat (10 ^ k) = 10 ^ k" for k
  proof -
    have "(10 :: rat) ^ k = of_int (10 ^ k)" by simp
    then show ?thesis unfolding truncate_rat_def by (metis floor_of_int zero_le_numeral zero_le_power)
  qed
  moreover have "(10 :: int) ^ unat p \<le> 10 ^ 9" using p by (intro power_increasing) simp_all
  ultimately show ?thesis by (simp add: precision_uint_def nat_power_eq)
qed

lemma text_ticks_near:
  assumes rnd: "nearest_rounding rnd" and p: "p \<le> 9" and ticks: "ticks_text p n s"
  obtains t where "text_ticks rnd (10 ^ unat p) s = Inr t" "near_tick n t"
proof -
  have n: "n < 2 ^ 31" and v: "decimal_value s = of_nat n / 10 ^ unat p" using ticks by (simp_all add: ticks_text_def)
  note ieee = nearest_ieee [OF rnd]
  have "(of_nat n :: rat) / 10 ^ unat p \<le> of_nat n / 1" by (intro divide_left_mono) simp_all
  also have "\<dots> \<le> of_nat (2 ^ 31)" unfolding div_by_1 of_nat_le_iff using n by simp
  also have "\<dots> = of_int (2 ^ 31)" by simp
  finally have "rnd (of_nat n / 10 ^ unat p) \<le> rnd (of_int (2 ^ 31))" by (rule ieee_mono [OF ieee])
  also have "\<dots> = of_int (2 ^ 31)" by (rule ieee_int [OF ieee]) simp
  finally have small: "\<not> 2 ^ 1024 \<le> rnd (of_nat n / 10 ^ unat p)" by simp
  have "rnd (of_nat (10 ^ unat p)) = 10 ^ unat p"
    using pow10_exact [OF rnd, of p] p by (simp add: pow10_def word_le_nat_alt)
  moreover obtain t where t: "cast_int (fmul rnd (rnd (of_nat n / 10 ^ unat p)) (10 ^ unat p)) = Inr t" "near_tick n (word_of_int t)"
    using cast_int_tick [OF rnd n] by blast
  ultimately have "text_ticks rnd (10 ^ unat p) s = Inr (word_of_int t)"
    using small unfolding text_ticks_def stod_def v Let_def by (simp add: fmul_def mult.commute)
  with t(2) show ?thesis by (rule that [rotated])
qed


lemma parse_kline_near:
  assumes rnd: "nearest_rounding rnd" and re2: "re2_ok full_match"
    and prec: "price_precission info \<le> 9" "qty_precission info \<le> 9" and line: "line_ticks info line ns"
  obtains k where "parse_kline full_match rnd tp (10 ^ unat (price_precission info)) (10 ^ unat (qty_precission info)) line h = Inr (h @ [k])"
    "kline_near tp k ns"
proof -
  from line obtain fs where fs: "kline_line line fs" "\<forall>i < 4. ticks_text (price_precission info) (ns ! i) (fs ! i)"
    "ticks_text (qty_precission info) (ns ! 4) (fs ! 4)" by (auto simp: line_ticks_def)
  then have "length fs = 5" by (simp add: kline_line_def)
  then have eq: "fs = [fs ! 0, fs ! 1, fs ! 2, fs ! 3, fs ! 4]" by (intro nth_equalityI) (auto simp: less_Suc_eq numeral_eq_Suc)
  have "full_match line = Some fs" using re2 fs(1) by (simp add: re2_ok_def)
  with eq have match: "full_match line = Some [fs ! 0, fs ! 1, fs ! 2, fs ! 3, fs ! 4]" by metis
  let ?pp = "10 ^ unat (price_precission info) :: nat"
  obtain o1 where o1: "text_ticks rnd ?pp (fs ! 0) = Inr o1" "near_tick (ns ! 0) o1"
    by (rule text_ticks_near [OF rnd prec(1), of "ns ! 0" "fs ! 0"]) (use fs(2) in simp_all)
  obtain h1 where h1: "text_ticks rnd ?pp (fs ! 1) = Inr h1" "near_tick (ns ! 1) h1"
    by (rule text_ticks_near [OF rnd prec(1), of "ns ! 1" "fs ! 1"]) (use fs(2) in simp_all)
  obtain l1 where l1: "text_ticks rnd ?pp (fs ! 2) = Inr l1" "near_tick (ns ! 2) l1"
    by (rule text_ticks_near [OF rnd prec(1), of "ns ! 2" "fs ! 2"]) (use fs(2) in simp_all)
  obtain c1 where c1: "text_ticks rnd ?pp (fs ! 3) = Inr c1" "near_tick (ns ! 3) c1"
    by (rule text_ticks_near [OF rnd prec(1), of "ns ! 3" "fs ! 3"]) (use fs(2) in simp_all)
  obtain v1 where v1: "text_ticks rnd (10 ^ unat (qty_precission info)) (fs ! 4) = Inr v1" "near_tick (ns ! 4) v1"
    by (rule text_ticks_near [OF rnd prec(2) fs(3)])
  show ?thesis
    by (rule that [of "\<lparr>ke_ohlcv = \<lparr>k_open = o1, k_high = h1, k_low = l1, k_close = c1, k_volume = v1\<rparr>, ke_trading_pair = tp\<rparr>"])
      (use o1 h1 l1 c1 v1 in \<open>simp_all add: parse_kline_def match kline_near_def\<close>)
qed

lemma history_near:
  assumes rnd: "nearest_rounding rnd" and re2: "re2_ok full_match"
    and prec: "price_precission info \<le> 9" "qty_precission info \<le> 9"
    and lines: "list_all2 (line_ticks info) (filter is_kline lines) nss"
  shows "\<exists>ks. fold_result (parse_kline full_match rnd tp (10 ^ unat (price_precission info)) (10 ^ unat (qty_precission info))) lines h =
      Inr (h @ ks) \<and> list_all2 (kline_near tp) ks nss"
  using lines
proof (induction lines arbitrary: h nss)
  case (Cons line lines)
  show ?case
  proof (cases "is_kline line")
    case True
    with Cons.prems obtain ns nss' where ns: "nss = ns # nss'" "line_ticks info line ns"
      "list_all2 (line_ticks info) (filter is_kline lines) nss'" by (auto simp: list_all2_Cons1)
    obtain k where "parse_kline full_match rnd tp (10 ^ unat (price_precission info)) (10 ^ unat (qty_precission info)) line h = Inr (h @ [k])"
      "kline_near tp k ns" by (rule parse_kline_near [OF rnd re2 prec ns(2)])
    with Cons.IH [OF ns(3), of "h @ [k]"] ns(1) show ?thesis by auto
  next
    case False
    with re2 have "full_match line = None" unfolding is_kline_def by (metis not_None_eq re2_ok_def)
    then have "parse_kline full_match rnd tp pp qp line h = Inr h" for pp qp by (simp add: parse_kline_def)
    with False Cons.prems Cons.IH [of nss h] show ?thesis by simp
  qed
qed simp

section \<open>Every kline reaches the engine\<close>

lemma rounds_add: "rounds (m + n) f s = Option.bind (rounds m f s) (rounds n f)"
proof (induction m arbitrary: s)
  case (Suc m)
  then show ?case by (cases "f s") simp_all
qed simp

text \<open>The service with the first \<open>i\<close> klines forwarded, between two rounds.\<close>

definition service_at :: "OHLCVExt list \<Rightarrow> (nat \<Rightarrow> bool) \<Rightarrow> (nat \<Rightarrow> bool) \<Rightarrow> nat \<Rightarrow> KLineService \<Rightarrow> bool" where
  "service_at hist acc1 acc2 i s \<longleftrightarrow>
     ks_getter s = \<lparr>oh_history = hist, oh_iterator = i\<rparr> \<and> ks_need_fetch_more s \<and>
     lq_items (ks_internal s) = [] \<and> lq_accepts (ks_internal s) = acc1 \<and>
     (\<exists>ext. ks_external s = Some ext \<and> lq_items ext = take i hist \<and> lq_accepts ext = acc2)"

lemma service_refused:
  assumes at: "service_at hist acc1 acc2 i s" and "i < length hist" and "\<not> acc1 (lq_tries (ks_internal s))"
  obtains s' where "KLineService_Run_iteration s = Some s'" "service_at hist acc1 acc2 i s'"
    "lq_tries (ks_internal s') = Suc (lq_tries (ks_internal s))"
proof -
  from at obtain ext where ext: "ks_external s = Some ext" "lq_items ext = take i hist" "lq_accepts ext = acc2"
    by (auto simp: service_at_def)
  let ?s = "s\<lparr>ks_internal := (ks_internal s)\<lparr>lq_tries := Suc (lq_tries (ks_internal s))\<rparr>\<rparr>"
  have "KLineService_Run_iteration s = Some ?s"
    using at assms(2,3) ext(1)
    by (cases s; cases "ks_internal s")
      (simp add: service_at_def KLineService_Run_iteration_def LaunchOne_def try_enqueue_def try_enqueue_bulk_def Let_def)
  moreover have "service_at hist acc1 acc2 i ?s" using at by (simp add: service_at_def)
  ultimately show ?thesis by (intro that [of ?s]) simp_all
qed

lemma service_forwards_one:
  assumes at: "service_at hist acc1 acc2 i s" and i: "i < length hist" and acc: "acc1 (lq_tries (ks_internal s))"
    and room: "\<forall>n. \<exists>k. acc2 (n + k)"
  obtains s' where "KLineService_Run_iteration s = Some s'" "service_at hist acc1 acc2 (Suc i) s'"
proof -
  from at obtain ext where ext: "ks_external s = Some ext" "lq_items ext = take i hist" "lq_accepts ext = acc2"
    by (auto simp: service_at_def)
  obtain ext' n where ext': "enqueue_until [hist ! i] ext = Some ext'" "lq_items ext' = lq_items ext @ [hist ! i]" "lq_accepts ext' = acc2"
    using enqueue_until_result [of ext] room ext(3) by metis
  let ?s = "s\<lparr>ks_getter := \<lparr>oh_history = hist, oh_iterator = Suc i\<rparr>,
              ks_internal := (ks_internal s)\<lparr>lq_tries := Suc (lq_tries (ks_internal s))\<rparr>, ks_external := Some ext'\<rparr>"
  have "KLineService_Run_iteration s = Some ?s"
    using at i acc ext(1) ext'(1)
    by (cases s; cases "ks_internal s")
      (simp add: service_at_def KLineService_Run_iteration_def LaunchOne_def try_enqueue_def try_enqueue_bulk_def Let_def)
  moreover have "service_at hist acc1 acc2 (Suc i) ?s"
    using at ext ext' i by (simp add: service_at_def take_Suc_conv_app_nth)
  ultimately show ?thesis by (rule that)
qed

lemma service_reaches_next:
  assumes "service_at hist acc1 acc2 i s" and "i < length hist" and "acc1 (lq_tries (ks_internal s) + k)"
    and room: "\<forall>n. \<exists>k. acc2 (n + k)"
  shows "\<exists>n s'. rounds n KLineService_Run_iteration s = Some s' \<and> service_at hist acc1 acc2 (Suc i) s'"
  using assms(1-3)
proof (induction k arbitrary: s)
  case 0
  then obtain s' where "KLineService_Run_iteration s = Some s'" "service_at hist acc1 acc2 (Suc i) s'"
    using service_forwards_one [OF _ _ _ room] by (metis add_0_right)
  then show ?case by (intro exI [of _ 1] exI [of _ s']) simp
next
  case (Suc k)
  show ?case
  proof (cases "acc1 (lq_tries (ks_internal s))")
    case True
    then obtain s' where "KLineService_Run_iteration s = Some s'" "service_at hist acc1 acc2 (Suc i) s'"
      using service_forwards_one [OF Suc.prems(1,2) _ room] by metis
    then show ?thesis by (intro exI [of _ 1] exI [of _ s']) simp
  next
    case False
    then obtain u where u: "KLineService_Run_iteration s = Some u" "service_at hist acc1 acc2 i u"
      "lq_tries (ks_internal u) = Suc (lq_tries (ks_internal s))"
      using service_refused [OF Suc.prems(1,2)] by metis
    from Suc.IH [OF u(2) Suc.prems(2)] Suc.prems(3) u(3) obtain n s'
      where "rounds n KLineService_Run_iteration u = Some s'" "service_at hist acc1 acc2 (Suc i) s'" by auto
    with u(1) show ?thesis by (intro exI [of _ "Suc n"] exI [of _ s']) simp
  qed
qed

lemma service_reaches:
  assumes "service_at hist acc1 acc2 0 s" and "i \<le> length hist" and "\<forall>n. \<exists>k. acc1 (n + k)" and "\<forall>n. \<exists>k. acc2 (n + k)"
  shows "\<exists>n s'. rounds n KLineService_Run_iteration s = Some s' \<and> service_at hist acc1 acc2 i s'"
  using assms(2)
proof (induction i)
  case 0
  with assms(1) show ?case by (intro exI [of _ 0] exI [of _ s]) simp
next
  case (Suc i)
  then obtain m u where u: "rounds m KLineService_Run_iteration s = Some u" "service_at hist acc1 acc2 i u" by auto
  from service_reaches_next [OF u(2) _ _ assms(4)] assms(3) Suc.prems obtain n s'
    where "rounds n KLineService_Run_iteration u = Some s'" "service_at hist acc1 acc2 (Suc i) s'" by (meson Suc_le_lessD)
  with u(1) show ?case by (intro exI [of _ "m + n"] exI [of _ s']) (simp add: rounds_add)
qed



definition demo_lines :: "string list" where
  "demo_lines = [''date open high low close volume'',
     ''d1'' @ tab_fields [''1.5'', ''2.0'', ''1.0'', ''1.5'', ''7.0''],
     ''d2'' @ tab_fields [''1.5'', ''2.5'', ''1.5'', ''2.5'', ''9.0'']]"

definition demo_kline_info :: TradingPairInfo where
  "demo_kline_info = TradingPairInfo_zero\<lparr>price_precission := 1, qty_precission := 0\<rparr>"

lemma demo_line_kinds:
  "kline_line (''d1'' @ tab_fields [''1.5'', ''2.0'', ''1.0'', ''1.5'', ''7.0'']) [''1.5'', ''2.0'', ''1.0'', ''1.5'', ''7.0'']"
  "kline_line (''d2'' @ tab_fields [''1.5'', ''2.5'', ''1.5'', ''2.5'', ''9.0'']) [''1.5'', ''2.5'', ''1.5'', ''2.5'', ''9.0'']"
  "\<not> kline_line ''date open high low close volume'' fs"
proof -
  show "kline_line (''d1'' @ tab_fields [''1.5'', ''2.0'', ''1.0'', ''1.5'', ''7.0'']) [''1.5'', ''2.0'', ''1.0'', ''1.5'', ''7.0'']"
    unfolding kline_line_def by (intro conjI exI [of _ "''d1''"]) (simp_all add: decimal_text_def is_digit_def)
  show "kline_line (''d2'' @ tab_fields [''1.5'', ''2.5'', ''1.5'', ''2.5'', ''9.0'']) [''1.5'', ''2.5'', ''1.5'', ''2.5'', ''9.0'']"
    unfolding kline_line_def by (intro conjI exI [of _ "''d2''"]) (simp_all add: decimal_text_def is_digit_def)
  have "match_kline ''date open high low close volume'' = None" by (simp add: match_kline_def)
  then show "\<not> kline_line ''date open high low close volume'' fs"
    using match_kline_ok [unfolded re2_ok_def, rule_format, of "''date open high low close volume''" fs] by simp
qed

lemma demo_is_kline:
  "is_kline (''d1'' @ tab_fields [''1.5'', ''2.0'', ''1.0'', ''1.5'', ''7.0''])"
  "is_kline (''d2'' @ tab_fields [''1.5'', ''2.5'', ''1.5'', ''2.5'', ''9.0''])"
  "\<not> is_kline ''date open high low close volume''"
  unfolding is_kline_def using demo_line_kinds by blast+

lemma all_less_4: "(\<forall>i < 4. P i) \<longleftrightarrow> P 0 \<and> P (Suc 0) \<and> P 2 \<and> P (3 :: nat)"
  by (auto simp: less_Suc_eq numeral_eq_Suc)

lemma demo_lines_ticks:
  "list_all2 (line_ticks demo_kline_info) (filter is_kline demo_lines) [[15, 20, 10, 15, 7], [15, 25, 15, 25, 9]]"
proof -
  have "line_ticks demo_kline_info (''d1'' @ tab_fields [''1.5'', ''2.0'', ''1.0'', ''1.5'', ''7.0'']) [15, 20, 10, 15, 7]"
    unfolding line_ticks_def by (intro exI conjI, rule demo_line_kinds)
      (simp_all add: all_less_4 ticks_text_def decimal_value_def demo_kline_info_def TradingPairInfo_zero_def)
  moreover have "line_ticks demo_kline_info (''d2'' @ tab_fields [''1.5'', ''2.5'', ''1.5'', ''2.5'', ''9.0'']) [15, 25, 15, 25, 9]"
    unfolding line_ticks_def by (intro exI conjI, rule demo_line_kinds)
      (simp_all add: all_less_4 ticks_text_def decimal_value_def demo_kline_info_def TradingPairInfo_zero_def)
  moreover have "filter is_kline demo_lines =
      [''d1'' @ tab_fields [''1.5'', ''2.0'', ''1.0'', ''1.5'', ''7.0''], ''d2'' @ tab_fields [''1.5'', ''2.5'', ''1.5'', ''2.5'', ''9.0'']]"
    unfolding demo_lines_def filter.simps if_P [OF demo_is_kline(1)] if_P [OF demo_is_kline(2)] if_not_P [OF demo_is_kline(3)] ..
  ultimately show ?thesis by (simp only: list_all2_Cons list_all2_Nil)
qed


section \<open>The engine and its book\<close>

lemma fold_klines:
  "fold_result backtesting_OnNewKLine ks bbo =
     (if \<exists>k \<in> set ks. k_open (ke_ohlcv k) = 0 then Inl DivisionByZero
      else Inr (if ks = [] then bbo
                else let k = ke_ohlcv (List.last ks) in \<lparr>bb_price = k_open k, bb_qty = k_volume k div k_open k\<rparr>))"
proof (induction ks arbitrary: bbo)
  case (Cons k ks)
  then show ?case by (cases bbo) (auto simp: backtesting_OnNewKLine_def Let_def)
qed simp

lemma engine_rounds:
  "length ks \<le> 50 * n \<Longrightarrow>
   rounds_result n backtesting_Run_iteration (ks, bbo) =
     bind_result (fold_result backtesting_OnNewKLine ks bbo) (\<lambda>bbo'. Inr ([], bbo'))"
proof (induction n arbitrary: ks bbo)
  case (Suc n)
  have "fold_result backtesting_OnNewKLine ks bbo =
      bind_result (fold_result backtesting_OnNewKLine (take 50 ks) bbo) (fold_result backtesting_OnNewKLine (drop 50 ks))"
    using fold_result_append [of backtesting_OnNewKLine "take 50 ks" "drop 50 ks" bbo] by simp
  with Suc.IH [of "drop 50 ks"] Suc.prems show ?case
    by (cases "fold_result backtesting_OnNewKLine (take 50 ks) bbo") (simp_all add: backtesting_Run_iteration_def)
qed simp

text \<open>The engine for backtesting.  However many klines wait, enough rounds empty the queue and leave the book at the open price of
  the last kline with its volume divided by that price; but a kline that opens at zero ticks ends the process by a division by zero,
  whatever its position.\<close>

theorem backtest_engine_result:
  assumes "length ks \<le> 50 * n"
  shows "rounds_result n backtesting_Run_iteration (ks, bbo) =
     (if \<exists>k \<in> set ks. k_open (ke_ohlcv k) = 0 then Inl DivisionByZero
      else Inr ([], if ks = [] then bbo
                    else let k = ke_ohlcv (List.last ks) in \<lparr>bb_price = k_open k, bb_qty = k_volume k div k_open k\<rparr>))"
  using assms by (simp add: engine_rounds fold_klines)

theorem backtest_engine_result_witness:
  "rounds_result 1 backtesting_Run_iteration ([demo_kline 3, demo_kline 0, demo_kline 4], backtesting_BBO_default) = Inl DivisionByZero"
  using backtest_engine_result [of "[demo_kline 3, demo_kline 0, demo_kline 4]" 1 backtesting_BBO_default]
  by (simp add: demo_kline_def)

text \<open>\<open>Stop\<close> returns exactly when the queue of market updates is empty at some time, or there is none; the loop of the engine
  itself never takes an update from it.\<close>

lemma wait_empty_ends: "sizes (i + k) = 0 \<Longrightarrow> \<exists>n. wait_empty sizes i = Some n \<and> sizes n = 0"
proof (induction k arbitrary: i)
  case 0
  then show ?case by (subst wait_empty.simps) simp
next
  case (Suc k)
  then show ?case by (cases "sizes i = 0") (subst wait_empty.simps, simp)+
qed

lemma wait_empty_sound: "wait_empty sizes i = Some n \<Longrightarrow> sizes n = 0"
  by (erule wait_empty.raw_induct [where P = "\<lambda>sizes i n. sizes n = 0", rotated]) (simp split: if_splits)

theorem Stop_returns_iff:
  "(\<exists>n. TradeEngine_Stop (Some sizes) = Some n) \<longleftrightarrow> (\<exists>i. sizes i = 0)"
  unfolding TradeEngine_Stop_def option.case by (metis add_0 wait_empty_ends wait_empty_sound)

text \<open>The first gateway: cancels are executed in order, new orders never.\<close>

lemma first_gateway_drops_orders:
  "length cancels \<le> 50 * n \<Longrightarrow> (OrderGateway_Run_iteration ^^ n) (news, cancels, calls) = (news, [], calls @ cancels)"
proof (induction n arbitrary: cancels calls)
  case (Suc n)
  then show ?case
    unfolding funpow_Suc_right comp_apply OrderGateway_Run_iteration_def [of "(news, cancels, calls)"] by simp
qed simp

end
