(* ===== verification/Predictor_Embedding.thy ===== *)
theory Predictor_Embedding
  imports Cross_Arbitrage
begin

text \<open>
  The embedding of the Python predictor: \<open>base_strategy::Strategy\<close> of aot/launcher_predictor.h, and the earlier \<open>Predictor\<close> with its
  \<open>PredictorImpl\<close> and actions (aot/Predictor.h, aot/impl/PredictorImpl.h, src/Predictor.cpp).

  CPython is an argument: a record of the answers of its functions.  What the C++ code does itself is to pass objects on and to own
  references to them.  \<open>refs\<close> maps an object to the number of references that the C++ code owns; a function that returns a new
  reference adds one, \<open>Py_DECREF\<close> takes one, a function that returns a borrowed reference changes nothing.  A number below zero is
  a reference given back that the code never owned.  A null pointer where an object is required is the fault \<open>NullDeref\<close>.
\<close>

section \<open>The interpreter\<close>

type_synonym pyobj = nat
type_synonym refs = "pyobj \<Rightarrow> int"

record pyenv =
  py_decode :: "string \<Rightarrow> pyobj option"                      \<comment> \<open>\<open>PyUnicode_DecodeFSDefault\<close>, new\<close>
  py_import :: "pyobj \<Rightarrow> pyobj option"                       \<comment> \<open>\<open>PyImport_Import\<close>, new\<close>
  py_getattr :: "pyobj \<Rightarrow> string \<Rightarrow> pyobj option"      \<comment> \<open>\<open>PyObject_GetAttrString\<close>, new\<close>
  py_module_dict :: "pyobj \<Rightarrow> pyobj option"                  \<comment> \<open>\<open>PyModule_GetDict\<close>, borrowed\<close>
  py_dict_item :: "pyobj \<Rightarrow> string \<Rightarrow> pyobj option"    \<comment> \<open>\<open>PyDict_GetItemString\<close>, borrowed\<close>
  py_tuple :: "nat \<Rightarrow> pyobj option"                          \<comment> \<open>\<open>PyTuple_New\<close>, new\<close>
  py_string :: "string \<Rightarrow> pyobj option"                      \<comment> \<open>\<open>PyUnicode_FromString\<close>, new\<close>
  py_float :: "rat \<Rightarrow> pyobj option"                          \<comment> \<open>\<open>PyFloat_FromDouble\<close>, new\<close>
  py_callable :: "pyobj \<Rightarrow> bool"
  py_call :: "pyobj \<Rightarrow> pyobj option \<Rightarrow> pyobj option"   \<comment> \<open>\<open>PyObject_CallObject\<close>, new\<close>
  py_method :: "pyobj \<Rightarrow> string \<Rightarrow> rat list \<Rightarrow> pyobj option"  \<comment> \<open>\<open>PyObject_CallMethod\<close>, new\<close>
  py_exact_dict :: "pyobj \<Rightarrow> bool"
  py_items :: "pyobj \<Rightarrow> (pyobj option \<times> string \<times> int) list"
    \<comment> \<open>the rounds of \<open>PyDict_Next\<close>: the encoded key (null when it cannot be encoded), its text, the value as \<open>long\<close>\<close>

definition own :: "pyobj option \<Rightarrow> refs \<Rightarrow> refs" where
  "own x r = (case x of None \<Rightarrow> r | Some a \<Rightarrow> r(a := r a + 1))"

definition Py_XDECREF :: "pyobj option \<Rightarrow> refs \<Rightarrow> refs" where
  "Py_XDECREF x r = (case x of None \<Rightarrow> r | Some a \<Rightarrow> r(a := r a - 1))"

definition Py_DECREF :: "pyobj option \<Rightarrow> refs \<Rightarrow> refs result" where
  "Py_DECREF x r = (case x of None \<Rightarrow> Inl NullDeref | Some a \<Rightarrow> Inr (r(a := r a - 1)))"

definition with_object :: "pyobj option \<Rightarrow> (pyobj \<Rightarrow> 'a) \<Rightarrow> 'a result" where
  "with_object x f = (case x of None \<Rightarrow> Inl NullDeref | Some a \<Rightarrow> Inr (f a))"

text \<open>The loop over the entries of the answer: the last one remains.\<close>

definition dict_entry :: "pyobj option \<times> string \<times> int \<Rightarrow> (string \<times> int option) \<times> refs \<Rightarrow> ((string \<times> int option) \<times> refs) result" where
  "dict_entry e st =
     (case e of (bytes, key, val) \<Rightarrow>
        (case bytes of
           None \<Rightarrow> Inl NullDeref
         | Some a \<Rightarrow> Inr ((key, Some val), Py_XDECREF bytes (own bytes (snd st)))))"

section \<open>The strategy\<close>

text \<open>\<open>file_predictor_.substr(0, file_predictor_.find_last_of("."))\<close>.\<close>

definition file_stem :: "string \<Rightarrow> string" where
  "file_stem f = (if CHR ''.'' \<in> set f then List.rev (tl (dropWhile (\<lambda>c. c \<noteq> CHR ''.'') (List.rev f))) else f)"

text \<open>\<open>InitTuplePosition\<close> with a text: \<open>PyTuple_SetItem\<close> takes over the reference to the new object.\<close>

definition InitTuplePosition_text :: "pyenv \<Rightarrow> string \<Rightarrow> refs \<Rightarrow> int \<times> refs" where
  "InitTuplePosition_text env value r =
     (case py_string env value of None \<Rightarrow> (1, r) | Some a \<Rightarrow> (0, Py_XDECREF (Some a) (own (Some a) r)))"

definition Strategy_new :: "pyenv \<Rightarrow> string \<Rightarrow> string \<Rightarrow> string \<Rightarrow> refs \<Rightarrow> (pyobj option \<times> refs) result" where
  "Strategy_new env models file cls r =
     (let name = py_decode env (file_stem file); r1 = own name r in
      bind_result (with_object name (py_import env)) (\<lambda>modul.
      bind_result (Py_DECREF name (own modul r1)) (\<lambda>r2.
      bind_result (with_object modul (\<lambda>m. py_getattr env m cls)) (\<lambda>c.
      bind_result (Py_DECREF modul (own c r2)) (\<lambda>r3.
      let args = py_tuple env 1; r4 = snd (InitTuplePosition_text env models (own args r3)) in
      bind_result (with_object c (\<lambda>k. py_call env k args)) (\<lambda>inst.
      Inr (inst, Py_XDECREF c (Py_XDECREF args (own inst r4)))))))))"

text \<open>The confidence of a result that was never assigned is not initialised (\<open>junk\<close>).\<close>

definition Strategy_Predict :: "pyenv \<Rightarrow> string \<Rightarrow> int \<Rightarrow> pyobj option \<Rightarrow> rat list \<Rightarrow> refs \<Rightarrow> (Result \<times> refs) result" where
  "Strategy_Predict env meth junk inst ohlcv r =
     bind_result (with_object inst (\<lambda>i. py_method env i meth ohlcv)) (\<lambda>pValue.
     case pValue of
       None \<Rightarrow> Inr (\<lparr>res_action = '''', res_confidence = junk\<rparr>, r)
     | Some v \<Rightarrow>
         bind_result (fold_result dict_entry (py_items env v) (('''', None), own pValue r)) (\<lambda>((action, conf), r1).
         bind_result (Py_DECREF pValue r1) (\<lambda>r2.
         Inr (\<lparr>res_action = action, res_confidence = (case conf of None \<Rightarrow> junk | Some c \<Rightarrow> c)\<rparr>, r2))))"

definition Strategy_delete :: "pyobj option \<Rightarrow> refs \<Rightarrow> refs result" where
  "Strategy_delete inst r = Py_DECREF inst r"

section \<open>The earlier predictor\<close>

text \<open>A member that was not set yet is not initialised (outer \<open>None\<close>).\<close>

record PredictorImpl =
  pi_module_name :: "pyobj option option"
  pi_module :: "pyobj option option"
  pi_module_dict :: "pyobj option option"
  pi_predictor_class :: "pyobj option option"
  pi_predictor :: "pyobj option option"

definition PredictorImpl_new :: PredictorImpl where
  "PredictorImpl_new = \<lparr>pi_module_name = None, pi_module = None, pi_module_dict = None, pi_predictor_class = None, pi_predictor = None\<rparr>"

definition PredictorImpl_Init :: "pyenv \<Rightarrow> PredictorImpl \<Rightarrow> refs \<Rightarrow> (int \<times> PredictorImpl \<times> refs) result" where
  "PredictorImpl_Init env p r =
     (let name = py_decode env ''machine_learning'' in
      bind_result (with_object name (py_import env)) (\<lambda>modul.
      let p1 = p\<lparr>pi_module_name := Some name, pi_module := Some modul\<rparr>; r1 = Py_XDECREF name (own modul (own name r)) in
      case modul of
        None \<Rightarrow> Inr (1, p1, r1)
      | Some m \<Rightarrow>
          let dict = py_module_dict env m; p2 = p1\<lparr>pi_module_dict := Some dict\<rparr> in
          (case dict of
             None \<Rightarrow> Inr (2, p2, r1)
           | Some d \<Rightarrow>
               let cls = py_dict_item env d ''Predictor''; p3 = p2\<lparr>pi_predictor_class := Some cls\<rparr>; r2 = Py_XDECREF modul r1 in
               (case cls of
                  None \<Rightarrow> Inr (3, p3, r2)
                | Some c \<Rightarrow>
                    let r3 = Py_XDECREF dict r2 in
                    if py_callable env c
                    then let inst = py_call env c None
                         in Inr (0, p3\<lparr>pi_predictor := Some inst\<rparr>, Py_XDECREF cls (own inst r3))
                    else Inr (4, p3, Py_XDECREF cls r3)))))"

text \<open>\<open>InitTuplePosition\<close> with a number, and \<open>Predict\<close>; \<open>value_out\<close> is read also when no entry set it.\<close>

definition InitTuplePosition_float :: "pyenv \<Rightarrow> rat \<Rightarrow> refs \<Rightarrow> int \<times> refs" where
  "InitTuplePosition_float env value r =
     (case py_float env value of None \<Rightarrow> (1, r) | Some a \<Rightarrow> (0, Py_XDECREF (Some a) (own (Some a) r)))"

fun init_tuple :: "pyenv \<Rightarrow> rat list \<Rightarrow> refs \<Rightarrow> bool \<times> refs" where
  "init_tuple env [] r = (True, r)"
| "init_tuple env (x # xs) r =
     (let (code, r1) = InitTuplePosition_float env x r in if code = 0 then init_tuple env xs r1 else (False, r1))"

definition PredictorImpl_Predict :: "pyenv \<Rightarrow> PredictorImpl \<Rightarrow> rat list \<Rightarrow> refs \<Rightarrow> ((string \<times> int) \<times> refs) result" where
  "PredictorImpl_Predict env p ohlcv r =
     (let args = py_tuple env 5; (ok, r1) = init_tuple env ohlcv (own args r) in
      if \<not> ok then bind_result (Py_DECREF args r1) (\<lambda>r2. Inr (('''', 0), r2))
      else
        case pi_predictor p of
          None \<Rightarrow> Inl Undefined
        | Some inst \<Rightarrow>
            bind_result (with_object inst (\<lambda>i. py_method env i ''predict'' ohlcv)) (\<lambda>val.
            bind_result (Py_DECREF args (own val r1)) (\<lambda>r2.
            bind_result
              (case val of
                 None \<Rightarrow> Inr (('''', None), r2)
               | Some v \<Rightarrow>
                   if py_exact_dict env v
                   then bind_result (fold_result dict_entry (py_items env v) (('''', None), r2)) (\<lambda>(out, r3).
                        bind_result (Py_DECREF val r3) (\<lambda>r4. Inr (out, r4)))
                   else Inr (('''', None), r2)) (\<lambda>((key, num), r5).
            case num of None \<Rightarrow> Inl Undefined | Some n \<Rightarrow> Inr ((key, n), r5)))))"

definition release_member :: "pyobj option option \<Rightarrow> refs \<Rightarrow> refs result" where
  "release_member x r = (case x of None \<Rightarrow> Inl Undefined | Some y \<Rightarrow> Inr (Py_XDECREF y r))"

definition PredictorImpl_delete :: "PredictorImpl \<Rightarrow> refs \<Rightarrow> refs result" where
  "PredictorImpl_delete p r =
     bind_result (release_member (pi_module_name p) r) (\<lambda>r1.
     bind_result (release_member (pi_module p) r1) (\<lambda>r2.
     bind_result (release_member (pi_module_dict p) r2) (\<lambda>r3.
     release_member (pi_predictor_class p) r3)))"

text \<open>The constructor of \<open>Predictor\<close> ignores the code of \<open>Init\<close>.\<close>

definition Predictor_new :: "pyenv \<Rightarrow> refs \<Rightarrow> (PredictorImpl \<times> refs) result" where
  "Predictor_new env r = bind_result (PredictorImpl_Init env PredictorImpl_new r) (\<lambda>(_, p, r1). Inr (p, r1))"

datatype Direction = LONG | SHORT | NOPE
datatype Action = Buy Direction | Sell Direction | ActionEmpty

definition ActionFactory_Produce :: "string \<times> int \<Rightarrow> Action" where
  "ActionFactory_Produce answer =
     (if fst answer = ''enter_long'' \<and> snd answer = 1 then Buy LONG
      else if fst answer = ''enter_short'' \<and> snd answer = 1 then Buy SHORT
      else if fst answer = ''exit_long'' \<and> snd answer = 1 then Sell LONG
      else if fst answer = ''exit_short'' \<and> snd answer = 1 then Sell SHORT
      else ActionEmpty)"

fun direction_int :: "Direction \<Rightarrow> nat" where
  "direction_int LONG = 0" | "direction_int SHORT = 1" | "direction_int NOPE = 2"

fun Action_Do :: "Action \<Rightarrow> string" where
  "Action_Do (Buy d) = ''buy '' @ to_string_nat (direction_int d) @ [CHR 0x0A]"
| "Action_Do (Sell d) = ''sell '' @ to_string_nat (direction_int d) @ [CHR 0x0A]"
| "Action_Do ActionEmpty = ''action nope'' @ [CHR 0x0A]"

text \<open>\<open>Predictor::Predict\<close>: the action, what it prints, and the references.\<close>

definition Predictor_Predict :: "pyenv \<Rightarrow> PredictorImpl \<Rightarrow> rat list \<Rightarrow> refs \<Rightarrow> (Action \<times> string \<times> refs) result" where
  "Predictor_Predict env p ohlcv r =
     bind_result (PredictorImpl_Predict env p ohlcv r) (\<lambda>(report, r1).
     let action = ActionFactory_Produce report in Inr (action, Action_Do action, r1))"

section \<open>References are balanced\<close>

lemma own_released [simp]: "Py_XDECREF x (own x r) = r"
  by (simp add: Py_XDECREF_def own_def split: option.split)

lemma release_apply: "Py_XDECREF (Some a) r x = r x - of_bool (x = a)"
  and own_apply: "own (Some a) r x = r x + of_bool (x = a)"
  by (simp_all add: Py_XDECREF_def own_def)

lemma decref_Some: "Py_DECREF (Some a) r = Inr (Py_XDECREF (Some a) r)"
  by (simp add: Py_DECREF_def Py_XDECREF_def)

lemma release_commute: "Py_XDECREF x (own y r) = own y (Py_XDECREF x r)" "Py_XDECREF x (Py_XDECREF y r) = Py_XDECREF y (Py_XDECREF x r)"
  by (rule ext, simp add: Py_XDECREF_def own_def split: option.split)+

lemma init_text_balanced [simp]: "snd (InitTuplePosition_text env v r) = r"
  by (simp add: InitTuplePosition_text_def split: option.split)

lemma dict_loop:
  assumes "\<forall>e \<in> set items. fst e \<noteq> None"
  shows "fold_result dict_entry items (out, r) =
     Inr (if items = [] then out else (fst (snd (List.last items)), Some (snd (snd (List.last items)))), r)"
  using assms
proof (induction items arbitrary: out)
  case (Cons e items)
  then obtain a key val where "e = (Some a, key, val)" by (metis list.set_intros(1) not_None_eq prod.collapse)
  with Cons show ?case by (simp add: dict_entry_def)
qed simp

text \<open>The class can be found and instantiated, and every call of its method answers a dictionary whose last entry is \<open>f\<close>.\<close>

definition python_ready :: "pyenv \<Rightarrow> string \<Rightarrow> string \<Rightarrow> pyobj \<Rightarrow> bool" where
  "python_ready env file cls inst \<longleftrightarrow>
     (\<exists>n m c. py_decode env (file_stem file) = Some n \<and> py_import env n = Some m \<and> py_getattr env m cls = Some c \<and>
        py_call env c (py_tuple env 1) = Some inst)"

definition python_answers :: "pyenv \<Rightarrow> pyobj \<Rightarrow> string \<Rightarrow> (rat list \<Rightarrow> string \<times> int) \<Rightarrow> bool" where
  "python_answers env inst meth f \<longleftrightarrow>
     (\<forall>k. \<exists>v. py_method env inst meth k = Some v \<and> py_items env v \<noteq> [] \<and> (\<forall>e \<in> set (py_items env v). fst e \<noteq> None) \<and>
        f k = snd (List.last (py_items env v)))"

fun predict_all :: "pyenv \<Rightarrow> string \<Rightarrow> int \<Rightarrow> pyobj option \<Rightarrow> rat list list \<Rightarrow> refs \<Rightarrow> (TradeAction list \<times> refs) result" where
  "predict_all env meth junk inst [] r = Inr ([], r)"
| "predict_all env meth junk inst (k # ks) r =
     bind_result (Strategy_Predict env meth junk inst k r) (\<lambda>(res, r1).
     bind_result (predict_all env meth junk inst ks r1) (\<lambda>(acts, r2). Inr (Parse res # acts, r2)))"

lemma Strategy_new_owns:
  assumes "python_ready env file cls inst"
  shows "Strategy_new env models file cls r = Inr (Some inst, own (Some inst) r)"
proof -
  obtain n m c where "py_decode env (file_stem file) = Some n" "py_import env n = Some m" "py_getattr env m cls = Some c"
    "py_call env c (py_tuple env 1) = Some inst" using assms by (auto simp: python_ready_def)
  then show ?thesis
    by (simp add: Strategy_new_def with_object_def decref_Some release_commute(1) Let_def)
qed

lemma Strategy_Predict_result:
  assumes "python_answers env inst meth f"
  shows "Strategy_Predict env meth junk (Some inst) k r = Inr (\<lparr>res_action = fst (f k), res_confidence = snd (f k)\<rparr>, r)"
proof -
  obtain v where v: "py_method env inst meth k = Some v" "py_items env v \<noteq> []" "\<forall>e \<in> set (py_items env v). fst e \<noteq> None"
    "f k = snd (List.last (py_items env v))" using assms unfolding python_answers_def by blast
  then show ?thesis
    by (simp add: Strategy_Predict_def with_object_def dict_loop [OF v(3)] decref_Some)
qed


definition demo_python :: pyenv where
  "demo_python = \<lparr>py_decode = (\<lambda>s. Some 1), py_import = (\<lambda>n. Some 2), py_getattr = (\<lambda>m s. Some 3), py_module_dict = (\<lambda>m. Some 4),
     py_dict_item = (\<lambda>d s. Some 3), py_tuple = (\<lambda>n. Some 5), py_string = (\<lambda>s. Some 6), py_float = (\<lambda>x. Some 7),
     py_callable = (\<lambda>c. True), py_call = (\<lambda>c a. Some 8), py_method = (\<lambda>i s k. Some (if hd k < 2 then 9 else 10)),
     py_exact_dict = (\<lambda>v. True),
     py_items = (\<lambda>v. [(Some 11, ''enter_short'', 1), (Some 11, if v = 9 then ''enter_long'' else ''exit_long'', 1)])\<rparr>"


text \<open>The earlier predictor gives back references that it does not own.  When its class can be instantiated, constructor and
  destructor together release the dictionary of the module and the class, both borrowed, twice, the module and its name once too
  often, and never the instance.  When the module cannot be imported, the destructor reads members that were never set.\<close>

theorem earlier_predictor_overreleases:
  assumes "py_decode env ''machine_learning'' = Some n"
  shows "(\<forall>m d c inst. py_import env n = Some m \<longrightarrow> py_module_dict env m = Some d \<longrightarrow> py_dict_item env d ''Predictor'' = Some c \<longrightarrow>
       py_callable env c \<longrightarrow> py_call env c None = Some inst \<longrightarrow>
       (\<exists>p r1 r2. Predictor_new env r = Inr (p, r1) \<and> PredictorImpl_delete p r1 = Inr r2 \<and>
          (\<forall>x. r2 x = r x + of_bool (x = inst) - 2 * of_bool (x = d) - 2 * of_bool (x = c) - of_bool (x = m) - of_bool (x = n)))) \<and>
     (py_import env n = None \<longrightarrow>
       (\<exists>p r1. Predictor_new env r = Inr (p, r1) \<and> PredictorImpl_delete p r1 = Inl Undefined))"
  using assms
  by (auto simp: Predictor_new_def PredictorImpl_Init_def with_object_def PredictorImpl_delete_def release_member_def
      PredictorImpl_new_def release_apply own_apply Let_def)

theorem earlier_predictor_overreleases_witness:
  "\<exists>p r1 r2. Predictor_new demo_python (\<lambda>_. 0) = Inr (p, r1) \<and> PredictorImpl_delete p r1 = Inr r2 \<and> r2 4 = - 2 \<and> r2 8 = 1"
  using earlier_predictor_overreleases [of demo_python 1 "\<lambda>_. 0"] by (auto simp: demo_python_def)

text \<open>Where the two interfaces agree: with value 1 the action of the factory is the side and direction that \<open>Parse\<close> names; with any
  other value the factory does nothing while \<open>Parse\<close> acts.\<close>

lemma factory_agrees:
  "ActionFactory_Produce (a, 1) =
     (case Parse \<lparr>res_action = a, res_confidence = 1\<rparr> of
        kEnterLong \<Rightarrow> Buy LONG | kEnterShort \<Rightarrow> Buy SHORT | kExitLong \<Rightarrow> Sell LONG | kExitShort \<Rightarrow> Sell SHORT | kNope \<Rightarrow> ActionEmpty)"
  by (simp add: ActionFactory_Produce_def Parse_def)

end
