(* ===== verification/Position_Report.thy ===== *)
theory Position_Report
  imports Position_Keeper Exchange_Api
begin

text \<open>
  The statistics of the position keeper: \<open>ToString\<close> of \<open>PositionInfo\<close> and of \<open>Trading::PositionKeeper\<close>
  (aot/strategy/position_keeper.h), which \<open>TradeEngine::GetStatistics\<close> returns.

  The numbers are written by \<open>operator<<\<close> for \<open>double\<close> with the default format of a stream: six significant digits, trailing zeros
  dropped, with an exponent when it is below -4 or at least 6.
\<close>

section \<open>Doubles on a stream\<close>

text \<open>The decimal exponent of a positive number; a double lies between \<open>10^-324\<close> and \<open>10^309\<close>.\<close>

definition exponent10 :: "rat \<Rightarrow> int" where
  "exponent10 x = (case List.find (\<lambda>e. 10 powi e \<le> x) (List.rev [- 324..309]) of None \<Rightarrow> - 324 | Some e \<Rightarrow> e)"

definition six_digits :: "rat \<Rightarrow> nat \<times> int" where
  "six_digits x =
     (let e = exponent10 x; m = nat (round_even (x * 10 powi (5 - e)))
      in if m = 10 ^ 6 then (10 ^ 5, e + 1) else (m, e))"

definition strip_zeros :: "string \<Rightarrow> string" where
  "strip_zeros s = List.rev (dropWhile (\<lambda>c. c = CHR ''0'') (List.rev s))"

definition with_point :: "string \<Rightarrow> string \<Rightarrow> string" where
  "with_point i f = (let g = strip_zeros f in if g = [] then i else i @ CHR ''.'' # g)"

definition exponent_text :: "int \<Rightarrow> string" where
  "exponent_text e = (if e < 0 then ''e-'' else ''e+'') @ pad_zeros 2 (to_string_nat (nat \<bar>e\<bar>))"

definition positive_text :: "rat \<Rightarrow> string" where
  "positive_text x =
     (let (m, e) = six_digits x; d = to_string_nat m in
      if e < - 4 \<or> 6 \<le> e then with_point (take 1 d) (drop 1 d) @ exponent_text e
      else if 0 \<le> e then with_point (take (Suc (nat e)) d) (drop (Suc (nat e)) d)
      else with_point ''0'' (replicate (nat (- e) - 1) CHR ''0'' @ d))"

definition stream_double :: "rat \<Rightarrow> string" where
  "stream_double x =
     (if x = 0 then ''0'' else if x < 0 then CHR ''-'' # positive_text (- x) else positive_text x)"

definition stream_int :: "int \<Rightarrow> string" where
  "stream_int i = (if i < 0 then CHR ''-'' # to_string_nat (nat (- i)) else to_string_nat (nat i))"

section \<open>The report\<close>

definition open_vwap_text :: "rounding \<Rightarrow> Side \<Rightarrow> PositionInfo \<Rightarrow> string result" where
  "open_vwap_text rnd side p =
     (if pi_position p = 0 then Inr (stream_double 0)
      else bind_result (abs_int32 (pi_position p)) (\<lambda>a.
           Inr (stream_double (fdiv rnd (pi_open_vwap p ! sideToIndex side) (double_of_int rnd a)))))"

definition PositionInfo_ToString :: "rounding \<Rightarrow> PositionInfo \<Rightarrow> string result" where
  "PositionInfo_ToString rnd p =
     bind_result (open_vwap_text rnd kAsk p) (\<lambda>ask.
     bind_result (open_vwap_text rnd kBid p) (\<lambda>bid.
     Inr (''Position{'' @ ''pos:'' @ stream_int (pi_position p) @ '' u-pnl:'' @ stream_double (pi_unreal_pnl p) @
          '' r-pnl:'' @ stream_double (pi_real_pnl p) @ '' t-pnl:'' @ stream_double (pi_total_pnl p) @
          '' vol:'' @ stream_double (pi_volume p) @ '' ovwaps:['' @ ask @ ''X'' @ bid @ ''] '' @
          (case pi_bbo p of None \<Rightarrow> '''' | Some b \<Rightarrow> BBO_ToString b) @ ''}'')))"

text \<open>\<open>entries\<close> are the pairs in the order in which the hash table enumerates them.\<close>

definition report_entry :: "rounding \<Rightarrow> TradingPair \<times> PositionInfo \<Rightarrow> string \<times> rat \<times> rat \<Rightarrow> (string \<times> rat \<times> rat) result" where
  "report_entry rnd it st =
     (case st of (ss, total_pnl, total_vol) \<Rightarrow>
        bind_result (PositionInfo_ToString rnd (snd it)) (\<lambda>s.
        Inr (ss @ ''TickerId:'' @ TradingPair_ToString (fst it) @ '' '' @ s @ [CHR 0x0A],
             fadd rnd total_pnl (pi_total_pnl (snd it)), fadd rnd total_vol (pi_volume (snd it)))))"

definition PositionKeeper_ToString :: "rounding \<Rightarrow> (TradingPair \<times> PositionInfo) list \<Rightarrow> string result" where
  "PositionKeeper_ToString rnd entries =
     bind_result (fold_result (report_entry rnd) entries ('''', 0, 0)) (\<lambda>(ss, total_pnl, total_vol).
     Inr (ss @ ''Total PnL:'' @ stream_double total_pnl @ '' Vol:'' @ stream_double total_vol @ [CHR 0x0A]))"

section \<open>Whole numbers are printed exactly up to six digits\<close>

lemma to_string_shift: "0 < n \<Longrightarrow> to_string_nat (n * 10 ^ k) = to_string_nat n @ replicate k CHR ''0''"
proof (induction k)
  case (Suc k)
  have "10 \<le> n * 10 ^ Suc k" using Suc.prems by simp
  then have "to_string_nat (n * 10 ^ Suc k) =
      to_string_nat (n * 10 ^ Suc k div 10) @ [digit_char (n * 10 ^ Suc k mod 10)]"
    by (subst to_string_nat.simps) simp
  moreover have "n * 10 ^ Suc k div 10 = n * 10 ^ k" "n * 10 ^ Suc k mod 10 = 0" by simp_all
  moreover have "digit_char 0 = CHR ''0''" by code_simp
  ultimately show ?case using Suc by (simp add: replicate_append_same [symmetric])
qed simp

lemma exponent10_unique:
  assumes "10 ^ k \<le> x" and "x < 10 ^ Suc k" and "k < 300"
  shows "exponent10 x = int k"
proof -
  have split: "List.rev [- 324..309 :: int] = List.rev [int k + 1..309] @ int k # List.rev [- 324..int k - 1]"
    using assms(3) upto_split1 [of "- 324" "int k" 309] upto_rec1 [of "int k" 309] by simp
  have "\<not> 10 powi e \<le> x" if "e \<in> set [int k + 1..309]" for e
  proof -
    have "(10 :: rat) ^ Suc k = 10 powi int (Suc k)" by (simp only: power_int_of_nat)
    also have "\<dots> \<le> 10 powi e" using that by (intro power_int_increasing) simp_all
    finally show ?thesis using assms(2) by linarith
  qed
  then have "List.find (\<lambda>e. 10 powi e \<le> x) (List.rev [int k + 1..309]) = None" by (simp add: find_None_iff)
  moreover have "List.find P (xs @ ys) = (case List.find P xs of None \<Rightarrow> List.find P ys | Some a \<Rightarrow> Some a)" for P and xs ys :: "int list"
    by (induction xs) simp_all
  ultimately show ?thesis using assms(1) unfolding exponent10_def split by (simp only: List.find.simps) simp
qed


lemma round_even_of_nat: "round_even (of_nat n) = int n"
  by (simp add: round_even_def)

lemma strip_replicate: "strip_zeros (replicate k CHR ''0'') = []"
  by (simp add: strip_zeros_def)

lemma six_digits_whole:
  assumes "length (to_string_nat n) = Suc k" and "0 < n" and "n < 10 ^ 6"
  shows "six_digits (of_nat n) = (n * 10 ^ (5 - k), int k)"
proof -
  have up: "n < 10 ^ Suc k" using length_to_string_le [of "Suc k" n] assms(1) by simp
  have low: "10 ^ k \<le> n" using length_to_string_le [of k n] assms(1,2) by (cases "k = 0") auto
  have k: "k \<le> 5" using length_to_string_le [of 6 n] assms(1,3) by simp
  have "(10 :: rat) ^ k \<le> of_nat n" "(of_nat n :: rat) < 10 ^ Suc k"
    using low up by (metis of_nat_le_iff of_nat_numeral of_nat_power, metis of_nat_less_iff of_nat_numeral of_nat_power)
  then have e: "exponent10 (of_nat n) = int k" using k by (intro exponent10_unique) simp_all
  have "(10 :: rat) powi (5 - int k) = of_nat (10 ^ (5 - k))"
    using k by (metis of_nat_diff of_nat_numeral of_nat_power power_int_of_nat)
  then have "round_even (of_nat n * 10 powi (5 - int k)) = int (n * 10 ^ (5 - k))"
    by (metis of_nat_mult round_even_of_nat)
  then have m: "nat (round_even (of_nat n * 10 powi (5 - exponent10 (of_nat n)))) = n * 10 ^ (5 - k)"
    unfolding e by (simp only: nat_int)
  have "n * 10 ^ (5 - k) < 10 ^ Suc k * 10 ^ (5 - k)" using up by simp
  then have "n * 10 ^ (5 - k) \<noteq> 10 ^ 6" using k by (simp flip: power_add power_Suc)
  then show ?thesis unfolding six_digits_def Let_def m by (simp only: if_False e)
qed

text \<open>A whole number of less than seven digits is written as it is; from seven digits on only six are left.\<close>

lemma stream_double_whole:
  assumes "n < 10 ^ 6"
  shows "stream_double (of_nat n) = to_string_nat n"
proof (cases "n = 0")
  case True
  then show ?thesis by (simp add: stream_double_def) code_simp
next
  case False
  obtain k where k: "length (to_string_nat n) = Suc k"
    by (cases "to_string_nat n") simp_all
  then have le: "k \<le> 5" using length_to_string_le [of 6 n] assms by simp
  have "to_string_nat (n * 10 ^ (5 - k)) = to_string_nat n @ replicate (5 - k) CHR ''0''"
    using False by (intro to_string_shift) simp
  then have "positive_text (of_nat n) = to_string_nat n"
    using six_digits_whole [OF k _ assms] False k le
    by (simp add: positive_text_def with_point_def strip_replicate)
  then show ?thesis using False by (simp add: stream_double_def)
qed

lemma stream_double_loses: "stream_double 1234567 = ''1.23457e+06''"
proof -
  have e: "exponent10 1234567 = 6" using exponent10_unique [of 6 1234567] by simp
  have "round_even (1234567 / 10) = 123457" by code_simp
  then have "round_even (1234567 * 10 powi (- 1)) = 123457" by (simp add: power_int_minus)
  then have "six_digits 1234567 = (123457, 6)" by (simp add: six_digits_def e)
  moreover have "digit_char (Suc 0) = CHR ''1''" "digit_char 2 = CHR ''2''" "digit_char 3 = CHR ''3''" "digit_char 4 = CHR ''4''"
    "digit_char 5 = CHR ''5''" "digit_char 6 = CHR ''6''" "digit_char 7 = CHR ''7''" by code_simp+
  then have "to_string_nat 123457 = ''123457''" "pad_zeros 2 (to_string_nat 6) = ''06''"
    by (simp_all add: to_string_nat.simps pad_zeros_def)
  ultimately show ?thesis
    by (simp add: stream_double_def positive_text_def with_point_def strip_zeros_def exponent_text_def)
qed

section \<open>Printed configurations\<close>

text \<open>\<open>toString\<close> of \<open>RiskCfg\<close> and \<open>TradeEngineCfg\<close> (aot/common/types.h).\<close>

definition RiskCfg_toString :: "RiskCfg \<Rightarrow> string" where
  "RiskCfg_toString c =
     ''RiskCfg{'' @ ''max-order-size:'' @ qtyToString (max_order_size c) @ '' '' @ ''max-position:'' @ qtyToString (max_position c) @
     '' '' @ ''max-loss:'' @ stream_double (max_loss c) @ ''}''"

definition TradeEngineCfg_toString :: "TradeEngineCfg \<Rightarrow> string" where
  "TradeEngineCfg_toString c =
     ''TradeEngineCfg{'' @ ''clip:'' @ qtyToString (clip c) @ '' '' @ ''thresh:'' @ stream_double (threshold c) @ '' '' @
     ''risk:'' @ RiskCfg_toString (risk_cfg c) @ ''}''"

end
