(* ===== verification/Trading_App.thy ===== *)
theory Trading_App
  imports Event_Lifetime Arbitrage_Strategy Book_Sync Redpanda Config Sessions Order_Execution
begin

text \<open>
  The program that runs the trading components together, example/check_many_trading_pairs_config/main.cpp: it reads the tables of
  trading pairs, creates one component of each kind per exchange and market, registers callbacks, order books and arbitrage cycles,
  connects the components over one bus, and starts the generators with one request per pair.

  A component is named by the variable that holds it (\<open>part\<close>), with a number for its address.  An enumeration of a table of pairs
  is a list of its entries (the order of the hash map is free, hence an argument).  The memory that \<open>boost::pool\<close> has for the pools
  of a part is an argument.  The components that the program creates but never connects, those of
  aot/strategy/cross_arbitrage/cross_arbitrage_strategy.h, are at the end.
\<close>

section \<open>Parts and connections\<close>

datatype part =
    book_snapshot_spot_component_binance | book_snapshot_futures_component_binance
  | book_event_component_bybit | book_event_component_futures_bybit
  | book_event_component_spot_binance | book_event_component_futures_binance
  | bid_ask_generator_bybit | bid_ask_generator_futures_bybit
  | bid_ask_generator_spot_binance | bid_ask_generator_futures_binance
  | order_book_spot_component | order_book_futures_component
  | red_panda_component | arbitrage_strategy_component

definition parts :: "part list" where
  "parts =
     [book_snapshot_spot_component_binance, book_snapshot_futures_component_binance, book_event_component_bybit,
      book_event_component_futures_bybit, book_event_component_spot_binance, book_event_component_futures_binance,
      bid_ask_generator_bybit, bid_ask_generator_futures_bybit, bid_ask_generator_spot_binance, bid_ask_generator_futures_binance,
      order_book_spot_component, order_book_futures_component, red_panda_component, arbitrage_strategy_component]"

fun part_id :: "part \<Rightarrow> component" where
  "part_id book_snapshot_spot_component_binance = 0"
| "part_id book_snapshot_futures_component_binance = 1"
| "part_id book_event_component_bybit = 2"
| "part_id book_event_component_futures_bybit = 3"
| "part_id book_event_component_spot_binance = 4"
| "part_id book_event_component_futures_binance = 5"
| "part_id bid_ask_generator_bybit = 6"
| "part_id bid_ask_generator_futures_bybit = 7"
| "part_id bid_ask_generator_spot_binance = 8"
| "part_id bid_ask_generator_futures_binance = 9"
| "part_id order_book_spot_component = 10"
| "part_id order_book_futures_component = 11"
| "part_id red_panda_component = 12"
| "part_id arbitrage_strategy_component = 13"

fun part_class :: "part \<Rightarrow> component_class" where
  "part_class book_snapshot_spot_component_binance = BookSnapshotComponent"
| "part_class book_snapshot_futures_component_binance = BookSnapshotComponent"
| "part_class book_event_component_bybit = BookEventGetterComponent"
| "part_class book_event_component_futures_bybit = BookEventGetterComponent"
| "part_class book_event_component_spot_binance = BookEventGetterComponent"
| "part_class book_event_component_futures_binance = BookEventGetterComponent"
| "part_class bid_ask_generator_bybit = BidAskGeneratorComponent"
| "part_class bid_ask_generator_futures_bybit = BidAskGeneratorComponent"
| "part_class bid_ask_generator_spot_binance = BidAskGeneratorComponent"
| "part_class bid_ask_generator_futures_binance = BidAskGeneratorComponent"
| "part_class order_book_spot_component = OrderBookComponent"
| "part_class order_book_futures_component = OrderBookComponent"
| "part_class red_panda_component = RedPandaComponent"
| "part_class arbitrage_strategy_component = ArbitrageStrategyComponent"

definition app_kind :: "component \<Rightarrow> component_class" where
  "app_kind c = (case List.find (\<lambda>p. part_id p = c) parts of None \<Rightarrow> OtherComponent | Some p \<Rightarrow> part_class p)"

text \<open>The calls of \<open>bus.Subscribe\<close>, publisher first, in their order.\<close>

definition connections :: "(part \<times> part) list" where
  "connections =
     [(bid_ask_generator_bybit, book_event_component_bybit),
      (book_event_component_bybit, bid_ask_generator_bybit),
      (bid_ask_generator_futures_bybit, book_event_component_futures_bybit),
      (book_event_component_futures_bybit, bid_ask_generator_futures_bybit),
      (bid_ask_generator_spot_binance, book_snapshot_spot_component_binance),
      (book_snapshot_spot_component_binance, bid_ask_generator_spot_binance),
      (bid_ask_generator_spot_binance, book_event_component_spot_binance),
      (book_event_component_spot_binance, bid_ask_generator_spot_binance),
      (bid_ask_generator_futures_binance, book_snapshot_futures_component_binance),
      (book_snapshot_futures_component_binance, bid_ask_generator_futures_binance),
      (bid_ask_generator_futures_binance, book_event_component_futures_binance),
      (book_event_component_futures_binance, bid_ask_generator_futures_binance),
      (bid_ask_generator_bybit, order_book_spot_component),
      (bid_ask_generator_futures_bybit, order_book_futures_component),
      (bid_ask_generator_spot_binance, order_book_spot_component),
      (bid_ask_generator_futures_binance, order_book_futures_component),
      (order_book_spot_component, red_panda_component),
      (order_book_futures_component, red_panda_component),
      (order_book_spot_component, arbitrage_strategy_component),
      (order_book_futures_component, arbitrage_strategy_component),
      (arbitrage_strategy_component, red_panda_component)]"

definition connect :: "(part \<times> part) list \<Rightarrow> CoBus \<Rightarrow> CoBus" where
  "connect = fold (\<lambda>(p, s). Subscribe (part_id p) (Some (part_id s)))"

definition app_bus :: CoBus where
  "app_bus = connect connections \<lparr>cb_subscribers = []\<rparr>"

section \<open>Tables, callbacks and books\<close>

type_synonym pair_entries = "(TradingPair \<times> TradingPairInfo) list"

definition FindCrossExchangePairs :: "pair_entries \<Rightarrow> TradingPairHashMap \<Rightarrow> TradingPair list" where
  "FindCrossExchangePairs exchange1 exchange2 = List.map fst (filter (\<lambda>e. exchange2 (fst e) \<noteq> None) exchange1)"

definition fill_exchange_trading_pairs :: "pair_entries \<Rightarrow> pair_entries \<Rightarrow> ExchangeTradingPairs" where
  "fill_exchange_trading_pairs binance bybit =
     fold (\<lambda>(tp, info). AddOrUpdatePair kBybit tp info) bybit
       (fold (\<lambda>(tp, info). AddOrUpdatePair kBinance tp info) binance [])"

definition register_snapshot_callbacks :: "'c \<Rightarrow> pair_entries \<Rightarrow> 'c callbacks \<Rightarrow> 'c callbacks" where
  "register_snapshot_callbacks cb = fold (\<lambda>(tp, _). snapshot_RegisterCallback tp cb)"

definition register_getter_callbacks :: "'c \<Rightarrow> pair_entries \<Rightarrow> 'c BookEventGetter3 \<Rightarrow> 'c BookEventGetter3" where
  "register_getter_callbacks cb = fold (\<lambda>(tp, _). getter_RegisterCallback tp cb)"

text \<open>The memory for the two pools of the book of a pair.\<close>

type_synonym book_memory_of = "ExchangeId \<Rightarrow> TradingPair \<Rightarrow> bool \<Rightarrow> nat \<Rightarrow> addr option"

definition add_order_books ::
    "'t avl_ops \<Rightarrow> book_memory_of \<Rightarrow> ExchangeId \<Rightarrow> pair_entries \<Rightarrow> 't OrderBookComponent \<Rightarrow> 't OrderBookComponent" where
  "add_order_books av mem ex = fold (\<lambda>(tp, _). AddOrderBook av (mem ex tp True) (mem ex tp False) ex tp)"

definition app_books ::
    "'t avl_ops \<Rightarrow> book_memory_of \<Rightarrow> (nat \<Rightarrow> addr option) \<Rightarrow> (nat \<Rightarrow> addr option) \<Rightarrow> MarketType \<Rightarrow>
     pair_entries \<Rightarrow> pair_entries \<Rightarrow> 't OrderBookComponent" where
  "app_books av mem ch1 ch2 mt binance bybit =
     add_order_books av mem kBinance binance (add_order_books av mem kBybit bybit (OrderBookComponent_new ch1 ch2 1000 mt))"

section \<open>Arbitrage cycles\<close>

definition mk_step :: "TradingPair \<Rightarrow> ExchangeId \<Rightarrow> MarketType \<Rightarrow> Operation \<Rightarrow> Step" where
  "mk_step tp ex mt op = \<lparr>st_trading_pair = tp, st_exchange_id = ex, st_market_type = mt, st_operation = op\<rparr>"

definition pair_cycles :: "TradingPair \<Rightarrow> ArbitrageCycle list" where
  "pair_cycles cross_pair =
     (let buy_on_binance = mk_step cross_pair kBinance kSpot kBuy;
          sell_on_bybit_futures = mk_step cross_pair kBybit kFutures kSell;
          sell_on_bybit_spot = mk_step cross_pair kBybit kSpot kSell;
          sell_on_binance_futures = mk_step cross_pair kBinance kFutures kSell;
          sell_on_binance_spot = mk_step cross_pair kBinance kSpot kSell;
          buy_on_bybit = mk_step cross_pair kBybit kSpot kBuy
      in [[buy_on_binance, sell_on_bybit_futures], [buy_on_binance, sell_on_bybit_spot],
          [sell_on_binance_futures, buy_on_bybit], [sell_on_binance_spot, buy_on_bybit]])"

definition add_cycles :: "arb_env \<Rightarrow> TradingPair list \<Rightarrow> ArbitrageStrategyComponent \<Rightarrow> ArbitrageStrategyComponent" where
  "add_cycles env cross_pairs c =
     fold (\<lambda>cross_pair c. fold (AddArbitrageCycle env) (pair_cycles cross_pair) c) cross_pairs c"

section \<open>The first requests\<close>

text \<open>The loops over the two tables.  Each request goes to the generators of both markets.\<close>

fun bbo_requests :: "ExchangeId \<Rightarrow> u32 \<Rightarrow> u64 \<Rightarrow> pair_entries \<Rightarrow> BusEventRequestBBOPrice list" where
  "bbo_requests ex depth id_request [] = []"
| "bbo_requests ex depth id_request ((tp, _) # entries) =
     \<lparr>rb_exchange_id = ex, rb_trading_pair = tp, rb_snapshot_depth = depth, rb_subscribe = True, rb_id = IdNat id_request\<rparr> #
     bbo_requests ex depth (id_request + 1) entries"

definition bybit_requests :: "pair_entries \<Rightarrow> BusEventRequestBBOPrice list" where
  "bybit_requests bybit = bbo_requests kBybit 50 0 bybit"

definition binance_requests :: "pair_entries \<Rightarrow> pair_entries \<Rightarrow> BusEventRequestBBOPrice list" where
  "binance_requests bybit binance = bbo_requests kBinance 100 (of_nat (length bybit)) binance"

text \<open>The constructors of the callback handlers register both callbacks of their generator.\<close>

definition register_generator_callbacks :: "BidAskGenerator \<Rightarrow> BidAskGenerator" where
  "register_generator_callbacks g = RegisterDiffCallback True (RegisterSnapshotCallback True g)"

text \<open>The generators with these callbacks, after their strands have run the requests.\<close>

definition start_bybit_generator :: "(nat \<Rightarrow> nat \<Rightarrow> addr option) \<Rightarrow> pair_entries \<Rightarrow> BidAskGenerator" where
  "start_bybit_generator mem bybit =
     fold bybit_HandleTrackingNewTradingPair (bybit_requests bybit)
       (register_generator_callbacks (BidAskGenerator_new (mem 0) (mem 1) (mem 2) (mem 3) 100 1000 False False))"

definition start_binance_generator :: "(nat \<Rightarrow> nat \<Rightarrow> addr option) \<Rightarrow> pair_entries \<Rightarrow> pair_entries \<Rightarrow> BidAskGenerator" where
  "start_binance_generator mem bybit binance =
     fold binance_HandleTrackingNewTradingPair (binance_requests bybit binance)
       (register_generator_callbacks (BidAskGenerator_new (mem 0) (mem 1) (mem 2) (mem 3) 100 1000 False False))"

section \<open>Who reads what\<close>

text \<open>The data flow that the connections are meant to set up: the classes of events that a part publishes, with the parts that
  read them.  (A request for a snapshot is read through a plain pointer, see Event_Lifetime.)\<close>

fun route :: "part \<Rightarrow> event_class \<Rightarrow> part list" where
  "route book_snapshot_spot_component_binance BusEventResponseNewSnapshot = [bid_ask_generator_spot_binance]"
| "route book_snapshot_futures_component_binance BusEventResponseNewSnapshot = [bid_ask_generator_futures_binance]"
| "route book_event_component_bybit BusEventResponseNewSnapshot = [bid_ask_generator_bybit]"
| "route book_event_component_bybit BusEventBookDiffSnapshot = [bid_ask_generator_bybit]"
| "route book_event_component_futures_bybit BusEventResponseNewSnapshot = [bid_ask_generator_futures_bybit]"
| "route book_event_component_futures_bybit BusEventBookDiffSnapshot = [bid_ask_generator_futures_bybit]"
| "route book_event_component_spot_binance BusEventBookDiffSnapshot = [bid_ask_generator_spot_binance]"
| "route book_event_component_futures_binance BusEventBookDiffSnapshot = [bid_ask_generator_futures_binance]"
| "route bid_ask_generator_bybit BusEventRequestDiffOrderBook = [book_event_component_bybit]"
| "route bid_ask_generator_futures_bybit BusEventRequestDiffOrderBook = [book_event_component_futures_bybit]"
| "route bid_ask_generator_spot_binance BusEventRequestDiffOrderBook = [book_event_component_spot_binance]"
| "route bid_ask_generator_futures_binance BusEventRequestDiffOrderBook = [book_event_component_futures_binance]"
| "route bid_ask_generator_bybit BusEventResponseNewSnapshot = [order_book_spot_component]"
| "route bid_ask_generator_bybit BusEventBookDiffSnapshot = [order_book_spot_component]"
| "route bid_ask_generator_bybit BusEventMEMarketUpdate2 = [order_book_spot_component]"
| "route bid_ask_generator_futures_bybit BusEventResponseNewSnapshot = [order_book_futures_component]"
| "route bid_ask_generator_futures_bybit BusEventBookDiffSnapshot = [order_book_futures_component]"
| "route bid_ask_generator_futures_bybit BusEventMEMarketUpdate2 = [order_book_futures_component]"
| "route bid_ask_generator_spot_binance BusEventResponseNewSnapshot = [order_book_spot_component]"
| "route bid_ask_generator_spot_binance BusEventBookDiffSnapshot = [order_book_spot_component]"
| "route bid_ask_generator_futures_binance BusEventResponseNewSnapshot = [order_book_futures_component]"
| "route bid_ask_generator_futures_binance BusEventBookDiffSnapshot = [order_book_futures_component]"
| "route order_book_spot_component BusEventNewBBO = [red_panda_component, arbitrage_strategy_component]"
| "route order_book_futures_component BusEventNewBBO = [red_panda_component, arbitrage_strategy_component]"
| "route arbitrage_strategy_component BusEventArbitrageReport = [red_panda_component]"
| "route _ _ = []"

lemma part_id_inj [simp]: "part_id p = part_id q \<longleftrightarrow> p = q"
  by (cases p; cases q; simp)


lemma app_kind_part [simp]: "app_kind (part_id p) = part_class p"
  by (cases p) (simp_all add: app_kind_def parts_def)

lemma connect_subscribers:
  "subscriber_list (connect cs b) (part_id p) =
     subscriber_list b (part_id p) @ List.map (part_id \<circ> snd) (filter (\<lambda>c. fst c = p) cs)"
proof (induction cs arbitrary: b)
  case (Cons c cs)
  obtain q s where "c = (q, s)" by fastforce
  with Cons show ?case
    by (auto simp: connect_def Subscribe_def subscriber_list_def push_subscriber_lookup split: option.splits)
qed (simp add: connect_def)

lemma app_routes:
  assumes "route p cls \<noteq> []"
  shows "filter (\<lambda>c. AsyncHandleEvent (app_kind c) cls \<noteq> Ignored) (subscriber_list app_bus (part_id p)) = List.map part_id (route p cls)"
proof -
  have "filter (\<lambda>s. AsyncHandleEvent (part_class s) cls \<noteq> Ignored) (List.map snd (filter (\<lambda>c. fst c = p) connections)) = route p cls"
    using assms by (cases p; cases cls; simp add: connections_def)
  moreover have "subscriber_list app_bus (part_id p) = List.map part_id (List.map snd (filter (\<lambda>c. fst c = p) connections))"
    unfolding app_bus_def connect_subscribers by (simp add: subscriber_list_def)
  moreover have "filter (\<lambda>c. AsyncHandleEvent (app_kind c) cls \<noteq> Ignored) (List.map part_id xs) =
      List.map part_id (filter (\<lambda>s. AsyncHandleEvent (part_class s) cls \<noteq> Ignored) xs)" for xs
    by (induction xs) simp_all
  ultimately show ?thesis by (simp del: map_map)
qed

text \<open>The steps of the program for one class of events: a part publishes a message, or one of the tasks runs.\<close>

fun app_op :: "(part \<times> 'm) + nat \<Rightarrow> 'm event_op" where
  "app_op (Inl (p, m)) = OpPublish (part_id p) m"
| "app_op (Inr i) = OpRun i"

fun sent_to :: "event_class \<Rightarrow> part \<Rightarrow> (part \<times> 'm) + nat \<Rightarrow> 'm option list" where
  "sent_to cls c (Inl (p, m)) = (if c \<in> set (route p cls) then [Some m] else [])"
| "sent_to cls c (Inr i) = []"

definition read_by :: "part \<Rightarrow> (component \<times> 'm option) list \<Rightarrow> 'm option multiset" where
  "read_by c es = mset (List.map snd (filter (\<lambda>e. fst e = part_id c) es))"

lemma route_distinct: "distinct (route p cls)"
  by (cases p; cases cls; simp)

lemma deliveries_route:
  assumes "\<forall>p m. op = Inl (p, m) \<longrightarrow> route p cls \<noteq> []"
  shows "read_by c (deliveries cls app_kind app_bus (app_op op)) = mset (sent_to cls c op)"
proof (cases op)
  case (Inl pm)
  obtain p m where "pm = (p, m)" by fastforce
  moreover have "distinct r \<Longrightarrow> filter (\<lambda>q. q = c) r = (if c \<in> set r then [c] else [])" for r
    by (induction r) auto
  ultimately show ?thesis
    using Inl assms route_distinct [of p cls] by (simp add: read_by_def app_routes filter_map comp_def)
qed (simp add: read_by_def)

lemma read_by_append: "read_by c (xs @ ys) = read_by c xs + read_by c ys"
  by (simp add: read_by_def)

lemma read_by_mset: "mset xs = mset ys \<Longrightarrow> read_by c xs = read_by c ys"
  unfolding read_by_def by (metis mset_filter mset_map)

text \<open>C15: the program as connected.  For every class of events that tasks hold by an \<open>intrusive_ptr\<close>, in any interleaving of
  publications by the parts that publish the class and of tasks, each part reads (or is about to read) exactly the messages that the
  data flow sends to it, each once: the diffs and snapshots of an exchange and market go to the generator of that exchange and
  market only, what it emits goes to the book of that market only, the quotes of both books go to the strategy and to the
  publisher, and the reports of the strategy to the publisher.\<close>

theorem app_delivers:
  assumes "takes_intrusive cls" and "chunks_distinct ch1" and "\<forall>i. ch1 i \<noteq> None" and "n1 \<noteq> 0"
    and "chunks_distinct ch2" and "\<forall>i. ch2 i \<noteq> None" and "n2 \<noteq> 0"
    and "\<forall>p m. Inl (p, m) \<in> set ops \<longrightarrow> route p cls \<noteq> []"
  shows "\<exists>s. fold_result (event_step cls app_kind app_bus) (List.map app_op ops) (event_system_new ch1 n1 ch2 n2) = Inr s \<and>
     (\<forall>c. read_by c (es_seen s @ waiting s) = mset (concat (List.map (sent_to cls c) ops)))"
proof -
  let ?s = "event_system_new ch1 n1 ch2 n2 :: 'a event_system"
  have "lifetime_inv (\<lambda>_. 0) (\<lambda>_. 0) ?s" by (intro lifetime_init assms(2-7))
  moreover have "tasks_counted ?s" "es_seen ?s = []" "waiting ?s = []"
    by (simp_all add: tasks_counted_def waiting_def event_system_new_def)
  ultimately obtain s where s: "fold_result (event_step cls app_kind app_bus) (List.map app_op ops) ?s = Inr s"
    "mset (es_seen s) + mset (waiting s) = mset (concat (List.map (deliveries cls app_kind app_bus) (List.map app_op ops)))"
    using event_run_inv [OF _ _ assms(1), of ?s app_kind app_bus "List.map app_op ops"] by auto
  have "read_by c (concat (List.map (deliveries cls app_kind app_bus \<circ> app_op) ops)) = mset (concat (List.map (sent_to cls c) ops))" for c
    using assms(8)
  proof (induction ops)
    case (Cons op ops)
    have "\<forall>p m. op = Inl (p, m) \<longrightarrow> route p cls \<noteq> []" "\<forall>p m. Inl (p, m) \<in> set ops \<longrightarrow> route p cls \<noteq> []"
      using Cons.prems by auto
    from deliveries_route [OF this(1)] Cons.IH [OF this(2)] show ?case by (simp add: read_by_append)
  qed (simp add: read_by_def)
  with s(2) have "read_by c (es_seen s @ waiting s) = mset (concat (List.map (sent_to cls c) ops))" for c
    using read_by_mset [of "es_seen s @ waiting s" "concat (List.map (deliveries cls app_kind app_bus) (List.map app_op ops))"] by simp
  with s(1) show ?thesis by blast
qed

theorem app_delivers_witness:
  "\<exists>s. fold_result (event_step BusEventNewBBO app_kind app_bus)
         [OpPublish 10 ''spot'', OpRun 1, OpPublish 11 ''futures'', OpRun 0] (event_system_new Some 4 Some 4) = Inr s \<and>
     read_by arbitrage_strategy_component (es_seen s @ waiting s) = {#Some ''spot'', Some ''futures''#} \<and>
     read_by bid_ask_generator_bybit (es_seen s @ waiting s) = {#}"
proof -
  let ?ops = "[Inl (order_book_spot_component, ''spot''), Inr 1, Inl (order_book_futures_component, ''futures''), Inr 0]"
  from app_delivers [of BusEventNewBBO Some 4 Some 4 ?ops] show ?thesis by (auto simp: chunks_distinct_def)
qed

section \<open>Which cycles a quote evaluates\<close>

lemma add_cycles_fold: "add_cycles env tps c = fold (AddArbitrageCycle env) (concat (List.map pair_cycles tps)) c"
  unfolding add_cycles_def by (induction tps arbitrary: c) simp_all

lemma add_cycles_range:
  fixes ch1 ch2 n
  defines "d \<equiv> \<lambda>env tps. asc_trade_dictionary (add_cycles env tps (ArbitrageStrategyComponent_new ch1 ch2 n))"
  shows "distinct (equal_range key (d env tps))"
    and "cyc \<in> set (equal_range key (d env tps)) \<longleftrightarrow>
      (\<exists>tp \<in> set tps. cyc \<in> set (pair_cycles tp) \<and> (\<exists>s \<in> set cyc. step_key env s = key))"
  using cycles_indexed [of env "concat (List.map pair_cycles tps)" ch1 ch2 n key]
  unfolding d_def add_cycles_fold Let_def by auto

text \<open>The steps of the cycles of a pair: both exchanges, both markets, one pair.\<close>

lemma pair_cycles_steps:
  "cyc \<in> set (pair_cycles tp) \<Longrightarrow> s \<in> set cyc \<Longrightarrow>
   st_trading_pair s = tp \<and> st_exchange_id s \<in> {kBinance, kBybit} \<and> st_market_type s \<in> {kSpot, kFutures}"
  by (auto simp: pair_cycles_def Let_def mk_step_def)

lemma pair_cycles_distinct: "distinct (pair_cycles tp)"
  by (simp add: pair_cycles_def Let_def mk_step_def)

definition no_collisions :: "arb_env \<Rightarrow> TradingPair set \<Rightarrow> bool" where
  "no_collisions env tps \<longleftrightarrow>
     inj_on (\<lambda>(ex, mt, tp). HashCombined (ae_hc env) (ae_sh env) ex mt tp) ({kBinance, kBybit} \<times> {kSpot, kFutures} \<times> tps)"

definition touches :: "ExchangeId \<Rightarrow> MarketType \<Rightarrow> ArbitrageCycle \<Rightarrow> bool" where
  "touches ex mt cyc \<longleftrightarrow> list_ex (\<lambda>s. st_exchange_id s = ex \<and> st_market_type s = mt) cyc"

lemma cycles_of_key:
  assumes "no_collisions env (set tps)" and "tp \<in> set tps" and "ex \<in> {kBinance, kBybit}" and "mt \<in> {kSpot, kFutures}"
  shows "mset (equal_range (HashCombined (ae_hc env) (ae_sh env) ex mt tp)
             (asc_trade_dictionary (add_cycles env tps (ArbitrageStrategyComponent_new ch1 ch2 n)))) =
         mset (filter (touches ex mt) (pair_cycles tp))"
proof -
  let ?key = "HashCombined (ae_hc env) (ae_sh env) ex mt tp"
  let ?d = "asc_trade_dictionary (add_cycles env tps (ArbitrageStrategyComponent_new ch1 ch2 n))"
  have "distinct (equal_range ?key ?d)" by (rule add_cycles_range(1))
  moreover have key: "step_key env s = ?key \<longleftrightarrow> st_exchange_id s = ex \<and> st_market_type s = mt \<and> tp' = tp"
    if "cyc \<in> set (pair_cycles tp')" "s \<in> set cyc" "tp' \<in> set tps" for cyc s tp'
  proof -
    note s = pair_cycles_steps [OF that(1,2)]
    have "step_key env s = ?key \<longleftrightarrow> (st_exchange_id s, st_market_type s, tp') = (ex, mt, tp)"
      using inj_on_eq_iff [OF assms(1) [unfolded no_collisions_def], of "(st_exchange_id s, st_market_type s, tp')" "(ex, mt, tp)"]
        s that(3) assms(2-4) by (simp add: step_key_def)
    then show ?thesis by simp
  qed
  have "cyc \<in> set (equal_range ?key ?d) \<longleftrightarrow> cyc \<in> set (pair_cycles tp) \<and> touches ex mt cyc" for cyc
    unfolding add_cycles_range(2) touches_def list_ex_iff using key assms(2) by metis
  then have "set (equal_range ?key ?d) = set (filter (touches ex mt) (pair_cycles tp))" by auto
  ultimately show ?thesis
    using set_eq_iff_mset_eq_distinct [of "equal_range ?key ?d" "filter (touches ex mt) (pair_cycles tp)"]
    by (simp only: distinct_filter pair_cycles_distinct)
qed

text \<open>A cycle is hedged when it buys a pair on the spot market of one exchange and sells it on the other exchange.\<close>

definition hedged :: "TradingPair \<Rightarrow> ArbitrageCycle \<Rightarrow> bool" where
  "hedged tp cyc \<longleftrightarrow>
     (\<exists>ex1 ex2 mt. ex1 \<noteq> ex2 \<and>
        (cyc = [mk_step tp ex1 kSpot kBuy, mk_step tp ex2 mt kSell] \<or> cyc = [mk_step tp ex2 mt kSell, mk_step tp ex1 kSpot kBuy]))"

lemma pair_cycles_hedged: "cyc \<in> set (pair_cycles tp) \<Longrightarrow> hedged tp cyc"
  unfolding hedged_def pair_cycles_def Let_def by fastforce

lemma cross_pairs: "tp \<in> set (FindCrossExchangePairs binance bybit) \<longleftrightarrow> tp \<in> fst ` set binance \<and> bybit tp \<noteq> None"
  by (auto simp: FindCrossExchangePairs_def)


definition demo_entries :: pair_entries where
  "demo_entries = [(demo_pair, demo_info)]"


section \<open>The first subscriptions\<close>

definition diff_request :: "(BusEventRequestBBOPrice \<Rightarrow> FrequencyMS) \<Rightarrow> BusEventRequestBBOPrice \<Rightarrow> RequestDiffOrderBook" where
  "diff_request freq r = \<lparr>rd_exchange_id = rb_exchange_id r, rd_trading_pair = rb_trading_pair r, rd_frequency = freq r,
     rd_subscribe = True, rd_id = rb_id r\<rparr>"

definition diff_pools_ok :: "BidAskGenerator \<Rightarrow> bool" where
  "diff_pools_ok g \<longleftrightarrow> memory_suffices (bag_request_diff_pool g) \<and> memory_suffices (bag_bus_diff_pool g)"

lemma RequestSubscribe_sends:
  assumes "diff_pools_ok g" and "bag_request_bbo g tp = Some r"
  shows "bag_request_bbo (RequestSubscribeToDiff freq True tp g) = bag_request_bbo g"
    and "bag_sent_diff (RequestSubscribeToDiff freq True tp g) = bag_sent_diff g @ [Some (Some (diff_request freq r))]"
    and "diff_pools_ok (RequestSubscribeToDiff freq True tp g)"
proof -
  from assms(1) obtain a p b q where "Allocate (bag_request_diff_pool g) = (Some a, p)" "memory_suffices p"
    "Allocate (bag_bus_diff_pool g) = (Some b, q)" "memory_suffices q"
    unfolding diff_pools_ok_def by (metis memory_suffices_Allocate)
  with assms(2) show "bag_request_bbo (RequestSubscribeToDiff freq True tp g) = bag_request_bbo g"
    "bag_sent_diff (RequestSubscribeToDiff freq True tp g) = bag_sent_diff g @ [Some (Some (diff_request freq r))]"
    "diff_pools_ok (RequestSubscribeToDiff freq True tp g)"
    by (simp_all add: RequestSubscribeToDiff_def send_pooled_def diff_request_def diff_pools_ok_def)
qed

text \<open>Both kinds of generators treat the request for a new pair alike.\<close>

definition tracks_new :: "(BusEventRequestBBOPrice \<Rightarrow> FrequencyMS) \<Rightarrow> (BusEventRequestBBOPrice \<Rightarrow> BidAskGenerator \<Rightarrow> BidAskGenerator) \<Rightarrow> bool" where
  "tracks_new freq h \<longleftrightarrow>
     (\<forall>r g. rb_subscribe r \<longrightarrow> bag_request_bbo g (rb_trading_pair r) = None \<longrightarrow>
        h r g = RequestSubscribeToDiff freq True (rb_trading_pair r)
                  (g\<lparr>bag_request_bbo := (bag_request_bbo g)(rb_trading_pair r \<mapsto> r)\<rparr>))"

lemma tracks_new_binance: "tracks_new binance_frequency binance_HandleTrackingNewTradingPair"
  by (simp add: tracks_new_def binance_HandleTrackingNewTradingPair_def Let_def)

lemma tracks_new_bybit: "tracks_new bybit_frequency bybit_HandleTrackingNewTradingPair"
  by (simp add: tracks_new_def bybit_HandleTrackingNewTradingPair_def bybit_RequestSubscribeToDiff_def Let_def)

lemma track_all:
  assumes "tracks_new freq h" and "diff_pools_ok g" and "distinct (List.map rb_trading_pair rs)"
    and "\<forall>r \<in> set rs. rb_subscribe r \<and> bag_request_bbo g (rb_trading_pair r) = None"
  shows "bag_sent_diff (fold h rs g) = bag_sent_diff g @ List.map (\<lambda>r. Some (Some (diff_request freq r))) rs \<and>
     dom (bag_request_bbo (fold h rs g)) = dom (bag_request_bbo g) \<union> rb_trading_pair ` set rs"
  using assms(2-4)
proof (induction rs arbitrary: g)
  case (Cons r rs)
  let ?g = "g\<lparr>bag_request_bbo := (bag_request_bbo g)(rb_trading_pair r \<mapsto> r)\<rparr>"
  have h: "h r g = RequestSubscribeToDiff freq True (rb_trading_pair r) ?g" using assms(1) Cons.prems(3) by (simp add: tracks_new_def)
  have "diff_pools_ok ?g" "bag_request_bbo ?g (rb_trading_pair r) = Some r" using Cons.prems(1) by (simp_all add: diff_pools_ok_def)
  note sends = RequestSubscribe_sends [OF this, of freq, folded h]
  have "\<forall>q \<in> set rs. rb_trading_pair q \<noteq> rb_trading_pair r" using Cons.prems(2) by (auto simp: image_iff)
  then have "\<forall>q \<in> set rs. rb_subscribe q \<and> bag_request_bbo (h r g) (rb_trading_pair q) = None"
    using Cons.prems(3) sends(1) by simp
  with Cons.IH [of "h r g"] Cons.prems(2) sends show ?case by auto
qed simp

lemma bbo_requests_pairs: "List.map rb_trading_pair (bbo_requests ex depth k entries) = List.map fst entries"
  and bbo_requests_subscribe: "r \<in> set (bbo_requests ex depth k entries) \<Longrightarrow> rb_subscribe r"
  and bbo_requests_ids: "List.map rb_id (bbo_requests ex depth k entries) = List.map (\<lambda>i. IdNat (k + of_nat i)) [0..<length entries]"
  by (induction ex depth k entries rule: bbo_requests.induct)
    (auto simp: upt_conv_Cons map_Suc_upt [symmetric] add.assoc comp_def simp del: upt_Suc)

lemma start_ids_distinct:
  assumes "length bybit + length binance < 2 ^ 64"
  shows "distinct (List.map rb_id (bybit_requests bybit @ binance_requests bybit binance))"
proof -
  let ?n = "length bybit" and ?m = "length binance"
  have "[0..<?n + ?m] = [0..<?n] @ List.map (\<lambda>i. i + ?n) [0..<?m]"
    unfolding map_add_upt upt_add_eq_append [OF le0] by (simp add: add.commute)
  then have "List.map rb_id (bybit_requests bybit @ binance_requests bybit binance) = List.map (\<lambda>i. IdNat (of_nat i)) [0..<?n + ?m]"
    by (simp add: bybit_requests_def binance_requests_def bbo_requests_ids add.commute)
  moreover have "inj_on (\<lambda>i. IdNat (of_nat i)) (set [0..<?n + ?m])"
  proof (rule inj_onI)
    fix i j assume ij: "i \<in> set [0..<?n + ?m]" "j \<in> set [0..<?n + ?m]" and eq: "IdNat (of_nat i) = IdNat (of_nat j)"
    from eq have "unat (of_nat i :: u64) = unat (of_nat j :: u64)" by simp
    with ij assms show "i = j" by (simp add: unat_of_nat)
  qed
  ultimately show ?thesis by (simp add: distinct_map)
qed

text \<open>C17: the start of the generators.  Each tracks exactly the pairs of its exchange and asks its getter for one subscription per
  pair, in the order of the table; no two requests of the program share an id.  For every pair that is asked for the getter has the
  callback that the program registers.\<close>

theorem app_subscribes_once:
  assumes "distinct (List.map fst bybit)" and "distinct (List.map fst binance)" and "length bybit + length binance < 2 ^ 64"
    and "\<forall>k i. mem1 k i \<noteq> None" and "\<forall>k i. mem2 k i \<noteq> None"
  shows "bag_sent_diff (start_bybit_generator mem1 bybit) =
       List.map (\<lambda>r. Some (Some (diff_request bybit_frequency r))) (bybit_requests bybit) \<and>
     bag_sent_diff (start_binance_generator mem2 bybit binance) =
       List.map (\<lambda>r. Some (Some (diff_request binance_frequency r))) (binance_requests bybit binance) \<and>
     dom (bag_request_bbo (start_bybit_generator mem1 bybit)) = fst ` set bybit \<and>
     dom (bag_request_bbo (start_binance_generator mem2 bybit binance)) = fst ` set binance \<and>
     distinct (List.map rb_id (bybit_requests bybit @ binance_requests bybit binance)) \<and>
     (\<forall>tp \<in> fst ` set bybit. bg_callback_map (register_getter_callbacks cb bybit getter) tp = Some cb)"
proof -
  have new: "diff_pools_ok (BidAskGenerator_new (mem 0) (mem 1) (mem 2) (mem 3) 100 1000 True True)" if "\<forall>k i. mem k i \<noteq> None" for mem
    using that by (simp add: diff_pools_ok_def BidAskGenerator_new_def memory_suffices_def MemoryPool_new_def)
  have pairs: "rb_trading_pair ` set (bbo_requests ex depth k es) = fst ` set es" for ex depth k es
    using arg_cong [OF bbo_requests_pairs [of ex depth k es], of set] by simp
  have registered: "register_generator_callbacks (BidAskGenerator_new (mem 0) (mem 1) (mem 2) (mem 3) 100 1000 False False) =
      BidAskGenerator_new (mem 0) (mem 1) (mem 2) (mem 3) 100 1000 True True" for mem
    by (simp add: register_generator_callbacks_def RegisterDiffCallback_def RegisterSnapshotCallback_def BidAskGenerator_new_def)
  note facts = bbo_requests_pairs bbo_requests_subscribe pairs bybit_requests_def binance_requests_def BidAskGenerator_new_def
  have "bg_callback_map (register_getter_callbacks cb es g) tp = (if tp \<in> fst ` set es then Some cb else bg_callback_map g tp)" for es g tp
    unfolding register_getter_callbacks_def
    by (induction es arbitrary: g) (auto simp: getter_RegisterCallback_def)
  moreover note track_all [OF tracks_new_bybit new [OF assms(4)], of "bybit_requests bybit"]
    track_all [OF tracks_new_binance new [OF assms(5)], of "binance_requests bybit binance"]
  ultimately show ?thesis using assms(1,2) start_ids_distinct [OF assms(3)]
    unfolding start_bybit_generator_def start_binance_generator_def registered by (simp add: facts)
qed

theorem app_subscribes_once_witness:
  "bag_sent_diff (start_bybit_generator (\<lambda>k. Some) demo_entries) =
     [Some (Some \<lparr>rd_exchange_id = kBybit, rd_trading_pair = demo_pair, rd_frequency = 50, rd_subscribe = True, rd_id = IdNat 0\<rparr>)]"
  using app_subscribes_once [of demo_entries demo_entries "\<lambda>k. Some" "\<lambda>k. Some", THEN conjunct1]
  by (simp add: demo_entries_def bybit_requests_def diff_request_def bybit_frequency_def)

section \<open>The books\<close>

lemma find_book_AddOrderBook:
  "find_book ex2 tp2 (AddOrderBook av chb cha ex tp c) =
     (if (ex2, tp2) = (ex, tp) \<and> find_book ex tp c = None then Some (SubscribeToBBO (Some 0) (MarketOrderBook2_new av chb cha ex tp))
      else find_book ex2 tp2 c)"
  by (auto simp: AddOrderBook_def find_book_def Let_def split: option.splits)

lemma AddOrderBook_inv:
  assumes "avltree_spec av" and "chunks_distinct chb" and "chunks_distinct cha" and "\<forall>i. chb i \<noteq> None" and "\<forall>i. cha i \<noteq> None"
    and "obc_inv av c"
  shows "obc_inv av (AddOrderBook av chb cha ex tp c)"
proof -
  let ?b = "SubscribeToBBO (Some 0) (MarketOrderBook2_new av chb cha ex tp)"
  have "book_ok av ?b \<and> bid_exact ?b \<and> ask_exact ?b" using new_book [OF assms(1-3) refl, of ex tp] by simp
  moreover have "book_memory ?b \<and> ob_subscribers ?b = [Some 0]"
    using assms(4,5) by (simp add: SubscribeToBBO_def MarketOrderBook2_new_def empty_side_def book_memory_def memory_suffices_def
        MemoryPool_new_def kMaxOrdersAtPrice_def)
  ultimately show ?thesis using assms(6) unfolding obc_inv_def find_book_AddOrderBook by (metis option.inject)
qed

lemma add_order_books_inv:
  assumes "avltree_spec av" and "\<forall>ex tp side. chunks_distinct (mem ex tp side) \<and> (\<forall>i. mem ex tp side i \<noteq> None)" and "obc_inv av c"
  shows "obc_inv av (add_order_books av mem ex es c) \<and>
     (\<forall>ex2 tp. find_book ex2 tp (add_order_books av mem ex es c) \<noteq> None \<longleftrightarrow>
        find_book ex2 tp c \<noteq> None \<or> ex2 = ex \<and> tp \<in> fst ` set es)"
  unfolding add_order_books_def using assms(3)
proof (induction es arbitrary: c)
  case (Cons e es)
  let ?c = "AddOrderBook av (mem ex (fst e) True) (mem ex (fst e) False) ex (fst e) c"
  have "obc_inv av ?c" using assms(1,2) Cons.prems by (intro AddOrderBook_inv) simp_all
  from Cons.IH [OF this] show ?case by (auto simp: find_book_AddOrderBook split_beta)
qed simp



section \<open>Before and after the connections\<close>

text \<open>The beginning of \<open>main\<close>: without an argument \<open>argv[1]\<close> is a null pointer.  Whether the file could be read is not looked at.\<close>

definition main_tables :: "'n toml \<Rightarrow> (string list \<Rightarrow> string list) \<Rightarrow> string list \<Rightarrow> TickerParser result" where
  "main_tables tm order argv =
     (case argv of
        program # file_name # _ \<Rightarrow>
          bind_result (TickerParser_Parse tm order file_name (TickerParser_new (Some TickerManager_new))) (\<lambda>(_, p). Inr p)
      | _ \<Rightarrow> Inl NullDeref)"

text \<open>The dictionary of the strategy goes to the publisher before anything is connected.\<close>

definition publish_dictionary ::
    "rounding \<Rightarrow> (json \<Rightarrow> string) \<Rightarrow> protobuf \<Rightarrow> arb_env \<Rightarrow> (ArbitrageCycle list \<Rightarrow> ArbitrageCycle list) \<Rightarrow> ExchangeTradingPairs \<Rightarrow>
     ArbitrageStrategyComponent \<Rightarrow> KafkaClient \<Rightarrow> KafkaClient result" where
  "publish_dictionary rnd dump pb env order etp c k =
     redpanda_AsyncHandleEvent rnd dump pb (ae_hc env) (ae_sh env) order etp (DictionaryEvent (asc_trade_dictionary c)) k"

text \<open>A program without arguments, and one whose file cannot be read, which runs with empty tables.\<close>

lemma main_tables_edges:
  "main_tables tm order [program] = Inl NullDeref"
  "tm_parse_file tm file = None \<Longrightarrow> main_tables tm order [program, file] = Inr (TickerParser_new (Some TickerManager_new))"
  by (simp_all add: main_tables_def TickerParser_Parse_def)

text \<open>The pairs of the publisher are the entries of both tables.\<close>

lemma fold_AddOrUpdatePair:
  "distinct (List.map fst es) \<Longrightarrow>
   GetPairInfo ex tp (fold (\<lambda>(tp, info). AddOrUpdatePair ex2 tp info) es etp) =
     (if ex = ex2 \<and> tp \<in> fst ` set es then map_of es tp else GetPairInfo ex tp etp)"
proof (induction es arbitrary: etp)
  case (Cons e es)
  have one: "GetPairInfo ex tp (AddOrUpdatePair ex2 tp2 info etp) = (if ex = ex2 \<and> tp = tp2 then Some info else GetPairInfo ex tp etp)"
    for ex tp ex2 tp2 info etp
    by (auto simp: GetPairInfo_def AddOrUpdatePair_def update_conv' Let_def split: option.splits)
  from Cons show ?case by (auto simp: split_beta one map_of_eq_None_iff dest: map_of_SomeD)
qed simp

lemma publisher_pairs:
  assumes "distinct (List.map fst binance)" and "distinct (List.map fst bybit)"
  shows "GetPairInfo ex tp (fill_exchange_trading_pairs binance bybit) =
     (if ex = kBinance then map_of binance tp else if ex = kBybit then map_of bybit tp else None)"
proof -
  have "GetPairInfo ex tp [] = None" by (simp add: GetPairInfo_def)
  then show ?thesis
    by (auto simp: fill_exchange_trading_pairs_def fold_AddOrUpdatePair [OF assms(1)] fold_AddOrUpdatePair [OF assms(2)]
        map_of_eq_None_iff [symmetric])
qed

section \<open>The strategy that is not connected\<close>

text \<open>\<open>CrossExchangeStrategyComponent\<close>: \<open>AddArbitrageTrade\<close> creates its hash functions and copies the context of the trade into local
  variables, and stores nothing.\<close>

type_synonym cross_TradeDictionary = "(u64 \<times> ArbitrageTrade) list"

record CrossExchangeStrategyComponent =
  ces_exchange_bbo_map :: "u64 \<rightharpoonup> BBO"
  ces_trade_dictionary :: cross_TradeDictionary
  ces_trades_state :: "u64 \<rightharpoonup> TradeState"
  ces_report_pool :: MemoryPool
  ces_bus_event_pool :: MemoryPool

definition CrossExchangeStrategyComponent_new ::
    "(nat \<Rightarrow> addr option) \<Rightarrow> (nat \<Rightarrow> addr option) \<Rightarrow> nat \<Rightarrow> CrossExchangeStrategyComponent" where
  "CrossExchangeStrategyComponent_new ch1 ch2 max_event_per_time =
     \<lparr>ces_exchange_bbo_map = Map.empty, ces_trade_dictionary = [], ces_trades_state = Map.empty,
      ces_report_pool = MemoryPool_new ch1 max_event_per_time, ces_bus_event_pool = MemoryPool_new ch2 max_event_per_time\<rparr>"

definition AddArbitrageTrade :: "ArbitrageTrade \<Rightarrow> CrossExchangeStrategyComponent \<Rightarrow> CrossExchangeStrategyComponent" where
  "AddArbitrageTrade trade c = (let trading_pair_context = at_trading_pair_context trade in c)"

definition GetUniqueTrades :: "cross_TradeDictionary \<Rightarrow> ArbitrageTrade list" where
  "GetUniqueTrades d = fold (\<lambda>e ts. if list_ex (ArbitrageTrade_eq (snd e)) ts then ts else ts @ [snd e]) d []"

definition mk_context :: "ExchangeId \<Rightarrow> MarketType \<Rightarrow> TradingPair \<Rightarrow> TradingPairContext" where
  "mk_context ex mt tp = \<lparr>tpc_exchange_id = ex, tpc_market_type = mt, tpc_trading_pair = tp\<rparr>"

text \<open>The trades of a pair: a change on the spot market of one exchange is followed on both markets of the other.\<close>

definition pair_trades :: "TradingPair \<Rightarrow> ArbitrageTrade list" where
  "pair_trades cross_pair =
     (let follow = (\<lambda>watched ex (mt, op).
            \<lparr>at_trading_pair_context = mk_context watched kSpot cross_pair, at_step = mk_step cross_pair ex mt op\<rparr>);
          orders = [(kFutures, kSell), (kSpot, kSell), (kFutures, kBuy), (kSpot, kBuy)]
      in List.map (follow kBinance kBybit) orders @ List.map (follow kBybit kBinance) orders)"

definition add_trades :: "TradingPair list \<Rightarrow> CrossExchangeStrategyComponent \<Rightarrow> CrossExchangeStrategyComponent" where
  "add_trades cross_pairs c = fold (\<lambda>cross_pair c. fold AddArbitrageTrade (pair_trades cross_pair) c) cross_pairs c"

lemma no_trade_added: "ces_trade_dictionary (add_trades tps (CrossExchangeStrategyComponent_new ch1 ch2 n)) = []"
proof -
  have "fold AddArbitrageTrade ts c = c" for ts c by (induction ts) (simp_all add: AddArbitrageTrade_def)
  then have "add_trades tps c = c" for c unfolding add_trades_def by (induction tps) simp_all
  then show ?thesis by (simp add: CrossExchangeStrategyComponent_new_def)
qed

lemma GetUniqueTrades_spec: "distinct (GetUniqueTrades d) \<and> set (GetUniqueTrades d) = snd ` set d"
proof -
  have "distinct ts \<Longrightarrow>
     distinct (fold (\<lambda>e ts. if list_ex (ArbitrageTrade_eq (snd e)) ts then ts else ts @ [snd e]) d ts) \<and>
     set (fold (\<lambda>e ts. if list_ex (ArbitrageTrade_eq (snd e)) ts then ts else ts @ [snd e]) d ts) = set ts \<union> snd ` set d" for ts
    by (induction d arbitrary: ts) (auto simp: list_ex_iff ArbitrageTrade_eq_iff)
  then show ?thesis by (simp add: GetUniqueTrades_def)
qed

end
