(* ===== verification/Market_View.thy ===== *)
theory Market_View
  imports Trading_App
begin

text \<open>
  From the books to the strategy.  The order book components publish a quote when the best bid and offer of a book changes; the
  arbitrage strategy keeps the last quote of every instrument and evaluates the cycles that use it.  Here the books of both markets and
  the strategy run together: the strategy never fails, and its quotes are the best bids and offers of the books, when it handles the
  quotes of each component in their order.  \<open>AsyncHandleEvent\<close> spawns its coroutines on the thread pool and not on a strand, so that
  the order is not assured; what happens then is at the end.
\<close>

section \<open>The strategy does not fail\<close>

text \<open>A price of an order book of sane size, or no price.\<close>

definition small_price :: "Price \<Rightarrow> bool" where
  "small_price p \<longleftrightarrow> p < 2 ^ 61 \<or> p = kPriceInvalid"

definition small_bbo :: "BBO \<Rightarrow> bool" where
  "small_bbo b \<longleftrightarrow> small_price (bid_price b) \<and> small_price (ask_price b)"

lemma small_price_sint: "small_price p \<Longrightarrow> - (2 ^ 61) < sint p \<and> sint p < 2 ^ 61"
proof -
  assume "small_price p"
  then consider "p < 2 ^ 61" | "p = - 1" by (auto simp: small_price_def kPriceInvalid_def)
  then show ?thesis
  proof cases
    case 1
    then have "p < 2 ^ 62" by (simp add: word_less_def)
    with 1 have "sint p = uint p" "uint p < 2 ^ 61" by (simp_all add: sint_uint_small word_less_def)
    moreover have "0 \<le> uint p" by simp
    ultimately show ?thesis by linarith
  qed simp
qed

lemma profit_condition_total:
  assumes "small_price a" "small_price b" "small_price c" "small_price d"
  shows "\<exists>r. profit_condition a b c d = Inr r"
  using small_price_sint [OF assms(1)] small_price_sint [OF assms(2)] small_price_sint [OF assms(3)] small_price_sint [OF assms(4)]
  by (simp add: profit_condition_def int64_def fits_int64_def)

definition entries_small :: "(u64 \<times> TransactionReport) list \<Rightarrow> bool" where
  "entries_small trs \<longleftrightarrow> (\<forall>(h, t) \<in> set trs. small_price (tr_entry_price t))"

lemma entries_small_map_entry:
  "entries_small trs \<Longrightarrow> (\<And>t. small_price (tr_entry_price t) \<Longrightarrow> small_price (tr_entry_price (f t))) \<Longrightarrow>
   entries_small (AList.map_entry h f trs)"
  unfolding entries_small_def by (induction trs) auto

lemma entries_small_sum_pnl: "entries_small trs \<Longrightarrow> entries_small (snd (sum_pnl rnd etp acc trs))"
proof (induction trs arbitrary: acc)
  case (Cons e trs)
  obtain h t where e: "e = (h, t)" by fastforce
  have "tr_entry_price (snd (CalculatePnl rnd etp t)) = tr_entry_price t"
    by (simp add: CalculatePnl_def Let_def split: option.split)
  with Cons e show ?case by (auto simp: entries_small_def split_beta split: prod.splits option.splits)
qed (simp add: entries_small_def)

lemma entries_small_open:
  "entries_small (ts_transaction_states ts) \<Longrightarrow> small_price (open_price buy) \<Longrightarrow> small_price (open_price sell) \<Longrightarrow>
   entries_small (ts_transaction_states (open_trade buy sell n1 n2 ts))"
  by (simp add: open_trade_def Let_def update_transaction_def entries_small_map_entry enter_def)

lemma entries_small_close:
  "entries_small (ts_transaction_states ts) \<Longrightarrow> entries_small (ts_transaction_states (close_trade buy sell n1 n2 ts))"
  by (simp add: close_trade_def Let_def update_transaction_def entries_small_map_entry leave_def)

lemma entries_small_transaction:
  "entries_small (ts_transaction_states ts) \<Longrightarrow> map_of (ts_transaction_states ts) h \<noteq> None \<Longrightarrow>
   small_price (tr_entry_price (transaction ts h))"
  by (fastforce simp: entries_small_def transaction_def dest: map_of_SomeD)

definition strategy_ok :: "ArbitrageStrategyComponent \<Rightarrow> bool" where
  "strategy_ok c \<longleftrightarrow>
     (\<forall>b \<in> ran (asc_exchange_bbo_map c). small_bbo b) \<and>
     (\<forall>ts \<in> ran (asc_trades_state c). entries_small (ts_transaction_states ts)) \<and>
     memory_suffices (asc_report_pool c) \<and> memory_suffices (asc_bus_event_pool c)"

definition keeps_view :: "ArbitrageStrategyComponent \<Rightarrow> ArbitrageStrategyComponent \<Rightarrow> bool" where
  "keeps_view c c' \<longleftrightarrow>
     strategy_ok c' \<and> asc_exchange_bbo_map c' = asc_exchange_bbo_map c \<and> asc_trade_dictionary c' = asc_trade_dictionary c"

lemma put_trade_keeps:
  "strategy_ok c \<Longrightarrow> entries_small (ts_transaction_states ts) \<Longrightarrow> keeps_view c (put_trade uid ts (c\<lparr>asc_clock := k\<rparr>))"
  by (auto simp: strategy_ok_def keeps_view_def put_trade_def ran_def)

lemma SendArbitrageReport_keeps:
  assumes "strategy_ok c"
  shows "\<exists>c'. SendArbitrageReportToBus uid ts c = Inr c' \<and> keeps_view c c'"
proof -
  have mem: "memory_suffices (asc_report_pool c)" "memory_suffices (asc_bus_event_pool c)" using assms by (simp_all add: strategy_ok_def)
  obtain a p where "Allocate (asc_report_pool c) = (Some a, p)" "memory_suffices p" by (rule memory_suffices_Allocate [OF mem(1)])
  moreover obtain b q where "Allocate (asc_bus_event_pool c) = (Some b, q)" "memory_suffices q"
    by (rule memory_suffices_Allocate [OF mem(2)])
  ultimately show ?thesis using assms by (simp add: SendArbitrageReportToBus_def keeps_view_def strategy_ok_def)
qed

lemma keeps_view_trans: "keeps_view a b \<Longrightarrow> keeps_view b c \<Longrightarrow> keeps_view a c"
  by (simp add: keeps_view_def)

lemma try_close_keeps:
  assumes ok: "strategy_ok c" and small: "entries_small (ts_transaction_states ts)"
    and legs: "small_price (exit_price buy)" "small_price (exit_price sell)"
    and known: "map_of (ts_transaction_states ts) (leg_transaction buy) \<noteq> None" "map_of (ts_transaction_states ts) (leg_transaction sell) \<noteq> None"
  shows "\<exists>c'. try_close env uid buy sell ts c = Inr c' \<and> keeps_view c c'"
proof -
  let ?be = "tr_entry_price (transaction ts (leg_transaction buy))" and ?se = "tr_entry_price (transaction ts (leg_transaction sell))"
  obtain r where r: "profit_condition (exit_price sell) ?se (exit_price buy) ?be = Inr r"
    using profit_condition_total [OF legs(2) entries_small_transaction [OF small known(2)] legs(1) entries_small_transaction [OF small known(1)]]
    by blast
  have put: "keeps_view c (put_trade uid ts' (c\<lparr>asc_clock := k\<rparr>))" if "entries_small (ts_transaction_states ts')" for ts' k
    by (rule put_trade_keeps [OF ok that])
  let ?closed = "close_trade buy sell (ae_clock env (asc_clock c)) (ae_clock env (asc_clock c + 1)) (ts\<lparr>ts_is_open := False\<rparr>)"
  have "entries_small (ts_transaction_states ?closed)" using small by (intro entries_small_close) simp
  then have pnl: "entries_small (ts_transaction_states (snd (CalculatePnl_trade (ae_rnd env) (ae_pairs env) ?closed)))"
    using entries_small_sum_pnl by (simp add: CalculatePnl_trade_def split_beta Let_def)
  have send: "\<exists>c'. SendArbitrageReportToBus uid ts' (put_trade uid ts' (c\<lparr>asc_clock := k\<rparr>)) = Inr c' \<and> keeps_view c c'"
    if "entries_small (ts_transaction_states ts')" for ts' k
    using SendArbitrageReport_keeps [of "put_trade uid ts' (c\<lparr>asc_clock := k\<rparr>)"] put [OF that] keeps_view_trans
    by (metis keeps_view_def)
  show ?thesis
    using r put [of "ts\<lparr>ts_is_open := False\<rparr>" "asc_clock c"] put [OF pnl] small
      send [of "snd (CalculatePnl_trade (ae_rnd env) (ae_pairs env) ?closed)\<lparr>ts_pnl := p\<rparr>" for p] pnl
    by (simp add: try_close_def Let_def split_beta split: option.split)
qed

lemma Evaluate_keeps:
  assumes ok: "strategy_ok c"
  shows "\<exists>c'. EvaluateOpportunityArbitrageCycle env cycle c = Inr c' \<and> keeps_view c c'"
proof -
  have same: "keeps_view c c" using ok by (simp add: keeps_view_def)
  let ?uid = "ArbitrageCycleHash (ae_hc env) (ae_sh env) cycle"
  show ?thesis
  proof (cases "scan_steps env (asc_exchange_bbo_map c) cycle leg_none leg_none")
    case None
    then show ?thesis using same by (simp add: EvaluateOpportunityArbitrageCycle_def)
  next
    case (Some p)
    obtain buy sell where p: "p = (buy, sell)" by force
    consider "\<not> leg_valid buy \<or> \<not> leg_valid sell \<or> asc_trades_state c ?uid = None"
      | ts where "leg_valid buy" "leg_valid sell" "asc_trades_state c ?uid = Some ts" by blast
    then show ?thesis
    proof cases
      case 1
      then show ?thesis using same Some by (auto simp: EvaluateOpportunityArbitrageCycle_def p Let_def)
    next
      case 2
      from scan_steps_legs [OF Some [unfolded p]] 2 have "\<exists>b h. b \<in> ran (asc_exchange_bbo_map c) \<and> buy = buy_leg b h"
        "\<exists>b h. b \<in> ran (asc_exchange_bbo_map c) \<and> sell = sell_leg b h" by auto
      then have legs: "small_price (open_price buy)" "small_price (exit_price buy)" "small_price (open_price sell)" "small_price (exit_price sell)"
        using ok by (auto simp: strategy_ok_def small_bbo_def buy_leg_def sell_leg_def)
      have small: "entries_small (ts_transaction_states ts)" using ok 2(3) by (auto simp: strategy_ok_def ran_def)
      define opens where "opens \<longleftrightarrow> \<not> ts_is_open ts \<and> open_price sell > open_price buy"
      define k where "k = asc_clock c"
      define ts1 where "ts1 = (if opens then open_trade buy sell (ae_clock env k) (ae_clock env (k + 1)) ts else ts)"
      have small1: "entries_small (ts_transaction_states ts1)" using small legs by (simp add: ts1_def entries_small_open)
      have keys: "map_of (ts_transaction_states ts1) h = None \<longleftrightarrow> map_of (ts_transaction_states ts) h = None" for h
        by (auto simp: ts1_def open_trade_def Let_def)
      let ?c1 = "put_trade ?uid ts1 (c\<lparr>asc_clock := (if opens then k + 2 else k)\<rparr>)"
      have c1: "keeps_view c ?c1" by (rule put_trade_keeps [OF ok small1])
      then have ok1: "strategy_ok ?c1" by (simp add: keeps_view_def)
      have "EvaluateOpportunityArbitrageCycle env cycle c =
          (if map_of (ts_transaction_states ts) (leg_transaction buy) = None \<or> map_of (ts_transaction_states ts) (leg_transaction sell) = None
           then Inr c else if ts_is_open ts1 then try_close env ?uid buy sell ts1 ?c1 else Inr ?c1)"
        using Some p 2 by (simp add: EvaluateOpportunityArbitrageCycle_def Let_def opens_def k_def ts1_def)
      then show ?thesis
        using same c1 try_close_keeps [OF ok1 small1 legs(2,4)] keys keeps_view_trans [OF c1] by (auto; metis option.distinct(1))
    qed
  qed
qed

lemma HandleNewBBO_view:
  assumes ok: "strategy_ok c" and small: "small_bbo (nb_bbo e)"
  shows "\<exists>c'. HandleNewBBO env e c = Inr c' \<and> strategy_ok c' \<and>
     asc_exchange_bbo_map c' =
       (asc_exchange_bbo_map c)(HashCombined (ae_hc env) (ae_sh env) (nb_exchange_id e) (nb_market_type e) (nb_trading_pair e) \<mapsto> nb_bbo e)"
proof -
  let ?key = "HashCombined (ae_hc env) (ae_sh env) (nb_exchange_id e) (nb_market_type e) (nb_trading_pair e)"
  let ?c = "AddOrUpdateBBO ?key (nb_bbo e) c"
  have "strategy_ok ?c" using ok small by (auto simp: strategy_ok_def AddOrUpdateBBO_def ran_def)
  then have self: "keeps_view ?c ?c" by (simp add: keeps_view_def)
  have "\<exists>t. fold_result (EvaluateOpportunityArbitrageCycle env) cs ?c = Inr t \<and> keeps_view ?c t" for cs
  proof (rule fold_result_invariant)
    fix cyc s assume "keeps_view ?c s"
    with Evaluate_keeps [of s env cyc] keeps_view_trans show "\<exists>t. EvaluateOpportunityArbitrageCycle env cyc s = Inr t \<and> keeps_view ?c t"
      by (metis keeps_view_def)
  qed (rule self)
  then obtain t where "HandleNewBBO env e c = Inr t" "keeps_view ?c t"
    using self unfolding HandleNewBBO_def Let_def by metis
  then show ?thesis by (auto simp: keeps_view_def AddOrUpdateBBO_def)
qed

section \<open>The latest quotes\<close>

type_synonym quote_key = "ExchangeId \<times> MarketType \<times> TradingPair"

definition quote_key :: "NewBBO \<Rightarrow> quote_key" where
  "quote_key m = (nb_exchange_id m, nb_market_type m, nb_trading_pair m)"

definition key_hash :: "arb_env \<Rightarrow> quote_key \<Rightarrow> u64" where
  "key_hash env = (\<lambda>(ex, mt, tp). HashCombined (ae_hc env) (ae_sh env) ex mt tp)"

text \<open>The messages among the events that a component has sent, and the last message for each instrument.\<close>

fun message :: "BusEventNewBBO option \<Rightarrow> NewBBO list" where
  "message (Some (Some m)) = [m]"
| "message (Some None) = []"
| "message None = []"

definition quotes :: "BusEventNewBBO option list \<Rightarrow> NewBBO list" where
  "quotes events = concat (List.map message events)"

definition latest :: "NewBBO list \<Rightarrow> quote_key \<rightharpoonup> BBO" where
  "latest ms = fold (\<lambda>m v. v(quote_key m \<mapsto> nb_bbo m)) ms Map.empty"

lemma quotes_simps [simp]: "quotes [] = []" "quotes (e # es) = message e @ quotes es" "quotes (es @ fs) = quotes es @ quotes fs"
  by (simp_all add: quotes_def)

lemma latest_simps [simp]: "latest [] = Map.empty" "latest (ms @ [m]) = (latest ms)(quote_key m \<mapsto> nb_bbo m)"
  by (simp_all add: latest_def)

lemma latest_filter: "latest (filter (\<lambda>m. quote_key m = k) ms) k = latest ms k"
  by (induction ms rule: rev_induct) auto

lemma quotes_shuffles: "q \<in> shuffles xs ys \<Longrightarrow> quotes q \<in> shuffles (quotes xs) (quotes ys)"
proof (induction xs ys arbitrary: q rule: shuffles.induct)
  case (3 x xs y ys)
  have left: "message e @ r \<in> shuffles (message e @ us) vs" if "r \<in> shuffles us vs" for e r us vs
    using that by (cases e rule: message.cases) (auto intro: Cons_in_shuffles_leftI)
  have right: "message e @ r \<in> shuffles us (message e @ vs)" if "r \<in> shuffles us vs" for e r us vs
    using that by (cases e rule: message.cases) (auto intro: Cons_in_shuffles_rightI)
  from 3 left [of _ "quotes xs" "message y @ quotes ys" x] right [of _ "message x @ quotes xs" "quotes ys" y] show ?case by auto
qed auto

text \<open>Two streams about different instruments: whatever their interleaving, the latest quote is that of the one stream.\<close>

lemma latest_shuffle:
  assumes "q \<in> shuffles xs ys" and "\<forall>m \<in> set (quotes ys). quote_key m \<noteq> k"
  shows "latest (quotes q) k = latest (quotes xs) k"
proof -
  let ?P = "\<lambda>m. quote_key m = k"
  have "filter ?P (quotes q) \<in> shuffles (filter ?P (quotes xs)) (filter ?P (quotes ys))"
    using quotes_shuffles [OF assms(1)] filter_shuffles [of ?P "quotes xs" "quotes ys"] by blast
  moreover have "filter ?P (quotes ys) = []" using assms(2) by (simp add: filter_empty_conv)
  ultimately have "filter ?P (quotes q) = filter ?P (quotes xs)" by simp
  then show ?thesis by (metis latest_filter)
qed

section \<open>The books publish their tops\<close>

definition levels_small :: "'t MarketOrderBook2 \<Rightarrow> bool" where
  "levels_small b \<longleftrightarrow> (\<forall>p \<in> dom (bids_of b) \<union> dom (asks_of b). p < 2 ^ 61)"

fun emission_small :: "emission \<Rightarrow> bool" where
  "emission_small (OutSnapshot s) \<longleftrightarrow> (\<forall>e \<in> set (bs_bids s) \<union> set (bs_asks s). bse_price e < 2 ^ 61)"
| "emission_small (OutDiff d) \<longleftrightarrow> (\<forall>e \<in> set (bd2_bids d) \<union> set (bd2_asks d). bse_price e < 2 ^ 61)"

lemma dom_set_levels: "dom (set_levels es m) \<subseteq> dom m \<union> bse_price ` set es"
  unfolding set_levels_def
proof (induction es arbitrary: m)
  case (Cons e es)
  have "dom (set_level (bse_price e) (bse_qty e) m) \<subseteq> insert (bse_price e) (dom m)" by (auto simp: set_level_def)
  with Cons.IH [of "set_level (bse_price e) (bse_qty e) m"] show ?case by auto
qed simp

lemma levels_small_apply:
  assumes "levels_small b" and "emission_small o1" and "(bids_of b', asks_of b') = apply_out o1 (bids_of b, asks_of b)"
  shows "levels_small b'"
proof (cases o1)
  case (OutSnapshot s)
  with assms dom_set_levels [of "bs_bids s" Map.empty] dom_set_levels [of "bs_asks s" Map.empty] show ?thesis
    by (fastforce simp: levels_small_def)
next
  case (OutDiff d)
  with assms dom_set_levels [of "bd2_bids d" "bids_of b"] dom_set_levels [of "bd2_asks d" "asks_of b"] show ?thesis
    by (fastforce simp: levels_small_def)
qed

lemma top_small: "top_of before m (p, v) \<Longrightarrow> \<forall>x \<in> dom m. x < 2 ^ 61 \<Longrightarrow> small_price p"
  by (auto simp: top_of_def small_price_def dom_def split: if_splits)

lemma exact_small: "levels_small b \<Longrightarrow> bid_exact b \<Longrightarrow> ask_exact b \<Longrightarrow> small_bbo (ob_bbo b)"
  unfolding small_bbo_def bid_exact_def ask_exact_def levels_small_def by (metis top_small UnCI)

text \<open>A component whose quotes are the tops of its books: a book without a quote is as it was created.\<close>

definition published :: "(quote_key \<rightharpoonup> BBO) \<Rightarrow> MarketType \<Rightarrow> ExchangeId \<Rightarrow> TradingPair \<Rightarrow> 't MarketOrderBook2 \<Rightarrow> bool" where
  "published v mt ex tp b \<longleftrightarrow>
     (case v (ex, mt, tp) of None \<Rightarrow> ob_bbo b = BBO_default | Some bbo \<Rightarrow> bbo = ob_bbo b)"

definition publishes :: "'t avl_ops \<Rightarrow> 't OrderBookComponent \<Rightarrow> bool" where
  "publishes av c \<longleftrightarrow> obc_inv av c \<and> memory_suffices (obc_new_bbo_pool c) \<and> memory_suffices (obc_bus_event_pool c) \<and>
     (\<forall>ex tp b. find_book ex tp c = Some b \<longrightarrow>
        levels_small b \<and> published (latest (quotes (obc_sent c))) (obc_market_type c) ex tp b) \<and>
     (\<forall>m \<in> set (quotes (obc_sent c)). nb_market_type m = obc_market_type c \<and> small_bbo (nb_bbo m) \<and>
        find_book (nb_exchange_id m) (nb_trading_pair m) c \<noteq> None)"

lemma SendBBOToBus_frame:
  assumes "memory_suffices (obc_new_bbo_pool c)" and "memory_suffices (obc_bus_event_pool c)"
  shows "memory_suffices (obc_new_bbo_pool (SendBBOToBus ex tp bbo c)) \<and> memory_suffices (obc_bus_event_pool (SendBBOToBus ex tp bbo c)) \<and>
     obc_market_type (SendBBOToBus ex tp bbo c) = obc_market_type c"
proof -
  obtain a1 p1 a2 p2 where "Allocate (obc_new_bbo_pool c) = (Some a1, p1)" "memory_suffices p1"
    "Allocate (obc_bus_event_pool c) = (Some a2, p2)" "memory_suffices p2"
    using memory_suffices_Allocate [OF assms(1)] memory_suffices_Allocate [OF assms(2)] by metis
  then show ?thesis by (simp add: SendBBOToBus_def)
qed

lemma receive_publishes:
  assumes spec: "avltree_spec av" and pub: "publishes av c" and out: "two_sided o1" "emission_small o1"
  shows "\<exists>c'. receive av (batch_msg o1) c = Inr c' \<and> publishes av c' \<and> obc_market_type c' = obc_market_type c \<and>
     (\<forall>ex tp. find_book ex tp c' = None \<longleftrightarrow> find_book ex tp c = None)"
proof -
  obtain ex tp where to: "addressed ex tp o1" by (cases o1) auto
  show ?thesis
  proof (cases "find_book ex tp c")
    case None
    with pub receive_unregistered [OF None to, of av] show ?thesis by simp
  next
    case (Some b)
    have inv: "obc_inv av c" and mem: "memory_suffices (obc_new_bbo_pool c)" "memory_suffices (obc_bus_event_pool c)"
      using pub by (simp_all add: publishes_def)
    obtain c' b' m where c': "receive av (batch_msg o1) c = Inr c'" "obc_inv av c'" "find_book ex tp c' = Some b'"
      "(bids_of b', asks_of b') = apply_out o1 (bids_of b, asks_of b)"
      "\<forall>ex' tp'. (ex', tp') \<noteq> (ex, tp) \<longrightarrow> find_book ex' tp' c' = find_book ex' tp' c"
      and sent: "c' = SendBBOToBus ex tp (ob_bbo b') (c\<lparr>obc_order_books := m\<rparr>) \<or> c' = c\<lparr>obc_order_books := m\<rparr> \<and> ob_bbo b' = ob_bbo b"
      using receive_batch_msg [OF spec inv Some to out(1)] by blast
    have levels: "levels_small b'" using levels_small_apply [OF _ out(2) c'(4)] pub Some by (simp add: publishes_def)
    then have small: "small_bbo (ob_bbo b')" using c'(2,3) by (intro exact_small) (simp_all add: obc_inv_def)
    have books: "find_book ex2 tp2 c' = (if (ex2, tp2) = (ex, tp) then Some b' else find_book ex2 tp2 c)" for ex2 tp2
      using c'(3,5) by auto
    have "publishes av c' \<and> obc_market_type c' = obc_market_type c"
      using sent
    proof
      assume e: "c' = SendBBOToBus ex tp (ob_bbo b') (c\<lparr>obc_order_books := m\<rparr>)"
      have sent': "obc_sent c' = obc_sent c @ [Some (Some \<lparr>nb_exchange_id = ex, nb_trading_pair = tp, nb_bbo = ob_bbo b', nb_market_type = obc_market_type c\<rparr>)]"
        unfolding e using SendBBOToBus_sent [of "c\<lparr>obc_order_books := m\<rparr>"] mem by simp
      moreover have "memory_suffices (obc_new_bbo_pool c') \<and> memory_suffices (obc_bus_event_pool c') \<and> obc_market_type c' = obc_market_type c"
        unfolding e using SendBBOToBus_frame [of "c\<lparr>obc_order_books := m\<rparr>"] mem by simp
      ultimately show ?thesis using pub levels small c'(2) unfolding publishes_def books
        by (auto simp: published_def quote_key_def)
    next
      assume e: "c' = c\<lparr>obc_order_books := m\<rparr> \<and> ob_bbo b' = ob_bbo b"
      then have "obc_sent c' = obc_sent c" "obc_market_type c' = obc_market_type c" "memory_suffices (obc_new_bbo_pool c')"
        "memory_suffices (obc_bus_event_pool c')" using mem by simp_all
      moreover have "published (latest (quotes (obc_sent c))) (obc_market_type c) ex tp b'"
        using pub Some conjunct2 [OF e] unfolding publishes_def published_def by metis
      ultimately show ?thesis using pub levels Some c'(2) unfolding publishes_def books by auto
    qed
    with c'(1) books Some show ?thesis by auto
  qed
qed

section \<open>The books at the start\<close>

lemma AddOrderBook_frame [simp]:
  "obc_sent (AddOrderBook av chb cha ex tp c) = obc_sent c"
  "obc_market_type (AddOrderBook av chb cha ex tp c) = obc_market_type c"
  "obc_new_bbo_pool (AddOrderBook av chb cha ex tp c) = obc_new_bbo_pool c"
  "obc_bus_event_pool (AddOrderBook av chb cha ex tp c) = obc_bus_event_pool c"
  by (simp_all add: AddOrderBook_def Let_def split: option.split)

lemma new_book_publishes:
  assumes "avltree_spec av" and "chunks_distinct chb" and "chunks_distinct cha" and "\<forall>i. chb i \<noteq> None" and "\<forall>i. cha i \<noteq> None"
    and "publishes av c" and "obc_sent c = []"
  shows "publishes av (AddOrderBook av chb cha ex tp c)"
proof -
  let ?b = "SubscribeToBBO (Some 0) (MarketOrderBook2_new av chb cha ex tp)"
  have "bids_of ?b = Map.empty" "asks_of ?b = Map.empty" using new_book [OF assms(1-3) refl, of ex tp] by simp_all
  moreover have "ob_bbo ?b = BBO_default" by (simp add: SubscribeToBBO_def MarketOrderBook2_new_def)
  ultimately show ?thesis using AddOrderBook_inv [OF assms(1-5), of c ex tp] assms(6,7)
    by (auto simp: publishes_def find_book_AddOrderBook levels_small_def published_def)
qed

lemma add_order_books_publishes:
  assumes "avltree_spec av" and "\<forall>ex tp side. chunks_distinct (mem ex tp side) \<and> (\<forall>i. mem ex tp side i \<noteq> None)"
    and "publishes av c" and "obc_sent c = []"
  shows "publishes av (add_order_books av mem ex es c) \<and> obc_sent (add_order_books av mem ex es c) = [] \<and>
     obc_market_type (add_order_books av mem ex es c) = obc_market_type c"
  unfolding add_order_books_def using assms(3,4)
proof (induction es arbitrary: c)
  case (Cons e es)
  let ?c = "AddOrderBook av (mem ex (fst e) True) (mem ex (fst e) False) ex (fst e) c"
  have "publishes av ?c" "obc_sent ?c = []" using assms(1,2) Cons.prems by (auto intro!: new_book_publishes)
  from Cons.IH [OF this] show ?case by (simp add: split_beta)
qed simp

lemma app_books_publishes:
  assumes "avltree_spec av" and "\<forall>ex tp side. chunks_distinct (mem ex tp side) \<and> (\<forall>i. mem ex tp side i \<noteq> None)"
    and "\<forall>i. ch1 i \<noteq> None" and "\<forall>i. ch2 i \<noteq> None"
  shows "publishes av (app_books av mem ch1 ch2 mt binance bybit) \<and>
     obc_market_type (app_books av mem ch1 ch2 mt binance bybit) = mt"
proof -
  let ?c = "OrderBookComponent_new ch1 ch2 1000 mt :: 'a OrderBookComponent"
  have "publishes av ?c" "obc_sent ?c = []" "obc_market_type ?c = mt" using assms(3,4)
    by (simp_all add: publishes_def obc_inv_def OrderBookComponent_new_def find_book_def memory_suffices_def MemoryPool_new_def)
  from add_order_books_publishes [OF assms(1,2) this(1,2), of kBybit bybit] this(3) show ?thesis
    using add_order_books_publishes [OF assms(1,2), of "add_order_books av mem kBybit bybit ?c" kBinance binance]
    unfolding app_books_def by simp
qed

lemma receive_all_publishes:
  assumes "avltree_spec av" and "publishes av c" and "\<forall>o1 \<in> set outs. two_sided o1 \<and> emission_small o1"
  shows "\<exists>c'. fold_result (receive av) (List.map batch_msg outs) c = Inr c' \<and> publishes av c' \<and> obc_market_type c' = obc_market_type c \<and>
     (\<forall>ex tp. find_book ex tp c' = None \<longleftrightarrow> find_book ex tp c = None)"
  using assms(2,3)
proof (induction outs arbitrary: c)
  case (Cons o1 outs)
  obtain c1 where 1: "receive av (batch_msg o1) c = Inr c1" "publishes av c1" "obc_market_type c1 = obc_market_type c"
    "\<forall>ex tp. find_book ex tp c1 = None \<longleftrightarrow> find_book ex tp c = None"
    using receive_publishes [OF assms(1) Cons.prems(1), of o1] Cons.prems(2) by auto
  with Cons.IH [OF 1(2)] Cons.prems(2) show ?case by auto
qed simp

section \<open>The strategy keeps the latest quotes\<close>

lemma strategy_view:
  assumes "strategy_ok c" and "\<forall>m \<in> set (quotes q). small_bbo (nb_bbo m) \<and> quote_key m \<in> K" and "inj_on (key_hash env) K"
    and "\<forall>k \<in> K. asc_exchange_bbo_map c (key_hash env k) = v k"
  shows "\<exists>a. fold_result (ArbitrageStrategy_AsyncHandleEvent env) q c = Inr a \<and> strategy_ok a \<and>
     (\<forall>k \<in> K. asc_exchange_bbo_map a (key_hash env k) = fold (\<lambda>m v. v(quote_key m \<mapsto> nb_bbo m)) (quotes q) v k)"
  using assms(1,2,4)
proof (induction q arbitrary: c v)
  case (Cons e q)
  show ?case
  proof (cases e rule: message.cases)
    case (1 m)
    from Cons.prems(2) 1 have m: "small_bbo (nb_bbo m)" "quote_key m \<in> K" by simp_all
    obtain c1 where c1: "HandleNewBBO env m c = Inr c1" "strategy_ok c1"
      "asc_exchange_bbo_map c1 = (asc_exchange_bbo_map c)(key_hash env (quote_key m) \<mapsto> nb_bbo m)"
      using HandleNewBBO_view [OF Cons.prems(1) m(1), of env] by (auto simp: key_hash_def quote_key_def)
    have "\<forall>k \<in> K. asc_exchange_bbo_map c1 (key_hash env k) = (v(quote_key m \<mapsto> nb_bbo m)) k"
      using Cons.prems(3) m(2) inj_onD [OF assms(3)] by (auto simp: c1(3))
    from Cons.IH [OF c1(2) _ this] Cons.prems(2) 1 c1(1) show ?thesis by (simp add: ArbitrageStrategy_AsyncHandleEvent_def)
  qed (use Cons in \<open>auto simp: ArbitrageStrategy_AsyncHandleEvent_def\<close>)
qed simp

lemma entries_small_update: "entries_small trs \<Longrightarrow> small_price (tr_entry_price t) \<Longrightarrow> entries_small (AList.update h t trs)"
  unfolding entries_small_def by (induction trs) auto

lemma entries_small_new: "entries_small (new_transactions env cyc)"
proof -
  have "entries_small trs \<Longrightarrow> entries_small (fold (\<lambda>s. AList.update (h s) (TransactionReport_new (x s) (t s) (p s))) cyc trs)" for h x t p trs
  proof (induction cyc arbitrary: trs)
    case (Cons s cyc)
    have "entries_small (AList.update (h s) (TransactionReport_new (x s) (t s) (p s)) trs)"
      using Cons.prems by (intro entries_small_update) (simp_all add: TransactionReport_new_def small_price_def)
    with Cons.IH show ?case by simp
  qed simp
  moreover have "entries_small []" by (simp add: entries_small_def)
  ultimately show ?thesis unfolding new_transactions_def by blast
qed

lemma AddArbitrageCycle_keeps:
  "strategy_ok c \<Longrightarrow> strategy_ok (AddArbitrageCycle env cyc c) \<and> asc_exchange_bbo_map (AddArbitrageCycle env cyc c) = asc_exchange_bbo_map c"
  using entries_small_new [of env cyc]
  by (auto simp: strategy_ok_def AddArbitrageCycle_def put_trade_def TradeState_default_def Let_def ran_def split: option.split)

lemma add_cycles_start:
  assumes "\<forall>i. ch1 i \<noteq> None" and "\<forall>i. ch2 i \<noteq> None" and "c = add_cycles env tps (ArbitrageStrategyComponent_new ch1 ch2 1000)"
  shows "strategy_ok c" and "asc_exchange_bbo_map c = Map.empty"
proof -
  have "strategy_ok s \<Longrightarrow> strategy_ok (fold (AddArbitrageCycle env) cs s) \<and>
      asc_exchange_bbo_map (fold (AddArbitrageCycle env) cs s) = asc_exchange_bbo_map s" for cs s
    by (induction cs arbitrary: s) (simp_all add: AddArbitrageCycle_keeps)
  moreover have "strategy_ok (ArbitrageStrategyComponent_new ch1 ch2 1000)"
    "asc_exchange_bbo_map (ArbitrageStrategyComponent_new ch1 ch2 1000) = Map.empty"
    using assms(1,2) by (simp_all add: strategy_ok_def ArbitrageStrategyComponent_new_def memory_suffices_def MemoryPool_new_def)
  ultimately show "strategy_ok c" "asc_exchange_bbo_map c = Map.empty" by (simp_all add: assms(3) add_cycles_fold)
qed

section \<open>Books and strategy together\<close>

lemma app_books_known:
  "find_book ex tp (app_books av mem ch1 ch2 mt binance bybit) \<noteq> None \<Longrightarrow>
   ex \<in> {kBinance, kBybit} \<and> tp \<in> fst ` set binance \<union> fst ` set bybit"
proof -
  have "find_book ex tp (add_order_books av mem ex2 es c) \<noteq> None \<Longrightarrow> find_book ex tp c \<noteq> None \<or> ex = ex2 \<and> tp \<in> fst ` set es" for ex2 es
    and c :: "'a OrderBookComponent"
    unfolding add_order_books_def
    by (induction es arbitrary: c) (fastforce simp: find_book_AddOrderBook split_beta split: if_splits)+
  moreover have "find_book ex tp (OrderBookComponent_new ch1 ch2 1000 mt :: 'a OrderBookComponent) = None"
    by (simp add: OrderBookComponent_new_def find_book_def)
  ultimately show "find_book ex tp (app_books av mem ch1 ch2 mt binance bybit) \<noteq> None \<Longrightarrow> ?thesis"
    unfolding app_books_def by (metis UnCI insertCI)
qed

lemma component_view:
  assumes "publishes av c" and "\<forall>m \<in> set (quotes (obc_sent d)). nb_market_type m \<noteq> obc_market_type c"
    and "q \<in> shuffles (obc_sent c) (obc_sent d)" and "find_book ex tp c = Some b"
  shows "bid_exact b" and "ask_exact b" and "published (latest (quotes q)) (obc_market_type c) ex tp b"
proof -
  have "latest (quotes q) (ex, obc_market_type c, tp) = latest (quotes (obc_sent c)) (ex, obc_market_type c, tp)"
    using assms(2) by (intro latest_shuffle [OF assms(3)]) (auto simp: quote_key_def)
  with assms(1,4) show "published (latest (quotes q)) (obc_market_type c) ex tp b" by (simp add: publishes_def published_def)
  show "bid_exact b" "ask_exact b" using assms(1,4) by (simp_all add: publishes_def obc_inv_def)
qed

definition known_books :: "TradingPair set \<Rightarrow> 't OrderBookComponent \<Rightarrow> bool" where
  "known_books tps c \<longleftrightarrow> (\<forall>ex tp. find_book ex tp c \<noteq> None \<longrightarrow> ex \<in> {kBinance, kBybit} \<and> tp \<in> tps)"

definition instruments :: "TradingPair set \<Rightarrow> quote_key set" where
  "instruments tps = {kBinance, kBybit} \<times> {kSpot, kFutures} \<times> tps"

text \<open>A component of the program after any emissions.\<close>

lemma component_run:
  assumes "avltree_spec av" and "\<forall>ex tp side. chunks_distinct (mem ex tp side) \<and> (\<forall>i. mem ex tp side i \<noteq> None)"
    and "\<forall>i. ch1 i \<noteq> None" and "\<forall>i. ch2 i \<noteq> None" and "\<forall>o1 \<in> set outs. two_sided o1 \<and> emission_small o1"
  obtains c where "fold_result (receive av) (List.map batch_msg outs) (app_books av mem ch1 ch2 mt binance bybit) = Inr c"
    and "publishes av c" and "obc_market_type c = mt" and "known_books (fst ` set binance \<union> fst ` set bybit) c"
proof -
  let ?c = "app_books av mem ch1 ch2 mt binance bybit"
  have start: "publishes av ?c" "obc_market_type ?c = mt" using app_books_publishes [OF assms(1-4)] by simp_all
  from receive_all_publishes [OF assms(1) start(1) assms(5)] obtain c
    where "fold_result (receive av) (List.map batch_msg outs) ?c = Inr c" "publishes av c" "obc_market_type c = obc_market_type ?c"
      "\<forall>ex tp. find_book ex tp c = None \<longleftrightarrow> find_book ex tp ?c = None" by blast
  with start(2) app_books_known [of _ _ av mem ch1 ch2 mt binance bybit] show ?thesis by (intro that [of c]) (auto simp: known_books_def)
qed

lemma component_keys:
  assumes "publishes av c" and "obc_market_type c = mt" and "mt \<in> {kSpot, kFutures}" and "known_books tps c"
    and "m \<in> set (quotes (obc_sent c))"
  shows "small_bbo (nb_bbo m) \<and> quote_key m \<in> instruments tps" and "nb_market_type m = mt"
proof -
  have m: "nb_market_type m = mt" "small_bbo (nb_bbo m)" "find_book (nb_exchange_id m) (nb_trading_pair m) c \<noteq> None"
    using assms(1,2,5) by (simp_all add: publishes_def)
  then have "nb_exchange_id m \<in> {kBinance, kBybit} \<and> nb_trading_pair m \<in> tps" using assms(4) unfolding known_books_def by blast
  with m assms(3) show "small_bbo (nb_bbo m) \<and> quote_key m \<in> instruments tps" "nb_market_type m = mt"
    by (simp_all add: quote_key_def instruments_def)
qed

text \<open>The two components and the strategy.\<close>

lemma joint_view:
  assumes s: "publishes av s" "obc_market_type s = kSpot" "known_books tps s"
    and f: "publishes av f" "obc_market_type f = kFutures" "known_books tps f"
    and c: "strategy_ok c" "asc_exchange_bbo_map c = Map.empty" and inj: "inj_on (key_hash env) (instruments tps)"
    and q: "q \<in> shuffles (obc_sent s) (obc_sent f)"
  obtains a where "fold_result (ArbitrageStrategy_AsyncHandleEvent env) q c = Inr a"
    and "\<And>mt d ex tp b. (mt, d) \<in> {(kSpot, s), (kFutures, f)} \<Longrightarrow> find_book ex tp d = Some b \<Longrightarrow>
      bid_exact b \<and> ask_exact b \<and> (case asc_exchange_bbo_map a (key_hash env (ex, mt, tp)) of
        None \<Rightarrow> ob_bbo b = BBO_default | Some bbo \<Rightarrow> bbo = ob_bbo b)"
proof -
  note ks = component_keys [OF s(1,2) _ s(3)] and kf = component_keys [OF f(1,2) _ f(3)]
  have "\<forall>m \<in> set (quotes q). small_bbo (nb_bbo m) \<and> quote_key m \<in> instruments tps"
    using set_shuffles [OF quotes_shuffles [OF q]] ks(1) kf(1) by auto
  from strategy_view [OF c(1) this inj, of Map.empty] c(2) obtain a where a: "fold_result (ArbitrageStrategy_AsyncHandleEvent env) q c = Inr a"
    "\<And>k. k \<in> instruments tps \<Longrightarrow> asc_exchange_bbo_map a (key_hash env k) = latest (quotes q) k" unfolding latest_def by auto
  have "bid_exact b \<and> ask_exact b \<and> (case asc_exchange_bbo_map a (key_hash env (ex, mt, tp)) of
        None \<Rightarrow> ob_bbo b = BBO_default | Some bbo \<Rightarrow> bbo = ob_bbo b)"
    if d: "(mt, d) \<in> {(kSpot, s), (kFutures, f)}" "find_book ex tp d = Some b" for mt d ex tp b
  proof -
    have "bid_exact b \<and> ask_exact b \<and> published (latest (quotes q)) mt ex tp b"
      using d(1)
    proof
      assume "(mt, d) = (kSpot, s)"
      with component_view [OF s(1) _ q, of ex tp b] kf(2) s(2) d(2) show ?thesis by auto
    next
      assume "(mt, d) \<in> {(kFutures, f)}"
      with component_view [OF f(1) _ q [unfolded shuffles_commutes [of "obc_sent s"]], of ex tp b] ks(2) f(2) d(2) show ?thesis by auto
    qed
    moreover have "(ex, mt, tp) \<in> instruments tps"
      using d s(3) f(3) unfolding known_books_def instruments_def by (metis insertCI insertE mem_Sigma_iff option.distinct(1) prod.inject singletonD)
    ultimately show ?thesis using a(2) by (simp add: published_def)
  qed
  with a(1) show ?thesis by (rule that)
qed


text \<open>A snapshot with one level on each side.\<close>

definition demo_two_sided :: emission where
  "demo_two_sided = OutSnapshot \<lparr>bs_exchange_id = kBybit, bs_trading_pair = demo_pair, bs_bids = [\<lparr>bse_price = 9, bse_qty = 1\<rparr>],
     bs_asks = [\<lparr>bse_price = 10, bse_qty = 2\<rparr>], bs_lastUpdateId = 5\<rparr>"


section \<open>Handlers that overtake each other\<close>

text \<open>\<open>HandleNewBBO\<close> of two quotes of one instrument, of which the later is handled first, as two threads of the pool may do: the
  strategy is left with the earlier quote until that instrument changes again.\<close>

lemma overtaken_quote_stays:
  assumes "strategy_ok c" and "small_bbo (nb_bbo earlier)" and "small_bbo (nb_bbo later)" and "quote_key later = quote_key earlier"
  shows "\<exists>a. fold_result (ArbitrageStrategy_AsyncHandleEvent env) [Some (Some later), Some (Some earlier)] c = Inr a \<and>
     asc_exchange_bbo_map a (key_hash env (quote_key later)) = Some (nb_bbo earlier)"
  using strategy_view [OF assms(1), of "[Some (Some later), Some (Some earlier)]" "{quote_key later}" env
      "\<lambda>k. asc_exchange_bbo_map c (key_hash env k)"] assms(2-4) by auto

end
