(* ===== verification/Spec2Isabelle.thy ===== *)
theory Spec2Isabelle
  imports Wallet Arbitrage_Strategy Trading_Services Book_Sync Parser_Types Order_Execution Cross_Order_Book
    Sessions_Old Config Redpanda Bus_Components Drift_Detector Telemetry Event_Lifetime Backtesting Predictor_Embedding
    Position_Report Market_View
begin

text \<open>
  \<^bold>\<open>A verification of cryptobot.\<close>

  The program trades on several crypto exchanges at once.  Sessions (aot/Https.h, aot/WS.h) carry requests to and
  messages from an exchange; parsers (src/Binance.cpp, src/Bybit.cpp) turn messages into snapshots and diffs of the
  order book; a bid and ask generator (aot/Binance.h, aot/Bybit.h) joins one snapshot with the stream of diffs and passes
  the result over a bus (aot/bus/bus.h) to the order book component (aot/strategy/market_order_book.h), which publishes
  the best bid and offer.  Strategies (aot/strategy) evaluate it and send orders through the order manager, the trade
  engine and the order gateway to executors, which build, sign and submit the requests.  Wallets and position keepers do
  the accounting.

  \<^bold>\<open>Theories and what they model.\<close>

  \<^descr>[Prelude] machine integers, faults, rounding, decimal printing, shared lemmas and rule collections, and the
    locale of a window of the last values, which the spread monitor and the drift detector interpret.
  \<^descr>[Doubles] IEEE rounding to nearest, with an executable instance.
  \<^descr>[Common_Types] aot/common/types.h and src/types.cpp.
  \<^descr>[Mem_Pool] aot/common/mem_pool.h: \<open>MemPool\<close>, \<open>MemoryPoolNotThreadSafety\<close> and \<open>MemoryPoolThreadSafety\<close>, the last one
    both as sequential operations and as a machine of its atomic accesses by several threads.
  \<^descr>[Market_Data] aot/market_data/market_update.h, src/market_update.cpp, aot/event/general_event.h and
    aot/bus/bus_event.h: messages, their reference counts, the hand-over to a queue.
  \<^descr>[Bus] aot/bus/bus.h and src/bus.cpp.
  \<^descr>[Event_Lifetime] the counts and blocks of a bus event and of the message it wraps, from the publisher over \<open>Accept\<close> and the
    overloads of \<open>AsyncHandleEvent\<close> (aot/bus/bus_component.h) to the tasks of the components, which run in any order.
  \<^descr>[Order_Book, Order_Book_Props, Order_Book_Refine] \<open>MarketOrderBook2\<close> of aot/strategy/market_order_book.h and
    src/market_order_book.cpp with its levels in an explicit heap; its invariant, in a locale for both price orders; its
    refinement of two partial maps from price to quantity.
  \<^descr>[Order_Book_V1, Order_Book_V1_Props] the first book, \<open>MarketOrderBook\<close>, and \<open>OrderBookService\<close>; the same refinement, and what
    the hash map that both sides share breaks.
  \<^descr>[Cross_Order_Book] \<open>cross_arbitrage::OrderBook\<close>, which sends changes of the first book to the strategy of Cross_Arbitrage.
  \<^descr>[Order_Book_Component] \<open>OrderBookComponent\<close>: books per exchange, market and pair, and the level queries.
  \<^descr>[Bid_Ask_Generator] \<open>BidAskGeneratorComponent\<close> of Binance (with both packet loss policies) and Bybit: that what
    it emits has no gaps.
  \<^descr>[Book_Sync] the callback handlers, and the composition of an exchange, the generator, the handlers and the order book.
  \<^descr>[Parsers, Parsers_Props, Parser_Types] the parsers of both exchanges and the handlers of responses.
  \<^descr>[Exchange_Api, Exchange_Api_Props] endpoints, signatures, symbols, intervals, arguments, bodies and request factories.
  \<^descr>[Sessions, Sessions_Props] aot/cb_manager.h, \<open>HttpsSession3\<close> and the connection pool of aot/Https.h, \<open>WssSession3\<close> of
    aot/WS.h, and \<open>BookEventGetter3\<close> of aot/Exchange.h.
  \<^descr>[Sessions_Old] the earlier sessions \<open>HttpsSession\<close>, \<open>HttpsSession2\<close>, \<open>WssSession\<close>, \<open>WssSession2\<close> and \<open>WSSession\<close>.
  \<^descr>[Config] aot/config/config.h and src/config.cpp: numbers of tickers and tables of trading pairs from a TOML file.
  \<^descr>[Order_Execution] \<open>CoExec\<close> of the executors: endpoint, request, session.
  \<^descr>[Order_Manager] aot/client_request.h, aot/client_response.h, aot/strategy/om_order.h, aot/strategy/order_manager.h and
    src/order_manager.cpp.
  \<^descr>[Wallet] aot/wallet_asset.h and src/wallet_asset.cpp.
  \<^descr>[Position_Keeper, Position_Report] aot/strategy/position_keeper.h, its accounts and its printed reports.
  \<^descr>[Bus_Components] the bus components of the order manager, the position keeper and the wallets, and the events they share.
  \<^descr>[Redpanda] aot/redpanda_client/redpanda_client.h and aot/proto/classes: the publication of quotes, reports and trades.
  \<^descr>[Arbitrage, Arbitrage_Strategy] aot/strategy/arbitrage, aot/pnl/pnl_calculator.h, aot/common/exchange_trading_pair.h.
  \<^descr>[Cross_Arbitrage] aot/strategy/base_strategy.h, src/base_strategy.cpp and aot/strategy/cross_arbitrage.
  \<^descr>[Predictor_Embedding] aot/launcher_predictor.h, aot/impl/PredictorImpl.h and src/Predictor.cpp: the predictors and the Python
    references they own.
  \<^descr>[Trading_Services, Backtesting] the trade engine, the order gateway, and the kline services of the backtests; the reading of
    the history file, its replay, and the stopping of the engine.
  \<^descr>[Trading_App] example/check_many_trading_pairs_config/main.cpp, the program that connects the components, and
    aot/strategy/cross_arbitrage/cross_arbitrage_strategy.h, which it creates but does not connect.
  \<^descr>[Market_View] the books of both markets and the arbitrage strategy together, from the emissions of the generators to the quotes
    that the strategy holds.
  \<^descr>[Drift_Detector] sandbox_algo/drift_detector: sharp moves in a sliding window, histograms, mutual information.
  \<^descr>[Telemetry] aot/prometheus and \<open>TimeManager\<close> of aot/common/time_utils.h.

  \<^bold>\<open>How the code is read.\<close>

  \<^item> A class is a record whose fields carry a prefix for the class; a method is a function that takes the record and
    gives the new one, with \<open>Inl\<close> for a fault (failed \<open>ASSERT\<close>, null or dangling access, signed overflow, a cast
    out of range, an exception that nobody catches).
  \<^item> Unsigned integers are words of their width.  A \<open>double\<close> is a rational, rounded after each operation by \<open>rnd\<close>.
  \<^item> Objects in pools have addresses; where the code shares or frees objects the heap is explicit.
  \<^item> A coroutine that runs on a strand is one step between two suspension points.  Where several steps can interleave there
    is a step relation (\<open>https_step\<close> in Sessions, \<open>pool_exec\<close> in Mem_Pool) or an arbitrary list of events.
  \<^item> A log line has no effect and is left out.
  \<^item> Third-party code is an argument: the boost AVL tree, simdjson, HMAC, the text of a JSON value, hash functions, toml++, Protocol
    Buffers, RE2, CPython, the clock, the answers of a lock-free queue, the outcome of network operations.  What is relied on is a named predicate
    (\<open>avl_ok\<close>, \<open>ieee_rounding\<close>, ...) and a witness instantiates it.

  \<^bold>\<open>What is shown.\<close>

  \<^item> From the exchange to the book: the local book equals the exchange's book whenever the generator is in step, for both
    exchanges (Book_Sync), over the refinement of the order book (Order_Book_Refine) and the absence of gaps
    (Bid_Ask_Generator).  The parsers keep prices and quantities within a tick, and where they lose one is shown.
  \<^item> Memory: the sequential pools never hand out a block twice, and the lock-free list fails under an ABA schedule.  Tasks of
    components read live events only, each message reaches its subscribers exactly once, and the pools take no more memory than
    the backlog needs; except for snapshot requests, whose handler keeps a plain pointer.
  \<^item> Requests: printed prices and quantities denote the order, signatures cover what is sent.
  \<^item> Sessions: an end is reported once, a request is answered, writes keep their order; and the schedules in which a
    response goes to the wrong callback or a session is used after its destruction.
  \<^item> Configuration: the tables hold exactly the pairs of the file, and a second file breaks the numbering.
  \<^item> Orders and money: one active order per side, no negative balance, profit and loss add up, the arbitrage reports
    exactly the trades that are closed; what happens to a response that several components share.
  \<^item> The program as connected (Trading_App): every component reads exactly what the data flow sends to it, each pair has its books,
    its subscription and its callback, and a quote evaluates exactly the cycles of its pair.
  \<^item> The market as the strategy sees it (Market_View): it never fails on prices below \<open>2 ^ 61\<close> and holds the exact best bid and offer
    of every book, for every interleaving of the quotes of both markets; what a handler that overtakes another leaves behind.
  \<^item> Publication: the topics receive exactly the messages of the events, in order.
  \<^item> Backtests: the history file is replayed line by line; the predictor owns no reference after its life, the earlier one gives
    back what it does not own.

  \<^bold>\<open>Bounds and fuel.\<close>  The waiting loops of \<open>AddToQueue\<close>, of \<open>AcquireConnection\<close> and of \<open>TradeEngine::Stop\<close> are
  \<open>partial_function (option)\<close>, and it is proved when they return.  A loop that runs until it is stopped is a number of rounds
  of its body; that enough rounds reach the result is part of the theorem.  All other recursions are structural or have a measure.  The argument tables have 13
  buckets, as libstdc++ allocates for at most 13 entries; no request has more than ten.

  \<^bold>\<open>Not modelled.\<close>  Third-party code, the root certificates, sockets and TLS; starting and stopping of threads and signal
  handling; logging and the fmt formatters; the Python code of the predictor; the HTTP endpoint of
  Prometheus; the Mexc adapter, all of which is commented out; interfaces without behaviour; tests and the other examples.
\<close>

end
